(* ===== verification/Prelude.thy ===== *)
theory Prelude
  imports Main "HOL-Library.Word" "HOL-Library.Sublist"
begin

text \<open>
  Shared vocabulary of the development: the machine integers of the x86-64 Linux target
  (\<open>unsigned char\<close>, \<open>u_int\<close>, \<open>uint64_t\<close>), C strings (a list without the terminating
  NUL) with the library functions the sources call on them (\<open>strcmp\<close>, \<open>strncmp\<close>,
  \<open>strncpy\<close>, \<open>isspace\<close>, \<open>isdigit\<close>, \<open>strtol\<close>, \<open>strtoul\<close>, \<open>atoi\<close>), the outcome type
  of C code that can run into undefined behaviour, and the list lemmas the components share.
\<close>

unbundle bit_operations_syntax

section \<open>Machine integers and collections of simplification rules\<close>

type_synonym u8 = "8 word"
type_synonym u16 = "16 word"
type_synonym u32 = "32 word"
type_synonym u64 = "64 word"

named_theorems cstring_simps \<open>facts on the modelled string functions of the C library\<close>
named_theorems inv_intros \<open>an operation keeps the invariant of its component\<close>

section \<open>Outcomes of C code\<close>

text \<open>
  A function body either falls through to the next statement (\<open>Cont\<close>), leaves early by
  \<open>return\<close> (\<open>Ret\<close>), or does something the C standard leaves undefined: a read or write
  outside an object, a NULL or freed pointer, a lock taken twice by its owner, or a loop that
  never ends (\<open>Fault\<close>). \<open>Fault ProcExit\<close> is the call of \<open>exit\<close>.
\<close>

datatype fault = Overread | Overrun | NullDeref | UseAfterFree | Deadlock | NoReturn | ProcExit

datatype 's outcome = Cont 's | Ret 's | Fault fault

fun bind_out :: "'s outcome \<Rightarrow> ('s \<Rightarrow> 't outcome) \<Rightarrow> ('s \<Rightarrow> 't) \<Rightarrow> 't outcome" where
  "bind_out (Cont s) f g = f s"
| "bind_out (Ret s) f g = Ret (g s)"
| "bind_out (Fault e) f g = Fault e"

section \<open>Byte strings\<close>

text \<open>The bytes of a \<open>char\<close> array up to its first NUL, and \<open>strncpy\<close> into an array of \<open>n\<close>
  bytes: truncation or padding with NULs.\<close>

definition cstr :: "u8 list \<Rightarrow> u8 list" where
  "cstr bs = takeWhile (\<lambda>b. b \<noteq> 0) bs"

definition c_strncpy :: "nat \<Rightarrow> u8 list \<Rightarrow> u8 list" where
  "c_strncpy n s = take n (s @ replicate n 0)"

definition bytes_of :: "string \<Rightarrow> u8 list" where
  "bytes_of s = map of_char s"

lemma length_c_strncpy [simp]: "length (c_strncpy n s) = n"
  by (simp add: c_strncpy_def)

lemma cstr_no_nul: "0 \<notin> set s \<Longrightarrow> cstr s = s"
  unfolding cstr_def by (rule takeWhile_eq_all_conv [THEN iffD2]) auto

lemma cstr_append_nul: "0 \<notin> set s \<Longrightarrow> cstr (s @ 0 # r) = s"
  unfolding cstr_def by (subst takeWhile_append2) auto

lemma cstr_strncpy: "0 \<notin> set s \<Longrightarrow> length s < n \<Longrightarrow> cstr (c_strncpy n s) = s"
  by (cases "n - length s")
    (auto simp: c_strncpy_def min_def cstr_append_nul)

lemma bytes_of_append [simp]: "bytes_of (a @ b) = bytes_of a @ bytes_of b"
  by (simp add: bytes_of_def)

lemma length_bytes_of [simp]: "length (bytes_of s) = length s"
  by (simp add: bytes_of_def)

section \<open>Character classes of the C locale\<close>

definition c_isspace :: "char \<Rightarrow> bool" where
  "c_isspace c \<longleftrightarrow> of_char c = (32::nat) \<or> 9 \<le> (of_char c::nat) \<and> (of_char c::nat) \<le> 13"

definition c_isdigit :: "char \<Rightarrow> bool" where
  "c_isdigit c \<longleftrightarrow> 48 \<le> (of_char c::nat) \<and> (of_char c::nat) \<le> 57"

definition c_isupper :: "char \<Rightarrow> bool" where
  "c_isupper c \<longleftrightarrow> 65 \<le> (of_char c::nat) \<and> (of_char c::nat) \<le> 90"

definition c_islower :: "char \<Rightarrow> bool" where
  "c_islower c \<longleftrightarrow> 97 \<le> (of_char c::nat) \<and> (of_char c::nat) \<le> 122"

definition c_isalpha :: "char \<Rightarrow> bool" where
  "c_isalpha c \<longleftrightarrow> c_isupper c \<or> c_islower c"

definition c_isalnum :: "char \<Rightarrow> bool" where
  "c_isalnum c \<longleftrightarrow> c_isalpha c \<or> c_isdigit c"

lemmas ctype_defs =
  c_isspace_def c_isdigit_def c_isupper_def c_islower_def c_isalpha_def c_isalnum_def

text \<open>White space for evaluation: a comparison of characters.\<close>

lemma of_char_char_of: "n < 256 \<Longrightarrow> ((of_char c :: nat) = n) = (c = char_of n)"
  by (metis char_of_char of_char_of mod_less)

lemma c_isspace_code [code]:
  "c_isspace c \<longleftrightarrow> c = CHR '' '' \<or> c = CHR 0x09 \<or> c = CHR 0x0A \<or> c = CHR 0x0B \<or> c = CHR 0x0C \<or> c = CHR 0x0D"
proof -
  have "(9 \<le> n \<and> n \<le> 13) = (n = 9 \<or> n = 10 \<or> n = 11 \<or> n = 12 \<or> n = 13)" for n :: nat by arith
  moreover have "char_of (32::nat) = CHR '' ''" "char_of (9::nat) = CHR 0x09" "char_of (10::nat) = CHR 0x0A"
     "char_of (11::nat) = CHR 0x0B" "char_of (12::nat) = CHR 0x0C" "char_of (13::nat) = CHR 0x0D"
    by (simp_all add: char_of_def bit_0)
  ultimately show ?thesis by (simp add: c_isspace_def of_char_char_of)
qed
lemma isdigit_not_isspace: "c_isdigit c \<Longrightarrow> \<not> c_isspace c"
  by (simp add: c_isdigit_def c_isspace_def)

section \<open>String comparison\<close>

text \<open>\<open>strcmp\<close> is specified by its sign only; the model returns -1, 0 or 1.\<close>

fun strcmp :: "string \<Rightarrow> string \<Rightarrow> int" where
  "strcmp [] [] = 0"
| "strcmp [] (y # ys) = -1"
| "strcmp (x # xs) [] = 1"
| "strcmp (x # xs) (y # ys) =
     (if (of_char x :: nat) < of_char y then -1
      else if (of_char y :: nat) < of_char x then 1 else strcmp xs ys)"

definition strncmp :: "string \<Rightarrow> string \<Rightarrow> nat \<Rightarrow> int" where
  "strncmp a b n = strcmp (take n a) (take n b)"

lemma of_char_nat_eq [simp]: "((of_char x :: nat) = of_char y) = (x = y)"
  by simp

lemma strcmp_eq_0 [cstring_simps]: "(strcmp a b = 0) = (a = b)"
proof (induction a b rule: strcmp.induct)
  case (4 x xs y ys)
  then show ?case
    by (metis less_irrefl list.inject nat_neq_iff of_char_nat_eq strcmp.simps(4)
        zero_neq_neg_one zero_neq_one)
qed auto

lemma strcmp_refl [simp]: "strcmp a a = 0"
  by (simp add: strcmp_eq_0)

lemma strcmp_range: "strcmp a b = -1 \<or> strcmp a b = 0 \<or> strcmp a b = 1"
  by (induction a b rule: strcmp.induct) auto

lemma strcmp_swap: "strcmp b a = - strcmp a b"
  by (induction a b rule: strcmp.induct) auto

lemma strcmp_Cons_le:
  "(strcmp (x # xs) (y # ys) \<le> 0) =
     ((of_char x :: nat) < of_char y \<or> x = y \<and> strcmp xs ys \<le> 0)"
  by (metis less_irrefl nat_neq_iff of_char_nat_eq strcmp.simps(4) zero_le_one
      neg_le_0_iff_le not_one_le_zero)

lemma strcmp_trans: "strcmp a b \<le> 0 \<Longrightarrow> strcmp b c \<le> 0 \<Longrightarrow> strcmp a c \<le> 0"
proof (induction a b arbitrary: c rule: strcmp.induct)
  case (1 c)
  then show ?case by simp
next
  case (2 y ys c)
  then show ?case by (cases c) auto
next
  case (3 x xs c)
  then show ?case by simp
next
  case (4 x xs y ys)
  show ?case
  proof (cases c)
    case Nil
    with "4.prems" show ?thesis by simp
  next
    case (Cons z zs)
    with "4" show ?thesis
      by (auto simp: strcmp_Cons_le simp del: strcmp.simps(4))
  qed
qed

lemma strcmp_trans_less: "strcmp a b < 0 \<Longrightarrow> strcmp b c \<le> 0 \<Longrightarrow> strcmp a c < 0"
proof -
  assume ab: "strcmp a b < 0" and bc: "strcmp b c \<le> 0"
  have "strcmp a c \<le> 0" by (rule strcmp_trans [OF _ bc]) (use ab in simp)
  moreover have "strcmp a c \<noteq> 0"
    using ab bc strcmp_swap [of a b] by (auto simp: strcmp_eq_0)
  ultimately show ?thesis by simp
qed

lemma strncmp_prefix [cstring_simps]: "(strncmp a b (length a) = 0) = prefix a b"
  by (simp add: strncmp_def strcmp_eq_0 prefix_def)
    (metis append_take_drop_id append_eq_conv_conj)

section \<open>Decimal numbers\<close>

definition digit_val :: "char \<Rightarrow> nat" where
  "digit_val c = of_char c - 48"

definition dec_val :: "string \<Rightarrow> nat" where
  "dec_val ds = foldl (\<lambda>v d. 10 * v + digit_val d) 0 ds"

lemma dec_val_snoc: "dec_val (ds @ [d]) = 10 * dec_val ds + digit_val d"
  by (simp add: dec_val_def)

lemma dec_val_Nil [simp]: "dec_val [] = 0"
  by (simp add: dec_val_def)

text \<open>
  \<open>strtol\<close> and \<open>strtoul\<close> in base 10 on the 64-bit target: leading white space, an optional
  sign, then the longest run of digits; the value saturates. The second component is the
  rest of the string (\<open>endptr\<close>); with no digits nothing is consumed.
\<close>

definition sign_split :: "string \<Rightarrow> bool \<times> string" where
  "sign_split s = (case s of
       c # cs \<Rightarrow> (if c = CHR ''-'' then (True, cs)
                  else if c = CHR ''+'' then (False, cs) else (False, s))
     | [] \<Rightarrow> (False, s))"

definition strtol :: "string \<Rightarrow> int \<times> string" where
  "strtol s =
     (let (neg, t) = sign_split (dropWhile c_isspace s);
          ds = takeWhile c_isdigit t;
          v = (if neg then - int (dec_val ds) else int (dec_val ds))
      in if ds = [] then (0, s)
         else (max (- (2 ^ 63)) (min (2 ^ 63 - 1) v), dropWhile c_isdigit t))"

definition strtoul :: "string \<Rightarrow> nat \<times> string" where
  "strtoul s =
     (let (neg, t) = sign_split (dropWhile c_isspace s);
          ds = takeWhile c_isdigit t;
          v = dec_val ds
      in if ds = [] then (0, s)
         else ((if 2 ^ 64 \<le> v then 2 ^ 64 - 1
                else if neg then (2 ^ 64 - v) mod 2 ^ 64 else v),
               dropWhile c_isdigit t))"

text \<open>\<open>atoi\<close> is \<open>(int) strtol\<close>: the 64-bit result is truncated to 32 bits.\<close>

definition atoi :: "string \<Rightarrow> int" where
  "atoi s = sint (word_of_int (fst (strtol s)) :: 32 word)"

lemma takeWhile_digits: "list_all c_isdigit ds \<Longrightarrow> takeWhile c_isdigit ds = ds"
  by (simp add: list_all_iff takeWhile_eq_all_conv)

lemma dropWhile_digits: "list_all c_isdigit ds \<Longrightarrow> dropWhile c_isdigit ds = []"
  by (simp add: list_all_iff dropWhile_eq_Nil_conv)

lemma sign_split_digit: "c_isdigit c \<Longrightarrow> sign_split (c # cs) = (False, c # cs)"
  by (auto simp: sign_split_def c_isdigit_def)

lemma sign_split_digits:
  assumes "list_all c_isdigit ds"
  shows "sign_split (dropWhile c_isspace ds) = (False, ds)"
  using assms
  by (cases ds) (auto simp: sign_split_digit isdigit_not_isspace sign_split_def [of "[]"])

lemma strtol_digits [cstring_simps]:
  "list_all c_isdigit ds \<Longrightarrow> strtol ds = (min (2 ^ 63 - 1) (int (dec_val ds)), [])"
  by (cases "ds = []")
    (simp add: strtol_def sign_split_def,
     simp add: strtol_def sign_split_digits takeWhile_digits dropWhile_digits)

lemma strtoul_digits [cstring_simps]:
  "list_all c_isdigit ds \<Longrightarrow>
     strtoul ds = (if 2 ^ 64 \<le> dec_val ds then 2 ^ 64 - 1 else dec_val ds, [])"
  by (cases "ds = []")
    (simp add: strtoul_def sign_split_def,
     simp add: strtoul_def sign_split_digits takeWhile_digits dropWhile_digits)

lemma digit_val_less: "c_isdigit c \<Longrightarrow> digit_val c < 10"
  by (auto simp: c_isdigit_def digit_val_def)

lemma dec_val_bound: "list_all c_isdigit ds \<Longrightarrow> dec_val ds < 10 ^ length ds"
proof (induction ds rule: rev_induct)
  case (snoc d ds)
  then have "dec_val ds < 10 ^ length ds" "digit_val d < 10"
    by (auto intro: digit_val_less)
  then show ?case by (simp add: dec_val_snoc)
qed simp

lemma sint_small32: "0 \<le> n \<Longrightarrow> n < 2 ^ 31 \<Longrightarrow> sint (word_of_int n :: 32 word) = n"
  by (simp add: sint_uint uint_word_of_int signed_take_bit_int_eq_self)

lemma atoi_digits [cstring_simps]:
  assumes "list_all c_isdigit ds" "length ds \<le> 9"
  shows "atoi ds = int (dec_val ds)"
proof -
  have "dec_val ds < 10 ^ length ds" using assms(1) by (rule dec_val_bound)
  also have "(10::nat) ^ length ds \<le> 10 ^ 9" using assms(2) by (intro power_increasing) auto
  finally have *: "dec_val ds < 10 ^ 9" .
  then have "min (2 ^ 63 - 1) (int (dec_val ds)) = int (dec_val ds)" by simp
  with * show ?thesis
    by (simp add: atoi_def strtol_digits [OF assms(1)] sint_small32 del: of_int_of_nat_eq)
qed

text \<open>What \<open>%d\<close> and \<open>%u\<close> print.\<close>

definition digit_char :: "nat \<Rightarrow> char" where
  "digit_char d = char_of (48 + d)"

fun show_nat :: "nat \<Rightarrow> string" where
  "show_nat n = (if n < 10 then [digit_char n] else show_nat (n div 10) @ [digit_char (n mod 10)])"

declare show_nat.simps [simp del]

definition show_int :: "int \<Rightarrow> string" where
  "show_int i = (if i < 0 then CHR ''-'' # show_nat (nat (- i)) else show_nat (nat i))"

lemma digit_char [simp]: "d < 10 \<Longrightarrow> c_isdigit (digit_char d)" "d < 10 \<Longrightarrow> digit_val (digit_char d) = d"
  by (simp_all add: digit_char_def c_isdigit_def digit_val_def)

lemma show_nat_digits [cstring_simps]: "list_all c_isdigit (show_nat n)"
  by (induction n rule: show_nat.induct) (subst show_nat.simps, simp)

lemma dec_val_show_nat [cstring_simps]: "dec_val (show_nat n) = n"
proof (induction n rule: show_nat.induct)
  case (1 n)
  then show ?case
    by (subst show_nat.simps) (simp add: dec_val_snoc, simp add: dec_val_def)
qed

section \<open>Lists\<close>

lemma take_append_exact [simp]: "length a = n \<Longrightarrow> take n (a @ b) = a"
  by simp

lemma drop_append_exact [simp]: "length a = n \<Longrightarrow> drop n (a @ b) = b"
  by simp

lemma list_update_snoc: "i < length xs \<Longrightarrow> (xs @ ys)[i := v] = xs[i := v] @ ys"
  by (simp add: list_update_append)

end
