(* ===== verification/Wire.thy ===== *)
theory Wire
  imports Prelude
begin

text \<open>
  The message format of \<open>pubinc/netmt.h\<close>: \<open>netmt_command_t\<close> as the x86-64 ABI lays it
  out (5168 bytes, little-endian, no padding), with the union at offset 1072 kept as raw
  bytes and read through the views the handlers use (\<open>file\<close>, \<open>netmtclient\<close>,
  \<open>total_result\<close>). The codec round trips say that writing the struct to a socket and
  casting the received bytes back give the same message.
\<close>

section \<open>Constants of netmt.h\<close>

abbreviation FILE_LEN :: nat where "FILE_LEN \<equiv> 256"
abbreviation LEN :: nat where "LEN \<equiv> 64"
abbreviation BUFFER_SIZE :: nat where "BUFFER_SIZE \<equiv> 1024"
abbreviation POPEN_SIZE :: nat where "POPEN_SIZE \<equiv> 4096"
abbreviation DATABUF :: nat where "DATABUF \<equiv> 20480"
abbreviation SOCKADDR_STRLEN :: nat where "SOCKADDR_STRLEN \<equiv> 64"

datatype netmt_command_e =
  NETMT_HELP | NETMT_CLIENT | NETMT_SEND | NETMT_GET | NETMT_REGISTER | NETMT_PING
| NETMT_COMMAND | NETMT_HEARTBEAT | NETMT_EXEC

datatype netmt_subcommand_e =
  NETMT_SEND_END | NETMT_SEND_SUCCESS | NETMT_GET_END | NETMT_GET_SUCCESS | NETMT_FILE_OPEN
| NETMT_DATA | NETMT_SUCCESS | NETMT_EXEC_SHELL | NETMT_EXEC_SHELL_RESULT
| NETMT_EXEC_SHELL_ENDFLAG | NETMT_EXEC_SHELL_SUCCESS

text \<open>The enumerators travel as \<open>u_int\<close>, numbered from 1 in declaration order.\<close>

primrec cmd_code :: "netmt_command_e \<Rightarrow> u32" where
  "cmd_code NETMT_HELP = 1"
| "cmd_code NETMT_CLIENT = 2"
| "cmd_code NETMT_SEND = 3"
| "cmd_code NETMT_GET = 4"
| "cmd_code NETMT_REGISTER = 5"
| "cmd_code NETMT_PING = 6"
| "cmd_code NETMT_COMMAND = 7"
| "cmd_code NETMT_HEARTBEAT = 8"
| "cmd_code NETMT_EXEC = 9"

primrec sub_code :: "netmt_subcommand_e \<Rightarrow> u32" where
  "sub_code NETMT_SEND_END = 1"
| "sub_code NETMT_SEND_SUCCESS = 2"
| "sub_code NETMT_GET_END = 3"
| "sub_code NETMT_GET_SUCCESS = 4"
| "sub_code NETMT_FILE_OPEN = 5"
| "sub_code NETMT_DATA = 6"
| "sub_code NETMT_SUCCESS = 7"
| "sub_code NETMT_EXEC_SHELL = 8"
| "sub_code NETMT_EXEC_SHELL_RESULT = 9"
| "sub_code NETMT_EXEC_SHELL_ENDFLAG = 10"
| "sub_code NETMT_EXEC_SHELL_SUCCESS = 11"

lemma cmd_code_inject [simp]: "(cmd_code a = cmd_code b) = (a = b)"
  by (cases a; cases b) simp_all

lemma sub_code_inject [simp]: "(sub_code a = sub_code b) = (a = b)"
  by (cases a; cases b) simp_all

section \<open>The message\<close>

record netmt_command =
  m_len :: u32
  m_version :: u32
  m_commonid :: u32
  m_subcommonid :: u32
  m_c_num :: u32
  m_fd :: u32
  m_id :: u32
  m_flag :: u32
  m_ping_time :: u64
  m_pong_time :: u64
  m_cmdstr :: "u8 list"
  m_union :: "u8 list"

definition sizeof_netmt_command :: nat where
  "sizeof_netmt_command = 5168"

text \<open>All-zero bytes, as \<open>bzero\<close> and \<open>memset\<close> leave the struct.\<close>

definition zero_command :: netmt_command where
  "zero_command = \<lparr>m_len = 0, m_version = 0, m_commonid = 0, m_subcommonid = 0, m_c_num = 0,
     m_fd = 0, m_id = 0, m_flag = 0, m_ping_time = 0, m_pong_time = 0,
     m_cmdstr = replicate BUFFER_SIZE 0, m_union = replicate POPEN_SIZE 0\<rparr>"

definition wf_command :: "netmt_command \<Rightarrow> bool" where
  "wf_command c \<longleftrightarrow> length (m_cmdstr c) = BUFFER_SIZE \<and> length (m_union c) = POPEN_SIZE"

lemma wf_zero_command [simp, inv_intros]: "wf_command zero_command"
  by (simp add: wf_command_def zero_command_def)

section \<open>Little-endian fields\<close>

primrec le_enc :: "nat \<Rightarrow> 'a::len word \<Rightarrow> u8 list" where
  "le_enc 0 w = []"
| "le_enc (Suc n) w = ucast w # le_enc n (drop_bit 8 w)"

primrec le_dec :: "u8 list \<Rightarrow> 'a::len word" where
  "le_dec [] = 0"
| "le_dec (b # bs) = ucast b OR push_bit 8 (le_dec bs)"

lemma length_le_enc [simp]: "length (le_enc n w) = n"
  by (induction n arbitrary: w) simp_all

lemma le_dec_enc: "le_dec (le_enc n w) = take_bit (8 * n) (w :: 'a::len word)"
proof (induction n arbitrary: w)
  case (Suc n)
  show ?case
    by (rule bit_eqI) (auto simp: Suc.IH bit_simps)
qed simp

lemma le_dec_bits: "bit (le_dec bs :: 'a::len word) n \<longleftrightarrow>
    n < LENGTH('a) \<and> n div 8 < length bs \<and> bit (bs ! (n div 8)) (n mod 8)"
proof (induction bs arbitrary: n)
  case (Cons b bs)
  show ?case
  proof (cases "n < 8")
    case True
    then show ?thesis by (auto simp: bit_simps)
  next
    case False
    then have "n div 8 = Suc ((n - 8) div 8)" "n mod 8 = (n - 8) mod 8"
      by (simp_all add: le_div_geq le_mod_geq)
    then show ?thesis using False by (auto simp: bit_simps Cons.IH dest: bit_imp_le_length)
  qed
qed simp

lemma le_enc_nth: "i < n \<Longrightarrow> le_enc n w ! i = ucast (drop_bit (8 * i) (w :: 'a::len word))"
  by (induction n arbitrary: w i) (auto simp: nth_Cons less_Suc_eq_0_disj add.commute split: nat.splits)

lemma le_enc_dec:
  assumes "8 * n \<le> LENGTH('a)" "n \<le> length bs"
  shows "le_enc n (le_dec (take n bs) :: 'a::len word) = take n bs"
proof (rule nth_equalityI)
  fix i assume "i < length (le_enc n (le_dec (take n bs) :: 'a word))"
  then have i: "i < n" by simp
  show "le_enc n (le_dec (take n bs) :: 'a word) ! i = take n bs ! i"
  proof (rule bit_word_eqI)
    fix j assume "j < LENGTH(8)"
    then have j: "(8 * i + j) div 8 = i" "(8 * i + j) mod 8 = j" "8 * i + j < LENGTH('a)" "j < 8"
      using i assms(1) by auto
    then show "bit (le_enc n (le_dec (take n bs) :: 'a word) ! i) j \<longleftrightarrow> bit (take n bs ! i) j"
      using i assms(2) by (simp add: le_enc_nth bit_simps le_dec_bits)
  qed
qed (use assms in simp)

definition enc32 :: "u32 \<Rightarrow> u8 list" where
  "enc32 w = le_enc 4 w"

definition dec32 :: "u8 list \<Rightarrow> u32" where
  "dec32 bs = le_dec (take 4 bs)"

definition enc64 :: "u64 \<Rightarrow> u8 list" where
  "enc64 w = le_enc 8 w"

definition dec64 :: "u8 list \<Rightarrow> u64" where
  "dec64 bs = le_dec (take 8 bs)"

lemma length_enc32 [simp]: "length (enc32 w) = 4"
  by (simp add: enc32_def)

lemma length_enc64 [simp]: "length (enc64 w) = 8"
  by (simp add: enc64_def)

lemma dec32_enc32 [simp]: "dec32 (enc32 w @ r) = w"
  using take_bit_word_eq_self [of 32 w] by (simp add: dec32_def enc32_def le_dec_enc)

lemma dec64_enc64 [simp]: "dec64 (enc64 w @ r) = w"
  using take_bit_word_eq_self [of 64 w] by (simp add: dec64_def enc64_def le_dec_enc)

lemma dec32_enc32_exact [simp]: "dec32 (enc32 w) = w"
  using dec32_enc32 [of w "[]"] by simp

lemma dec32_take: "4 \<le> n \<Longrightarrow> dec32 (take n bs) = dec32 bs"
  by (simp add: dec32_def min_def)

section \<open>The struct as bytes\<close>

definition encode :: "netmt_command \<Rightarrow> u8 list" where
  "encode c = enc32 (m_len c) @ enc32 (m_version c) @ enc32 (m_commonid c)
     @ enc32 (m_subcommonid c) @ enc32 (m_c_num c) @ enc32 (m_fd c) @ enc32 (m_id c)
     @ enc32 (m_flag c) @ enc64 (m_ping_time c) @ enc64 (m_pong_time c)
     @ m_cmdstr c @ m_union c"

definition decode :: "u8 list \<Rightarrow> netmt_command" where
  "decode bs = \<lparr>m_len = dec32 bs, m_version = dec32 (drop 4 bs), m_commonid = dec32 (drop 8 bs),
     m_subcommonid = dec32 (drop 12 bs), m_c_num = dec32 (drop 16 bs), m_fd = dec32 (drop 20 bs),
     m_id = dec32 (drop 24 bs), m_flag = dec32 (drop 28 bs),
     m_ping_time = dec64 (drop 32 bs), m_pong_time = dec64 (drop 40 bs),
     m_cmdstr = take BUFFER_SIZE (drop 48 bs),
     m_union = take POPEN_SIZE (drop 1072 bs)\<rparr>"

lemma drop_enc32 [simp]: "4 \<le> n \<Longrightarrow> drop n (enc32 w @ r) = drop (n - 4) r"
  by simp

lemma drop_enc64 [simp]: "8 \<le> n \<Longrightarrow> drop n (enc64 w @ r) = drop (n - 8) r"
  by simp

lemma length_encode: "wf_command c \<Longrightarrow> length (encode c) = sizeof_netmt_command"
  by (simp add: encode_def wf_command_def sizeof_netmt_command_def)

lemma dec32_encode: "dec32 (encode c @ r) = m_len c"
  by (simp add: encode_def)

lemma decode_encode_append:
  assumes "wf_command c"
  shows "decode (encode c @ r) = c"
proof -
  have 1: "length (m_cmdstr c) = 1024" and 2: "length (m_union c) = 4096"
    using assms by (simp_all add: wf_command_def)
  show ?thesis
    by (rule netmt_command.equality) (simp_all add: decode_def encode_def 1 2)
qed

lemma enc32_dec32: "4 \<le> length bs \<Longrightarrow> enc32 (dec32 bs) = take 4 bs"
  by (simp add: enc32_def dec32_def le_enc_dec)

lemma enc64_dec64: "8 \<le> length bs \<Longrightarrow> enc64 (dec64 bs) = take 8 bs"
  by (simp add: enc64_def dec64_def le_enc_dec)

lemma split_at: "take n (drop a bs) @ drop (n + a) bs = drop a bs"
  by (metis append_take_drop_id drop_drop)

lemma encode_decode:
  assumes "length bs = sizeof_netmt_command"
  shows "encode (decode bs) = bs"
proof -
  have l: "length bs = 5168" using assms by (simp add: sizeof_netmt_command_def)
  have "take 4096 (drop 1072 bs) = drop 1072 bs" by (simp add: l)
  then have "encode (decode bs) = take 4 (drop 0 bs) @ take 4 (drop 4 bs) @ take 4 (drop 8 bs)
      @ take 4 (drop 12 bs) @ take 4 (drop 16 bs) @ take 4 (drop 20 bs) @ take 4 (drop 24 bs)
      @ take 4 (drop 28 bs) @ take 8 (drop 32 bs) @ take 8 (drop 40 bs) @ take 1024 (drop 48 bs)
      @ drop 1072 bs"
    by (simp add: encode_def decode_def enc32_dec32 enc64_dec64 l)
  also have "\<dots> = bs"
    using split_at [of 4 0 bs] split_at [of 4 4 bs] split_at [of 4 8 bs] split_at [of 4 12 bs]
      split_at [of 4 16 bs] split_at [of 4 20 bs] split_at [of 4 24 bs] split_at [of 4 28 bs]
      split_at [of 8 32 bs] split_at [of 8 40 bs] split_at [of 1024 48 bs]
    by simp
  finally show ?thesis .
qed

lemma wf_decode: "sizeof_netmt_command \<le> length bs \<Longrightarrow> wf_command (decode bs)"
  by (simp add: wf_command_def decode_def sizeof_netmt_command_def)



section \<open>Views of the union\<close>

text \<open>\<open>netmt_file_t\<close>: two paths of 256 bytes, a block of 1024 bytes and two sizes.\<close>

definition localfile :: "netmt_command \<Rightarrow> u8 list" where
  "localfile c = cstr (take FILE_LEN (m_union c))"

definition remotefile :: "netmt_command \<Rightarrow> u8 list" where
  "remotefile c = cstr (take FILE_LEN (drop 256 (m_union c)))"

definition file_data :: "netmt_command \<Rightarrow> u8 list" where
  "file_data c = take BUFFER_SIZE (drop 512 (m_union c))"

definition byte_size :: "netmt_command \<Rightarrow> u32" where
  "byte_size c = dec32 (drop 1536 (m_union c))"

definition data_size :: "netmt_command \<Rightarrow> u32" where
  "data_size c = dec32 (drop 1540 (m_union c))"

definition put_bytes :: "nat \<Rightarrow> u8 list \<Rightarrow> u8 list \<Rightarrow> u8 list" where
  "put_bytes off v bs = take off bs @ v @ drop (off + length v) bs"

definition set_localfile :: "u8 list \<Rightarrow> netmt_command \<Rightarrow> netmt_command" where
  "set_localfile p c = c\<lparr>m_union := put_bytes 0 p (m_union c)\<rparr>"

definition set_remotefile :: "u8 list \<Rightarrow> netmt_command \<Rightarrow> netmt_command" where
  "set_remotefile p c = c\<lparr>m_union := put_bytes 256 p (m_union c)\<rparr>"

definition set_file_data :: "u8 list \<Rightarrow> netmt_command \<Rightarrow> netmt_command" where
  "set_file_data d c = c\<lparr>m_union := put_bytes 512 d (m_union c)\<rparr>"

definition set_byte_size :: "u32 \<Rightarrow> netmt_command \<Rightarrow> netmt_command" where
  "set_byte_size n c = c\<lparr>m_union := put_bytes 1536 (enc32 n) (m_union c)\<rparr>"

definition set_data_size :: "u32 \<Rightarrow> netmt_command \<Rightarrow> netmt_command" where
  "set_data_size n c = c\<lparr>m_union := put_bytes 1540 (enc32 n) (m_union c)\<rparr>"

text \<open>\<open>netmtclient_s\<close>: host (64 bytes), port, id, area (64 bytes), type (64 bytes).\<close>

record netmtclient =
  cl_host :: "u8 list"
  cl_port :: u32
  cl_id :: u32
  cl_area :: "u8 list"
  cl_type :: "u8 list"

definition client_info :: "netmt_command \<Rightarrow> netmtclient" where
  "client_info c = (let u = m_union c in
     \<lparr>cl_host = take SOCKADDR_STRLEN u, cl_port = dec32 (drop 64 u), cl_id = dec32 (drop 68 u),
      cl_area = take LEN (drop 72 u), cl_type = take LEN (drop 136 u)\<rparr>)"

definition client_bytes :: "netmtclient \<Rightarrow> u8 list" where
  "client_bytes n = cl_host n @ enc32 (cl_port n) @ enc32 (cl_id n) @ cl_area n @ cl_type n"

definition set_client_info :: "netmtclient \<Rightarrow> netmt_command \<Rightarrow> netmt_command" where
  "set_client_info n c = c\<lparr>m_union := put_bytes 0 (client_bytes n) (m_union c)\<rparr>"

definition wf_client :: "netmtclient \<Rightarrow> bool" where
  "wf_client n \<longleftrightarrow> length (cl_host n) = SOCKADDR_STRLEN \<and> length (cl_area n) = LEN
     \<and> length (cl_type n) = LEN"

definition total_result :: "netmt_command \<Rightarrow> u8 list" where
  "total_result c = cstr (m_union c)"

text \<open>Writing one part of the union and reading a part back.\<close>

lemma length_put_bytes [simp]:
  "off + length v \<le> length bs \<Longrightarrow> length (put_bytes off v bs) = length bs"
  by (simp add: put_bytes_def)

lemma put_bytes_read:
  "off \<le> length bs \<Longrightarrow> take (length v) (drop off (put_bytes off v bs)) = v"
  by (simp add: put_bytes_def)

lemma put_bytes_take_before: "n \<le> off \<Longrightarrow> off \<le> length bs \<Longrightarrow> take n (put_bytes off v bs) = take n bs"
  by (simp add: put_bytes_def min_def)

lemma put_bytes_read_before:
  "a + n \<le> off \<Longrightarrow> off \<le> length bs \<Longrightarrow>
     take n (drop a (put_bytes off v bs)) = take n (drop a bs)"
  by (rule nth_equalityI) (auto simp: put_bytes_def nth_append)

lemma put_bytes_read_after:
  assumes "off + length v \<le> a" "off \<le> length bs"
  shows "drop a (put_bytes off v bs) = drop a bs"
proof -
  have "drop a (put_bytes off v bs) = drop (a - off) (v @ drop (off + length v) bs)"
    using assms by (simp add: put_bytes_def min_def)
  also have "\<dots> = drop (a - off - length v) (drop (off + length v) bs)"
    using assms by simp
  finally show ?thesis using assms by simp
qed

lemma dec32_drop_eq: "dec32 (drop a bs) = dec32 (take 4 (drop a bs))"
  by (simp add: dec32_def)

lemma put_bytes_dec32 [simp]:
  "off \<le> length bs \<Longrightarrow> dec32 (drop off (put_bytes off (enc32 n) bs)) = n"
  by (metis dec32_def dec32_enc32_exact length_enc32 put_bytes_read take_all order_refl)

lemma put_bytes_dec32_before:
  "a + 4 \<le> off \<Longrightarrow> off \<le> length bs \<Longrightarrow>
     dec32 (drop a (put_bytes off v bs)) = dec32 (drop a bs)"
  by (simp add: dec32_def put_bytes_read_before)

lemmas set_union_defs = set_localfile_def set_remotefile_def set_file_data_def
  set_byte_size_def set_data_size_def set_client_info_def

lemmas union_view_defs = localfile_def remotefile_def file_data_def byte_size_def data_size_def

text \<open>Each setter changes its own part of the union and keeps the others.\<close>

lemma wf_set_file [simp, inv_intros]:
  assumes "wf_command c"
  shows "length p = FILE_LEN \<Longrightarrow> wf_command (set_localfile p c)"
    and "length p = FILE_LEN \<Longrightarrow> wf_command (set_remotefile p c)"
    and "length d = BUFFER_SIZE \<Longrightarrow> wf_command (set_file_data d c)"
    and "wf_command (set_byte_size n c)"
    and "wf_command (set_data_size n c)"
  using assms by (simp_all add: wf_command_def set_union_defs)

lemma wf_set_client_info [simp, inv_intros]:
  "wf_command c \<Longrightarrow> wf_client n \<Longrightarrow> wf_command (set_client_info n c)"
  by (simp add: wf_command_def set_union_defs wf_client_def client_bytes_def)

lemma set_file_data_views [simp]:
  assumes "wf_command c" "length d = BUFFER_SIZE"
  shows "localfile (set_file_data d c) = localfile c"
    and "remotefile (set_file_data d c) = remotefile c"
    and "file_data (set_file_data d c) = d"
    and "byte_size (set_file_data d c) = byte_size c"
    and "data_size (set_file_data d c) = data_size c"
proof -
  have u: "length (m_union c) = 4096" using assms(1) by (simp add: wf_command_def)
  show "localfile (set_file_data d c) = localfile c"
    by (simp add: localfile_def set_file_data_def put_bytes_take_before u)
  show "remotefile (set_file_data d c) = remotefile c"
    by (simp add: remotefile_def set_file_data_def put_bytes_read_before u)
  show "file_data (set_file_data d c) = d"
    using put_bytes_read [of 512 "m_union c" d] assms(2)
    by (simp add: file_data_def set_file_data_def u)
  show "byte_size (set_file_data d c) = byte_size c" "data_size (set_file_data d c) = data_size c"
    by (simp_all add: byte_size_def data_size_def set_file_data_def put_bytes_read_after u assms(2))
qed

lemma set_data_size_views [simp]:
  assumes "wf_command c"
  shows "localfile (set_data_size n c) = localfile c"
    and "remotefile (set_data_size n c) = remotefile c"
    and "file_data (set_data_size n c) = file_data c"
    and "byte_size (set_data_size n c) = byte_size c"
    and "data_size (set_data_size n c) = n"
  using assms
  by (simp_all add: union_view_defs set_data_size_def put_bytes_take_before put_bytes_read_before
      put_bytes_dec32_before wf_command_def)

lemma set_byte_size_views [simp]:
  assumes "wf_command c"
  shows "localfile (set_byte_size n c) = localfile c"
    and "remotefile (set_byte_size n c) = remotefile c"
    and "file_data (set_byte_size n c) = file_data c"
    and "byte_size (set_byte_size n c) = n"
    and "data_size (set_byte_size n c) = data_size c"
  using assms
  by (simp_all add: union_view_defs set_byte_size_def put_bytes_take_before put_bytes_read_before
      put_bytes_read_after wf_command_def)

lemma set_localfile_views [simp]:
  assumes "wf_command c" "length p = FILE_LEN"
  shows "localfile (set_localfile p c) = cstr p"
    and "remotefile (set_localfile p c) = remotefile c"
    and "file_data (set_localfile p c) = file_data c"
    and "byte_size (set_localfile p c) = byte_size c"
    and "data_size (set_localfile p c) = data_size c"
  using assms put_bytes_read [of 0 "m_union c" p]
  by (simp_all add: union_view_defs set_localfile_def put_bytes_read_after wf_command_def)

lemma set_remotefile_views [simp]:
  assumes "wf_command c" "length p = FILE_LEN"
  shows "localfile (set_remotefile p c) = localfile c"
    and "remotefile (set_remotefile p c) = cstr p"
    and "file_data (set_remotefile p c) = file_data c"
    and "byte_size (set_remotefile p c) = byte_size c"
    and "data_size (set_remotefile p c) = data_size c"
  using assms put_bytes_read [of 256 "m_union c" p]
  by (simp_all add: union_view_defs set_remotefile_def put_bytes_read_after put_bytes_take_before
      wf_command_def)

lemma client_info_set [simp]:
  assumes "wf_command c" "wf_client n"
  shows "client_info (set_client_info n c) = n"
proof -
  have l: "length (cl_host n) = 64" "length (cl_area n) = 64" "length (cl_type n) = 64"
    using assms(2) by (simp_all add: wf_client_def)
  have u: "m_union (set_client_info n c) = cl_host n @ enc32 (cl_port n) @ enc32 (cl_id n)
      @ cl_area n @ cl_type n @ drop 200 (m_union c)"
    by (simp add: set_client_info_def put_bytes_def client_bytes_def l)
  show ?thesis
    by (rule netmtclient.equality) (simp_all add: client_info_def Let_def u l)
qed

lemma set_union_header [simp]:
  "m_len (set_localfile p c) = m_len c" "m_commonid (set_localfile p c) = m_commonid c"
  "m_subcommonid (set_localfile p c) = m_subcommonid c" "m_fd (set_localfile p c) = m_fd c"
  "m_len (set_remotefile p c) = m_len c" "m_commonid (set_remotefile p c) = m_commonid c"
  "m_subcommonid (set_remotefile p c) = m_subcommonid c" "m_fd (set_remotefile p c) = m_fd c"
  "m_len (set_file_data p c) = m_len c" "m_commonid (set_file_data p c) = m_commonid c"
  "m_subcommonid (set_file_data p c) = m_subcommonid c" "m_fd (set_file_data p c) = m_fd c"
  "m_len (set_byte_size n c) = m_len c" "m_commonid (set_byte_size n c) = m_commonid c"
  "m_subcommonid (set_byte_size n c) = m_subcommonid c" "m_fd (set_byte_size n c) = m_fd c"
  "m_len (set_data_size n c) = m_len c" "m_commonid (set_data_size n c) = m_commonid c"
  "m_subcommonid (set_data_size n c) = m_subcommonid c" "m_fd (set_data_size n c) = m_fd c"
  "m_len (set_client_info i c) = m_len c" "m_commonid (set_client_info i c) = m_commonid c"
  "m_subcommonid (set_client_info i c) = m_subcommonid c" "m_fd (set_client_info i c) = m_fd c"
  by (simp_all add: set_union_defs)

lemma wf_header_update [simp]:
  "wf_command (m_len_update f c) = wf_command c"
  "wf_command (m_commonid_update f c) = wf_command c"
  "wf_command (m_subcommonid_update f c) = wf_command c"
  "wf_command (m_fd_update f c) = wf_command c"
  "wf_command (m_flag_update f c) = wf_command c"
  "wf_command (m_ping_time_update g c) = wf_command c"
  "wf_command (m_pong_time_update g c) = wf_command c"
  by (simp_all add: wf_command_def)

lemma views_header_update [simp]:
  "localfile (m_subcommonid_update f c) = localfile c"
  "remotefile (m_subcommonid_update f c) = remotefile c"
  "file_data (m_subcommonid_update f c) = file_data c"
  "byte_size (m_subcommonid_update f c) = byte_size c"
  "data_size (m_subcommonid_update f c) = data_size c"
  "localfile (m_len_update f c) = localfile c"
  "remotefile (m_len_update f c) = remotefile c"
  "file_data (m_len_update f c) = file_data c"
  "byte_size (m_len_update f c) = byte_size c"
  "data_size (m_len_update f c) = data_size c"
  "localfile (m_commonid_update f c) = localfile c"
  "remotefile (m_commonid_update f c) = remotefile c"
  "localfile (m_fd_update f c) = localfile c"
  "remotefile (m_fd_update f c) = remotefile c"
  by (simp_all add: union_view_defs)

end
