(* ===== verification/Framing.thy ===== *)
theory Framing
  imports Wire
begin

text \<open>
  Reassembly of messages from the TCP byte stream: the part of \<open>tcp_recv\<close> that the server
  (\<open>netmtserver.c\<close>) and the client (\<open>netmtclient.c\<close>) share. Received bytes are appended to
  the global \<open>databuf\<close>; while bytes are left, the message at the front is handled and its
  \<open>len\<close> bytes are dropped; an incomplete tail is moved to the front. What handling a message
  means is the interface \<open>message_handler\<close>, which both programs interpret.
\<close>

section \<open>State and operations\<close>

record rx =
  databuf :: "u8 list"
  bytelen :: int

definition rx_init :: rx where
  "rx_init = \<lparr>databuf = replicate DATABUF 0, bytelen = 0\<rparr>"

text \<open>\<open>memcpy\<close> of the read bytes: to the front when nothing is pending, behind the pending
  bytes otherwise. \<open>None\<close> is a write outside \<open>databuf\<close>.\<close>

definition rx_append :: "u8 list \<Rightarrow> rx \<Rightarrow> rx option" where
  "rx_append buf r =
     (if bytelen r = 0 then
        (if length buf \<le> length (databuf r)
         then Some (r\<lparr>databuf := put_bytes 0 buf (databuf r), bytelen := int (length buf)\<rparr>)
         else None)
      else
        (if 0 \<le> bytelen r \<and> nat (bytelen r) + length buf \<le> length (databuf r)
         then Some (r\<lparr>databuf := put_bytes (nat (bytelen r)) buf (databuf r),
                      bytelen := bytelen r + int (length buf)\<rparr>)
         else None))"

text \<open>\<open>comm->len\<close> and the whole \<open>*comm\<close> for \<open>comm = databuf + off\<close>; \<open>None\<close> when the object
  is not inside \<open>databuf\<close>.\<close>

definition frame_len :: "u8 list \<Rightarrow> int \<Rightarrow> int option" where
  "frame_len buf off =
     (if 0 \<le> off \<and> nat off + 4 \<le> length buf then Some (sint (dec32 (drop (nat off) buf))) else None)"

definition frame_at :: "u8 list \<Rightarrow> int \<Rightarrow> netmt_command option" where
  "frame_at buf off =
     (if 0 \<le> off \<and> nat off + sizeof_netmt_command \<le> length buf
      then Some (decode (drop (nat off) buf)) else None)"

definition rx_shift :: "int \<Rightarrow> rx \<Rightarrow> rx" where
  "rx_shift off r =
     r\<lparr>databuf := put_bytes 0 (take (nat (bytelen r)) (drop (nat off) (databuf r))) (databuf r)\<rparr>"

text \<open>The \<open>while (bytelen != 0)\<close> loop. A message whose \<open>len\<close> is 0 is handled for ever, so the
  loop is partial: \<open>None\<close> is "does not return".\<close>

partial_function (option) recv_loop ::
  "(netmt_command \<Rightarrow> 's \<Rightarrow> 's outcome) \<Rightarrow> rx \<Rightarrow> int \<Rightarrow> 's \<Rightarrow> (rx \<times> 's) outcome option" where
  "recv_loop h r off s =
     (if bytelen r = 0 then Some (Cont (r, s))
      else case frame_at (databuf r) off of
        None \<Rightarrow> Some (Fault Overread)
      | Some c \<Rightarrow>
        (case h c s of
          Fault e \<Rightarrow> Some (Fault e)
        | Ret s' \<Rightarrow> Some (Ret (r, s'))
        | Cont s' \<Rightarrow>
          (let r' = r\<lparr>bytelen := bytelen r - sint (m_len c)\<rparr>;
               off' = off + sint (m_len c)
           in case frame_len (databuf r) off' of
                None \<Rightarrow> Some (Fault Overread)
              | Some n \<Rightarrow>
                (if n > bytelen r' then Some (Cont (rx_shift off' r', s'))
                 else recv_loop h r' off' s'))))"

definition recv_bytes ::
  "(netmt_command \<Rightarrow> 's \<Rightarrow> 's outcome) \<Rightarrow> u8 list \<Rightarrow> rx \<Rightarrow> 's \<Rightarrow> (rx \<times> 's) outcome option" where
  "recv_bytes h buf r s =
     (case rx_append buf r of
        None \<Rightarrow> Some (Fault Overrun)
      | Some r1 \<Rightarrow>
        (case frame_len (databuf r1) 0 of
           None \<Rightarrow> Some (Fault Overread)
         | Some n \<Rightarrow> if n > bytelen r1 then Some (Ret (r1, s)) else recv_loop h r1 0 s))"

text \<open>One call of \<open>tcp_recv\<close> per read; a call that returned early is followed by the next.\<close>

fun recv_stream ::
  "(netmt_command \<Rightarrow> 's \<Rightarrow> 's outcome) \<Rightarrow> u8 list list \<Rightarrow> rx \<Rightarrow> 's \<Rightarrow> (rx \<times> 's) outcome option" where
  "recv_stream h [] r s = Some (Cont (r, s))"
| "recv_stream h (b # bs) r s =
     (case recv_bytes h b r s of
        None \<Rightarrow> None
      | Some (Fault e) \<Rightarrow> Some (Fault e)
      | Some (Ret (r', s')) \<Rightarrow> recv_stream h bs r' s'
      | Some (Cont (r', s')) \<Rightarrow> recv_stream h bs r' s')"

section \<open>Abstract specification: messages in order\<close>

fun deliver :: "(netmt_command \<Rightarrow> 's \<Rightarrow> 's outcome) \<Rightarrow> netmt_command list \<Rightarrow> 's \<Rightarrow> 's outcome" where
  "deliver h [] s = Cont s"
| "deliver h (c # cs) s = (case h c s of Cont s' \<Rightarrow> deliver h cs s' | x \<Rightarrow> x)"

fun accepted ::
  "(netmt_command \<Rightarrow> 's \<Rightarrow> 's outcome) \<Rightarrow> ('s \<Rightarrow> netmt_command \<Rightarrow> bool) \<Rightarrow> netmt_command list \<Rightarrow> 's \<Rightarrow> bool"
where
  "accepted h ok [] s = True"
| "accepted h ok (c # cs) s =
     (ok s c \<and> (case h c s of Cont s' \<Rightarrow> accepted h ok cs s' | _ \<Rightarrow> False))"

lemma deliver_snoc:
  "deliver h (cs @ [c]) s = (case deliver h cs s of Cont s' \<Rightarrow> h c s' | x \<Rightarrow> x)"
  by (induction cs arbitrary: s) (auto split: outcome.splits)

lemma accepted_snoc:
  "accepted h ok (cs @ [c]) s \<longleftrightarrow> accepted h ok cs s
     \<and> (case deliver h cs s of Cont s' \<Rightarrow> accepted h ok [c] s' | x \<Rightarrow> False)"
  by (induction cs arbitrary: s) (auto split: outcome.splits)

definition frame :: "netmt_command \<Rightarrow> bool" where
  "frame c \<longleftrightarrow> wf_command c \<and> m_len c = of_nat sizeof_netmt_command"

definition frames :: "netmt_command list \<Rightarrow> bool" where
  "frames cs \<longleftrightarrow> (\<forall>c \<in> set cs. frame c)"

definition wire :: "netmt_command list \<Rightarrow> u8 list" where
  "wire cs = concat (map encode cs)"

text \<open>\<open>databuf\<close> holds exactly the bytes \<open>p\<close> that wait for the rest of their message.\<close>

definition rx_holds :: "rx \<Rightarrow> u8 list \<Rightarrow> bool" where
  "rx_holds r p \<longleftrightarrow> length (databuf r) = DATABUF \<and> bytelen r = int (length p)
     \<and> take (length p) (databuf r) = p \<and> length p < sizeof_netmt_command"

text \<open>A tail of the stream whose \<open>len\<close> can be read: nothing, or at least its four bytes.\<close>

definition readable_tail :: "u8 list \<Rightarrow> bool" where
  "readable_tail p \<longleftrightarrow> p = []
     \<or> 4 \<le> length p \<and> dec32 p = of_nat sizeof_netmt_command"

text \<open>The reads never stop one to three bytes into a message, where \<open>len\<close> is not there yet.\<close>

definition clean_cuts :: "nat \<Rightarrow> u8 list list \<Rightarrow> bool" where
  "clean_cuts n bufs \<longleftrightarrow> (\<forall>k \<le> length bufs.
     (n + length (concat (take k bufs))) mod sizeof_netmt_command \<notin> {1, 2, 3})"

definition HLOOP_READ_BUFSIZE :: nat where
  "HLOOP_READ_BUFSIZE = 8192"

definition reads :: "u8 list list \<Rightarrow> bool" where
  "reads bufs \<longleftrightarrow> (\<forall>b \<in> set bufs. b \<noteq> [] \<and> length b \<le> HLOOP_READ_BUFSIZE)"

section \<open>Facts about frames\<close>

lemma frames_simps [simp]:
  "frames []" "frames (c # cs) = (frame c \<and> frames cs)"
  "frames (as @ bs) = (frames as \<and> frames bs)"
  by (auto simp: frames_def)

lemma wire_simps [simp]:
  "wire [] = []" "wire (c # cs) = encode c @ wire cs" "wire (as @ bs) = wire as @ wire bs"
  by (simp_all add: wire_def)

lemma length_wire: "frames cs \<Longrightarrow> length (wire cs) = sizeof_netmt_command * length cs"
  by (induction cs) (simp_all add: length_encode frame_def)

lemma take_wire:
  "frames cs \<Longrightarrow> k \<le> length cs \<Longrightarrow>
     wire cs = wire (take k cs) @ wire (drop k cs) \<and> frames (take k cs) \<and> frames (drop k cs)"
  by (metis append_take_drop_id frames_simps(3) wire_simps(3))

lemma sint_sizeof: "sint (of_nat sizeof_netmt_command :: u32) = int sizeof_netmt_command"
  by (simp add: sizeof_netmt_command_def)

lemma frame_lenD: "frame c \<Longrightarrow> sint (m_len c) = int sizeof_netmt_command"
  by (simp add: frame_def sint_sizeof)

text \<open>One message per read is a clean way to cut a stream.\<close>

lemma whole_frames:
  assumes "frames cs"
  shows "concat (map encode cs) = wire cs" "reads (map encode cs)" "clean_cuts 0 (map encode cs)"
proof -
  show "concat (map encode cs) = wire cs" by (simp add: wire_def)
  show "reads (map encode cs)"
    using assms
    by (auto simp: reads_def frames_def frame_def length_encode HLOOP_READ_BUFSIZE_def
        sizeof_netmt_command_def dest!: bspec dest: length_encode)
  have "length (concat (take k (map encode cs))) mod sizeof_netmt_command = 0" for k
  proof -
    have "frames (take k cs)" using assms by (auto simp: frames_def dest: in_set_takeD)
    then show ?thesis using length_wire by (simp add: take_map wire_def)
  qed
  then show "clean_cuts 0 (map encode cs)" by (simp add: clean_cuts_def)
qed

lemma rx_holds_init [simp, inv_intros]: "rx_holds rx_init []"
  by (simp add: rx_holds_def rx_init_def sizeof_netmt_command_def)

lemma rx_append_holds:
  assumes "rx_holds r p" "length p + length buf \<le> DATABUF"
  shows "\<exists>r'. rx_append buf r = Some r' \<and> length (databuf r') = DATABUF
    \<and> bytelen r' = int (length (p @ buf)) \<and> take (length (p @ buf)) (databuf r') = p @ buf"
proof (cases "p = []")
  case True
  with assms show ?thesis by (auto simp: rx_holds_def rx_append_def put_bytes_def)
next
  case False
  with assms show ?thesis
    by (auto simp: rx_holds_def rx_append_def put_bytes_def min_def)
qed

text \<open>Everything the loop needs to know about position \<open>off\<close> of the buffer: the unhandled bytes
  are the wire image of \<open>cs\<close> followed by the tail.\<close>

lemma at_position:
  assumes len: "length (databuf r) = DATABUF" and "frames cs"
    and buf: "take (off + length (wire cs @ rest)) (databuf r) = pre @ wire cs @ rest"
    and pre: "length pre = off"
    and fits: "off + length (wire cs @ rest) \<le> DATABUF"
  shows "drop off (databuf r) = wire cs @ rest @ drop (off + length (wire cs @ rest)) (databuf r)"
proof -
  have "databuf r = (pre @ wire cs @ rest) @ drop (off + length (wire cs @ rest)) (databuf r)"
    using buf append_take_drop_id by metis
  then have "drop off (databuf r) =
      drop off ((pre @ wire cs @ rest) @ drop (off + length (wire cs @ rest)) (databuf r))"
    by simp
  also have "\<dots> = wire cs @ rest @ drop (off + length (wire cs @ rest)) (databuf r)"
    using pre by simp
  finally show ?thesis .
qed

section \<open>The interface of a message handler\<close>

text \<open>
  \<open>ok s c\<close> says that in state \<open>s\<close> the handler processes \<open>c\<close> and falls through to the end of the
  loop body. Under this contract the reassembly loop is a correct implementation of
  \<open>deliver\<close>, whatever pieces the network cuts the stream into.
\<close>

locale message_handler =
  fixes handle :: "netmt_command \<Rightarrow> 's \<Rightarrow> 's outcome"
    and ok :: "'s \<Rightarrow> netmt_command \<Rightarrow> bool"
  assumes handle_ok: "wf_command c \<Longrightarrow> ok s c \<Longrightarrow> \<exists>s'. handle c s = Cont s'"
begin

lemma accepted_deliver:
  "frames cs \<Longrightarrow> accepted handle ok cs s \<Longrightarrow> \<exists>s'. deliver handle cs s = Cont s'"
  by (induction cs arbitrary: s) (auto split: outcome.splits)

lemma loop_delivers:
  assumes "length (databuf r) = DATABUF" "frames cs" "cs \<noteq> [] \<or> rest = []"
    and "drop off (databuf r) = wire cs @ rest @ junk"
    and "off \<le> DATABUF" "off mod sizeof_netmt_command = 0"
    and "bytelen r = int (length (wire cs @ rest))"
    and "length rest < sizeof_netmt_command" "readable_tail rest"
    and "accepted handle ok cs s" "deliver handle cs s = Cont s'"
  shows "\<exists>r'. recv_loop handle r (int off) s = Some (Cont (r', s')) \<and> rx_holds r' rest"
  using assms
proof (induction cs arbitrary: r off s)
  case Nil
  then show ?case
    by (auto simp: recv_loop.simps [of handle r] rx_holds_def sizeof_netmt_command_def)
next
  case (Cons c cs)
  let ?N = sizeof_netmt_command
  note N = sizeof_netmt_command_def
  have fc: "frame c" "frames cs" using Cons.prems(2) by auto
  then have wfc: "wf_command c" by (simp add: frame_def)
  have lenc: "length (encode c) = ?N" using wfc by (rule length_encode)
  have d: "drop off (databuf r) = encode c @ wire cs @ rest @ junk"
    using Cons.prems(4) by simp
  have tot: "off + ?N + length (wire cs @ rest @ junk) = DATABUF"
    using arg_cong [OF d, of length] Cons.prems(1,5) lenc by simp
  have fa: "frame_at (databuf r) (int off) = Some c"
    using tot Cons.prems(1) by (simp add: frame_at_def d decode_encode_append wfc)
  have l: "sint (m_len c) = int ?N" using fc(1) by (rule frame_lenD)
  obtain s1 where h: "handle c s = Cont s1"
    and acc: "accepted handle ok cs s1" and del: "deliver handle cs s1 = Cont s'"
    using Cons.prems(10,11) by (auto split: outcome.splits)
  define r1 where "r1 = r\<lparr>bytelen := bytelen r - int ?N\<rparr>"
  have bl: "bytelen r \<noteq> 0" and bl1: "bytelen r1 = int (length (wire cs @ rest))"
    using Cons.prems(7) lenc by (auto simp: r1_def N)
  have d1: "drop (off + ?N) (databuf r) = wire cs @ rest @ junk"
    using d lenc by (metis add.commute drop_append_exact drop_drop)
  have "4 \<le> length (rest @ junk)" if "cs = []"
  proof -
    obtain k where "off = ?N * k" using Cons.prems(6) by blast
    then have "5168 * k + 5168 + length (rest @ junk) = 20480"
      using tot that by (simp add: N)
    moreover from this have "k \<le> 2" by linarith
    ultimately show ?thesis by linarith
  qed
  then have four: "4 \<le> length (wire cs @ rest @ junk)"
    using length_wire [OF fc(2)] by (cases cs) (auto simp: N)
  have fl: "frame_len (databuf r) (int off + int ?N) =
      Some (sint (dec32 (wire cs @ rest @ junk)))"
    using tot four Cons.prems(1) by (simp add: frame_len_def d1 nat_add_distrib)
  have step: "recv_loop handle r (int off) s =
      (if sint (dec32 (wire cs @ rest @ junk)) > bytelen r1
       then Some (Cont (rx_shift (int off + int ?N) r1, s1))
       else recv_loop handle r1 (int off + int ?N) s1)"
    by (subst recv_loop.simps) (simp add: bl fa h l fl Let_def r1_def [symmetric])
  show ?case
  proof (cases "sint (dec32 (wire cs @ rest @ junk)) > bytelen r1")
    case True
    have "cs = []"
    proof (rule ccontr)
      assume "cs \<noteq> []"
      then obtain c' cs' where cs: "cs = c' # cs'" by (cases cs) auto
      then have "frame c'" using fc(2) by simp
      then have "sint (dec32 (wire cs @ rest @ junk)) = int ?N"
        by (simp add: cs dec32_encode frame_lenD)
      then show False using True bl1 length_wire [OF fc(2)] cs by (simp add: N)
    qed
    then have "s' = s1" using del by simp
    moreover have "rx_holds (rx_shift (int off + int ?N) r1) rest"
      using \<open>cs = []\<close> bl1 Cons.prems(1,8) d1 tot
      by (simp add: rx_holds_def rx_shift_def r1_def put_bytes_def nat_add_distrib)
    ultimately show ?thesis using step True by simp
  next
    case False
    have "rest = []" if "cs = []"
    proof (rule ccontr)
      assume "rest \<noteq> []"
      then have "4 \<le> length rest" "dec32 rest = of_nat ?N"
        using Cons.prems(9) by (auto simp: readable_tail_def)
      then have "dec32 (wire cs @ rest @ junk) = of_nat ?N"
        using that dec32_take [of "length rest" "rest @ junk"] by simp
      then show False using False that bl1 Cons.prems(8) sint_sizeof by (simp add: N)
    qed
    then have "\<exists>r'. recv_loop handle r1 (int (off + ?N)) s1 = Some (Cont (r', s')) \<and> rx_holds r' rest"
      using Cons.prems(1,6,8,9) fc(2) d1 tot bl1 acc del
      by (intro Cons.IH) (auto simp: r1_def)
    then show ?thesis using step False by simp
  qed
qed

lemma read_delivers:
  assumes holds: "rx_holds r p" and split: "p @ buf = wire cs @ rest" and "frames cs"
    and tail: "length rest < sizeof_netmt_command" "readable_tail rest"
    and ne: "p @ buf \<noteq> []" and fits: "length p + length buf \<le> DATABUF"
    and acc: "accepted handle ok cs s" and del: "deliver handle cs s = Cont s'"
  shows "\<exists>r'. (recv_bytes handle buf r s = Some (Cont (r', s')) \<or>
              recv_bytes handle buf r s = Some (Ret (r', s'))) \<and> rx_holds r' rest"
proof -
  note N = sizeof_netmt_command_def
  obtain r1 where app: "rx_append buf r = Some r1" and len: "length (databuf r1) = DATABUF"
    and bl: "bytelen r1 = int (length (wire cs @ rest))"
    and buf: "take (length (wire cs @ rest)) (databuf r1) = wire cs @ rest"
    using rx_append_holds [OF holds fits] split by metis
  define junk where "junk = drop (length (wire cs @ rest)) (databuf r1)"
  have d: "databuf r1 = wire cs @ rest @ junk"
    using buf append_take_drop_id [of "length (wire cs @ rest)" "databuf r1"]
    by (simp add: junk_def)
  have fl: "frame_len (databuf r1) 0 = Some (sint (dec32 (databuf r1)))"
    by (simp add: frame_len_def len)
  show ?thesis
  proof (cases cs)
    case Nil
    then have "4 \<le> length rest" "dec32 rest = of_nat sizeof_netmt_command"
      using ne split tail(2) by (auto simp: readable_tail_def)
    then have "dec32 (databuf r1) = of_nat sizeof_netmt_command"
      using dec32_take [of "length rest" "rest @ junk"] d Nil by simp
    then have "recv_bytes handle buf r s = Some (Ret (r1, s))"
      using bl tail(1) Nil by (simp add: recv_bytes_def app fl sint_sizeof)
    moreover have "rx_holds r1 rest"
      using len bl buf tail(1) Nil by (simp add: rx_holds_def)
    ultimately show ?thesis using del Nil by auto
  next
    case (Cons c cs')
    then have "frame c" using \<open>frames cs\<close> by simp
    then have "sint (dec32 (databuf r1)) = int sizeof_netmt_command"
      using d Cons by (simp add: dec32_encode frame_lenD)
    moreover have "int sizeof_netmt_command \<le> bytelen r1"
      using bl Cons \<open>frame c\<close> by (simp add: length_encode frame_def)
    ultimately have "recv_bytes handle buf r s = recv_loop handle r1 (int 0) s"
      by (simp add: recv_bytes_def app fl)
    moreover have "\<exists>r'. recv_loop handle r1 (int 0) s = Some (Cont (r', s')) \<and> rx_holds r' rest"
      using len \<open>frames cs\<close> Cons bl tail acc del d
      by (intro loop_delivers [where cs = cs and junk = junk]) simp_all
    ultimately show ?thesis by auto
  qed
qed

lemma accepted_append:
  "accepted handle ok (as @ bs) s \<Longrightarrow> deliver handle as s = Cont s1 \<Longrightarrow>
     accepted handle ok as s \<and> accepted handle ok bs s1
     \<and> deliver handle (as @ bs) s = deliver handle bs s1"
  by (induction as arbitrary: s) (auto split: outcome.splits)

lemma accepted_prefix: "accepted handle ok (as @ bs) s \<Longrightarrow> accepted handle ok as s"
  by (induction as arbitrary: s) (auto split: outcome.splits)

lemma stream_delivers:
  assumes "rx_holds r p" "p @ concat bufs = wire cs" "frames cs" "reads bufs"
    and "clean_cuts (length p) bufs"
    and "accepted handle ok cs s" "deliver handle cs s = Cont s'"
  shows "\<exists>r'. recv_stream handle bufs r s = Some (Cont (r', s')) \<and> rx_holds r' []"
  using assms
proof (induction bufs arbitrary: r p cs s)
  case Nil
  let ?N = sizeof_netmt_command
  have "?N * length cs < ?N"
    using Nil.prems(1,2) length_wire [OF Nil.prems(3)] by (simp add: rx_holds_def)
  then have "cs = []" by simp
  then show ?case using Nil.prems by simp
next
  case (Cons b bufs)
  let ?N = sizeof_netmt_command
  note N = sizeof_netmt_command_def
  define k where "k = length (p @ b) div ?N"
  define rest where "rest = drop (?N * k) (p @ b)"
  have lw: "length (p @ b) + length (concat bufs) = ?N * length cs"
    using arg_cong [OF Cons.prems(2), of length] length_wire [OF Cons.prems(3)] by simp
  have k: "k \<le> length cs"
    using lw div_le_mono [of "length (p @ b)" "?N * length cs" ?N] by (simp add: k_def N)
  obtain cs1 cs2 where cs: "cs = cs1 @ cs2" and l1: "length cs1 = k"
    using k by (metis append_take_drop_id length_take min.absorb2)
  have f: "frames cs1" "frames cs2" using Cons.prems(3) cs by simp_all
  have lw1: "length (wire cs1) = ?N * k" using length_wire [OF f(1)] l1 by simp
  have lk: "?N * k \<le> length (p @ b)" by (simp add: k_def)
  have eq: "(p @ b) @ concat bufs = wire cs1 @ wire cs2" using Cons.prems(2) cs by simp
  have pb: "p @ b = wire cs1 @ rest"
  proof -
    have "take (?N * k) (wire cs1 @ wire cs2) = wire cs1" by (simp add: lw1)
    moreover have "take (?N * k) ((p @ b) @ concat bufs) = take (?N * k) (p @ b)"
      unfolding take_append [of _ "p @ b"] using lk by (simp only: diff_is_0_eq' take_0 append_Nil2)
    ultimately have "take (?N * k) (p @ b) = wire cs1" using eq by metis
    then show ?thesis by (metis append_take_drop_id rest_def)
  qed
  have rest2: "rest @ concat bufs = wire cs2" using eq pb by simp
  have lr: "length rest = length (p @ b) mod ?N"
    unfolding rest_def k_def length_drop by (rule minus_mult_div_eq_mod)
  then have rlt: "length rest < ?N" by (simp add: N)
  have tail: "readable_tail rest"
  proof (cases rest)
    case Nil
    then show ?thesis by (simp add: readable_tail_def)
  next
    case (Cons x xs)
    then obtain c cs' where c: "cs2 = c # cs'" using rest2 by (cases cs2) auto
    have "length rest \<notin> {1, 2, 3}"
      using Cons.prems(5) [unfolded clean_cuts_def, rule_format, of 1] lr by simp
    moreover have "0 < length rest" using Cons by simp
    moreover have "n \<notin> {1, 2, 3} \<Longrightarrow> 0 < n \<Longrightarrow> 4 \<le> n" for n :: nat by auto
    ultimately have "4 \<le> length rest" by blast
    moreover have "dec32 rest = dec32 (rest @ concat bufs)"
      using dec32_take [of "length rest" "rest @ concat bufs"] calculation by simp
    then have "dec32 rest = of_nat ?N"
      using rest2 c f(2) by (simp add: dec32_encode frame_def)
    ultimately show ?thesis by (simp add: readable_tail_def)
  qed
  have acc1: "accepted handle ok cs1 s" using Cons.prems(6) cs accepted_prefix by simp
  then obtain s1 where d1: "deliver handle cs1 s = Cont s1"
    using accepted_deliver f(1) by blast
  then have acc2: "accepted handle ok cs2 s1" and d2: "deliver handle cs2 s1 = Cont s'"
    using accepted_append [of cs1 cs2 s s1] Cons.prems(6,7) cs by simp_all
  have bnd: "b \<noteq> []" "length p + length b \<le> DATABUF"
    using Cons.prems(1,4) by (auto simp: reads_def rx_holds_def HLOOP_READ_BUFSIZE_def N)
  obtain r' where r': "rx_holds r' rest"
    and step: "recv_bytes handle b r s = Some (Cont (r', s1)) \<or>
               recv_bytes handle b r s = Some (Ret (r', s1))"
    using read_delivers [OF Cons.prems(1) pb f(1) rlt tail _ bnd(2) acc1 d1] bnd(1) by auto
  have "clean_cuts (length rest) bufs"
    unfolding clean_cuts_def
  proof (intro allI impI)
    fix j assume "j \<le> length bufs"
    then have "(length p + length (concat (take (Suc j) (b # bufs)))) mod ?N \<notin> {1, 2, 3}"
      using Cons.prems(5) unfolding clean_cuts_def by (metis Suc_le_mono length_Cons)
    then show "(length rest + length (concat (take j bufs))) mod ?N \<notin> {1, 2, 3}"
      by (simp add: lr mod_add_left_eq add.assoc)
  qed
  then obtain r'' where "recv_stream handle bufs r' s1 = Some (Cont (r'', s'))" "rx_holds r'' []"
    using Cons.IH [OF r' rest2 f(2) _ _ acc2 d2] Cons.prems(4) by (auto simp: reads_def)
  then show ?case using step by auto
qed

end

text \<open>What the handler never makes true again, the loop does not either.\<close>

lemma recv_loop_backwards:
  fixes h :: "netmt_command \<Rightarrow> 's \<Rightarrow> 's outcome"
  assumes "recv_loop h r off s = Some x" "x = Cont (r', s') \<or> x = Ret (r', s')" "Q s'"
    and "\<And>c s s'. h c s = Cont s' \<or> h c s = Ret s' \<Longrightarrow> Q s' \<Longrightarrow> Q s"
  shows "Q s"
proof -
  define P where "P = (\<lambda>(h :: netmt_command \<Rightarrow> 's \<Rightarrow> 's outcome) (r :: rx) (off :: int) s x.
    (x = Cont (r', s') \<or> x = Ret (r', s')) \<longrightarrow>
    (\<forall>c s s'. h c s = Cont s' \<or> h c s = Ret s' \<longrightarrow> Q s' \<longrightarrow> Q s) \<longrightarrow> Q s)"
  have "P h r off s x"
  proof (rule recv_loop.raw_induct [OF _ assms(1), where P = P])
    fix f and h :: "netmt_command \<Rightarrow> 's \<Rightarrow> 's outcome" and r off s x
    assume IH: "\<And>h r off s x. f h r off s = Some x \<Longrightarrow> P h r off s x"
      and eq: "(if bytelen r = 0 then Some (Cont (r, s))
        else case frame_at (databuf r) off of None \<Rightarrow> Some (Fault Overread)
          | Some c \<Rightarrow> (case h c s of Fault e \<Rightarrow> Some (Fault e) | Ret s1 \<Rightarrow> Some (Ret (r, s1))
            | Cont s1 \<Rightarrow> (let r1 = r\<lparr>bytelen := bytelen r - sint (m_len c)\<rparr>;
                             off1 = off + sint (m_len c)
               in case frame_len (databuf r) off1 of None \<Rightarrow> Some (Fault Overread)
                  | Some n \<Rightarrow> (if n > bytelen r1 then Some (Cont (rx_shift off1 r1, s1))
                              else f h r1 off1 s1)))) = Some x"
    show "P h r off s x"
    proof (cases "frame_at (databuf r) off")
      case None
      with eq show ?thesis using assms(3) by (auto simp: P_def split: if_splits)
    next
      case (Some c)
      show ?thesis
      proof (cases "h c s")
        case (Cont s1)
        with Some eq assms(3) show ?thesis
          using IH [of h "r\<lparr>bytelen := bytelen r - sint (m_len c)\<rparr>" "off + sint (m_len c)" s1 x]
          by (auto simp: P_def Let_def split: if_splits option.splits)
      next
        case (Ret s1)
        with Some eq assms(3) show ?thesis by (auto simp: P_def split: if_splits)
      next
        case (Fault e)
        with Some eq assms(3) show ?thesis by (auto simp: P_def split: if_splits)
      qed
    qed
  qed
  then show ?thesis using assms(2,4) unfolding P_def by blast
qed

lemma recv_bytes_backwards:
  assumes "recv_bytes h b r s = Some x" "x = Cont (r', s') \<or> x = Ret (r', s')" "Q s'"
    and "\<And>c s s'. h c s = Cont s' \<or> h c s = Ret s' \<Longrightarrow> Q s' \<Longrightarrow> Q s"
  shows "Q s"
  using assms recv_loop_backwards [of h _ 0 s x r' s' Q]
  by (auto simp: recv_bytes_def split: option.splits if_splits)

lemma recv_stream_backwards:
  assumes "recv_stream h bs r s = Some (Cont (r', s'))" "Q s'"
    and "\<And>c s s'. h c s = Cont s' \<or> h c s = Ret s' \<Longrightarrow> Q s' \<Longrightarrow> Q s"
  shows "Q s"
  using assms(1)
proof (induction bs arbitrary: r s)
  case Nil
  then show ?case using assms(2) by simp
next
  case (Cons b bs)
  then obtain r1 s1 x where "recv_bytes h b r s = Some x" "x = Cont (r1, s1) \<or> x = Ret (r1, s1)" "Q s1"
    by (auto split: option.splits outcome.splits prod.splits)
  then show ?case using assms(3) by (rule recv_bytes_backwards)
qed

text \<open>A message whose \<open>len\<close> is 0 keeps the loop at the same position for ever. The handler is
  called again and again: \<open>recv_loop\<close> has no result.\<close>

lemma recv_loop_zero_len:
  fixes h :: "netmt_command \<Rightarrow> 's \<Rightarrow> 's outcome" and r :: rx
  assumes "frame_at (databuf r) off = Some c" "m_len c = 0" "bytelen r > 0"
    and "\<And>s. \<exists>s'. h c s = Cont s'"
  shows "recv_loop h r off s = None"
proof -
  have fl: "frame_len (databuf r) off = Some 0"
    using assms(1,2) by (auto simp: frame_at_def frame_len_def decode_def
        sizeof_netmt_command_def split: if_splits)
  have "\<not> (h' = h \<and> databuf r' = databuf r \<and> bytelen r' = bytelen r \<and> off' = off)"
    if ret: "recv_loop h' r' off' s' = Some x" for h' r' off' s' x
  proof (rule recv_loop.raw_induct [where P = "\<lambda>h' r' off' s' x.
      \<not> (h' = h \<and> databuf r' = databuf r \<and> bytelen r' = bytelen r \<and> off' = off)", OF _ ret])
    fix f and h' :: "netmt_command \<Rightarrow> 's \<Rightarrow> 's outcome" and r' :: rx and off' s' x
    assume IH: "\<And>h' r' off' s' x. f h' r' off' s' = Some x \<Longrightarrow>
        \<not> (h' = h \<and> databuf r' = databuf r \<and> bytelen r' = bytelen r \<and> off' = off)"
      and eq: "(if bytelen r' = 0 then Some (Cont (r', s'))
        else case frame_at (databuf r') off' of None \<Rightarrow> Some (Fault Overread)
          | Some c \<Rightarrow> (case h' c s' of Fault e \<Rightarrow> Some (Fault e) | Ret s1 \<Rightarrow> Some (Ret (r', s1))
            | Cont s1 \<Rightarrow> (let r1 = r'\<lparr>bytelen := bytelen r' - sint (m_len c)\<rparr>;
                             off1 = off' + sint (m_len c)
               in case frame_len (databuf r') off1 of None \<Rightarrow> Some (Fault Overread)
                  | Some n \<Rightarrow> (if n > bytelen r1 then Some (Cont (rx_shift off1 r1, s1))
                              else f h' r1 off1 s1)))) = Some x"
    show "\<not> (h' = h \<and> databuf r' = databuf r \<and> bytelen r' = bytelen r \<and> off' = off)"
    proof
      assume *: "h' = h \<and> databuf r' = databuf r \<and> bytelen r' = bytelen r \<and> off' = off"
      obtain s1 where "h c s' = Cont s1" using assms(4) by blast
      then have "f h (r'\<lparr>bytelen := bytelen r'\<rparr>) off s1 = Some x"
        using eq * assms(1-3) fl by (simp add: Let_def)
      then show False using IH * by fastforce
    qed
  qed
  then show ?thesis by (metis not_None_eq)
qed

end
