(* ===== verification/Server.thy ===== *)
theory Server
  imports Framing
begin

text \<open>
  The server of \<open>netmtserver.c\<close>: the list of connected clients, the callbacks of the event
  loop (accept, close, receive) and what each received message does to the state.
  \<open>hio_write\<close> is recorded as a log of (descriptor, message) pairs in the order of the calls.
  What the operating system answers (does \<open>fopen\<close> succeed, how much does \<open>fwrite\<close> write,
  the clock) is the argument \<open>env\<close>.
\<close>

section \<open>Streams, environment and state\<close>

text \<open>A \<open>FILE *\<close> variable: NULL, open on a path, or dangling after \<open>fclose\<close>.\<close>

datatype stream = StreamNull | StreamOpen "u8 list" | StreamClosed

record env =
  e_fopen :: "u8 list \<Rightarrow> bool"
  e_fwrite :: "u8 list \<Rightarrow> nat \<Rightarrow> nat"
  e_now :: u64

text \<open>\<open>io_t\<close>: \<open>c_io\<close> stands for the pointer \<open>io\<close>, \<open>c_fd\<close> for \<open>io->fd\<close>.\<close>

record conn =
  c_io :: nat
  c_fd :: u32
  c_host :: "u8 list"
  c_port :: u32
  c_client :: netmtclient
  c_flag :: u32
  c_buffer :: "u8 list"
  c_buffer_max_size :: int
  c_buffer_current_size :: int

record server =
  clients :: "conn list"
  s_commonid :: u32
  s_ping :: "netmt_command option"
  s_fp :: stream
  s_fsize :: u32
  s_files :: "u8 list \<Rightarrow> u8 list option"
  s_mutex :: bool
  s_sent :: "(u32 \<times> netmt_command) list"

definition zero_client :: netmtclient where
  "zero_client = \<lparr>cl_host = replicate SOCKADDR_STRLEN 0, cl_port = 0, cl_id = 0,
     cl_area = replicate LEN 0, cl_type = replicate LEN 0\<rparr>"

section \<open>Connections\<close>

text \<open>\<open>get_sockaddr\<close>: the peer's address for the two address families it knows, nothing else.\<close>

datatype peer = Inet "u8 list" u32 | Inet6 "u8 list" u32 | OtherFamily

fun get_sockaddr :: "peer \<Rightarrow> conn \<Rightarrow> conn" where
  "get_sockaddr (Inet ip port) c = c\<lparr>c_host := ip, c_port := port\<rparr>"
| "get_sockaddr (Inet6 ip port) c = c\<lparr>c_host := ip, c_port := port\<rparr>"
| "get_sockaddr OtherFamily c = c"

definition netmt_accept :: "nat \<Rightarrow> u32 \<Rightarrow> peer \<Rightarrow> server \<Rightarrow> server outcome" where
  "netmt_accept io fd peer s =
     (let conn0 = \<lparr>c_io = io, c_fd = fd, c_host = [], c_port = 0, c_client = zero_client,
                   c_flag = 0, c_buffer = [], c_buffer_max_size = int DATABUF,
                   c_buffer_current_size = 0\<rparr>
      in if s_mutex s then Fault Deadlock
         else Cont (s\<lparr>clients := get_sockaddr peer conn0 # clients s\<rparr>))"

text \<open>\<open>netmt_close\<close> unlinks and frees the connection whose \<open>userdata\<close> the event has, if any.\<close>

definition netmt_close :: "nat \<Rightarrow> server \<Rightarrow> server outcome" where
  "netmt_close io s =
     (if \<exists>c \<in> set (clients s). c_io c = io then
        (if s_mutex s then Fault Deadlock
         else Cont (s\<lparr>clients := filter (\<lambda>c. c_io c \<noteq> io) (clients s)\<rparr>))
      else Cont s)"

definition find_conn :: "nat \<Rightarrow> server \<Rightarrow> conn option" where
  "find_conn io s = find (\<lambda>c. c_io c = io) (clients s)"

definition map_conn :: "(conn \<Rightarrow> bool) \<Rightarrow> (conn \<Rightarrow> conn) \<Rightarrow> server \<Rightarrow> server" where
  "map_conn P f s = s\<lparr>clients := map (\<lambda>c. if P c then f c else c) (clients s)\<rparr>"

text \<open>The loops of the form: write the message to every client whose descriptor matches.\<close>

definition write_matching :: "(conn \<Rightarrow> bool) \<Rightarrow> netmt_command \<Rightarrow> server \<Rightarrow> server" where
  "write_matching P m s =
     s\<lparr>s_sent := s_sent s @ map (\<lambda>c. (c_fd c, m)) (filter P (clients s))\<rparr>"

section \<open>Handlers of the messages\<close>

definition stamp_len :: "netmt_command \<Rightarrow> netmt_command" where
  "stamp_len m = m\<lparr>m_len := of_nat sizeof_netmt_command\<rparr>"

definition recv_ping :: "netmt_command \<Rightarrow> server \<Rightarrow> server" where
  "recv_ping c s = (if m_subcommonid c = sub_code NETMT_SUCCESS then s\<lparr>s_ping := Some c\<rparr> else s)"

text \<open>After the first reply \<open>sendbuf\<close> is zeroed, so later clients are compared with fd 0.\<close>

fun heartbeat_writes :: "conn list \<Rightarrow> netmt_command \<Rightarrow> (u32 \<times> netmt_command) list" where
  "heartbeat_writes [] sb = []"
| "heartbeat_writes (c # cs) sb =
     (if c_fd c = m_fd sb then (c_fd c, stamp_len sb) # heartbeat_writes cs zero_command
      else heartbeat_writes cs sb)"

definition heartbeat_ms :: "u64 \<Rightarrow> u64 \<Rightarrow> int" where
  "heartbeat_ms cur ping = sint (ucast ((cur - ping) div 1000) :: u32)"

definition recv_heartbeat :: "env \<Rightarrow> netmt_command \<Rightarrow> server \<Rightarrow> server" where
  "recv_heartbeat e c s =
     (if m_subcommonid c = sub_code NETMT_SUCCESS then
        (let time = heartbeat_ms (e_now e) (m_ping_time c)
         in if time > 0 \<and> time < 15000
            then s\<lparr>s_sent := s_sent s
                     @ heartbeat_writes (clients s) (c\<lparr>m_pong_time := e_now e\<rparr>)\<rparr>
            else s)
      else s)"

definition recv_register :: "netmt_command \<Rightarrow> server \<Rightarrow> server" where
  "recv_register c s =
     (map_conn (\<lambda>k. c_fd k = m_fd c) (\<lambda>k. k\<lparr>c_client := client_info c\<rparr>) s)
       \<lparr>s_commonid := m_commonid c\<rparr>"

definition terminated :: "u8 list \<Rightarrow> bool" where
  "terminated bs \<longleftrightarrow> 0 \<in> set bs"

definition recv_file_open :: "env \<Rightarrow> netmt_command \<Rightarrow> server \<Rightarrow> server outcome" where
  "recv_file_open e c s =
     (if \<not> terminated (take FILE_LEN (m_union c)) then Fault Overread
      else if e_fopen e (localfile c)
      then Cont (s\<lparr>s_fp := StreamOpen (localfile c), s_fsize := 0,
                   s_files := (s_files s)(localfile c \<mapsto> [])\<rparr>)
      else Ret (s\<lparr>s_fp := StreamNull\<rparr>))"

text \<open>\<open>fwrite(data, 1, n, fp)\<close> into the file the stream is open on: the bytes the system took.\<close>

definition append_file ::
  "u8 list \<Rightarrow> u8 list \<Rightarrow> (u8 list \<Rightarrow> u8 list option) \<Rightarrow> (u8 list \<Rightarrow> u8 list option)" where
  "append_file p bs fs = fs(p \<mapsto> (case fs p of None \<Rightarrow> bs | Some old \<Rightarrow> old @ bs))"

definition recv_file_data :: "env \<Rightarrow> netmt_command \<Rightarrow> server \<Rightarrow> server outcome" where
  "recv_file_data e c s =
     (let n = sint (data_size c) in
      if s_mutex s then Fault Deadlock
      else case s_fp s of
        StreamNull \<Rightarrow> Fault NullDeref
      | StreamClosed \<Rightarrow> Fault UseAfterFree
      | StreamOpen p \<Rightarrow>
        if n < 0 \<or> n > int BUFFER_SIZE then Fault Overread
        else
          (let k = min (nat n) (e_fwrite e p (nat n));
               s1 = s\<lparr>s_files := append_file p (take k (file_data c)) (s_files s),
                      s_fsize := s_fsize s + of_nat k\<rparr>
           in if int k < n then Ret (s1\<lparr>s_mutex := True\<rparr>) else Cont s1))"

definition recv_get_end :: "netmt_command \<Rightarrow> server \<Rightarrow> server outcome" where
  "recv_get_end c s =
     (case s_fp s of
        StreamNull \<Rightarrow> Fault NullDeref
      | StreamClosed \<Rightarrow> Fault UseAfterFree
      | StreamOpen p \<Rightarrow>
        (let s1 = s\<lparr>s_fp := StreamClosed\<rparr>
         in if byte_size c = s_fsize s
            then Cont (write_matching (\<lambda>k. c_fd k = m_fd c)
                   (stamp_len (c\<lparr>m_subcommonid := sub_code NETMT_GET_SUCCESS\<rparr>)) s1)
            else Cont s1))"

definition recv_get :: "env \<Rightarrow> netmt_command \<Rightarrow> server \<Rightarrow> server outcome" where
  "recv_get e c s =
     (if m_subcommonid c = sub_code NETMT_FILE_OPEN then recv_file_open e c s
      else if m_subcommonid c = sub_code NETMT_DATA then recv_file_data e c s
      else if m_subcommonid c = sub_code NETMT_GET_END then recv_get_end c s
      else Cont s)"

text \<open>\<open>save_result_info_to_buffer\<close> and \<open>handle_endflag\<close> for the connection the data came on.\<close>

definition save_result_info_to_buffer :: "nat \<Rightarrow> netmt_command \<Rightarrow> server \<Rightarrow> server outcome" where
  "save_result_info_to_buffer io c s =
     (if s_mutex s then Fault Deadlock
      else case find_conn io s of
        None \<Rightarrow> Fault NullDeref
      | Some conn \<Rightarrow>
        (if c_buffer_current_size conn < c_buffer_max_size conn - 4 then
           (if \<not> terminated (m_union c) then Fault Overread
            else Cont (map_conn (\<lambda>k. c_io k = io) (\<lambda>k. k\<lparr>c_buffer := total_result c\<rparr>) s))
         else Cont s))"

definition handle_endflag :: "nat \<Rightarrow> server \<Rightarrow> server outcome" where
  "handle_endflag io s =
     (if s_mutex s then Fault Deadlock
      else case find_conn io s of
        None \<Rightarrow> Fault NullDeref
      | Some conn \<Rightarrow> Cont (map_conn (\<lambda>k. c_io k = io) (\<lambda>k. k\<lparr>c_flag := 1\<rparr>) s))"

definition recv_exec :: "nat \<Rightarrow> netmt_command \<Rightarrow> server \<Rightarrow> server outcome" where
  "recv_exec io c s =
     (if m_subcommonid c = sub_code NETMT_EXEC_SHELL_RESULT
      then bind_out (save_result_info_to_buffer io c s) (handle_endflag io) id
      else Cont s)"

text \<open>The \<open>switch (comm->commonid)\<close> of \<open>tcp_recv\<close>, and \<open>tcp_recv\<close> itself over the global
  receive buffer.\<close>

definition server_handle :: "env \<Rightarrow> nat \<Rightarrow> netmt_command \<Rightarrow> server \<Rightarrow> server outcome" where
  "server_handle e io c s =
     (if m_commonid c = cmd_code NETMT_PING then Cont (recv_ping c s)
      else if m_commonid c = cmd_code NETMT_HEARTBEAT then Cont (recv_heartbeat e c s)
      else if m_commonid c = cmd_code NETMT_REGISTER then Cont (recv_register c s)
      else if m_commonid c = cmd_code NETMT_GET then recv_get e c s
      else if m_commonid c = cmd_code NETMT_SEND then Cont s
      else if m_commonid c = cmd_code NETMT_EXEC then recv_exec io c s
      else Cont s)"

definition server_tcp_recv ::
  "env \<Rightarrow> nat \<Rightarrow> u8 list \<Rightarrow> rx \<Rightarrow> server \<Rightarrow> (rx \<times> server) outcome option" where
  "server_tcp_recv e io buf r s = recv_bytes (server_handle e io) buf r s"

section \<open>Console input\<close>

text \<open>\<open>netmt_send\<close>, the callback of the server's standard input. \<open>buf\<close> is the whole read buffer
  of the loop, of which \<open>n\<close> bytes were read: the line end is completed to CR LF in place, then a
  command word is looked for at the start of the buffer.\<close>

datatype console = ReadStart | ReadStop | CloseIo | StopLoop | NoAction

definition fix_crlf :: "u8 list \<Rightarrow> nat \<Rightarrow> u8 list outcome" where
  "fix_crlf buf n =
     (if n = 0 \<or> n > length buf then Fault Overread
      else let eol = buf ! (n - 1) in
        if eol = 10 \<or> eol = 13 then
          (if n > 1 \<and> buf ! (n - 2) = 13 \<and> eol = 10 then Cont buf
           else if n < length buf then Cont (buf[n - 1 := 13, n := 10])
           else Fault Overrun)
        else Cont buf)"

definition starts_with :: "string \<Rightarrow> u8 list \<Rightarrow> bool" where
  "starts_with w buf \<longleftrightarrow> take (length w) buf = bytes_of w"

definition console_word :: "u8 list \<Rightarrow> console" where
  "console_word buf =
     (if starts_with ''start'' buf then ReadStart
      else if starts_with ''stop'' buf then ReadStop
      else if starts_with ''close'' buf then CloseIo
      else if starts_with ''quit'' buf then StopLoop
      else NoAction)"

definition netmt_send :: "u8 list \<Rightarrow> nat \<Rightarrow> console outcome" where
  "netmt_send buf n = bind_out (fix_crlf buf n) (\<lambda>buf'. Cont (console_word buf')) (\<lambda>_. NoAction)"

section \<open>Which messages the handler processes to the end\<close>

primrec is_open :: "stream \<Rightarrow> bool" where
  "is_open StreamNull = False"
| "is_open (StreamOpen p) = True"
| "is_open StreamClosed = False"

definition writes_all :: "env \<Rightarrow> stream \<Rightarrow> nat \<Rightarrow> bool" where
  "writes_all e fp n = (case fp of StreamOpen p \<Rightarrow> n \<le> e_fwrite e p n | _ \<Rightarrow> False)"

definition data_size_ok :: "netmt_command \<Rightarrow> bool" where
  "data_size_ok c \<longleftrightarrow> 0 \<le> sint (data_size c) \<and> sint (data_size c) \<le> int BUFFER_SIZE"

definition server_ok :: "env \<Rightarrow> nat \<Rightarrow> server \<Rightarrow> netmt_command \<Rightarrow> bool" where
  "server_ok e io s c =
     (if m_commonid c = cmd_code NETMT_GET then
        (if m_subcommonid c = sub_code NETMT_FILE_OPEN
         then terminated (take FILE_LEN (m_union c)) \<and> e_fopen e (localfile c)
         else if m_subcommonid c = sub_code NETMT_DATA
         then \<not> s_mutex s \<and> data_size_ok c \<and> writes_all e (s_fp s) (nat (sint (data_size c)))
         else if m_subcommonid c = sub_code NETMT_GET_END then is_open (s_fp s)
         else True)
      else if m_commonid c = cmd_code NETMT_EXEC then
        (m_subcommonid c = sub_code NETMT_EXEC_SHELL_RESULT \<longrightarrow>
           \<not> s_mutex s \<and> terminated (m_union c) \<and> find_conn io s \<noteq> None)
      else True)"

lemma stream_cases_ok:
  "is_open fp \<Longrightarrow> \<exists>p. fp = StreamOpen p"
  "writes_all e fp n \<Longrightarrow> \<exists>p. fp = StreamOpen p \<and> n \<le> e_fwrite e p n"
  by (cases fp; simp add: writes_all_def)+

lemma find_map_conn [simp]:
  "(\<And>k. c_io (f k) = c_io k) \<Longrightarrow>
     find_conn io (map_conn P f s) =
       map_option (\<lambda>k. if P k then f k else k) (find_conn io s)"
proof -
  assume f: "\<And>k. c_io (f k) = c_io k"
  have "find (\<lambda>c. c_io c = io) (map (\<lambda>c. if P c then f c else c) cs) =
      map_option (\<lambda>k. if P k then f k else k) (find (\<lambda>c. c_io c = io) cs)" for cs
    by (induction cs) (simp_all add: f)
  then show ?thesis by (simp add: find_conn_def map_conn_def)
qed

lemma map_conn_fields [simp]:
  "s_mutex (map_conn P f s) = s_mutex s" "s_fp (map_conn P f s) = s_fp s"
  "s_sent (map_conn P f s) = s_sent s" "s_files (map_conn P f s) = s_files s"
  "s_fsize (map_conn P f s) = s_fsize s" "s_commonid (map_conn P f s) = s_commonid s"
  by (simp_all add: map_conn_def)

lemma server_handle_ok:
  assumes "wf_command c" "server_ok e io s c"
  shows "\<exists>s'. server_handle e io c s = Cont s'"
proof (cases "m_commonid c = cmd_code NETMT_GET")
  case True
  with assms(2) show ?thesis
    by (auto simp: server_ok_def server_handle_def recv_get_def recv_file_open_def
        recv_file_data_def recv_get_end_def Let_def data_size_ok_def
        dest!: stream_cases_ok split: if_splits)
next
  case False
  with assms(2) show ?thesis
    by (auto simp: server_ok_def server_handle_def recv_exec_def save_result_info_to_buffer_def
        handle_endflag_def split: if_splits option.splits)
qed

interpretation srv: message_handler "server_handle e io" "server_ok e io" for e io
  by unfold_locales (rule server_handle_ok)

end
