(* ===== verification/Client.thy ===== *)
theory Client
  imports Server
begin

text \<open>
  The client of \<open>netmtclient.c\<close>: what each message from the server makes it do, the shell
  commands it runs through \<open>popen\<close>, its heartbeat, and the UDP request that makes it open its
  TCP connection again. The values of its configuration file and the output of \<open>popen\<close> are
  part of the environment.
\<close>

section \<open>Environment and state\<close>

record client_conf =
  cf_host :: "u8 list"
  cf_port :: u32
  cf_id :: u32
  cf_area :: "u8 list"
  cf_type :: "u8 list"

record client_env = env +
  e_popen :: "u8 list \<Rightarrow> u8 list list option"
  e_conf :: client_conf

record client =
  k_fp :: stream
  k_filebytes :: u32
  k_files :: "u8 list \<Rightarrow> u8 list option"
  k_mutex :: bool
  k_sent :: "netmt_command list"
  k_closed :: bool
  k_sendbuf :: bool

text \<open>\<open>k_sendbuf\<close>: the local \<open>sendbuf\<close> of the running \<open>tcp_recv\<close> is allocated. \<open>HV_FREE\<close> sets it
  to NULL and the loop goes on, so every later use is a NULL pointer.\<close>

definition k_write :: "netmt_command \<Rightarrow> client \<Rightarrow> client" where
  "k_write m k = k\<lparr>k_sent := k_sent k @ [m]\<rparr>"

lemma k_write_fields [simp]:
  "k_fp (k_write m k) = k_fp k" "k_filebytes (k_write m k) = k_filebytes k"
  "k_files (k_write m k) = k_files k" "k_mutex (k_write m k) = k_mutex k"
  "k_sent (k_write m k) = k_sent k @ [m]" "k_sendbuf (k_write m k) = k_sendbuf k"
  "k_closed (k_write m k) = k_closed k"
  by (simp_all add: k_write_def)

section \<open>Heartbeat\<close>

definition send_heartbeat :: "u64 \<Rightarrow> u32 \<Rightarrow> client \<Rightarrow> client" where
  "send_heartbeat now fd k =
     k_write (zero_command\<lparr>m_commonid := cmd_code NETMT_HEARTBEAT,
       m_subcommonid := sub_code NETMT_SUCCESS, m_len := of_nat sizeof_netmt_command,
       m_fd := fd, m_ping_time := now\<rparr>) k"

definition k_recv_heartbeat :: "netmt_command \<Rightarrow> client \<Rightarrow> client outcome" where
  "k_recv_heartbeat c k =
     (if m_subcommonid c = sub_code NETMT_SUCCESS then
        (if \<not> k_sendbuf k then Fault NullDeref
         else if m_pong_time c < m_ping_time c
         then Cont (k\<lparr>k_closed := True, k_sendbuf := False\<rparr>)
         else Cont k)
      else Cont k)"

section \<open>Registration\<close>

definition conf_fits :: "client_conf \<Rightarrow> bool" where
  "conf_fits f \<longleftrightarrow> length (cf_host f) < SOCKADDR_STRLEN \<and> length (cf_area f) < LEN
     \<and> length (cf_type f) < LEN"

definition conf_client :: "client_conf \<Rightarrow> netmtclient" where
  "conf_client f = \<lparr>cl_host = c_strncpy SOCKADDR_STRLEN (cf_host f), cl_port = cf_port f,
     cl_id = cf_id f, cl_area = c_strncpy LEN (cf_area f), cl_type = c_strncpy LEN (cf_type f)\<rparr>"

definition k_recv_register :: "client_env \<Rightarrow> netmt_command \<Rightarrow> client \<Rightarrow> client outcome" where
  "k_recv_register e c k =
     (if \<not> k_sendbuf k then Fault NullDeref
      else if \<not> conf_fits (e_conf e) then Fault Overrun
      else Cont (k_write (set_client_info (conf_client (e_conf e)) c) k))"

section \<open>Sending a file to the server\<close>

text \<open>The blocks that \<open>fread (data, 1, BUFFER_SIZE, fp)\<close> delivers until it returns 0.\<close>

fun blocks :: "nat \<Rightarrow> 'a list \<Rightarrow> 'a list list" where
  "blocks n xs = (if n = 0 \<or> xs = [] then [] else take n xs # blocks n (drop n xs))"

declare blocks.simps [simp del]

text \<open>One block read into \<open>sendbuf->file.data\<close>, sent, and \<open>data\<close> zeroed again.\<close>

definition data_message :: "u8 list \<Rightarrow> netmt_command \<Rightarrow> netmt_command" where
  "data_message b sb = stamp_len (set_data_size (of_nat (length b))
     (set_file_data (b @ drop (length b) (file_data sb)) sb))"

definition clear_data :: "netmt_command \<Rightarrow> netmt_command" where
  "clear_data sb = set_file_data (replicate BUFFER_SIZE 0) sb"

fun send_blocks ::
  "u8 list list \<Rightarrow> netmt_command \<Rightarrow> u32 \<Rightarrow> netmt_command list \<times> netmt_command \<times> u32" where
  "send_blocks [] sb n = ([], sb, n)"
| "send_blocks (b # bs) sb n =
     (let m = data_message b sb;
          (ms, sb', n') = send_blocks bs (clear_data m) (n + of_nat (length b))
      in (m # ms, sb', n'))"

definition k_recv_get :: "client_env \<Rightarrow> netmt_command \<Rightarrow> client \<Rightarrow> client outcome" where
  "k_recv_get e c k =
     (if m_subcommonid c = cmd_code NETMT_CLIENT then
        (if \<not> terminated (take FILE_LEN (drop 256 (m_union c))) then Fault Overread
         else if \<not> e_fopen e (remotefile c) then Ret (k\<lparr>k_fp := StreamNull\<rparr>)
         else case k_files k (remotefile c) of
           None \<Rightarrow> Ret (k\<lparr>k_fp := StreamNull\<rparr>)
         | Some content \<Rightarrow>
           if \<not> k_sendbuf k then Fault NullDeref
           else if k_mutex k then Fault Deadlock
           else
             (let op = stamp_len (c\<lparr>m_subcommonid := sub_code NETMT_FILE_OPEN\<rparr>);
                  (ms, sb, n) = send_blocks (blocks BUFFER_SIZE content)
                    (op\<lparr>m_subcommonid := sub_code NETMT_DATA\<rparr>) 0;
                  fin = stamp_len (set_byte_size n (sb\<lparr>m_subcommonid := sub_code NETMT_GET_END\<rparr>))
              in Cont (k\<lparr>k_fp := StreamClosed, k_filebytes := n,
                   k_sent := k_sent k @ [op] @ ms @ [fin], k_sendbuf := False\<rparr>)))
      else Cont k)"

section \<open>Receiving a file from the server\<close>

definition k_file_open :: "client_env \<Rightarrow> netmt_command \<Rightarrow> client \<Rightarrow> client outcome" where
  "k_file_open e c k =
     (if \<not> terminated (take FILE_LEN (drop 256 (m_union c))) then Fault Overread
      else if e_fopen e (remotefile c)
      then Cont (k\<lparr>k_fp := StreamOpen (remotefile c), k_filebytes := 0,
                   k_files := (k_files k)(remotefile c \<mapsto> [])\<rparr>)
      else Ret (k\<lparr>k_fp := StreamNull\<rparr>))"

definition k_file_data :: "client_env \<Rightarrow> netmt_command \<Rightarrow> client \<Rightarrow> client outcome" where
  "k_file_data e c k =
     (let n = sint (data_size c) in
      if k_mutex k then Fault Deadlock
      else case k_fp k of
        StreamNull \<Rightarrow> Fault NullDeref
      | StreamClosed \<Rightarrow> Fault UseAfterFree
      | StreamOpen p \<Rightarrow>
        if n < 0 \<or> n > int BUFFER_SIZE then Fault Overread
        else
          (let w = min (nat n) (e_fwrite e p (nat n));
               k1 = k\<lparr>k_files := append_file p (take w (file_data c)) (k_files k),
                      k_filebytes := k_filebytes k + of_nat w\<rparr>
           in if int w < n then Ret (k1\<lparr>k_mutex := True\<rparr>) else Cont k1))"

definition k_send_end :: "netmt_command \<Rightarrow> client \<Rightarrow> client outcome" where
  "k_send_end c k =
     (case k_fp k of
        StreamNull \<Rightarrow> Fault NullDeref
      | StreamClosed \<Rightarrow> Fault UseAfterFree
      | StreamOpen p \<Rightarrow>
        (let k1 = k\<lparr>k_fp := StreamClosed\<rparr>
         in if byte_size c = k_filebytes k
            then (if \<not> k_sendbuf k then Fault NullDeref
                  else Cont (k_write (c\<lparr>m_subcommonid := sub_code NETMT_SEND_SUCCESS\<rparr>) k1))
            else Cont k1))"

definition k_recv_send :: "client_env \<Rightarrow> netmt_command \<Rightarrow> client \<Rightarrow> client outcome" where
  "k_recv_send e c k =
     (if m_subcommonid c = sub_code NETMT_FILE_OPEN then k_file_open e c k
      else if m_subcommonid c = sub_code NETMT_DATA then k_file_data e c k
      else if m_subcommonid c = sub_code NETMT_SEND_END then k_send_end c k
      else Cont k)"

section \<open>Shell commands\<close>

text \<open>\<open>exec_command\<close> evaluates \<open>strlen (buff - 1)\<close> for every line: a read before the array.\<close>

definition exec_command :: "client_env \<Rightarrow> u8 list \<Rightarrow> client \<Rightarrow> client outcome" where
  "exec_command e cmd k =
     (case e_popen e cmd of
        None \<Rightarrow> Cont k
      | Some [] \<Rightarrow> Cont (k_write (zero_command\<lparr>m_cmdstr := c_strncpy BUFFER_SIZE
            (bytes_of ''shell exec success.''), m_commonid := cmd_code NETMT_EXEC,
            m_subcommonid := sub_code NETMT_EXEC_SHELL_SUCCESS,
            m_len := of_nat sizeof_netmt_command\<rparr>) k)
      | Some (l # ls) \<Rightarrow> Fault Overread)"

text \<open>The lines of the output, each followed by CR, are appended to \<open>tmpbuffer\<close> until it holds more
  than \<open>POPEN_SIZE - 10\<close> bytes. The check comes after the two \<open>strcat\<close>.\<close>

fun collect_output :: "u8 list \<Rightarrow> u8 list list \<Rightarrow> u8 list outcome" where
  "collect_output acc [] = Cont acc"
| "collect_output acc (l # ls) =
     (let acc' = acc @ cstr l @ [13] in
      if cstr l = [] then Fault Overread
      else if length acc' \<ge> POPEN_SIZE then Fault Overrun
      else if length acc' > POPEN_SIZE - 10 then Cont acc'
      else collect_output acc' ls)"

definition result_message :: "u8 list \<Rightarrow> netmt_command" where
  "result_message out = zero_command\<lparr>m_union := c_strncpy POPEN_SIZE out,
     m_commonid := cmd_code NETMT_EXEC, m_subcommonid := sub_code NETMT_EXEC_SHELL_RESULT,
     m_len := of_nat sizeof_netmt_command, m_flag := 1\<rparr>"

definition exec_command_with_return :: "client_env \<Rightarrow> u8 list \<Rightarrow> client \<Rightarrow> client outcome" where
  "exec_command_with_return e cmd k =
     (case e_popen e cmd of
        None \<Rightarrow> Cont k
      | Some ls \<Rightarrow>
        bind_out (collect_output [] ls) (\<lambda>out. Cont (k_write (result_message out) k)) (\<lambda>_. k))"

definition k_recv_exec :: "client_env \<Rightarrow> netmt_command \<Rightarrow> client \<Rightarrow> client outcome" where
  "k_recv_exec e c k =
     (if \<not> terminated (m_cmdstr c) then Fault Overread
      else let eol = m_cmdstr c ! 1023 in
        if eol = 10 \<or> eol = 13 then Cont k
        else if starts_with ''ifconfig cmd'' (m_cmdstr c)
        then exec_command e (bytes_of ''ifconfig'') k
        else exec_command_with_return e (cstr (m_cmdstr c)) k)"

section \<open>The receive callback\<close>

definition client_handle :: "client_env \<Rightarrow> netmt_command \<Rightarrow> client \<Rightarrow> client outcome" where
  "client_handle e c k =
     (if m_commonid c = cmd_code NETMT_HEARTBEAT then k_recv_heartbeat c k
      else if m_commonid c = cmd_code NETMT_REGISTER then k_recv_register e c k
      else if m_commonid c = cmd_code NETMT_GET then k_recv_get e c k
      else if m_commonid c = cmd_code NETMT_SEND then k_recv_send e c k
      else if m_commonid c = cmd_code NETMT_EXEC then k_recv_exec e c k
      else Cont k)"

text \<open>\<open>sendbuf\<close> is allocated anew in every call of \<open>tcp_recv\<close>.\<close>

definition client_tcp_recv ::
  "client_env \<Rightarrow> u8 list \<Rightarrow> rx \<Rightarrow> client \<Rightarrow> (rx \<times> client) outcome option" where
  "client_tcp_recv e buf r k = recv_bytes (client_handle e) buf r (k\<lparr>k_sendbuf := True\<rparr>)"

fun client_stream ::
  "client_env \<Rightarrow> u8 list list \<Rightarrow> rx \<Rightarrow> client \<Rightarrow> (rx \<times> client) outcome option" where
  "client_stream e [] r k = Some (Cont (r, k))"
| "client_stream e (b # bs) r k =
     (case client_tcp_recv e b r k of
        None \<Rightarrow> None
      | Some (Fault f) \<Rightarrow> Some (Fault f)
      | Some (Ret (r', k')) \<Rightarrow> client_stream e bs r' k'
      | Some (Cont (r', k')) \<Rightarrow> client_stream e bs r' k')"

text \<open>No message makes \<open>sendbuf\<close> valid again: where it is valid at the end of a stream, it was
  valid all the time, and the allocation in each call changed nothing.\<close>

lemma client_handle_sendbuf:
  "client_handle e c k = Cont k' \<or> client_handle e c k = Ret k' \<Longrightarrow> k_sendbuf k' \<Longrightarrow> k_sendbuf k"
  by (cases "k_sendbuf k")
    (auto simp: client_handle_def k_recv_heartbeat_def k_recv_register_def k_recv_get_def
      k_recv_send_def k_file_open_def k_file_data_def k_send_end_def k_recv_exec_def exec_command_def
      exec_command_with_return_def Let_def split: if_splits option.splits stream.splits list.splits
      outcome.splits prod.splits elim!: bind_out.elims)

lemma client_stream_eq:
  assumes "recv_stream (client_handle e) bs r k = Some (Cont (r', k'))" "k_sendbuf k'"
  shows "client_stream e bs r k = Some (Cont (r', k'))"
  using assms(1)
proof (induction bs arbitrary: r k)
  case (Cons b bs)
  have "k_sendbuf k"
    using Cons.prems assms(2) by (rule recv_stream_backwards) (rule client_handle_sendbuf)
  then have "k\<lparr>k_sendbuf := True\<rparr> = k" by simp
  then show ?case
    using Cons by (auto simp: client_tcp_recv_def split: option.splits outcome.splits prod.splits)
qed simp

section \<open>Console input and the UDP request\<close>

definition tcp_stdin :: "u8 list \<Rightarrow> console" where
  "tcp_stdin buf = console_word buf"

definition udp_stdin :: "u8 list \<Rightarrow> console" where
  "udp_stdin buf = console_word buf"

text \<open>\<open>netmt_setTcp\<close> connects to the address in the message and sends it back as a success.\<close>

definition netmt_setTcp :: "netmt_command \<Rightarrow> client \<Rightarrow> client" where
  "netmt_setTcp c k = k_write (stamp_len (c\<lparr>m_subcommonid := sub_code NETMT_SUCCESS\<rparr>)) k"

definition udp_recv :: "netmt_command \<Rightarrow> client \<Rightarrow> client" where
  "udp_recv c k = (if m_commonid c = cmd_code NETMT_PING then netmt_setTcp c k else k)"

section \<open>Which messages the handler processes to the end\<close>

definition output_fits :: "u8 list list \<Rightarrow> bool" where
  "output_fits ls \<longleftrightarrow> (\<forall>l \<in> set ls. cstr l \<noteq> [])
     \<and> length (concat (map (\<lambda>l. cstr l @ [13]) ls)) < POPEN_SIZE"

definition client_ok :: "client_env \<Rightarrow> client \<Rightarrow> netmt_command \<Rightarrow> bool" where
  "client_ok e k c =
     (if m_commonid c = cmd_code NETMT_HEARTBEAT then k_sendbuf k
      else if m_commonid c = cmd_code NETMT_REGISTER then k_sendbuf k \<and> conf_fits (e_conf e)
      else if m_commonid c = cmd_code NETMT_GET then
        (m_subcommonid c = cmd_code NETMT_CLIENT \<longrightarrow>
           terminated (take FILE_LEN (drop 256 (m_union c))) \<and> e_fopen e (remotefile c)
           \<and> k_files k (remotefile c) \<noteq> None \<and> k_sendbuf k \<and> \<not> k_mutex k)
      else if m_commonid c = cmd_code NETMT_SEND then
        (if m_subcommonid c = sub_code NETMT_FILE_OPEN
         then terminated (take FILE_LEN (drop 256 (m_union c))) \<and> e_fopen e (remotefile c)
         else if m_subcommonid c = sub_code NETMT_DATA
         then \<not> k_mutex k \<and> data_size_ok c
           \<and> writes_all (env.truncate e) (k_fp k) (nat (sint (data_size c)))
         else if m_subcommonid c = sub_code NETMT_SEND_END then is_open (k_fp k) \<and> k_sendbuf k
         else True)
      else if m_commonid c = cmd_code NETMT_EXEC then
        terminated (m_cmdstr c) \<and> \<not> starts_with ''ifconfig cmd'' (m_cmdstr c)
        \<and> (case e_popen e (cstr (m_cmdstr c)) of None \<Rightarrow> True | Some ls \<Rightarrow> output_fits ls)
      else True)"

lemma collect_output_fits:
  "\<forall>l \<in> set ls. cstr l \<noteq> [] \<Longrightarrow>
   length (acc @ concat (map (\<lambda>l. cstr l @ [13]) ls)) < POPEN_SIZE \<Longrightarrow>
     \<exists>out. collect_output acc ls = Cont out
       \<and> prefix out (acc @ concat (map (\<lambda>l. cstr l @ [13]) ls))
       \<and> (length (acc @ concat (map (\<lambda>l. cstr l @ [13]) ls)) \<le> POPEN_SIZE - 10
          \<longrightarrow> out = acc @ concat (map (\<lambda>l. cstr l @ [13]) ls))"
proof (induction ls arbitrary: acc)
  case (Cons l ls)
  then show ?case
    using Cons.IH [of "acc @ cstr l @ [13]"] by (auto simp: Let_def)
qed simp

lemma client_handle_ok:
  assumes "wf_command c" "client_ok e k c"
  shows "\<exists>k'. client_handle e c k = Cont k'"
proof -
  consider (hb) "m_commonid c = cmd_code NETMT_HEARTBEAT"
    | (reg) "m_commonid c = cmd_code NETMT_REGISTER"
    | (get) "m_commonid c = cmd_code NETMT_GET"
    | (send) "m_commonid c = cmd_code NETMT_SEND"
    | (exec) "m_commonid c = cmd_code NETMT_EXEC"
    | (other) "m_commonid c \<notin> cmd_code `
        {NETMT_HEARTBEAT, NETMT_REGISTER, NETMT_GET, NETMT_SEND, NETMT_EXEC}"
    by auto
  then show ?thesis
  proof cases
    case hb
    with assms show ?thesis by (simp add: client_handle_def client_ok_def k_recv_heartbeat_def)
  next
    case reg
    with assms show ?thesis by (simp add: client_handle_def client_ok_def k_recv_register_def)
  next
    case get
    with assms show ?thesis
      by (auto simp: client_handle_def client_ok_def k_recv_get_def Let_def split: prod.splits)
  next
    case send
    with assms show ?thesis
      by (auto simp: client_handle_def client_ok_def k_recv_send_def k_file_open_def
          k_file_data_def k_send_end_def Let_def data_size_ok_def env.defs
          dest!: stream_cases_ok split: if_splits)
  next
    case exec
    with assms show ?thesis
      using collect_output_fits [of _ "[]"]
      by (fastforce simp: client_handle_def client_ok_def k_recv_exec_def output_fits_def
          exec_command_with_return_def Let_def split: option.splits if_splits)
  next
    case other
    then show ?thesis by (auto simp: client_handle_def)
  qed
qed

interpretation cli: message_handler "client_handle e" "client_ok e" for e
  by unfold_locales (rule client_handle_ok)

end
