(* ===== verification/Cvector.thy ===== *)
theory Cvector
  imports Prelude
begin

text \<open>
  The growing pointer vector of \<open>vector.c\<close> (command tables, argument vectors, the tables of
  sessions). The state is the C struct; what clients rely on is the abstract view
  \<open>slots\<close>, and the contract of that view is the interface \<open>slot_table\<close>.
\<close>

section \<open>The structure and its operations\<close>

record 'a vec =
  v_alloced :: nat
  v_max :: nat
  v_index :: "'a option list"

definition vector_init :: "nat \<Rightarrow> 'a vec" where
  "vector_init sz = (let n = if sz = 0 then 1 else sz
     in \<lparr>v_alloced = n, v_max = 0, v_index = replicate n None\<rparr>)"

definition vector_copy :: "'a vec \<Rightarrow> 'a vec" where
  "vector_copy v = \<lparr>v_alloced = v_alloced v, v_max = v_max v,
     v_index = take (v_alloced v) (v_index v)\<rparr>"

definition vector_double :: "'a vec \<Rightarrow> 'a vec" where
  "vector_double v = v\<lparr>v_alloced := 2 * v_alloced v,
     v_index := v_index v @ replicate (v_alloced v) None\<rparr>"

text \<open>A vector has at least one slot (\<open>vector_init\<close>); with none, the C recursion would not end.\<close>

function vector_ensure :: "nat \<Rightarrow> 'a vec \<Rightarrow> 'a vec" where
  "vector_ensure num v =
     (if v_alloced v > num \<or> v_alloced v = 0 then v else vector_ensure num (vector_double v))"
  by pat_completeness auto
termination
  by (relation "measure (\<lambda>(num, v). Suc num - v_alloced v)") (auto simp: vector_double_def)

declare vector_ensure.simps [simp del]

fun empty_slot :: "'a option list \<Rightarrow> nat" where
  "empty_slot [] = 0"
| "empty_slot (None # xs) = 0"
| "empty_slot (Some x # xs) = Suc (empty_slot xs)"

definition vector_empty_slot :: "'a vec \<Rightarrow> nat" where
  "vector_empty_slot v = empty_slot (take (v_max v) (v_index v))"

definition vector_set_index :: "nat \<Rightarrow> 'a option \<Rightarrow> 'a vec \<Rightarrow> 'a vec" where
  "vector_set_index i x v =
     (let v1 = vector_ensure i v
      in v1\<lparr>v_index := (v_index v1)[i := x], v_max := (if v_max v1 \<le> i then i + 1 else v_max v1)\<rparr>)"

definition vector_set :: "'a option \<Rightarrow> 'a vec \<Rightarrow> 'a vec" where
  "vector_set x v = vector_set_index (vector_empty_slot v) x v"

definition vector_lookup :: "'a vec \<Rightarrow> nat \<Rightarrow> 'a option" where
  "vector_lookup v i = (if i \<ge> v_max v then None else v_index v ! i)"

definition vector_lookup_ensure :: "nat \<Rightarrow> 'a vec \<Rightarrow> 'a option \<times> 'a vec" where
  "vector_lookup_ensure i v = (let v1 = vector_ensure i v in (v_index v1 ! i, v1))"

text \<open>The loop of \<open>vector_unset\<close>: below slot \<open>i\<close>, lower \<open>max\<close> past every NULL.\<close>

fun unset_loop :: "nat \<Rightarrow> 'a option list \<Rightarrow> nat \<Rightarrow> nat" where
  "unset_loop 0 xs m = m"
| "unset_loop (Suc i) xs m = (if xs ! i = None \<and> m \<noteq> 0 then unset_loop i xs (m - 1) else m)"

definition vector_unset :: "nat \<Rightarrow> 'a vec \<Rightarrow> 'a vec" where
  "vector_unset i v =
     (if i \<ge> v_alloced v then v
      else let xs = (v_index v)[i := None]
        in v\<lparr>v_index := xs, v_max := (if i + 1 = v_max v then unset_loop i xs (v_max v - 1) else v_max v)\<rparr>)"

definition vector_count :: "'a vec \<Rightarrow> nat" where
  "vector_count v = length (filter (\<lambda>x. x \<noteq> None) (take (v_max v) (v_index v)))"

section \<open>Well-formedness and the abstract view\<close>

definition vec_ok :: "'a vec \<Rightarrow> bool" where
  "vec_ok v \<longleftrightarrow> 0 < v_alloced v \<and> length (v_index v) = v_alloced v \<and> v_max v \<le> v_alloced v
     \<and> (\<forall>i < v_alloced v. v_max v \<le> i \<longrightarrow> v_index v ! i = None)"

definition slots :: "'a vec \<Rightarrow> 'a option list" where
  "slots v = take (v_max v) (v_index v)"

lemma length_slots [simp]: "vec_ok v \<Longrightarrow> length (slots v) = v_max v"
  by (simp add: slots_def vec_ok_def)

lemma vec_ok_init [simp, inv_intros]: "vec_ok (vector_init n)"
  by (simp add: vec_ok_def vector_init_def Let_def)

lemma slots_init [simp]: "slots (vector_init n) = []"
  by (simp add: slots_def vector_init_def Let_def)

lemma vec_ok_copy [simp, inv_intros]: "vec_ok v \<Longrightarrow> vec_ok (vector_copy v)"
  by (simp add: vec_ok_def vector_copy_def)

lemma slots_copy [simp]: "vec_ok v \<Longrightarrow> slots (vector_copy v) = slots v"
  by (simp add: slots_def vector_copy_def vec_ok_def)

lemma vector_double_ok:
  "vec_ok v \<Longrightarrow> vec_ok (vector_double v) \<and> slots (vector_double v) = slots v
     \<and> v_max (vector_double v) = v_max v"
  by (auto simp: vec_ok_def vector_double_def slots_def nth_append)

text \<open>Growing never changes what is in the vector, and afterwards the slot exists.\<close>

lemma vector_ensure_ok:
  "vec_ok v \<Longrightarrow> vec_ok (vector_ensure num v) \<and> slots (vector_ensure num v) = slots v
     \<and> v_max (vector_ensure num v) = v_max v \<and> num < v_alloced (vector_ensure num v)"
proof (induction num v rule: vector_ensure.induct)
  case (1 num v)
  then show ?case
    by (subst (1 2 3 4) vector_ensure.simps) (auto simp: vec_ok_def [of v] vector_double_ok)
qed

lemma empty_slot_le: "empty_slot xs \<le> length xs"
  by (induction xs rule: empty_slot.induct) auto

definition put_slot :: "nat \<Rightarrow> 'a option \<Rightarrow> 'a option list \<Rightarrow> 'a option list" where
  "put_slot i x xs = (if i < length xs then xs[i := x]
     else xs @ replicate (i - length xs) None @ [x])"

lemma vector_set_index_ok:
  assumes "vec_ok v"
  shows "vec_ok (vector_set_index i x v)" "slots (vector_set_index i x v) = put_slot i x (slots v)"
proof -
  define v1 where "v1 = vector_ensure i v"
  have v1: "vec_ok v1" "slots v1 = slots v" "v_max v1 = v_max v" "i < v_alloced v1"
    using vector_ensure_ok [OF assms, of i] by (simp_all add: v1_def)
  then show "vec_ok (vector_set_index i x v)"
    by (auto simp: vector_set_index_def vec_ok_def Let_def v1_def [symmetric] nth_list_update)
  show "slots (vector_set_index i x v) = put_slot i x (slots v)"
  proof (cases "i < v_max v")
    case True
    then show ?thesis
      using v1 assms by (simp add: vector_set_index_def Let_def v1_def [symmetric] slots_def put_slot_def
          take_update_swap vec_ok_def)
  next
    case False
    have "take (Suc i) ((v_index v1)[i := x]) = slots v @ replicate (i - v_max v) None @ [x]"
    proof (rule nth_equalityI)
      show "length (take (Suc i) ((v_index v1)[i := x])) =
          length (slots v @ replicate (i - v_max v) None @ [x])"
        using v1 False assms by (simp add: vec_ok_def)
      fix j assume "j < length (take (Suc i) ((v_index v1)[i := x]))"
      then have j: "j \<le> i" "j < v_alloced v1" using v1 by (auto simp: vec_ok_def)
      have s: "j < v_max v \<Longrightarrow> slots v ! j = v_index v1 ! j"
        using v1(2,3) by (metis nth_take slots_def)
      show "take (Suc i) ((v_index v1)[i := x]) ! j = (slots v @ replicate (i - v_max v) None @ [x]) ! j"
        using v1 False assms j s
        by (cases "j < v_max v"; cases "j = i") (auto simp: vec_ok_def nth_append)
    qed
    then show ?thesis
      using v1 False assms
      by (simp add: vector_set_index_def Let_def v1_def [symmetric] slots_def [of "_\<lparr>v_index := _, v_max := _\<rparr>"]
          put_slot_def)
  qed
qed

fun set_slot :: "'a option \<Rightarrow> 'a option list \<Rightarrow> 'a option list" where
  "set_slot x [] = [x]"
| "set_slot x (None # xs) = x # xs"
| "set_slot x (Some y # xs) = Some y # set_slot x xs"

lemma set_slot_put: "set_slot x xs = put_slot (empty_slot xs) x xs"
  by (induction x xs rule: set_slot.induct) (auto simp: put_slot_def)

lemma vector_set_ok:
  assumes "vec_ok v"
  shows "vec_ok (vector_set x v)" "slots (vector_set x v) = set_slot x (slots v)"
  using vector_set_index_ok [OF assms] by (simp_all add: vector_set_def vector_empty_slot_def set_slot_put slots_def)

lemma vector_lookup_slots: "vec_ok v \<Longrightarrow> vector_lookup v i = (if i < length (slots v) then slots v ! i else None)"
  by (simp add: vector_lookup_def) (simp add: slots_def)

definition drop_nulls :: "'a option list \<Rightarrow> 'a option list" where
  "drop_nulls xs = rev (dropWhile (\<lambda>x. x = None) (rev xs))"

definition unset_slot :: "nat \<Rightarrow> 'a option list \<Rightarrow> 'a option list" where
  "unset_slot i xs = (if i + 1 = length xs then drop_nulls (butlast xs) else xs[i := None])"

lemma unset_loop_take:
  "i \<le> length xs \<Longrightarrow> take (unset_loop i xs i) xs = drop_nulls (take i xs) \<and> unset_loop i xs i \<le> i
     \<and> (\<forall>j. unset_loop i xs i \<le> j \<longrightarrow> j < i \<longrightarrow> xs ! j = None)"
proof (induction i)
  case (Suc i)
  then show ?case
    by (auto simp: drop_nulls_def take_Suc_conv_app_nth less_Suc_eq)
qed (simp add: drop_nulls_def)

lemma vector_unset_ok:
  assumes "vec_ok v"
  shows "vec_ok (vector_unset i v)" "slots (vector_unset i v) = unset_slot i (slots v)"
proof -
  let ?xs = "(v_index v)[i := None]"
  have ok: "0 < v_alloced v" "length (v_index v) = v_alloced v" "v_max v \<le> v_alloced v"
    "\<And>j. j < v_alloced v \<Longrightarrow> v_max v \<le> j \<Longrightarrow> v_index v ! j = None"
    using assms by (auto simp: vec_ok_def)
  show "vec_ok (vector_unset i v)"
  proof (cases "i + 1 = v_max v")
    case True
    define k where "k = unset_loop i ?xs i"
    have k: "k \<le> i" "\<And>j. k \<le> j \<Longrightarrow> j < i \<Longrightarrow> ?xs ! j = None"
      using unset_loop_take [of i ?xs] ok True by (simp_all add: k_def)
    have none: "?xs ! j = None" if "j < v_alloced v" "k \<le> j" for j
      using that k(2) [of j] ok(2) ok(4) [of j] True
      by (cases "j < i"; cases "j = i") (simp_all add: nth_list_update)
    have m: "v_max v - 1 = i" "i < v_alloced v" using True ok by auto
    then have "vector_unset i v = v\<lparr>v_index := ?xs, v_max := k\<rparr>"
      using True by (simp add: vector_unset_def Let_def k_def)
    then show ?thesis using ok(1,2) k(1) m(2) none by (simp add: vec_ok_def)
  next
    case False
    then show ?thesis using ok by (auto simp: vector_unset_def vec_ok_def Let_def nth_list_update)
  qed
  show "slots (vector_unset i v) = unset_slot i (slots v)"
  proof (cases "i < v_alloced v")
    case True
    show ?thesis
    proof (cases "i + 1 = v_max v")
      case last: True
      have m: "min (v_max v) i = i" "v_max v - 1 = i" "v_max v - Suc 0 = i" using last by auto
      have "take i ?xs = butlast (take (v_max v) (v_index v))"
        using last ok by (simp add: butlast_take m)
      then show ?thesis
        using last ok True unset_loop_take [of i ?xs]
        by (simp add: vector_unset_def Let_def slots_def unset_slot_def m)
    next
      case False
      then show ?thesis
        using ok True by (simp add: vector_unset_def Let_def slots_def unset_slot_def take_update_swap)
    qed
  next
    case False
    then show ?thesis
      using ok by (auto simp: vector_unset_def slots_def unset_slot_def list_update_beyond)
  qed
qed

section \<open>The interface of a table of slots\<close>

locale slot_table =
  fixes ok :: "'v \<Rightarrow> bool"
    and view :: "'v \<Rightarrow> 'a option list"
    and put :: "nat \<Rightarrow> 'a option \<Rightarrow> 'v \<Rightarrow> 'v"
    and lookup :: "'v \<Rightarrow> nat \<Rightarrow> 'a option"
  assumes put_ok: "ok v \<Longrightarrow> ok (put i x v)"
    and put_view: "ok v \<Longrightarrow> view (put i x v) = put_slot i x (view v)"
    and lookup_view: "ok v \<Longrightarrow> lookup v i = (if i < length (view v) then view v ! i else None)"
begin

lemma lookup_put: "ok v \<Longrightarrow> lookup (put i x v) j = (if j = i then x else lookup v j)"
  by (auto simp: lookup_view put_ok put_view put_slot_def nth_append nth_Cons')

lemma lookup_put_all:
  "ok v \<Longrightarrow> distinct (map fst xs) \<Longrightarrow> (i, x) \<in> set xs \<Longrightarrow>
     lookup (fold (\<lambda>(i, x). put i x) xs v) i = x"
proof (induction xs arbitrary: v)
  case (Cons y ys)
  have keep: "lookup (fold (\<lambda>(i, x). put i x) ys w) i = lookup w i"
    if "ok w" "i \<notin> fst ` set ys" for w
    using that by (induction ys arbitrary: w) (auto simp: put_ok lookup_put)
  obtain j z where y: "y = (j, z)" by (cases y)
  show ?case
  proof (cases "(i, x) = y")
    case True
    then show ?thesis using Cons.prems keep [of "put i x v"] by (auto simp: put_ok lookup_put)
  next
    case False
    then show ?thesis using Cons.prems Cons.IH [of "put j z v"] by (auto simp: y put_ok)
  qed
qed simp

end

interpretation vec: slot_table vec_ok slots vector_set_index vector_lookup
  by unfold_locales (auto simp: vector_set_index_ok vector_lookup_slots simp del: length_slots)

section \<open>Histories of operations\<close>

datatype 'a vec_op = SetNext "'a option" | SetAt nat "'a option" | Unset nat | EnsureTo nat

fun run_op :: "'a vec_op \<Rightarrow> 'a vec \<Rightarrow> 'a vec" where
  "run_op (SetNext x) v = vector_set x v"
| "run_op (SetAt i x) v = vector_set_index i x v"
| "run_op (Unset i) v = vector_unset i v"
| "run_op (EnsureTo i) v = snd (vector_lookup_ensure i v)"

fun spec_op :: "'a vec_op \<Rightarrow> 'a option list \<Rightarrow> 'a option list" where
  "spec_op (SetNext x) xs = set_slot x xs"
| "spec_op (SetAt i x) xs = put_slot i x xs"
| "spec_op (Unset i) xs = unset_slot i xs"
| "spec_op (EnsureTo i) xs = xs"

lemma run_op_ok: "vec_ok v \<Longrightarrow> vec_ok (run_op a v) \<and> slots (run_op a v) = spec_op a (slots v)"
  by (cases a) (auto simp: vector_set_ok vector_set_index_ok vector_unset_ok vector_lookup_ensure_def
      vector_ensure_ok Let_def)


end
