(* ===== verification/CmdParse.thy ===== *)
theory CmdParse
  imports Cvector
begin

text \<open>
  Command lines and command specifications of \<open>command.c\<close>: splitting an input line into
  words (\<open>cmd_make_strvec\<close>), parsing the specification string of a command and its help text
  (\<open>cmd_make_descvec\<close>), and joining arguments again (\<open>argv_concat\<close>). A C string is the list of
  its characters, so the test for NUL is the test for the end of the list.
\<close>

section \<open>Words of a line\<close>

definition word_end :: "char \<Rightarrow> bool" where
  "word_end c \<longleftrightarrow> c_isspace c \<or> c = CHR 0x0D \<or> c = CHR 0x0A"

lemma word_end_isspace: "word_end c = c_isspace c"
  by (auto simp: word_end_def c_isspace_def)

function strvec_loop :: "string \<Rightarrow> string list" where
  "strvec_loop s =
     (let token = takeWhile (\<lambda>c. \<not> word_end c) s;
          rest = dropWhile word_end (dropWhile (\<lambda>c. \<not> word_end c) s)
      in token # (if rest = [] then [] else strvec_loop rest))"
  by pat_completeness auto
termination
proof (relation "measure length", simp, goal_cases)
  case (1 s token rest)
  have le: "length (dropWhile P xs) \<le> length xs" for P and xs :: string
    by (rule length_dropWhile_le)
  show ?case
  proof (cases s)
    case Nil
    then show ?thesis using 1 by simp
  next
    case (Cons c cs)
    show ?thesis
    proof (cases "word_end c")
      case True
      then show ?thesis using 1 Cons le [of word_end cs] by simp
    next
      case False
      then show ?thesis
        using 1 Cons le [of word_end "dropWhile (\<lambda>c. \<not> word_end c) cs"] le [of "\<lambda>c. \<not> word_end c" cs]
        by simp
    qed
  qed
qed

declare strvec_loop.simps [simp del]

definition cmd_make_strvec :: "string option \<Rightarrow> string list option" where
  "cmd_make_strvec str =
     (case str of
        None \<Rightarrow> None
      | Some s \<Rightarrow>
        (case dropWhile c_isspace s of
           [] \<Rightarrow> None
         | c # cs \<Rightarrow> if c = CHR ''!'' \<or> c = CHR ''#'' then None else Some (strvec_loop (c # cs))))"

definition argv_concat :: "string list \<Rightarrow> nat \<Rightarrow> nat \<Rightarrow> string option" where
  "argv_concat argv argc shift =
     (case drop shift (take argc argv) of
        [] \<Rightarrow> None
      | a # as \<Rightarrow> Some (foldl (\<lambda>str b. str @ '' '' @ b) a as))"

definition token :: "string \<Rightarrow> bool" where
  "token w \<longleftrightarrow> w \<noteq> [] \<and> (\<forall>c \<in> set w. \<not> c_isspace c)"

lemma tokenE:
  assumes "token w"
  obtains c cs where "w = c # cs" "\<not> c_isspace c" "\<forall>c \<in> set cs. \<not> c_isspace c"
  using assms by (cases w) (auto simp: token_def)

lemma strvec_loop_word:
  assumes "token w" "list_all c_isspace sp" "sp = [] \<longrightarrow> s = []" "s = [] \<or> \<not> c_isspace (hd s)"
  shows "strvec_loop (w @ sp @ s) = w # (if s = [] then [] else strvec_loop s)"
proof -
  have t: "takeWhile (\<lambda>c. \<not> c_isspace c) (w @ sp @ s) = w"
    using assms by (cases sp) (auto simp: token_def takeWhile_append2)
  have d: "dropWhile (\<lambda>c. \<not> c_isspace c) (w @ sp @ s) = sp @ s"
    using assms by (cases sp) (auto simp: token_def dropWhile_append2)
  have "dropWhile c_isspace (sp @ s) = s"
    using assms by (cases s) (auto simp: list_all_iff dropWhile_append2)
  then show ?thesis
    by (subst strvec_loop.simps) (simp add: word_end_isspace [abs_def] t d)
qed

text \<open>A line made of words and white space between, before and behind them.\<close>

fun line_of :: "(string \<times> string) list \<Rightarrow> string" where
  "line_of [] = []"
| "line_of ((w, sp) # ws) = w @ sp @ line_of ws"

fun spaced :: "(string \<times> string) list \<Rightarrow> bool" where
  "spaced [] = True"
| "spaced [(w, sp)] = (token w \<and> list_all c_isspace sp)"
| "spaced ((w, sp) # ws) = (token w \<and> list_all c_isspace sp \<and> sp \<noteq> [] \<and> spaced ws)"

lemma spaced_Cons: "spaced ((w, sp) # ws) \<Longrightarrow> token w \<and> list_all c_isspace sp \<and> spaced ws \<and> (sp = [] \<longrightarrow> ws = [])"
  by (cases ws) auto

lemma line_of_hd: "spaced ws \<Longrightarrow> line_of ws = [] \<or> \<not> c_isspace (hd (line_of ws))"
  by (cases ws) (auto dest!: spaced_Cons elim!: tokenE)

lemma line_of_Nil: "spaced ws \<Longrightarrow> (line_of ws = []) = (ws = [])"
  by (cases ws) (auto dest!: spaced_Cons elim!: tokenE)

lemma strvec_loop_line: "spaced ws \<Longrightarrow> ws \<noteq> [] \<Longrightarrow> strvec_loop (line_of ws) = map fst ws"
proof (induction ws)
  case (Cons p ws)
  obtain w sp where p: "p = (w, sp)" by (cases p)
  then have s: "token w" "list_all c_isspace sp" "spaced ws" "sp = [] \<longrightarrow> ws = []"
    using Cons.prems(1) spaced_Cons [of w sp ws] by auto
  then have "strvec_loop (line_of (p # ws)) = w # (if line_of ws = [] then [] else strvec_loop (line_of ws))"
    using strvec_loop_word [OF s(1,2) _ line_of_hd [OF s(3)]] by (simp add: p)
  then show ?case using s Cons.IH by (cases "ws = []") (auto simp: line_of_Nil p)
qed simp

lemma make_strvec_line:
  assumes "spaced ws" "list_all c_isspace lead"
  shows "cmd_make_strvec (Some (lead @ line_of ws)) =
    (if ws = [] \<or> hd (line_of ws) \<in> {CHR ''!'', CHR ''#''} then None else Some (map fst ws))"
proof -
  have "dropWhile c_isspace (lead @ line_of ws) = line_of ws"
    using assms line_of_hd [OF assms(1)]
    by (cases "line_of ws") (auto simp: list_all_iff dropWhile_append2)
  then show ?thesis
    using assms strvec_loop_line [of ws] line_of_Nil [of ws]
    by (auto simp: cmd_make_strvec_def split: list.splits)
qed

text \<open>C22. Splitting a line gives exactly its words: any words without white space, any white space
  in front, between and behind. A line that starts with \<open>!\<close> or \<open>#\<close> is a comment, and no words
  are found in an empty line.\<close>

theorem make_strvec_words:
  assumes "spaced ws" "list_all c_isspace lead"
  shows "cmd_make_strvec (Some (lead @ line_of ws)) =
    (if ws = [] \<or> hd (line_of ws) \<in> {CHR ''!'', CHR ''#''} then None else Some (map fst ws))"
  using assms by (rule make_strvec_line)

lemma make_strvec_words_witness:
  "cmd_make_strvec (Some ''  show  version '') = Some [''show'', ''version'']"
  using make_strvec_words [of "[(''show'', ''  ''), (''version'', '' '')]" "''  ''"]
  by (simp add: token_def c_isspace_def)

lemma argv_concat_words:
  "argv \<noteq> [] \<Longrightarrow> \<forall>w \<in> set argv. token w \<Longrightarrow>
     \<exists>ws. argv_concat argv (length argv) 0 = Some (line_of ws) \<and> spaced ws \<and> map fst ws = argv"
proof -
  have *: "\<forall>w \<in> set as. token w \<Longrightarrow> token a \<Longrightarrow>
      \<exists>ws. foldl (\<lambda>str b. str @ '' '' @ b) (p @ a) as = p @ line_of ws \<and> spaced ws \<and> map fst ws = a # as"
    for p a as
  proof (induction as arbitrary: p a)
    case Nil
    then show ?case by (intro exI [where x = "[(a, [])]"]) simp
  next
    case (Cons b as)
    have "\<forall>w \<in> set as. token w" "token b" using Cons.prems by simp_all
    from Cons.IH [OF this, of "p @ a @ '' ''"]
    obtain ws where "foldl (\<lambda>str b. str @ '' '' @ b) ((p @ a @ '' '') @ b) as = (p @ a @ '' '') @ line_of ws"
        "spaced ws" "map fst ws = b # as"
      by (elim exE conjE) (rule that)
    then show ?case
      using Cons.prems by (intro exI [where x = "(a, '' '') # ws"]) (cases ws, auto simp: c_isspace_def)
  qed
  assume "argv \<noteq> []" "\<forall>w \<in> set argv. token w"
  then show ?thesis
    using * [of "tl argv" "hd argv" "[]"] by (cases argv) (auto simp: argv_concat_def)
qed

text \<open>C29. Joining arguments and splitting the result gives the arguments back, unless the first one
  looks like a comment.\<close>

theorem argv_concat_round_trip:
  assumes "argv \<noteq> []" "\<forall>w \<in> set argv. token w" "hd (hd argv) \<notin> {CHR ''!'', CHR ''#''}"
  shows "cmd_make_strvec (argv_concat argv (length argv) 0) = Some argv"
proof -
  obtain ws where ws: "argv_concat argv (length argv) 0 = Some (line_of ws)" "spaced ws" "map fst ws = argv"
    using argv_concat_words [OF assms(1,2)] by blast
  then obtain w sp ws' where w: "ws = (w, sp) # ws'" using assms(1) by (cases ws) auto
  then have "token w" "w = hd argv" using ws spaced_Cons [of w sp ws'] by auto
  then have "hd (line_of ws) \<notin> {CHR ''!'', CHR ''#''}"
    using assms(3) w by (auto elim!: tokenE)
  moreover have "dropWhile c_isspace (line_of ws) = line_of ws"
    using line_of_hd [OF ws(2)] by (cases "line_of ws") auto
  ultimately show ?thesis
    using ws strvec_loop_line [OF ws(2)] line_of_Nil [OF ws(2)] w
    by (auto simp: cmd_make_strvec_def split: list.splits)
qed

lemma argv_concat_round_trip_witness:
  "cmd_make_strvec (argv_concat [''ls'', ''-a''] 2 0) = Some [''ls'', ''-a'']"
  using argv_concat_round_trip [of "[''ls'', ''-a'']"] by (simp add: token_def c_isspace_def numeral_2_eq_2)

end
