(* ===== verification/CmdTable.thy ===== *)
theory CmdTable
  imports CmdParse "HOL-Library.Multiset"
begin

text \<open>
  The command table of \<open>command.c\<close>: the specification of a command (its words, alternatives and
  their help), parsed from two strings when the command is installed; the nodes with their
  command vectors; and the sorting of the table.
\<close>

section \<open>Descriptions\<close>

record desc =
  d_cmd :: string
  d_str :: "string option"

definition line_end :: "char \<Rightarrow> bool" where
  "line_end c \<longleftrightarrow> c = CHR 0x0D \<or> c = CHR 0x0A"

text \<open>The next line of the help text and what is left of it.\<close>

definition cmd_desc_str :: "string option \<Rightarrow> string option \<times> string option" where
  "cmd_desc_str str =
     (case str of
        None \<Rightarrow> (None, None)
      | Some s \<Rightarrow>
        (case dropWhile c_isspace s of
           [] \<Rightarrow> (None, Some s)
         | t \<Rightarrow> (Some (takeWhile (\<lambda>c. \<not> line_end c) t), Some (dropWhile (\<lambda>c. \<not> line_end c) t))))"

definition take_char :: "char \<Rightarrow> nat \<Rightarrow> nat \<times> string \<Rightarrow> nat \<times> string" where
  "take_char x v ms = (case ms of (m, c # cs) \<Rightarrow> if c = x then (v, cs) else (m, c # cs) | (m, []) \<Rightarrow> (m, []))"

text \<open>The punctuation in front of the next word: parentheses switch \<open>multiple\<close>, a bar is legal
  only between them (\<open>None\<close>: the process exits with "Command parse error").\<close>

definition desc_bar :: "nat \<times> string \<Rightarrow> (nat \<times> string) option" where
  "desc_bar ms = (case ms of (m, c # cs) \<Rightarrow>
       if c = CHR ''|'' then (if m = 0 then None else Some (m, cs)) else Some (m, c # cs)
     | (m, []) \<Rightarrow> Some (m, []))"

definition desc_head :: "nat \<Rightarrow> string \<Rightarrow> (nat \<times> string) option" where
  "desc_head m cp =
     (case desc_bar (take_char CHR '')'' 0 (take_char CHR ''('' 1 (m, dropWhile c_isspace cp))) of
        None \<Rightarrow> None
      | Some (m', cp') \<Rightarrow> Some (take_char CHR ''('' 1 (m', dropWhile c_isspace cp')))"

definition desc_stop :: "char \<Rightarrow> bool" where
  "desc_stop c \<longleftrightarrow> c_isspace c \<or> line_end c \<or> c = CHR '')'' \<or> c = CHR ''|''"

definition append_last :: "'a list list \<Rightarrow> 'a \<Rightarrow> 'a list list" where
  "append_last xss x = butlast xss @ [last xss @ [x]]"

lemma length_dropWhile_less: "xs \<noteq> [] \<Longrightarrow> P (hd xs) \<Longrightarrow> length (dropWhile P xs) < length xs"
  by (cases xs) (auto simp: le_imp_less_Suc length_dropWhile_le)

lemma desc_head_shrinks:
  assumes "desc_head m cp = Some (m', c)" "c \<noteq> []"
  shows "length (dropWhile (\<lambda>c. \<not> desc_stop c) c) < length cp"
proof -
  let ?ws = "dropWhile c_isspace"
  have le: "length (?ws xs) \<le> length xs" for xs by (rule length_dropWhile_le)
  have tc: "length (snd (take_char x v ms)) \<le> length (snd ms)" for x v ms
    by (cases ms; cases "snd ms") (auto simp: take_char_def)
  define a where "a = take_char CHR ''('' 1 (m, ?ws cp)"
  define b where "b = take_char CHR '')'' 0 a"
  obtain d where d: "desc_bar b = Some d" and c: "(m', c) = take_char CHR ''('' 1 (fst d, ?ws (snd d))"
    using assms(1) by (auto simp: desc_head_def a_def b_def split: option.splits prod.splits)
  have la: "length (snd a) \<le> length cp" using tc [of "CHR ''(''" 1 "(m, ?ws cp)"] le [of cp] by (simp add: a_def)
  have lb: "length (snd b) \<le> length (snd a)" using tc [of "CHR '')''" 0 a] by (simp add: b_def)
  have ld: "length (snd d) \<le> length (snd b)"
    using d by (auto simp: desc_bar_def split: prod.splits list.splits if_splits)
  have lc: "length c \<le> length (snd d)"
    using tc [of "CHR ''(''" 1 "(fst d, ?ws (snd d))"] le [of "snd d"] c by (metis le_trans snd_conv)
  show ?thesis
  proof (cases "desc_stop (hd c)")
    case False
    then have "length (dropWhile (\<lambda>c. \<not> desc_stop c) c) < length c"
      using assms(2) by (intro length_dropWhile_less) auto
    then show ?thesis using la lb ld lc by simp
  next
    case True
    have "length c < length cp"
    proof (rule ccontr)
      assume "\<not> length c < length cp"
      then have eq: "length (snd a) = length (snd b)" "length (snd d) = length (snd b)"
        "length c = length (snd d)"
        using la lb ld lc by auto
      have b: "b = a"
        using eq(1) by (cases a; cases "snd a") (auto simp: b_def take_char_def split: if_splits)
      have d': "d = b"
        using eq(2) d by (cases b; cases "snd b") (auto simp: desc_bar_def split: if_splits)
      have "?ws (snd d) = snd d \<and> c = snd d"
      proof -
        have l: "length c \<le> length (?ws (snd d))"
          using tc [of "CHR ''(''" 1 "(fst d, ?ws (snd d))"] c by (metis snd_conv)
        then have "length (?ws (snd d)) = length (snd d)" using eq(3) le [of "snd d"] by simp
        then have w: "?ws (snd d) = snd d"
          using length_dropWhile_le [of c_isspace "tl (snd d)"]
          by (cases "snd d") (auto split: if_splits)
        then show ?thesis
          using c eq(3) by (cases "snd d") (auto simp: take_char_def split: if_splits)
      qed
      then have "\<not> c_isspace (hd c)" using assms(2) by (metis hd_dropWhile dropWhile_eq_Cons_conv list.exhaust_sel)
      then have "hd c = CHR '')'' \<or> hd c = CHR ''|''"
        using True by (auto simp: desc_stop_def line_end_def c_isspace_def)
      then show False
        using assms(2) \<open>_ \<and> c = snd d\<close> d d' b b_def
        by (cases a; cases c) (auto simp: take_char_def desc_bar_def split: if_splits)
    qed
    then show ?thesis
      using length_dropWhile_le [of "\<lambda>c. \<not> desc_stop c" c] by (rule le_less_trans [rotated])
  qed
qed

function descvec_loop ::
  "nat \<Rightarrow> string \<Rightarrow> string option \<Rightarrow> desc list list \<Rightarrow> desc list list option" where
  "descvec_loop multiple cp dp allvec =
     (case desc_head multiple cp of
        None \<Rightarrow> None
      | Some (m, c) \<Rightarrow>
        if c = [] then Some allvec
        else
          (let tok = takeWhile (\<lambda>c. \<not> desc_stop c) c;
               rest = dropWhile (\<lambda>c. \<not> desc_stop c) c;
               (str, dp') = cmd_desc_str dp;
               d = \<lparr>d_cmd = tok, d_str = str\<rparr>
           in if m > 1 then descvec_loop (m + 1) rest dp' (append_last allvec d)
              else if m = 1 then descvec_loop (m + 1) rest dp' (allvec @ [[d]])
              else descvec_loop m rest dp' (allvec @ [[d]])))"
  by pat_completeness auto
termination
  by (relation "measure (\<lambda>(m, cp, dp, v). length cp)") (auto dest: desc_head_shrinks)

declare descvec_loop.simps [simp del]

definition cmd_make_descvec :: "string option \<Rightarrow> string option \<Rightarrow> desc list list option" where
  "cmd_make_descvec str descstr =
     (case str of None \<Rightarrow> None | Some s \<Rightarrow> descvec_loop 0 s descstr [])"

section \<open>Result codes\<close>

definition CMD_SUCCESS :: int where "CMD_SUCCESS = 0"
definition CMD_WARNING :: int where "CMD_WARNING = 1"
definition CMD_ERR_NO_MATCH :: int where "CMD_ERR_NO_MATCH = 2"
definition CMD_ERR_AMBIGUOUS :: int where "CMD_ERR_AMBIGUOUS = 3"
definition CMD_ERR_INCOMPLETE :: int where "CMD_ERR_INCOMPLETE = 4"
definition CMD_ERR_EXEED_ARGC_MAX :: int where "CMD_ERR_EXEED_ARGC_MAX = 5"
definition CMD_ERR_NOTHING_TODO :: int where "CMD_ERR_NOTHING_TODO = 6"
definition CMD_COMPLETE_FULL_MATCH :: int where "CMD_COMPLETE_FULL_MATCH = 7"
definition CMD_COMPLETE_MATCH :: int where "CMD_COMPLETE_MATCH = 8"
definition CMD_COMPLETE_LIST_MATCH :: int where "CMD_COMPLETE_LIST_MATCH = 9"
definition CMD_SUCCESS_DAEMON :: int where "CMD_SUCCESS_DAEMON = 10"
definition CMD_ARGC_MAX :: nat where "CMD_ARGC_MAX = 25"

section \<open>Kinds of words\<close>

definition first_char :: "string \<Rightarrow> nat" where
  "first_char s = (case s of [] \<Rightarrow> 0 | c # _ \<Rightarrow> of_char c)"

definition CMD_OPTION :: "string \<Rightarrow> bool" where "CMD_OPTION s \<longleftrightarrow> first_char s = 91"
definition CMD_VARIABLE :: "string \<Rightarrow> bool" where
  "CMD_VARIABLE s \<longleftrightarrow> 65 \<le> first_char s \<and> first_char s \<le> 90 \<or> first_char s = 60"
definition CMD_VARARG :: "string \<Rightarrow> bool" where "CMD_VARARG s \<longleftrightarrow> first_char s = 46"
definition CMD_RANGE :: "string \<Rightarrow> bool" where "CMD_RANGE s \<longleftrightarrow> first_char s = 60"
definition CMD_IPV4 :: "string \<Rightarrow> bool" where "CMD_IPV4 s \<longleftrightarrow> strcmp s ''A.B.C.D'' = 0"
definition CMD_IPV4_PREFIX :: "string \<Rightarrow> bool" where "CMD_IPV4_PREFIX s \<longleftrightarrow> strcmp s ''A.B.C.D/M'' = 0"
definition CMD_IPV6 :: "string \<Rightarrow> bool" where "CMD_IPV6 s \<longleftrightarrow> strcmp s ''X:X::X:X'' = 0"
definition CMD_IPV6_PREFIX :: "string \<Rightarrow> bool" where "CMD_IPV6_PREFIX s \<longleftrightarrow> strcmp s ''X:X::X:X/M'' = 0"

lemmas cmd_kind_defs = CMD_OPTION_def CMD_VARIABLE_def CMD_VARARG_def CMD_RANGE_def first_char_def

text \<open>How many words a command needs at least: up to the first optional one.\<close>

fun cmd_cmdsize :: "desc list list \<Rightarrow> nat" where
  "cmd_cmdsize [] = 0"
| "cmd_cmdsize ([d] # ds) = (if CMD_OPTION (d_cmd d) then 0 else Suc (cmd_cmdsize ds))"
| "cmd_cmdsize (dv # ds) = Suc (cmd_cmdsize ds)"

lemma cmd_cmdsize_le: "cmd_cmdsize sv \<le> length sv"
  by (induction sv rule: cmd_cmdsize.induct) auto

section \<open>Printing and parsing a specification\<close>

text \<open>What a specification consists of: plain words and choices. Words are free of white space and
  of the four punctuation characters.\<close>

definition spec_word :: "string \<Rightarrow> bool" where
  "spec_word w \<longleftrightarrow> w \<noteq> [] \<and> (\<forall>c \<in> set w. \<not> desc_stop c \<and> c \<noteq> CHR ''('')"

datatype spec = Plain string | Choice "string list"

fun spec_ok :: "spec \<Rightarrow> bool" where
  "spec_ok (Plain w) = spec_word w"
| "spec_ok (Choice ws) = (ws \<noteq> [] \<and> (\<forall>w \<in> set ws. spec_word w))"

fun bars :: "string list \<Rightarrow> string" where
  "bars [] = []"
| "bars (w # ws) = ''|'' @ w @ bars ws"

fun print_spec :: "spec \<Rightarrow> string" where
  "print_spec (Plain w) = w"
| "print_spec (Choice ws) = ''('' @ tl (bars ws) @ '')''"

fun print_specs :: "spec list \<Rightarrow> string" where
  "print_specs [] = []"
| "print_specs (s # ss) = '' '' @ print_spec s @ print_specs ss"

fun spec_words :: "spec \<Rightarrow> string list" where
  "spec_words (Plain w) = [w]"
| "spec_words (Choice ws) = ws"

definition cmds :: "desc list list \<Rightarrow> string list list" where
  "cmds v = map (map d_cmd) v"

lemma spec_wordE:
  assumes "spec_word w"
  obtains c cs where "w = c # cs" "\<not> desc_stop c" "c \<noteq> CHR ''(''"
    "\<forall>x \<in> set w. \<not> desc_stop x"
  using assms by (cases w) (auto simp: spec_word_def)

lemma head_word:
  assumes "spec_word w"
  shows "desc_head m (w @ r) = Some (m, w @ r)"
    "m > 0 \<Longrightarrow> desc_head m (''|'' @ w @ r) = Some (m, w @ r)"
    "desc_head m (''('' @ w @ r) = Some (1, w @ r)"
    "desc_head m ('' '' @ w @ r) = Some (m, w @ r)"
    "desc_head m ('' ('' @ w @ r) = Some (1, w @ r)"
    "desc_head m ('') '' @ w @ r) = Some (0, w @ r)"
    "desc_head m ('') ('' @ w @ r) = Some (1, w @ r)"
  using assms
  by (auto elim!: spec_wordE simp: desc_head_def take_char_def desc_bar_def desc_stop_def c_isspace_def)

lemma head_end: "desc_head m [] = Some (m, [])" "desc_head m '')'' = Some (0, [])"
  by (auto simp: desc_head_def take_char_def desc_bar_def c_isspace_def)

lemma split_word:
  assumes "spec_word w" "r = [] \<or> desc_stop (hd r)"
  shows "takeWhile (\<lambda>c. \<not> desc_stop c) (w @ r) = w" "dropWhile (\<lambda>c. \<not> desc_stop c) (w @ r) = r"
  using assms by (cases r; auto elim!: spec_wordE simp: takeWhile_append2 dropWhile_append2)+

lemma spec_word_ne: "spec_word w \<Longrightarrow> w @ r \<noteq> []"
  by (auto simp: spec_word_def)

text \<open>One step of the loop over a word, and what it does to the words collected.\<close>

lemma descvec_step:
  assumes "desc_head m cp = Some (m', w @ r)" "spec_word w" "r = [] \<or> desc_stop (hd r)"
  shows "\<exists>dp' d. d_cmd d = w \<and> descvec_loop m cp dp v = (if m' > 1 then descvec_loop (m' + 1) r dp' (append_last v d)
    else if m' = 1 then descvec_loop 2 r dp' (v @ [[d]]) else descvec_loop m' r dp' (v @ [[d]]))"
proof -
  obtain str dp' where c: "cmd_desc_str dp = (str, dp')" by (cases "cmd_desc_str dp")
  show ?thesis
    using assms split_word [OF assms(2,3)] spec_word_ne [OF assms(2), of "[]"]
    by (intro exI [where x = dp'] exI [where x = "\<lparr>d_cmd = w, d_str = str\<rparr>"])
      (subst descvec_loop.simps, simp add: Let_def c numeral_2_eq_2)
qed

lemma cmds_append [simp]: "cmds (v @ [[d]]) = cmds v @ [[d_cmd d]]"
  by (simp add: cmds_def)

lemma cmds_append_last: "v \<noteq> [] \<Longrightarrow> cmds (append_last v d) = butlast (cmds v) @ [last (cmds v) @ [d_cmd d]]"
  by (simp add: cmds_def append_last_def map_butlast last_map)

lemma parse_bars:
  assumes "\<forall>w \<in> set ws. spec_word w" "m > 1" "v \<noteq> []"
  shows "\<exists>m' dp' v'. descvec_loop m (bars ws @ '')'' @ r) dp v = descvec_loop m' ('')'' @ r) dp' v'
    \<and> cmds v' = butlast (cmds v) @ [last (cmds v) @ ws]"
  using assms
proof (induction ws arbitrary: m dp v)
  case Nil
  moreover have "cmds v \<noteq> []" using Nil by (simp add: cmds_def)
  ultimately show ?case by (metis append_Nil append_Nil2 append_butlast_last_id bars.simps(1))
next
  case (Cons w ws)
  have w: "spec_word w" using Cons.prems by simp
  let ?r = "bars ws @ '')'' @ r"
  have "?r = [] \<or> desc_stop (hd ?r)" by (cases ws) (auto simp: desc_stop_def)
  then obtain dp' d where d: "d_cmd d = w"
    "descvec_loop m (bars (w # ws) @ '')'' @ r) dp v = descvec_loop (m + 1) ?r dp' (append_last v d)"
    using descvec_step [OF head_word(2) [OF w, of m ?r] w, of dp v] Cons.prems(2) by auto
  have v: "append_last v d \<noteq> []" by (simp add: append_last_def)
  obtain m' dp'' v' where "descvec_loop (m + 1) ?r dp' (append_last v d) = descvec_loop m' ('')'' @ r) dp'' v'"
    "cmds v' = butlast (cmds (append_last v d)) @ [last (cmds (append_last v d)) @ ws]"
    using Cons.IH [of "m + 1" "append_last v d" dp'] Cons.prems v by auto
  then show ?case using d Cons.prems(3) by (auto simp: cmds_append_last)
qed

lemma print_specs_stop: "print_specs ss = [] \<or> desc_stop (hd (print_specs ss))"
  by (cases ss) (auto simp: desc_stop_def c_isspace_def)

lemma parse_specs:
  assumes "list_all spec_ok ss" "p = [] \<and> m = 0 \<or> p = '')''"
  shows "\<exists>v'. descvec_loop m (p @ print_specs ss) dp v = Some v' \<and> cmds v' = cmds v @ map spec_words ss"
  using assms
proof (induction ss arbitrary: p m dp v)
  case Nil
  then show ?case by (subst descvec_loop.simps) (auto simp: head_end)
next
  case (Cons s ss)
  note stop = print_specs_stop [of ss]
  show ?case
  proof (cases s)
    case (Plain w)
    then have w: "spec_word w" using Cons.prems(1) by simp
    have "desc_head m (p @ print_specs (s # ss)) = Some (0, w @ print_specs ss)"
      using Cons.prems(2) head_word(4,6) [OF w] Plain by auto
    then obtain dp' d where d: "d_cmd d = w" "descvec_loop m (p @ print_specs (s # ss)) dp v =
        descvec_loop 0 ([] @ print_specs ss) dp' (v @ [[d]])"
      using descvec_step [OF _ w stop] by fastforce
    obtain v' where "descvec_loop 0 ([] @ print_specs ss) dp' (v @ [[d]]) = Some v'"
      "cmds v' = cmds (v @ [[d]]) @ map spec_words ss"
      using Cons.IH [of "[]" 0 dp' "v @ [[d]]"] Cons.prems(1) by auto
    then show ?thesis using d Plain by simp
  next
    case (Choice us)
    then obtain w ws where us: "us = w # ws" and w: "spec_word w" "\<forall>w \<in> set ws. spec_word w"
      using Cons.prems(1) by (cases us) auto
    let ?r = "bars ws @ '')'' @ print_specs ss"
    have "desc_head m (p @ print_specs (s # ss)) = Some (1, w @ ?r)"
      using Cons.prems(2) head_word(5,7) [OF w(1)] Choice us by auto
    moreover have "?r = [] \<or> desc_stop (hd ?r)" by (cases ws) (auto simp: desc_stop_def)
    ultimately obtain dp' d where d: "d_cmd d = w"
      "descvec_loop m (p @ print_specs (s # ss)) dp v = descvec_loop 2 ?r dp' (v @ [[d]])"
      using descvec_step [OF _ w(1)] by fastforce
    obtain m' dp'' v'' where b: "descvec_loop 2 ?r dp' (v @ [[d]]) = descvec_loop m' ('')'' @ print_specs ss) dp'' v''"
      "cmds v'' = butlast (cmds (v @ [[d]])) @ [last (cmds (v @ [[d]])) @ ws]"
      using parse_bars [OF w(2), of 2 "v @ [[d]]" "print_specs ss" dp'] by auto
    obtain v' where "descvec_loop m' ('')'' @ print_specs ss) dp'' v'' = Some v'"
      "cmds v' = cmds v'' @ map spec_words ss"
      using Cons.IH [of "'')''" m' dp'' v''] Cons.prems(1) by auto
    then show ?thesis using b d Choice us by simp
  qed
qed

text \<open>C19. Parsing the specification of a command gives exactly the words and choices it was
  written with, whatever the help text says or lacks.\<close>

theorem descvec_parses_spec:
  assumes "list_all spec_ok ss"
  shows "\<exists>v. cmd_make_descvec (Some (print_specs ss)) doc = Some v \<and> map (map d_cmd) v = map spec_words ss"
  using parse_specs [OF assms, of "[]" 0 doc "[]"] by (simp add: cmd_make_descvec_def cmds_def)

lemma descvec_parses_spec_witness:
  "\<exists>v. cmd_make_descvec (Some '' show (ip|ipv6) NAME'') (Some ''Show'') = Some v
     \<and> map (map d_cmd) v = [[''show''], [''ip'', ''ipv6''], [''NAME'']]"
  using descvec_parses_spec [of "[Plain ''show'', Choice [''ip'', ''ipv6''], Plain ''NAME'']" "Some ''Show''"]
  by (simp add: spec_word_def desc_stop_def line_end_def c_isspace_def)

lemma descvec_loop_nonempty:
  "descvec_loop m cp dp v = Some v' \<Longrightarrow> \<forall>d \<in> set v. d \<noteq> [] \<Longrightarrow> \<forall>d \<in> set v'. d \<noteq> []"
proof (induction m cp dp v rule: descvec_loop.induct)
  case (1 m cp dp v)
  show ?case
  proof (cases "desc_head m cp")
    case None
    then show ?thesis using "1.prems" by (subst (asm) descvec_loop.simps) simp
  next
    case (Some mc)
    obtain m' c where mc: "mc = (m', c)" by (cases mc)
    obtain str dp' where dp: "cmd_desc_str dp = (str, dp')" by (cases "cmd_desc_str dp")
    have ne: "\<forall>x \<in> set (append_last v d). x \<noteq> []" "\<forall>x \<in> set (v @ [[d]]). x \<noteq> []" for d
      using "1.prems"(2) by (auto simp: append_last_def dest: in_set_butlastD)
    show ?thesis
    proof (cases "c = []")
      case True
      then show ?thesis using "1.prems" Some mc by (subst (asm) descvec_loop.simps) simp
    next
      case False
      note IH = "1.IH" [OF Some mc [symmetric] False refl refl refl dp [symmetric] refl]
      show ?thesis
        using "1.prems"(1) Some mc False dp IH ne
        by (subst (asm) descvec_loop.simps) (auto simp: Let_def split: if_splits)
    qed
  qed
qed

lemma descvec_nonempty:
  "cmd_make_descvec str doc = Some v \<Longrightarrow> \<forall>d \<in> set v. d \<noteq> []"
  using descvec_loop_nonempty [of 0 _ doc "[]"] by (auto simp: cmd_make_descvec_def split: option.splits)

section \<open>Elements and nodes\<close>

record 'f cmd_element =
  ce_string :: string
  ce_func :: 'f
  ce_doc :: "string option"
  ce_daemon :: int
  ce_strvec :: "desc list list"
  ce_cmdsize :: nat

datatype node_type =
  AUTH_NODE | VIEW_NODE | AUTH_ENABLE_NODE | ENABLE_NODE | CONFIG_NODE | DEBUG_NODE | AAA_NODE
| KEYCHAIN_NODE | KEYCHAIN_KEY_NODE | INTERFACE_NODE | ZEBRA_NODE | TABLE_NODE | RIP_NODE
| RIPNG_NODE | BGP_NODE | BGP_VPNV4_NODE | BGP_IPV4_NODE | BGP_IPV4M_NODE | BGP_IPV6_NODE
| OSPF_NODE | OSPF6_NODE | MASC_NODE | IRDP_NODE | IP_NODE | ACCESS_NODE | PREFIX_NODE
| ACCESS_IPV6_NODE | PREFIX_IPV6_NODE | AS_LIST_NODE | COMMUNITY_LIST_NODE | RMAP_NODE
| SMUX_NODE | DUMP_NODE | FORWARDING_NODE | VTY_NODE

definition all_nodes :: "node_type list" where
  "all_nodes = [AUTH_NODE, VIEW_NODE, AUTH_ENABLE_NODE, ENABLE_NODE, CONFIG_NODE, DEBUG_NODE, AAA_NODE,
     KEYCHAIN_NODE, KEYCHAIN_KEY_NODE, INTERFACE_NODE, ZEBRA_NODE, TABLE_NODE, RIP_NODE, RIPNG_NODE,
     BGP_NODE, BGP_VPNV4_NODE, BGP_IPV4_NODE, BGP_IPV4M_NODE, BGP_IPV6_NODE, OSPF_NODE, OSPF6_NODE,
     MASC_NODE, IRDP_NODE, IP_NODE, ACCESS_NODE, PREFIX_NODE, ACCESS_IPV6_NODE, PREFIX_IPV6_NODE,
     AS_LIST_NODE, COMMUNITY_LIST_NODE, RMAP_NODE, SMUX_NODE, DUMP_NODE, FORWARDING_NODE, VTY_NODE]"

text \<open>The value of the enumerator: its position in the declaration.\<close>

fun pos_in :: "'a list \<Rightarrow> 'a \<Rightarrow> nat" where
  "pos_in [] x = 0"
| "pos_in (y # ys) x = (if x = y then 0 else Suc (pos_in ys x))"

definition node_num :: "node_type \<Rightarrow> nat" where
  "node_num n = pos_in all_nodes n"

lemma node_num_inject: "(node_num a = node_num b) = (a = b)"
proof -
  have "all_nodes ! node_num n = n" for n
    by (cases n) (simp_all add: node_num_def all_nodes_def)
  then show ?thesis by metis
qed

text \<open>\<open>func\<close> of a node writes the node's part of the configuration: one of three functions of the
  program, or NULL.\<close>

datatype config_writer = Config_write_host | Vty_config_write | Config_write_show_netmt_cmd

record 'f cmd_node =
  cn_node :: node_type
  cn_prompt :: string
  cn_vtysh :: int
  cn_func :: "config_writer option"
  cn_vector :: "'f cmd_element vec"

definition install_node ::
  "'f cmd_node \<Rightarrow> config_writer option \<Rightarrow> 'f cmd_node vec \<Rightarrow> 'f cmd_node vec" where
  "install_node node func v =
     vector_set_index (node_num (cn_node node)) (Some (node\<lparr>cn_func := func, cn_vector := vector_init 1\<rparr>)) v"

text \<open>\<open>vector_slot\<close> does not check its index.\<close>

definition vector_slot :: "'a vec \<Rightarrow> nat \<Rightarrow> 'a option option" where
  "vector_slot v i = (if i < v_alloced v then Some (v_index v ! i) else None)"

text \<open>\<open>Ret\<close>: the process exits with an error message.\<close>

definition install_element ::
  "node_type \<Rightarrow> 'f cmd_element \<Rightarrow> 'f cmd_node vec \<Rightarrow> 'f cmd_node vec outcome" where
  "install_element ntype cmd v =
     (case vector_slot v (node_num ntype) of
        None \<Rightarrow> Fault Overread
      | Some None \<Rightarrow> Ret v
      | Some (Some cnode) \<Rightarrow>
        (case cmd_make_descvec (Some (ce_string cmd)) (ce_doc cmd) of
           None \<Rightarrow> Ret v
         | Some sv \<Rightarrow>
           Cont (v\<lparr>v_index := (v_index v)[node_num ntype := Some (cnode\<lparr>cn_vector := vector_set
             (Some (cmd\<lparr>ce_strvec := sv, ce_cmdsize := cmd_cmdsize sv\<rparr>)) (cn_vector cnode)\<rparr>)]\<rparr>)))"

definition cmd_node_vector :: "'f cmd_node vec \<Rightarrow> node_type \<Rightarrow> 'f cmd_element vec outcome" where
  "cmd_node_vector v ntype =
     (case vector_slot v (node_num ntype) of
        None \<Rightarrow> Fault Overread
      | Some None \<Rightarrow> Fault NullDeref
      | Some (Some cnode) \<Rightarrow> Cont (cn_vector cnode))"

definition cmd_prompt :: "'f cmd_node vec \<Rightarrow> node_type \<Rightarrow> string outcome" where
  "cmd_prompt v ntype =
     (case vector_slot v (node_num ntype) of
        None \<Rightarrow> Fault Overread
      | Some None \<Rightarrow> Fault NullDeref
      | Some (Some cnode) \<Rightarrow> Cont (cn_prompt cnode))"

section \<open>Invariant of the table\<close>

definition elem_ok :: "'f cmd_element \<Rightarrow> bool" where
  "elem_ok el \<longleftrightarrow> (\<forall>dv \<in> set (ce_strvec el). dv \<noteq> []) \<and> ce_cmdsize el = cmd_cmdsize (ce_strvec el)"

definition slots_ok :: "('a \<Rightarrow> bool) \<Rightarrow> 'a option list \<Rightarrow> bool" where
  "slots_ok P xs \<longleftrightarrow> (\<forall>x. Some x \<in> set xs \<longrightarrow> P x)"

definition node_ok :: "'f cmd_node \<Rightarrow> bool" where
  "node_ok n \<longleftrightarrow> vec_ok (cn_vector n) \<and> slots_ok elem_ok (slots (cn_vector n))"

definition table_ok :: "'f cmd_node vec \<Rightarrow> bool" where
  "table_ok v \<longleftrightarrow> vec_ok v \<and> slots_ok node_ok (slots v)"

lemma set_put_slot: "set (put_slot i x xs) \<subseteq> insert x (insert None (set xs))"
  using set_update_subset_insert [of xs i x] by (auto simp: put_slot_def)

lemma slots_ok_put: "slots_ok P xs \<Longrightarrow> (\<And>y. x = Some y \<Longrightarrow> P y) \<Longrightarrow> slots_ok P (put_slot i x xs)"
  using set_put_slot [of i x xs] by (auto simp: slots_ok_def)

lemma slots_ok_set: "slots_ok P xs \<Longrightarrow> (\<And>y. x = Some y \<Longrightarrow> P y) \<Longrightarrow> slots_ok P (set_slot x xs)"
  by (simp add: set_slot_put slots_ok_put)

lemma install_node_ok [inv_intros]: "table_ok v \<Longrightarrow> table_ok (install_node node func v)"
  by (auto simp: table_ok_def install_node_def vector_set_index_ok node_ok_def slots_ok_def [of _ "[]"]
      intro!: slots_ok_put)

lemma slot_some_in_use: "vec_ok v \<Longrightarrow> vector_slot v i = Some (Some x) \<Longrightarrow> i < v_max v \<and> slots v ! i = Some x"
  by (auto simp: vec_ok_def vector_slot_def slots_def not_less [symmetric] split: if_splits)

lemma slot_some_ok: "table_ok v \<Longrightarrow> vector_slot v i = Some (Some x) \<Longrightarrow> node_ok x"
  using slot_some_in_use [of v i x] length_slots [of v] nth_mem [of i "slots v"]
  by (auto simp: table_ok_def slots_ok_def)

lemma install_element_ok [inv_intros]:
  assumes "table_ok v" "install_element ntype cmd v = Cont v'"
  shows "table_ok v'"
proof -
  obtain cnode sv where c: "vector_slot v (node_num ntype) = Some (Some cnode)"
    and sv: "cmd_make_descvec (Some (ce_string cmd)) (ce_doc cmd) = Some sv"
    and v': "v' = v\<lparr>v_index := (v_index v)[node_num ntype := Some (cnode\<lparr>cn_vector := vector_set
             (Some (cmd\<lparr>ce_strvec := sv, ce_cmdsize := cmd_cmdsize sv\<rparr>)) (cn_vector cnode)\<rparr>)]\<rparr>"
    using assms(2) by (auto simp: install_element_def split: option.splits)
  let ?i = "node_num ntype"
  have ok: "vec_ok v" "node_ok cnode" "?i < v_max v"
    using assms(1) slot_some_ok [OF assms(1) c] slot_some_in_use [OF _ c] by (auto simp: table_ok_def)
  let ?cn = "cnode\<lparr>cn_vector := vector_set (Some (cmd\<lparr>ce_strvec := sv, ce_cmdsize := cmd_cmdsize sv\<rparr>)) (cn_vector cnode)\<rparr>"
  have "node_ok ?cn"
    using ok(2) descvec_nonempty [OF sv]
    by (auto simp: node_ok_def vector_set_ok elem_ok_def intro!: slots_ok_set)
  moreover have "slots v' = put_slot ?i (Some ?cn) (slots v)"
    using ok(1,3) by (simp add: slots_def v' take_update_swap put_slot_def vec_ok_def)
  moreover have "vec_ok v'"
    using ok(1,3) by (auto simp: vec_ok_def v' nth_list_update)
  ultimately show ?thesis
    using assms(1) by (auto simp: table_ok_def intro!: slots_ok_put)
qed

end
