(* ===== verification/ServerCmd.thy ===== *)
theory ServerCmd
  imports Server Client CmdTable
begin

text \<open>
  The operator's commands of \<open>netmt_servercommand.c\<close>, run by the vty of the server: listing
  the clients, sending and fetching files, registration, ping, and shell commands on the
  clients. Each takes the words of the command line (\<open>argv\<close>) and returns the command's result
  code; a word that is not there (\<open>argv\<close> is an array on the caller's stack) is an
  \<open>Overread\<close>. While a command sleeps, the event loop handles what the clients
  send: that is the argument \<open>wait\<close>.
\<close>

section \<open>State\<close>

record cmd_env = env +
  e_cwd :: "u8 list"
  e_ini :: "u8 list \<times> u32"
  e_wait :: "server \<Rightarrow> server"

record operator =
  o_server :: server
  o_out :: "u8 list"
  o_filebytes :: u32
  o_udp :: "netmt_command list"

definition vty_print :: "u8 list \<Rightarrow> operator \<Rightarrow> operator" where
  "vty_print t u = u\<lparr>o_out := o_out u @ t\<rparr>"

definition arg :: "u8 list list \<Rightarrow> nat \<Rightarrow> u8 list option" where
  "arg argv i = (if i < length argv then Some (argv ! i) else None)"

definition atoi_bytes :: "u8 list \<Rightarrow> int" where
  "atoi_bytes b = atoi (map (\<lambda>x. char_of (unat x)) b)"

definition dec :: "u32 \<Rightarrow> u8 list" where
  "dec w = bytes_of (show_int (sint w))"

definition CRLF :: "u8 list" where
  "CRLF = [13, 10]"

definition rule_line :: "u8 list" where
  "rule_line = bytes_of ''******************************'' @ CRLF"

text \<open>\<open>VTY_NEWLINE\<close> of a terminal session is CR LF.\<close>

definition invalid_command :: "operator \<Rightarrow> (int \<times> operator) outcome" where
  "invalid_command u = Ret (CMD_WARNING, vty_print (bytes_of ''invalid command.'' @ CRLF) u)"

section \<open>Listing the clients\<close>

definition addr_line :: "conn \<Rightarrow> u8 list" where
  "addr_line c = 13 # c_host c @ bytes_of '':'' @ dec (c_port c) @ [9, 9] @ dec (c_fd c) @ CRLF"

definition show_netmt_addr :: "operator \<Rightarrow> operator" where
  "show_netmt_addr u = vty_print (13 # bytes_of ''address'' @ [9, 9] @ bytes_of ''FD'' @ CRLF
     @ concat (map addr_line (clients (o_server u)))) u"

definition status_line :: "conn \<Rightarrow> u8 list" where
  "status_line c = (let n = c_client c in
     13 # dec (cl_id n) @ [9] @ cstr (cl_host n) @ bytes_of '':'' @ dec (cl_port n) @ [9]
       @ dec (c_fd c) @ [9] @ cstr (cl_type n) @ [9] @ cstr (cl_area n) @ CRLF)"

definition show_netmt_client_status :: "operator \<Rightarrow> operator" where
  "show_netmt_client_status u = vty_print (13 # bytes_of ''id'' @ [9] @ bytes_of ''address''
     @ [9, 9, 9] @ bytes_of ''FD'' @ [9] @ bytes_of ''type'' @ [9] @ bytes_of ''area'' @ CRLF
     @ concat (map status_line (clients (o_server u)))) u"

section \<open>Results of shell commands\<close>

text \<open>The text is cut at \<open>eol\<close>, and each piece printed with a CR, until the first \<open>eol\<close> left is
  the last one; the rest is printed as it is, with a CR.\<close>

fun print_pieces :: "u8 \<Rightarrow> u8 list \<Rightarrow> u8 list \<Rightarrow> u8 list" where
  "print_pieces eol piece [] = piece @ [13]"
| "print_pieces eol piece (b # bs) =
     (if b = eol \<and> eol \<in> set bs then piece @ [13] @ print_pieces eol [] bs
      else print_pieces eol (piece @ [b]) bs)"

definition print_info_using_vty_format :: "u8 list \<Rightarrow> u8 \<Rightarrow> operator \<Rightarrow> operator" where
  "print_info_using_vty_format s eol u = vty_print (print_pieces eol [] s) u"

definition print_conn_info :: "conn \<Rightarrow> operator \<Rightarrow> operator" where
  "print_conn_info c u = (if c_flag c = 1
     then vty_print (rule_line @ [10])
       (print_info_using_vty_format (c_buffer c) 13
         (vty_print (CRLF @ rule_line @ bytes_of ''client (id area type) = ('' @ dec (cl_id (c_client c))
            @ [32] @ cstr (cl_area (c_client c)) @ [32] @ cstr (cl_type (c_client c))
            @ bytes_of '')'' @ CRLF) u))
     else u)"

definition reset_conn_info :: "conn \<Rightarrow> conn" where
  "reset_conn_info c =
     (if c_flag c = 1 then c\<lparr>c_buffer := [], c_flag := 0, c_buffer_current_size := 0\<rparr> else c)"

definition print_all_client_return_info :: "operator \<Rightarrow> operator" where
  "print_all_client_return_info u =
     (fold print_conn_info (clients (o_server u)) u)
       \<lparr>o_server := (o_server u)\<lparr>clients := map reset_conn_info (clients (o_server u))\<rparr>\<rparr>"

section \<open>Writing to the clients\<close>

text \<open>\<open>connfd\<close> has ten elements: an eleventh client with a non-zero descriptor is written
  behind it.\<close>

definition send_total_string :: "netmt_command \<Rightarrow> server \<Rightarrow> server outcome" where
  "send_total_string m s =
     (let targets = filter (\<lambda>c. c_fd c \<noteq> 0) (clients s)
      in if length targets > 10 then Fault Overrun
         else Cont (write_matching (\<lambda>c. c_fd c \<noteq> 0) (stamp_len m) s))"

definition send_single_fd :: "u32 \<Rightarrow> netmt_command \<Rightarrow> server \<Rightarrow> server" where
  "send_single_fd fd m s = write_matching (\<lambda>c. c_fd c = fd) (stamp_len m) s"

section \<open>Sending a file\<close>

definition absolute :: "u8 list \<Rightarrow> u8 list \<Rightarrow> u8 list" where
  "absolute cwd p = (case p of [] \<Rightarrow> cwd @ [47] | b # _ \<Rightarrow> if b = 47 then p else cwd @ [47] @ p)"

definition path_field :: "u8 list \<Rightarrow> u8 list" where
  "path_field p = (c_strncpy FILE_LEN p)[FILE_LEN - 1 := 0]"

text \<open>Which clients a word selects: \<open>strncmp\<close> over the first 3, 5, 4 or 6 characters of the mode,
  over 5 of the area and over 3 of the type. \<open>None\<close>: no branch matches.\<close>

definition send_targets :: "u8 list \<Rightarrow> u8 list \<Rightarrow> (conn \<Rightarrow> bool) option" where
  "send_targets mode who =
     (if starts_with ''all'' mode then Some (\<lambda>c. True)
      else if starts_with ''group'' mode
      then Some (\<lambda>c. take 5 (cstr (cl_area (c_client c))) = take 5 who)
      else if starts_with ''type'' mode
      then Some (\<lambda>c. take 3 (cstr (cl_type (c_client c))) = take 3 who)
      else if starts_with ''single'' mode
      then Some (\<lambda>c. c_fd c = word_of_int (atoi_bytes who))
      else None)"

definition is_single :: "u8 list \<Rightarrow> bool" where
  "is_single mode \<longleftrightarrow> starts_with ''single'' mode \<and> \<not> starts_with ''all'' mode
     \<and> \<not> starts_with ''group'' mode \<and> \<not> starts_with ''type'' mode"

definition hello_text :: "u8 list \<Rightarrow> u8 list \<Rightarrow> u8 list" where
  "hello_text mode who = CRLF @ rule_line
     @ (if is_single mode
        then 13 # bytes_of ''send to fd='' @ bytes_of (show_int (atoi_bytes who))
        else 13 # bytes_of ''send to '' @ mode)
     @ bytes_of '' client'' @ CRLF"

definition over_text :: "u8 list \<Rightarrow> u8 list \<Rightarrow> u8 list" where
  "over_text mode who =
     (if is_single mode
      then 13 # bytes_of ''send client '' @ bytes_of (show_int (atoi_bytes who)) @ bytes_of '' file over''
      else bytes_of ''send file over'') @ CRLF"

definition send_messages ::
  "netmt_command \<Rightarrow> u8 list \<Rightarrow> u32 \<Rightarrow> netmt_command list \<times> netmt_command \<times> u32" where
  "send_messages op content n0 =
     (let (ms, sb, n) = send_blocks (blocks BUFFER_SIZE content)
            (op\<lparr>m_subcommonid := sub_code NETMT_DATA\<rparr>) n0
      in (ms, stamp_len (set_byte_size n (sb\<lparr>m_subcommonid := sub_code NETMT_SEND_END\<rparr>)), n))"

definition send_file ::
  "(conn \<Rightarrow> bool) \<Rightarrow> u8 list \<Rightarrow> u8 list \<Rightarrow> netmt_command \<Rightarrow> u8 list \<Rightarrow> operator \<Rightarrow> operator" where
  "send_file P mode who op content u =
     (let (ms, fin, n) = send_messages op content (o_filebytes u);
          hello = concat (map (\<lambda>c. hello_text mode who) (filter P (clients (o_server u))));
          s1 = fold (write_matching P) ([op] @ ms @ [fin]) (o_server u)
      in vty_print (hello @ over_text mode who @ bytes_of ''send all bytes:'' @ dec n @ CRLF)
           (u\<lparr>o_server := s1\<lparr>s_fp := StreamClosed\<rparr>, o_filebytes := n\<rparr>))"

definition send_command :: "u8 list \<Rightarrow> u8 list \<Rightarrow> netmt_command" where
  "send_command lf rf = zero_command\<lparr>m_union := put_bytes 256 (path_field rf)
     (put_bytes 0 (path_field lf) (replicate POPEN_SIZE 0)),
     m_commonid := cmd_code NETMT_SEND, m_subcommonid := sub_code NETMT_FILE_OPEN\<rparr>"

definition paths_text :: "u8 list \<Rightarrow> u8 list \<Rightarrow> u8 list" where
  "paths_text lf rf = 13 # bytes_of ''localfile:'' @ cstr (path_field lf) @ CRLF
     @ 13 # bytes_of ''remotefile:'' @ cstr (path_field rf) @ CRLF"

definition send_netmt ::
  "cmd_env \<Rightarrow> u8 list list \<Rightarrow> operator \<Rightarrow> (int \<times> operator) outcome" where
  "send_netmt e argv u =
     (if argv = [] then invalid_command u
      else case (arg argv 0, arg argv 1) of
        (Some a0, Some mode) \<Rightarrow>
          (case arg argv (if starts_with ''all'' mode then 2 else 3) of
             None \<Rightarrow> Fault Overread
           | Some a \<Rightarrow>
             (let lf = absolute (e_cwd e) a0; rf = absolute (e_cwd e) a;
                  who = argv ! 2;
                  u1 = vty_print (paths_text lf rf) u
              in case (if e_fopen e lf then s_files (o_server u) lf else None) of
                   None \<Rightarrow> Ret (-1, vty_print (bytes_of ''File:'' @ [9] @ lf
                       @ bytes_of '' can not open to read!'' @ [10])
                       (u1\<lparr>o_server := (o_server u1)\<lparr>s_fp := StreamNull\<rparr>\<rparr>))
                 | Some content \<Rightarrow>
                   (let u2 = vty_print (CRLF @ bytes_of ''file:'' @ lf @ bytes_of '' open success'' @ CRLF)
                              (u1\<lparr>o_server := (o_server u1)\<lparr>s_fp := StreamOpen lf\<rparr>\<rparr>)
                    in case send_targets mode who of
                         None \<Rightarrow> Cont (CMD_SUCCESS, u2)
                       | Some P \<Rightarrow> Cont (CMD_SUCCESS,
                           send_file P mode who (stamp_len (send_command lf rf)) content u2))))
      | _ \<Rightarrow> Fault Overread)"

section \<open>Fetching a file\<close>

definition get_command :: "u8 list \<Rightarrow> u8 list \<Rightarrow> u32 \<Rightarrow> netmt_command" where
  "get_command lf rf fd = zero_command\<lparr>m_union := put_bytes 256 (path_field rf)
     (put_bytes 0 (path_field lf) (replicate POPEN_SIZE 0)),
     m_commonid := cmd_code NETMT_GET, m_subcommonid := cmd_code NETMT_CLIENT, m_fd := fd\<rparr>"

definition get_netmt ::
  "cmd_env \<Rightarrow> u8 list list \<Rightarrow> operator \<Rightarrow> (int \<times> operator) outcome" where
  "get_netmt e argv u =
     (case argv of
        [a0, a1, a2] \<Rightarrow>
          (let lf = absolute (e_cwd e) a0; rf = absolute (e_cwd e) a2;
               fd = word_of_int (atoi_bytes a1)
           in Cont (CMD_SUCCESS, vty_print (CRLF @ bytes_of ''localfile:'' @ cstr (path_field lf) @ CRLF
                  @ CRLF @ bytes_of ''remotefile:'' @ cstr (path_field rf) @ CRLF)
                (u\<lparr>o_server := write_matching (\<lambda>c. c_fd c = fd)
                     (stamp_len (get_command lf rf fd)) (o_server u)\<rparr>)))
      | _ \<Rightarrow> invalid_command u)"

section \<open>Registration, ping, shell\<close>

definition register_message :: "u32 \<Rightarrow> netmt_command" where
  "register_message fd = stamp_len (zero_command\<lparr>m_commonid := cmd_code NETMT_REGISTER, m_fd := fd\<rparr>)"

definition register_netmt :: "cmd_env \<Rightarrow> operator \<Rightarrow> int \<times> operator" where
  "register_netmt e u =
     (let s = o_server u;
          s1 = e_wait e (s\<lparr>s_sent := s_sent s
                 @ map (\<lambda>c. (c_fd c, register_message (c_fd c))) (clients s)\<rparr>)
      in (CMD_SUCCESS, vty_print (13 # bytes_of (if s_commonid s1 = cmd_code NETMT_REGISTER
            then ''client register success'' else ''client register fail'') @ CRLF)
          (u\<lparr>o_server := s1\<rparr>)))"

text \<open>\<open>e_ini\<close> is the host and port that the ini reader returned, defaults included.\<close>

definition ping_netmt :: "cmd_env \<Rightarrow> u8 list list \<Rightarrow> operator \<Rightarrow> (int \<times> operator) outcome" where
  "ping_netmt e argv u =
     (if argv = [] then invalid_command u
      else Cont (CMD_SUCCESS, vty_print (13 # bytes_of ''send ping to udp client'' @ CRLF)
        (u\<lparr>o_udp := o_udp u @ [stamp_len (zero_command\<lparr>m_commonid := cmd_code NETMT_PING,
             m_union := put_bytes 0 (c_strncpy SOCKADDR_STRLEN (fst (e_ini e)) @ enc32 (snd (e_ini e)))
               (replicate POPEN_SIZE 0)\<rparr>)]\<rparr>)))"

definition shell_line :: "u8 list list \<Rightarrow> u8 list" where
  "shell_line ws = concat (map (\<lambda>w. w @ [32]) ws)"

definition exec_message :: "u8 list \<Rightarrow> netmt_command" where
  "exec_message line = zero_command\<lparr>m_commonid := cmd_code NETMT_EXEC,
     m_cmdstr := c_strncpy BUFFER_SIZE line\<rparr>"

definition wait_and_print :: "cmd_env \<Rightarrow> operator \<Rightarrow> int \<times> operator" where
  "wait_and_print e u =
     (CMD_SUCCESS, print_all_client_return_info (u\<lparr>o_server := e_wait e (o_server u)\<rparr>))"

definition exec_shell_remote ::
  "cmd_env \<Rightarrow> u8 list list \<Rightarrow> operator \<Rightarrow> (int \<times> operator) outcome" where
  "exec_shell_remote e argv u =
     (case argv of
        [] \<Rightarrow> Ret (CMD_WARNING, vty_print (bytes_of ''invalid command.'' @ CRLF
           @ bytes_of ''Usage tip: exec shell remote single fd ls -a.'' @ CRLF) u)
      | who # ws \<Rightarrow>
        if starts_with ''all'' who then
          (if length (shell_line ws) \<ge> BUFFER_SIZE then Fault Overrun
           else bind_out (send_total_string (exec_message (shell_line ws)) (o_server u))
             (\<lambda>s. Cont (wait_and_print e
                (vty_print (bytes_of ''shellcmd : '' @ shell_line ws @ CRLF) (u\<lparr>o_server := s\<rparr>))))
             (\<lambda>s. (CMD_SUCCESS, u)))
        else if starts_with ''group'' who then Cont (CMD_SUCCESS, u)
        else (case ws of
            [] \<Rightarrow> Fault Overread
          | fd # cs \<Rightarrow>
            if length (shell_line cs) \<ge> BUFFER_SIZE then Fault Overrun
            else Cont (wait_and_print e
              (vty_print (bytes_of ''shellcmd : '' @ shell_line cs @ CRLF)
                (u\<lparr>o_server := send_single_fd (word_of_int (atoi_bytes fd))
                     (exec_message (shell_line cs)) (o_server u)\<rparr>)))))"

end
