(* ===== verification/FileTransfer.thy ===== *)
theory FileTransfer
  imports ServerCmd
begin

text \<open>
  File transfer across both programs. Server's \<open>get\<close>: the messages that \<open>k_recv_get\<close> emits are
  read by \<open>server_tcp_recv\<close>, and the server's file ends up with the client's bytes. Server's
  \<open>send\<close>: the messages that \<open>send_netmt\<close> writes to a client are read by \<open>client_tcp_recv\<close>, and
  the client's file ends up with the server's bytes.
\<close>

section \<open>The blocks of a file\<close>

lemma concat_blocks: "n > 0 \<Longrightarrow> concat (blocks n xs) = xs"
  by (induction n xs rule: blocks.induct) (subst blocks.simps, auto)

lemma blocks_length: "b \<in> set (blocks n xs) \<Longrightarrow> length b \<le> n"
  by (induction n xs rule: blocks.induct) (subst (asm) blocks.simps, auto split: if_splits)

text \<open>What the server must know about a data message: it carries block \<open>b\<close>, and its header is
  that of \<open>sb\<close>.\<close>

definition carries :: "netmt_command \<Rightarrow> u8 list \<Rightarrow> netmt_command \<Rightarrow> bool" where
  "carries sb b m \<longleftrightarrow> frame m \<and> m_commonid m = m_commonid sb
     \<and> m_subcommonid m = m_subcommonid sb \<and> data_size m = of_nat (length b)
     \<and> take (length b) (file_data m) = b"

definition same_header :: "netmt_command \<Rightarrow> netmt_command \<Rightarrow> bool" where
  "same_header a b \<longleftrightarrow> wf_command b \<and> m_commonid b = m_commonid a
     \<and> m_subcommonid b = m_subcommonid a \<and> m_fd b = m_fd a
     \<and> localfile b = localfile a \<and> remotefile b = remotefile a"

lemma length_file_data: "wf_command c \<Longrightarrow> length (file_data c) = BUFFER_SIZE"
  by (simp add: file_data_def wf_command_def)

lemma data_message_carries:
  assumes "wf_command sb" "length b \<le> BUFFER_SIZE"
  shows "carries sb b (data_message b sb)" "same_header sb (clear_data (data_message b sb))"
proof -
  have l: "length (b @ drop (length b) (file_data sb)) = BUFFER_SIZE"
    using assms by (simp add: length_file_data)
  have w: "wf_command (set_file_data (b @ drop (length b) (file_data sb)) sb)"
    using assms(1) l by (rule wf_set_file(3))
  show "carries sb b (data_message b sb)"
    using assms w l by (simp add: carries_def data_message_def stamp_len_def frame_def)
  show "same_header sb (clear_data (data_message b sb))"
    using assms w l
    by (simp add: same_header_def clear_data_def data_message_def stamp_len_def)
qed

lemma carries_same_header: "same_header a a' \<Longrightarrow> carries a' b m \<Longrightarrow> carries a b m"
  by (simp add: carries_def same_header_def)

lemma same_header_trans: "same_header a b \<Longrightarrow> same_header b c \<Longrightarrow> same_header a c"
  by (simp add: same_header_def)

lemma send_blocks_carries:
  assumes "wf_command sb" "\<forall>b \<in> set bs. length b \<le> BUFFER_SIZE"
    and "send_blocks bs sb n = (ms, sb', n')"
  shows "list_all2 (carries sb) bs ms \<and> same_header sb sb'
    \<and> n' = n + of_nat (length (concat bs))"
  using assms
proof (induction bs arbitrary: sb n ms sb' n')
  case Nil
  then show ?case by (simp add: same_header_def)
next
  case (Cons b bs)
  let ?m = "data_message b sb"
  obtain ms1 where ms: "ms = ?m # ms1"
    and rec: "send_blocks bs (clear_data ?m) (n + of_nat (length b)) = (ms1, sb', n')"
    using Cons.prems(3) by (auto simp: Let_def split: prod.splits)
  have m: "carries sb b ?m" "same_header sb (clear_data ?m)"
    using Cons.prems by (auto intro: data_message_carries)
  then have "list_all2 (carries (clear_data ?m)) bs ms1 \<and> same_header (clear_data ?m) sb'
      \<and> n' = n + of_nat (length b) + of_nat (length (concat bs))"
    using Cons.IH [OF _ _ rec] Cons.prems(2) by (auto simp: same_header_def)
  then show ?case
    using m ms by (auto intro: same_header_trans list_all2_mono carries_same_header)
qed

lemma carries_frames: "list_all2 (carries sb) bs ms \<Longrightarrow> frames ms"
  by (induction rule: list_all2_induct) (auto simp: carries_def)

section \<open>The server writes the blocks\<close>

lemma carries_data_size:
  assumes "carries sb b m" "length b \<le> BUFFER_SIZE"
  shows "sint (data_size m) = int (length b)"
  using assms sint_small32 [of "int (length b)"] by (simp add: carries_def)

lemma server_writes_block:
  assumes "carries sb b m" "length b \<le> BUFFER_SIZE"
    and "m_commonid sb = cmd_code NETMT_GET" "m_subcommonid sb = sub_code NETMT_DATA"
    and "s_fp s = StreamOpen p" "s_files s p = Some old" "\<not> s_mutex s"
    and "length b \<le> e_fwrite e p (length b)"
  shows "server_ok e io s m"
    and "server_handle e io m s = Cont (s\<lparr>s_files := (s_files s)(p \<mapsto> old @ b),
           s_fsize := s_fsize s + of_nat (length b)\<rparr>)"
proof -
  note n = carries_data_size [OF assms(1,2)]
  have h: "m_commonid m = cmd_code NETMT_GET" "m_subcommonid m = sub_code NETMT_DATA"
    "take (length b) (file_data m) = b"
    using assms(1,3,4) by (simp_all add: carries_def)
  show "server_ok e io s m"
    using assms n h by (simp add: server_ok_def data_size_ok_def writes_all_def)
  have "min (length b) (e_fwrite e p (length b)) = length b" using assms(8) by simp
  then show "server_handle e io m s = Cont (s\<lparr>s_files := (s_files s)(p \<mapsto> old @ b),
           s_fsize := s_fsize s + of_nat (length b)\<rparr>)"
    using assms n h
    by (simp add: server_handle_def recv_get_def recv_file_data_def Let_def append_file_def)
qed

lemma server_writes_blocks:
  assumes "list_all2 (carries sb) bs ms" "\<forall>b \<in> set bs. length b \<le> BUFFER_SIZE"
    and "m_commonid sb = cmd_code NETMT_GET" "m_subcommonid sb = sub_code NETMT_DATA"
    and "s_fp s = StreamOpen p" "s_files s p = Some old" "\<not> s_mutex s"
    and "\<And>n. n \<le> e_fwrite e p n"
  shows "accepted (server_handle e io) (server_ok e io) ms s
    \<and> deliver (server_handle e io) ms s = Cont (s\<lparr>s_files := (s_files s)(p \<mapsto> old @ concat bs),
        s_fsize := s_fsize s + of_nat (length (concat bs))\<rparr>)"
  using assms
proof (induction arbitrary: s old rule: list_all2_induct)
  case Nil
  then show ?case by (simp add: fun_upd_idem)
next
  case (Cons b bs m ms)
  define s1 where "s1 = s\<lparr>s_files := (s_files s)(p \<mapsto> old @ b),
      s_fsize := s_fsize s + of_nat (length b)\<rparr>"
  have c: "carries sb b m" "length b \<le> BUFFER_SIZE" using Cons.hyps Cons.prems by simp_all
  have m: "server_ok e io s m" "server_handle e io m s = Cont s1"
    unfolding s1_def
    using server_writes_block [OF c Cons.prems(2-7)] by simp_all
  have "accepted (server_handle e io) (server_ok e io) ms s1
    \<and> deliver (server_handle e io) ms s1 = Cont (s1\<lparr>s_files := (s_files s1)(p \<mapsto> (old @ b) @ concat bs),
        s_fsize := s_fsize s1 + of_nat (length (concat bs))\<rparr>)"
    using Cons.prems by (intro Cons.IH) (simp_all add: s1_def)
  then show ?case using m by (simp add: s1_def ac_simps fun_upd_def cong: if_cong)
qed

section \<open>A whole transfer\<close>

definition get_messages :: "netmt_command \<Rightarrow> u8 list \<Rightarrow> netmt_command list" where
  "get_messages c content =
     (let op = stamp_len (c\<lparr>m_subcommonid := sub_code NETMT_FILE_OPEN\<rparr>);
          (ms, sb, n) = send_blocks (blocks BUFFER_SIZE content)
            (op\<lparr>m_subcommonid := sub_code NETMT_DATA\<rparr>) 0
      in [op] @ ms @ [stamp_len (set_byte_size n (sb\<lparr>m_subcommonid := sub_code NETMT_GET_END\<rparr>))])"

definition get_reply :: "netmt_command \<Rightarrow> u32 \<times> netmt_command \<Rightarrow> bool" where
  "get_reply c w \<longleftrightarrow> fst w = m_fd c \<and> frame (snd w) \<and> m_commonid (snd w) = cmd_code NETMT_GET
     \<and> m_subcommonid (snd w) = sub_code NETMT_GET_SUCCESS"

lemma client_get_messages:
  assumes "m_commonid c = cmd_code NETMT_GET" "m_subcommonid c = cmd_code NETMT_CLIENT"
    and "terminated (take FILE_LEN (drop 256 (m_union c)))"
    and "e_fopen e (remotefile c)" "k_files k (remotefile c) = Some content"
    and "k_sendbuf k" "\<not> k_mutex k"
  shows "\<exists>k'. client_handle e c k = Cont k' \<and> k_sent k' = k_sent k @ get_messages c content"
  using assms
  by (simp add: client_handle_def k_recv_get_def get_messages_def Let_def split: prod.splits)

lemma server_gets_file:
  assumes "wf_command c" "m_commonid c = cmd_code NETMT_GET"
    and "terminated (take FILE_LEN (m_union c))" "e_fopen e (localfile c)"
    and wr: "\<And>n. n \<le> e_fwrite e (localfile c) n" and "\<not> s_mutex s"
  shows "frames (get_messages c content)
    \<and> accepted (server_handle e io) (server_ok e io) (get_messages c content) s
    \<and> (\<exists>s' out. deliver (server_handle e io) (get_messages c content) s = Cont s'
        \<and> s_files s' = (s_files s)(localfile c \<mapsto> content)
        \<and> s_sent s' = s_sent s @ out \<and> (\<forall>w \<in> set out. get_reply c w)
        \<and> length out = length (filter (\<lambda>k. c_fd k = m_fd c) (clients s)))"
proof -
  let ?p = "localfile c"
  define op where "op = stamp_len (c\<lparr>m_subcommonid := sub_code NETMT_FILE_OPEN\<rparr>)"
  define sb0 where "sb0 = op\<lparr>m_subcommonid := sub_code NETMT_DATA\<rparr>"
  obtain ms sb n where sbl: "send_blocks (blocks BUFFER_SIZE content) sb0 0 = (ms, sb, n)"
    by (metis prod_cases3)
  define fin where "fin = stamp_len (set_byte_size n (sb\<lparr>m_subcommonid := sub_code NETMT_GET_END\<rparr>))"
  have gm: "get_messages c content = op # ms @ [fin]"
    using sbl by (simp add: get_messages_def op_def sb0_def fin_def Let_def)
  have wf: "wf_command op" "wf_command sb0"
    using assms(1) by (simp_all add: op_def sb0_def stamp_len_def)
  have ms: "list_all2 (carries sb0) (blocks BUFFER_SIZE content) ms" "same_header sb0 sb"
    "n = of_nat (length content)"
    using send_blocks_carries [OF wf(2) _ sbl] by (auto simp: concat_blocks blocks_length)
  have fr: "frame op" "frame fin"
    using wf ms(2) by (simp_all add: op_def fin_def stamp_len_def frame_def same_header_def)
  define s1 where "s1 = s\<lparr>s_fp := StreamOpen ?p, s_fsize := 0, s_files := (s_files s)(?p \<mapsto> [])\<rparr>"
  have un: "m_union op = m_union c" by (simp add: op_def stamp_len_def)
  have lf: "localfile op = ?p" by (simp add: localfile_def un)
  have 1: "server_ok e io s op" "server_handle e io op s = Cont s1"
    using assms lf un
    by (simp_all add: server_ok_def server_handle_def recv_get_def recv_file_open_def s1_def
        op_def stamp_len_def)
  define s2 where "s2 = s1\<lparr>s_files := (s_files s1)(?p \<mapsto> content),
      s_fsize := of_nat (length content)\<rparr>"
  have 2: "accepted (server_handle e io) (server_ok e io) ms s1
      \<and> deliver (server_handle e io) ms s1 = Cont s2"
    using server_writes_blocks [OF ms(1), of s1 ?p "[]" e io] assms wr
    by (simp add: s1_def s2_def sb0_def op_def stamp_len_def concat_blocks blocks_length)
  define out where "out = map (\<lambda>k. (c_fd k, stamp_len (fin\<lparr>m_subcommonid := sub_code NETMT_GET_SUCCESS\<rparr>)))
      (filter (\<lambda>k. c_fd k = m_fd c) (clients s))"
  have f: "m_commonid fin = cmd_code NETMT_GET" "m_subcommonid fin = sub_code NETMT_GET_END"
    "m_fd fin = m_fd c" "byte_size fin = of_nat (length content)"
    using ms(2,3) assms(2)
    by (simp_all add: fin_def same_header_def sb0_def op_def stamp_len_def)
  have 3: "server_ok e io s2 fin"
    "server_handle e io fin s2 = Cont (s2\<lparr>s_fp := StreamClosed, s_sent := s_sent s @ out\<rparr>)"
    using f by (simp_all add: server_ok_def server_handle_def recv_get_def recv_get_end_def
        s2_def s1_def write_matching_def out_def)
  have "\<forall>w \<in> set out. get_reply c w"
    using fr(2) f by (auto simp: out_def get_reply_def stamp_len_def frame_def)
  moreover have "accepted (server_handle e io) (server_ok e io) (ms @ [fin]) s1"
    "deliver (server_handle e io) (ms @ [fin]) s1 =
       Cont (s2\<lparr>s_fp := StreamClosed, s_sent := s_sent s @ out\<rparr>)"
    using 2 3 by (simp_all add: deliver_snoc accepted_snoc)
  moreover have "length out = length (filter (\<lambda>k. c_fd k = m_fd c) (clients s))"
    by (simp add: out_def)
  moreover have "s_files (s2\<lparr>s_fp := StreamClosed, s_sent := s_sent s @ out\<rparr>)
      = (s_files s)(?p \<mapsto> content)"
    by (simp add: s2_def s1_def)
  ultimately show ?thesis
    using 1 fr carries_frames [OF ms(1)]
    by (intro conjI) (simp_all add: gm, blast?)
qed

section \<open>The client writes the blocks\<close>

lemma client_writes_block:
  assumes "carries sb b m" "length b \<le> BUFFER_SIZE"
    and "m_commonid sb = cmd_code NETMT_SEND" "m_subcommonid sb = sub_code NETMT_DATA"
    and "k_fp k = StreamOpen p" "k_files k p = Some old" "\<not> k_mutex k"
    and "length b \<le> e_fwrite e p (length b)"
  shows "client_ok e k m"
    and "client_handle e m k = Cont (k\<lparr>k_files := (k_files k)(p \<mapsto> old @ b),
           k_filebytes := k_filebytes k + of_nat (length b)\<rparr>)"
proof -
  note n = carries_data_size [OF assms(1,2)]
  have h: "m_commonid m = cmd_code NETMT_SEND" "m_subcommonid m = sub_code NETMT_DATA"
    "take (length b) (file_data m) = b"
    using assms(1,3,4) by (simp_all add: carries_def)
  show "client_ok e k m"
    using assms n h by (simp add: client_ok_def data_size_ok_def writes_all_def env.defs)
  have "min (length b) (e_fwrite e p (length b)) = length b" using assms(8) by simp
  then show "client_handle e m k = Cont (k\<lparr>k_files := (k_files k)(p \<mapsto> old @ b),
           k_filebytes := k_filebytes k + of_nat (length b)\<rparr>)"
    using assms n h
    by (simp add: client_handle_def k_recv_send_def k_file_data_def Let_def append_file_def)
qed

lemma client_writes_blocks:
  assumes "list_all2 (carries sb) bs ms" "\<forall>b \<in> set bs. length b \<le> BUFFER_SIZE"
    and "m_commonid sb = cmd_code NETMT_SEND" "m_subcommonid sb = sub_code NETMT_DATA"
    and "k_fp k = StreamOpen p" "k_files k p = Some old" "\<not> k_mutex k"
    and "\<And>n. n \<le> e_fwrite e p n"
  shows "accepted (client_handle e) (client_ok e) ms k
    \<and> deliver (client_handle e) ms k = Cont (k\<lparr>k_files := (k_files k)(p \<mapsto> old @ concat bs),
        k_filebytes := k_filebytes k + of_nat (length (concat bs))\<rparr>)"
  using assms
proof (induction arbitrary: k old rule: list_all2_induct)
  case Nil
  then show ?case by (simp add: fun_upd_idem)
next
  case (Cons b bs m ms)
  define k1 where "k1 = k\<lparr>k_files := (k_files k)(p \<mapsto> old @ b),
      k_filebytes := k_filebytes k + of_nat (length b)\<rparr>"
  have c: "carries sb b m" "length b \<le> BUFFER_SIZE" using Cons.hyps Cons.prems by simp_all
  have m: "client_ok e k m" "client_handle e m k = Cont k1"
    unfolding k1_def
    using client_writes_block [OF c Cons.prems(2-7)] by simp_all
  have "accepted (client_handle e) (client_ok e) ms k1
    \<and> deliver (client_handle e) ms k1 = Cont (k1\<lparr>k_files := (k_files k1)(p \<mapsto> (old @ b) @ concat bs),
        k_filebytes := k_filebytes k1 + of_nat (length (concat bs))\<rparr>)"
    using Cons.prems by (intro Cons.IH) (simp_all add: k1_def)
  then show ?case using m by (simp add: k1_def ac_simps fun_upd_def cong: if_cong)
qed

section \<open>A file sent to a client\<close>

definition sent_to :: "u32 \<Rightarrow> server \<Rightarrow> netmt_command list" where
  "sent_to fd s = map snd (filter (\<lambda>w. fst w = fd) (s_sent s))"

lemma write_matching_fields [simp]:
  "clients (write_matching P m s) = clients s" "s_files (write_matching P m s) = s_files s"
  "s_commonid (write_matching P m s) = s_commonid s"
  by (simp_all add: write_matching_def)

text \<open>Every client gets each message that selects it, in order, and no other one.\<close>

lemma sent_to_write_matching:
  "sent_to fd (write_matching P m s) =
     sent_to fd s @ map (\<lambda>c. m) (filter (\<lambda>c. c_fd c = fd \<and> P c) (clients s))"
proof -
  have "map snd (filter (\<lambda>w. fst w = fd) (map (\<lambda>c. (c_fd c, m)) (filter P cs))) =
      map (\<lambda>c. m) (filter (\<lambda>c. c_fd c = fd \<and> P c) cs)" for cs
    by (induction cs) simp_all
  then show ?thesis by (simp add: sent_to_def write_matching_def)
qed

lemma sent_to_fold:
  assumes "filter (\<lambda>c. c_fd c = fd) (clients s) = [k]"
  shows "sent_to fd (fold (write_matching P) ms s) = sent_to fd s @ (if P k then ms else [])"
proof -
  have "filter (\<lambda>c. c_fd c = fd \<and> P c) (clients s) = filter P (filter (\<lambda>c. c_fd c = fd) (clients s))"
    by (simp add: conj_commute)
  also have "\<dots> = (if P k then [k] else [])" using assms by simp
  finally have f: "filter (\<lambda>c. c_fd c = fd \<and> P c) (clients s) = (if P k then [k] else [])" .
  have "clients t = clients s \<Longrightarrow>
      sent_to fd (fold (write_matching P) ms t) = sent_to fd t @ (if P k then ms else [])" for t
    by (induction ms arbitrary: t) (simp_all add: sent_to_write_matching f)
  then show ?thesis by simp
qed

lemma fold_write_matching_clients [simp]:
  "clients (fold (write_matching P) ms s) = clients s"
  by (induction ms arbitrary: s) simp_all

definition file_messages :: "netmt_command \<Rightarrow> u8 list \<Rightarrow> u32 \<Rightarrow> netmt_command list" where
  "file_messages op content n = (let (ms, fin, _) = send_messages op content n in [op] @ ms @ [fin])"

lemma send_messages_count:
  assumes "frame op" "send_messages op content n0 = (ms, fin, n)"
  shows "n = n0 + of_nat (length content)"
proof -
  have wf: "wf_command (op\<lparr>m_subcommonid := sub_code NETMT_DATA\<rparr>)"
    using assms(1) by (simp add: frame_def)
  obtain ms' sb n' where sb: "send_blocks (blocks BUFFER_SIZE content)
      (op\<lparr>m_subcommonid := sub_code NETMT_DATA\<rparr>) n0 = (ms', sb, n')"
    by (metis prod_cases3)
  have "n' = n0 + of_nat (length content)"
    using send_blocks_carries [OF wf _ sb] by (simp add: concat_blocks blocks_length)
  moreover have "n = n'" using assms(2) sb by (simp add: send_messages_def Let_def)
  ultimately show ?thesis by simp
qed

lemma path_field_props [simp]:
  "length (path_field p) = FILE_LEN" "terminated (path_field p)"
proof -
  show l: "length (path_field p) = FILE_LEN" by (simp add: path_field_def)
  have "path_field p ! 255 = 0" by (simp add: path_field_def)
  then show "terminated (path_field p)"
    using l nth_mem [of 255 "path_field p"] by (simp add: terminated_def)
qed

lemma cstr_path_field:
  assumes "0 \<notin> set p"
  shows "cstr (path_field p) = take 255 p"
proof -
  have "path_field p = take 255 p @ 0 # replicate (255 - length p) 0"
    by (rule nth_equalityI)
      (auto simp: path_field_def c_strncpy_def nth_list_update nth_append nth_Cons' min_def)
  then show ?thesis
    using assms by (metis cstr_append_nul in_set_takeD)
qed

lemma send_command_props:
  assumes "0 \<notin> set lf" "0 \<notin> set rf"
  shows "frame (stamp_len (send_command lf rf))"
    and "localfile (stamp_len (send_command lf rf)) = take 255 lf"
    and "remotefile (stamp_len (send_command lf rf)) = take 255 rf"
    and "terminated (take FILE_LEN (drop 256 (m_union (stamp_len (send_command lf rf)))))"
  using assms
  by (simp_all add: stamp_len_def send_command_def frame_def wf_command_def zero_command_def
      localfile_def remotefile_def put_bytes_def cstr_path_field)

text \<open>The reply of the client: the byte count it is told must be the one it has counted.\<close>

definition send_reply :: "netmt_command list \<Rightarrow> bool" where
  "send_reply out \<longleftrightarrow> (\<exists>m. out = [m] \<and> frame m \<and> m_commonid m = cmd_code NETMT_SEND
     \<and> m_subcommonid m = sub_code NETMT_SEND_SUCCESS)"

lemma client_gets_file:
  assumes "frame op" "m_commonid op = cmd_code NETMT_SEND" "m_subcommonid op = sub_code NETMT_FILE_OPEN"
    and "terminated (take FILE_LEN (drop 256 (m_union op)))" "e_fopen e (remotefile op)"
    and wr: "\<And>n. n \<le> e_fwrite e (remotefile op) n" and "\<not> k_mutex k" "k_sendbuf k"
  shows "frames (file_messages op content n0)
    \<and> accepted (client_handle e) (client_ok e) (file_messages op content n0) k
    \<and> (\<exists>k' out. deliver (client_handle e) (file_messages op content n0) k = Cont k'
        \<and> k_files k' = (k_files k)(remotefile op \<mapsto> content) \<and> k_sendbuf k'
        \<and> k_sent k' = k_sent k @ out \<and> (if n0 = 0 then send_reply out else out = []))"
proof -
  let ?p = "remotefile op"
  define sb0 where "sb0 = op\<lparr>m_subcommonid := sub_code NETMT_DATA\<rparr>"
  obtain ms sb n where sbl: "send_blocks (blocks BUFFER_SIZE content) sb0 n0 = (ms, sb, n)"
    by (metis prod_cases3)
  define fin where "fin = stamp_len (set_byte_size n (sb\<lparr>m_subcommonid := sub_code NETMT_SEND_END\<rparr>))"
  have gm: "file_messages op content n0 = op # ms @ [fin]"
    using sbl by (simp add: file_messages_def send_messages_def sb0_def fin_def Let_def)
  have wf: "wf_command sb0" using assms(1) by (simp add: sb0_def frame_def)
  have ms: "list_all2 (carries sb0) (blocks BUFFER_SIZE content) ms" "same_header sb0 sb"
    "n = n0 + of_nat (length content)"
    using send_blocks_carries [OF wf _ sbl] by (auto simp: concat_blocks blocks_length)
  have fr: "frame fin"
    using ms(2) by (simp add: fin_def stamp_len_def frame_def same_header_def)
  define k1 where "k1 = k\<lparr>k_fp := StreamOpen ?p, k_filebytes := 0, k_files := (k_files k)(?p \<mapsto> [])\<rparr>"
  have 1: "client_ok e k op" "client_handle e op k = Cont k1"
    using assms
    by (simp_all add: client_ok_def client_handle_def k_recv_send_def k_file_open_def k1_def)
  define k2 where "k2 = k1\<lparr>k_files := (k_files k1)(?p \<mapsto> content),
      k_filebytes := of_nat (length content)\<rparr>"
  have 2: "accepted (client_handle e) (client_ok e) ms k1
      \<and> deliver (client_handle e) ms k1 = Cont k2"
    using client_writes_blocks [OF ms(1), of k1 ?p "[]" e] assms wr
    by (simp add: k1_def k2_def sb0_def concat_blocks blocks_length)
  define out where "out = (if n0 = 0 then [fin\<lparr>m_subcommonid := sub_code NETMT_SEND_SUCCESS\<rparr>] else [])"
  have f: "m_commonid fin = cmd_code NETMT_SEND" "m_subcommonid fin = sub_code NETMT_SEND_END"
    "byte_size fin = n0 + of_nat (length content)"
    using ms(2,3) assms(2)
    by (simp_all add: fin_def same_header_def sb0_def stamp_len_def)
  have 3: "client_ok e k2 fin"
    "client_handle e fin k2 = Cont (k2\<lparr>k_fp := StreamClosed, k_sent := k_sent k @ out\<rparr>)"
    using f assms(8) by (simp_all add: client_ok_def client_handle_def k_recv_send_def k_send_end_def
        k2_def k1_def out_def k_write_def)
  have "send_reply out" if "n0 = 0"
    using that fr f by (simp add: out_def send_reply_def frame_def)
  moreover have "accepted (client_handle e) (client_ok e) (ms @ [fin]) k1"
    "deliver (client_handle e) (ms @ [fin]) k1 =
       Cont (k2\<lparr>k_fp := StreamClosed, k_sent := k_sent k @ out\<rparr>)"
    using 2 3 by (simp_all add: deliver_snoc accepted_snoc)
  moreover have "k_files (k2\<lparr>k_fp := StreamClosed, k_sent := k_sent k @ out\<rparr>)
      = (k_files k)(?p \<mapsto> content)" "k_sendbuf k2"
    using assms(8) by (simp_all add: k2_def k1_def)
  moreover have "out = []" if "n0 \<noteq> 0" using that by (simp add: out_def)
  ultimately show ?thesis
    using 1 fr carries_frames [OF ms(1)] assms(1)
    by (intro conjI) (simp_all add: gm)
qed

lemma absolute_nul: "0 \<notin> set cwd \<Longrightarrow> 0 \<notin> set p \<Longrightarrow> 0 \<notin> set (absolute cwd p)"
  by (auto simp: absolute_def split: list.splits)

lemma send_netmt_runs:
  assumes "argv \<noteq> []" "arg argv 0 = Some a0" "arg argv 1 = Some mode"
    and "arg argv (if starts_with ''all'' mode then 2 else 3) = Some a"
    and "e_fopen e (absolute (e_cwd e) a0)" "s_files (o_server u) (absolute (e_cwd e) a0) = Some content"
    and "send_targets mode (argv ! 2) = Some P"
  shows "\<exists>u'. send_netmt e argv u = Cont (CMD_SUCCESS, u')
    \<and> (\<forall>ms fin n. send_messages (stamp_len (send_command (absolute (e_cwd e) a0) (absolute (e_cwd e) a)))
          content (o_filebytes u) = (ms, fin, n) \<longrightarrow>
        o_server u' = (fold (write_matching P)
            ([stamp_len (send_command (absolute (e_cwd e) a0) (absolute (e_cwd e) a))] @ ms @ [fin])
            ((o_server u)\<lparr>s_fp := StreamOpen (absolute (e_cwd e) a0)\<rparr>))\<lparr>s_fp := StreamClosed\<rparr>
        \<and> o_filebytes u' = n)"
  using assms
  by (cases "send_messages (stamp_len (send_command (absolute (e_cwd e) a0) (absolute (e_cwd e) a)))
        content (o_filebytes u)")
    (simp add: send_netmt_def Let_def vty_print_def send_file_def)

section \<open>A concrete installation\<close>

text \<open>One client on descriptor 5; both sides have the file \<open>/a\<close> or \<open>/b\<close>, every write succeeds.
  The witnesses of the properties run on it.\<close>

definition path_a :: "u8 list" where "path_a = [47, 97]"
definition path_b :: "u8 list" where "path_b = [47, 98]"
definition word_5 :: "u8 list" where "word_5 = [53]"
definition word_all :: "u8 list" where "word_all = [97, 108, 108]"

definition ex_conn :: conn where
  "ex_conn = \<lparr>c_io = 1, c_fd = 5, c_host = [], c_port = 0, c_client = zero_client, c_flag = 0,
     c_buffer = [], c_buffer_max_size = int DATABUF, c_buffer_current_size = 0\<rparr>"

definition ex_server :: server where
  "ex_server = \<lparr>clients = [ex_conn], s_commonid = 0, s_ping = None, s_fp = StreamNull, s_fsize = 0,
     s_files = [path_a \<mapsto> [1, 2, 3]], s_mutex = False, s_sent = []\<rparr>"

definition ex_operator :: operator where
  "ex_operator = \<lparr>o_server = ex_server, o_out = [], o_filebytes = 0, o_udp = []\<rparr>"

definition ex_env :: env where
  "ex_env = \<lparr>e_fopen = (\<lambda>p. True), e_fwrite = (\<lambda>p n. n), e_now = 5000\<rparr>"

definition ex_cmd_env :: cmd_env where
  "ex_cmd_env = env.extend ex_env \<lparr>e_cwd = path_a, e_ini = (path_a, 1234), e_wait = id\<rparr>"

definition ex_client_env :: client_env where
  "ex_client_env = env.extend ex_env \<lparr>e_popen = (\<lambda>cmd. Some [[104, 105]]),
     e_conf = \<lparr>cf_host = [49], cf_port = 1234, cf_id = 7, cf_area = [97], cf_type = [98]\<rparr>\<rparr>"

definition ex_client :: client where
  "ex_client = \<lparr>k_fp = StreamNull, k_filebytes = 0, k_files = [path_b \<mapsto> [7, 8]], k_mutex = False,
     k_sent = [], k_closed = False, k_sendbuf = True\<rparr>"

lemmas ex_defs = path_a_def path_b_def word_5_def word_all_def ex_conn_def ex_server_def
  ex_operator_def ex_env_def ex_cmd_env_def ex_client_env_def ex_client_def env.defs

lemma ex_atoi: "atoi_bytes word_5 = 5"
  by code_simp

lemma ex_absolute: "path_a = absolute cwd path_a" "path_b = absolute cwd path_b"
  by (simp_all add: absolute_def path_a_def path_b_def)

lemma ex_fields:
  "0 \<notin> set (e_cwd ex_cmd_env)" "0 \<notin> set path_a" "0 \<notin> set path_b" "0 \<notin> set word_all"
  "length path_a < FILE_LEN" "length path_b < FILE_LEN"
  "filter (\<lambda>c. c_fd c = 5) (clients (o_server ex_operator)) = [ex_conn]"
  "e_fopen ex_client_env p" "e_fopen ex_cmd_env p" "e_fopen ex_env p" "n \<le> e_fwrite ex_env p n"
  "n \<le> e_fwrite ex_client_env p n"
  "k_files ex_client path_b = Some [7, 8]" "k_sendbuf ex_client" "\<not> k_mutex ex_client"
  "s_files (o_server ex_operator) path_a = Some [1, 2, 3]" "\<not> s_mutex (o_server ex_operator)"
  "5 = word_of_int (atoi_bytes word_5)" "sent_to fd (o_server ex_operator) = []" "k_sent ex_client = []"
  "o_filebytes ex_operator = 0"
  by (simp_all add: ex_defs [simplified] ex_atoi [unfolded word_5_def] sent_to_def)

section \<open>The server and the stream\<close>

text \<open>C13. The server and the network: the messages of a client, cut into reads in any way that does
  not stop inside the four bytes of a length, have the effect of handling them one by one in
  order; nothing is read or written outside the 20480-byte buffer, and nothing is left in it.\<close>

theorem server_stream_in_order:
  assumes "concat bufs = wire cs" "frames cs" "reads bufs" "clean_cuts 0 bufs"
    and "accepted (server_handle e io) (server_ok e io) cs s"
  shows "\<exists>r s'. recv_stream (server_handle e io) bufs rx_init s = Some (Cont (r, s'))
    \<and> deliver (server_handle e io) cs s = Cont s' \<and> bytelen r = 0"
proof -
  obtain s' where d: "deliver (server_handle e io) cs s = Cont s'"
    using srv.accepted_deliver [OF assms(2,5)] by blast
  then obtain r where "recv_stream (server_handle e io) bufs rx_init s = Some (Cont (r, s'))" "rx_holds r []"
    using srv.stream_delivers [OF rx_holds_init _ assms(2,3) _ assms(5) d] assms(1,4) by auto
  then show ?thesis using d by (auto simp: rx_holds_def)
qed

text \<open>A heartbeat in two pieces of 100 and 5068 bytes.\<close>

lemma server_stream_in_order_witness:
  "\<exists>m r s'. recv_stream (server_handle ex_env 1) [take 100 (encode m), drop 100 (encode m)] rx_init ex_server
     = Some (Cont (r, s')) \<and> deliver (server_handle ex_env 1) [m] ex_server = Cont s'"
proof -
  define m where "m = register_message 5"
  have m: "frame m" "length (encode m) = 5168"
    using length_encode [of m]
    by (simp_all add: m_def register_message_def stamp_len_def frame_def wf_command_def zero_command_def
        sizeof_netmt_command_def)
  have "clean_cuts 0 [take 100 (encode m), drop 100 (encode m)]"
    using m(2) by (auto simp: clean_cuts_def sizeof_netmt_command_def le_Suc_eq take_Cons')
  then show ?thesis
    using server_stream_in_order [of "[take 100 (encode m), drop 100 (encode m)]" "[m]" ex_env 1 ex_server] m
    by (force simp: reads_def HLOOP_READ_BUFSIZE_def server_ok_def server_handle_def m_def
        register_message_def stamp_len_def)
qed

text \<open>C25. A message whose \<open>len\<close> is 0, of a kind that the server answers without touching files, keeps
  \<open>tcp_recv\<close> in its loop for ever: the call has no result, so no other event is served.\<close>

theorem server_hangs_on_zero_length:
  assumes "frame_at (databuf r) 0 = Some c" "m_len c = 0" "0 < bytelen r"
    and "m_commonid c \<in> cmd_code ` {NETMT_PING, NETMT_HEARTBEAT, NETMT_REGISTER, NETMT_SEND}"
  shows "recv_loop (server_handle e io) r 0 s = None"
  by (rule recv_loop_zero_len [OF assms(1-3)]) (use assms(4) in \<open>auto simp: server_handle_def\<close>)

lemma server_hangs_on_zero_length_witness:
  "\<exists>r. recv_loop (server_handle ex_env 1) r 0 ex_server = None"
proof -
  define c where "c = zero_command\<lparr>m_commonid := cmd_code NETMT_PING\<rparr>"
  define r where "r = rx_init\<lparr>databuf := encode c @ replicate (DATABUF - sizeof_netmt_command) 0,
    bytelen := int sizeof_netmt_command\<rparr>"
  have w: "wf_command c" by (simp add: c_def wf_command_def zero_command_def)
  have "frame_at (databuf r) 0 = Some c" "m_len c = 0" "0 < bytelen r"
    using w length_encode [OF w]
    by (simp_all add: frame_at_def r_def decode_encode_append)
      (simp_all add: c_def zero_command_def sizeof_netmt_command_def)
  then show ?thesis
    using server_hangs_on_zero_length [of r c ex_env 1 ex_server] by (auto simp: c_def)
qed

text \<open>C26. A short write (a full disk) while a file is fetched leaves \<open>tcp_recv\<close> with its mutex
  locked. From then on every further block, every new connection, every lost connection
  and every shell result stops the event loop for good.\<close>

theorem short_write_blocks_server:
  assumes "s_fp s = StreamOpen p" "\<not> s_mutex s" "data_size_ok c"
    and "e_fwrite e p (nat (sint (data_size c))) < nat (sint (data_size c))"
  shows "\<exists>s'. recv_file_data e c s = Ret s'
    \<and> recv_file_data e' c' s' = Fault Deadlock \<and> netmt_accept io fd peer s' = Fault Deadlock
    \<and> handle_endflag io s' = Fault Deadlock \<and> save_result_info_to_buffer io c' s' = Fault Deadlock
    \<and> (k \<in> set (clients s) \<longrightarrow> netmt_close (c_io k) s' = Fault Deadlock)"
  using assms
  by (auto simp: recv_file_data_def Let_def data_size_ok_def netmt_accept_def handle_endflag_def
      save_result_info_to_buffer_def netmt_close_def min_def)

lemma short_write_blocks_server_witness:
  "\<exists>s'. recv_file_data (ex_env\<lparr>e_fwrite := \<lambda>p n. 0\<rparr>) (set_data_size 3 zero_command)
      (ex_server\<lparr>s_fp := StreamOpen path_a\<rparr>) = Ret s'
    \<and> netmt_accept 2 6 OtherFamily s' = Fault Deadlock \<and> netmt_close 1 s' = Fault Deadlock"
proof -
  have w: "wf_command zero_command" by (simp add: wf_command_def zero_command_def)
  have "s_fp (ex_server\<lparr>s_fp := StreamOpen path_a\<rparr>) = StreamOpen path_a"
    "\<not> s_mutex (ex_server\<lparr>s_fp := StreamOpen path_a\<rparr>)" "data_size_ok (set_data_size 3 zero_command)"
    "e_fwrite (ex_env\<lparr>e_fwrite := \<lambda>p n. 0\<rparr>) path_a (nat (sint (data_size (set_data_size 3 zero_command))))
       < nat (sint (data_size (set_data_size 3 zero_command)))"
    "ex_conn \<in> set (clients (ex_server\<lparr>s_fp := StreamOpen path_a\<rparr>))" "c_io ex_conn = 1"
    using w by (simp_all add: ex_server_def data_size_ok_def ex_conn_def)
  from short_write_blocks_server [OF this(1-4), of ex_env zero_command 2 6 OtherFamily ex_conn] this(5,6)
  show ?thesis by auto
qed

end
