(* ===== verification/Sessions.thy ===== *)
theory Sessions
  imports FileTransfer
begin

text \<open>
  The life of a connection on the server: which states the event loop and the operator can
  reach, and the exchanges that are not file transfers (registration, heartbeat, shell
  commands) across both programs.
\<close>

section \<open>Reachable states of the server\<close>

definition conn_ok :: "conn \<Rightarrow> bool" where
  "conn_ok c \<longleftrightarrow> length (c_buffer c) < DATABUF \<and> c_buffer_max_size c = int DATABUF
     \<and> c_buffer_current_size c = 0 \<and> wf_client (c_client c)"

definition server_inv :: "server \<Rightarrow> bool" where
  "server_inv s \<longleftrightarrow> distinct (map c_io (clients s)) \<and> (\<forall>c \<in> set (clients s). conn_ok c)"

text \<open>A step of the server: an event of the loop (a new connection has an \<open>hio_t\<close> of its own), or
  the operator's report. A handler that returns early is a step as well.\<close>

inductive server_step :: "server \<Rightarrow> server \<Rightarrow> bool" where
  accept: "io \<notin> c_io ` set (clients s) \<Longrightarrow> netmt_accept io fd peer s = Cont s' \<Longrightarrow> server_step s s'"
| close: "netmt_close io s = Cont s' \<Longrightarrow> server_step s s'"
| recv: "wf_command c \<Longrightarrow> server_handle e io c s = Cont s' \<or> server_handle e io c s = Ret s'
    \<Longrightarrow> server_step s s'"
| report: "server_step s (o_server (print_all_client_return_info (u\<lparr>o_server := s\<rparr>)))"

inductive_cases server_stepE: "server_step s s'"

lemma conn_ok_simps [simp]:
  "conn_ok (c\<lparr>c_flag := f\<rparr>) = conn_ok c" "conn_ok (c\<lparr>c_host := h\<rparr>) = conn_ok c"
  "conn_ok (c\<lparr>c_port := p\<rparr>) = conn_ok c"
  by (simp_all add: conn_ok_def)

lemma server_inv_map [inv_intros]:
  assumes "server_inv s" "\<And>c. c_io (f c) = c_io c" "\<And>c. conn_ok c \<Longrightarrow> P c \<Longrightarrow> conn_ok (f c)"
  shows "server_inv (map_conn P f s)"
proof -
  have "map c_io (map (\<lambda>c. if P c then f c else c) cs) = map c_io cs" for cs
    by (induction cs) (simp_all add: assms(2))
  then show ?thesis
    using assms(1,3) by (auto simp: server_inv_def map_conn_def simp del: map_map)
qed

lemma server_inv_fields:
  "clients s' = clients s \<Longrightarrow> server_inv s' = server_inv s"
  by (simp add: server_inv_def)

lemma server_inv_accept [inv_intros]:
  assumes "server_inv s" "io \<notin> c_io ` set (clients s)" "netmt_accept io fd peer s = Cont s'"
  shows "server_inv s'"
proof -
  have z: "wf_client zero_client" by (simp add: zero_client_def wf_client_def)
  show ?thesis
    using assms z
    by (cases peer) (auto simp: netmt_accept_def server_inv_def conn_ok_def split: if_splits)
qed

lemma server_inv_close [inv_intros]:
  "server_inv s \<Longrightarrow> netmt_close io s = Cont s' \<Longrightarrow> server_inv s'"
  by (auto simp: netmt_close_def server_inv_def distinct_map_filter split: if_splits)

lemma wf_client_info: "wf_command c \<Longrightarrow> wf_client (client_info c)"
  by (simp add: wf_client_def client_info_def wf_command_def Let_def)

lemma length_total_result: "wf_command c \<Longrightarrow> length (total_result c) \<le> POPEN_SIZE"
  using length_takeWhile_le [of "\<lambda>b. b \<noteq> 0" "m_union c"]
  by (simp add: total_result_def cstr_def wf_command_def)

lemma recv_get_clients:
  "recv_get e c s = Cont s' \<or> recv_get e c s = Ret s' \<Longrightarrow> clients s' = clients s"
  by (auto simp: recv_get_def recv_file_open_def recv_file_data_def recv_get_end_def Let_def
      write_matching_def split: if_splits stream.splits)

lemma server_inv_recv_exec [inv_intros]:
  assumes "server_inv s" "wf_command c" "recv_exec io c s = Cont s' \<or> recv_exec io c s = Ret s'"
  shows "server_inv s'"
proof -
  have 1: "server_inv (map_conn (\<lambda>k. c_io k = io) (\<lambda>k. k\<lparr>c_buffer := total_result c\<rparr>) s)"
    by (rule server_inv_map) (use assms length_total_result [of c] in \<open>auto simp: conn_ok_def\<close>)
  have 2: "server_inv (map_conn (\<lambda>k. c_io k = io) (\<lambda>k. k\<lparr>c_flag := 1\<rparr>) t)" if "server_inv t" for t
    by (rule server_inv_map) (use that in auto)
  show ?thesis
    using assms 1 2
    by (auto simp: recv_exec_def save_result_info_to_buffer_def handle_endflag_def
        split: if_splits option.splits)
qed

lemma server_inv_handle [inv_intros]:
  assumes "server_inv s" "wf_command c" "server_handle e io c s = Cont s' \<or> server_handle e io c s = Ret s'"
  shows "server_inv s'"
proof -
  have reg: "server_inv (recv_register c s)"
  proof -
    have "server_inv (map_conn (\<lambda>k. c_fd k = m_fd c) (\<lambda>k. k\<lparr>c_client := client_info c\<rparr>) s)"
      by (rule server_inv_map) (use assms wf_client_info [of c] in \<open>auto simp: conn_ok_def\<close>)
    then show ?thesis by (simp add: recv_register_def server_inv_def)
  qed
  have same: "server_inv (recv_ping c s)" "server_inv (recv_heartbeat e c s)"
    using assms(1) by (simp_all add: recv_ping_def recv_heartbeat_def Let_def server_inv_def)
  have get: "server_inv t" if "recv_get e c s = Cont t \<or> recv_get e c s = Ret t" for t
    using recv_get_clients [OF that] assms(1) by (simp add: server_inv_def)
  show ?thesis
    using assms(3) unfolding server_handle_def
    by (simp split: if_splits)
      (use assms(1) same reg get server_inv_recv_exec [OF assms(1,2)] in blast)+
qed

lemma server_inv_report [inv_intros]:
  assumes "server_inv s"
  shows "server_inv (o_server (print_all_client_return_info (u\<lparr>o_server := s\<rparr>)))"
proof -
  have "map c_io (map reset_conn_info cs) = map c_io cs" for cs
    by (induction cs) (simp_all add: reset_conn_info_def)
  moreover have "conn_ok (reset_conn_info c)" if "conn_ok c" for c
    using that by (simp add: reset_conn_info_def conn_ok_def)
  ultimately show ?thesis
    using assms by (auto simp: print_all_client_return_info_def server_inv_def simp del: map_map)
qed

text \<open>C14. In every state the server can reach, each connection is in the list once, and the shell
  output kept for it fits its 20480-byte buffer, terminator included; whatever the clients send.\<close>

theorem server_reachable_inv:
  assumes "server_step\<^sup>*\<^sup>* start s" "server_inv start"
  shows "server_inv s"
  using assms
  by (induction rule: rtranclp_induct) (auto elim!: server_stepE intro: inv_intros)

lemma server_reachable_inv_witness:
  "server_inv (ex_server\<lparr>clients := get_sockaddr (Inet path_a 80) ex_conn # clients (ex_server\<lparr>clients := []\<rparr>)\<rparr>)"
proof (rule server_reachable_inv [where start = "ex_server\<lparr>clients := []\<rparr>"])
  show "server_step\<^sup>*\<^sup>* (ex_server\<lparr>clients := []\<rparr>)
      (ex_server\<lparr>clients := get_sockaddr (Inet path_a 80) ex_conn # clients (ex_server\<lparr>clients := []\<rparr>)\<rparr>)"
    by (rule r_into_rtranclp, rule server_step.accept [where io = 1 and fd = 5 and peer = "Inet path_a 80"])
      (simp_all add: netmt_accept_def ex_server_def ex_conn_def)
  show "server_inv (ex_server\<lparr>clients := []\<rparr>)"
    by (simp add: server_inv_def)
qed

section \<open>Heartbeat\<close>

lemma heartbeat_writes_zero:
  "\<forall>c \<in> set cs. c_fd c \<noteq> 0 \<Longrightarrow> heartbeat_writes cs zero_command = []"
  by (induction cs) (simp_all add: zero_command_def)

lemma heartbeat_writes_one:
  "\<forall>c \<in> set cs. c_fd c \<noteq> 0 \<Longrightarrow> filter (\<lambda>c. c_fd c = m_fd sb) cs = [conn] \<Longrightarrow>
     heartbeat_writes cs sb = [(m_fd sb, stamp_len sb)]"
  by (induction cs) (auto simp: heartbeat_writes_zero split: if_splits)

text \<open>The signed 32-bit number of milliseconds between the two clock readings.\<close>

lemma heartbeat_ms_diff:
  assumes "unat d < 2 ^ 40"
  shows "heartbeat_ms (t + d) t = int (unat d div 1000)"
proof -
  have "unat d div 1000 < 2 ^ 40 div 1000 + 1" using assms by (simp add: div_le_mono less_Suc_eq_le)
  then have b: "unat d div 1000 < 2 ^ 32" by simp
  have "uint (d div 1000) = int (unat d div 1000)"
    by (simp add: uint_div zdiv_int)
  then have *: "ucast (d div 1000) = (of_nat (unat d div 1000) :: u32)"
    by (metis of_int_of_nat_eq ucast_eq)
  have "unat d div 1000 < 2 ^ 31"
    using \<open>unat d div 1000 < 2 ^ 40 div 1000 + 1\<close> by simp
  then show ?thesis
    using sint_small32 [of "int (unat d div 1000)"]
    by (simp add: heartbeat_ms_def *)
qed

definition heartbeat_message :: "u64 \<Rightarrow> u32 \<Rightarrow> netmt_command" where
  "heartbeat_message now fd = zero_command\<lparr>m_commonid := cmd_code NETMT_HEARTBEAT,
       m_subcommonid := sub_code NETMT_SUCCESS, m_len := of_nat sizeof_netmt_command,
       m_fd := fd, m_ping_time := now\<rparr>"

text \<open>C17. A heartbeat that reaches the server between 1 ms and 15 s after the client's clock
  stamped it is answered by exactly one message, to the connection whose descriptor it names,
  and the answer keeps the client connected. Outside that window (up to the range of the
  millisecond counter) there is no answer at all.\<close>

theorem heartbeat_round_trip:
  assumes "e_now e = now + d" "unat now + unat d < 2 ^ 64" "unat d < 2 ^ 40"
    and "\<forall>c \<in> set (clients s). c_fd c \<noteq> 0" "filter (\<lambda>c. c_fd c = fd) (clients s) = [conn]"
    and "k_sendbuf k"
  shows "k_sent (send_heartbeat now fd k) = k_sent k @ [heartbeat_message now fd]
    \<and> (\<exists>s' out. server_handle e io (heartbeat_message now fd) s = Cont s' \<and> s_sent s' = s_sent s @ out
      \<and> (if 1000 \<le> unat d \<and> unat d < 15000000
          then (\<exists>m. out = [(fd, m)] \<and> frame m \<and> client_handle ce m k = Cont k)
          else out = []))"
proof -
  let ?m = "heartbeat_message now fd"
  define r where "r = stamp_len (?m\<lparr>m_pong_time := e_now e\<rparr>)"
  have hm: "m_commonid ?m = cmd_code NETMT_HEARTBEAT" "m_subcommonid ?m = sub_code NETMT_SUCCESS"
    "m_fd ?m = fd" "m_ping_time ?m = now"
    by (simp_all add: heartbeat_message_def)
  have ms: "heartbeat_ms (e_now e) now = int (unat d div 1000)"
    using assms(1,3) by (simp add: heartbeat_ms_diff)
  have w: "heartbeat_writes (clients s) (?m\<lparr>m_pong_time := e_now e\<rparr>) = [(fd, r)]"
    using heartbeat_writes_one [of "clients s" "?m\<lparr>m_pong_time := e_now e\<rparr>" conn] assms(4,5) hm
    by (simp add: r_def)
  have h: "server_handle e io ?m s = Cont (if 1000 \<le> unat d \<and> unat d < 15000000
      then s\<lparr>s_sent := s_sent s @ [(fd, r)]\<rparr> else s)"
  proof -
    have "(int (unat d div 1000) > 0 \<and> int (unat d div 1000) < 15000) \<longleftrightarrow>
        1000 \<le> unat d \<and> unat d < 15000000"
      by linarith
    then show ?thesis
      unfolding server_handle_def recv_heartbeat_def hm ms Let_def w by simp
  qed
  have "frame r"
    by (simp add: r_def stamp_len_def frame_def heartbeat_message_def wf_command_def zero_command_def)
  moreover have "\<not> e_now e < now"
    using assms(1,2) by (simp add: word_less_nat_alt unat_plus_simple [THEN iffD1] unat_word_ariths)
  then have "client_handle ce r k = Cont k"
    using assms(6)
    by (simp add: client_handle_def k_recv_heartbeat_def r_def stamp_len_def hm)
  moreover have "k_sent (send_heartbeat now fd k) = k_sent k @ [?m]"
    by (simp add: send_heartbeat_def heartbeat_message_def)
  ultimately show ?thesis using h by auto
qed

lemma heartbeat_round_trip_witness:
  "\<exists>s' m. server_handle ex_env 1 (heartbeat_message 3000 5) ex_server = Cont s'
     \<and> s_sent s' = [(5, m)] \<and> client_handle ex_client_env m ex_client = Cont ex_client"
  using heartbeat_round_trip [of ex_env 3000 2000 ex_server 5 ex_conn ex_client 1 ex_client_env]
  by (fastforce simp: ex_env_def ex_server_def ex_conn_def ex_client_def)

section \<open>Registration\<close>

lemma wf_conf_client: "wf_client (conf_client f)"
  by (simp add: conf_client_def wf_client_def)

lemma register_message_props:
  "frame (register_message fd)" "m_commonid (register_message fd) = cmd_code NETMT_REGISTER"
  "m_fd (register_message fd) = fd" "m_len (register_message fd) = of_nat sizeof_netmt_command"
  by (simp_all add: register_message_def stamp_len_def frame_def wf_command_def zero_command_def)

lemma sent_to_register:
  "sent_to fd (s\<lparr>s_sent := s_sent s @ map (\<lambda>c. (c_fd c, register_message (c_fd c))) (clients s)\<rparr>) =
     sent_to fd s @ map (\<lambda>c. register_message fd) (filter (\<lambda>c. c_fd c = fd) (clients s))"
proof -
  have "map snd (filter (\<lambda>w. fst w = fd) (map (\<lambda>c. (c_fd c, register_message (c_fd c))) cs)) =
      map (\<lambda>c. register_message fd) (filter (\<lambda>c. c_fd c = fd) cs)" for cs
    by (induction cs) simp_all
  then show ?thesis by (simp add: sent_to_def)
qed

text \<open>C16. Registration: the command writes to every connection a request that names the
  connection's own descriptor; the client answers it with the contents of its ini file; and the
  answer makes the server store exactly that client's data in that connection and in no other.\<close>

theorem registration_round_trip:
  assumes "filter (\<lambda>c. c_fd c = fd) (clients (o_server u)) = [conn]"
    and "conf_fits (e_conf ce)" "k_sendbuf k"
  shows "\<exists>s1 k' r. o_server (snd (register_netmt e u)) = e_wait e s1
    \<and> sent_to fd s1 = sent_to fd (o_server u) @ [register_message fd]
    \<and> client_handle ce (register_message fd) k = Cont k' \<and> k_sent k' = k_sent k @ [r] \<and> frame r
    \<and> (\<forall>s. \<exists>s'. server_handle se io r s = Cont s' \<and> s_commonid s' = cmd_code NETMT_REGISTER
        \<and> clients s' = map (\<lambda>c. if c_fd c = fd then c\<lparr>c_client := conf_client (e_conf ce)\<rparr> else c)
            (clients s))"
proof -
  let ?m = "register_message fd"
  define r where "r = set_client_info (conf_client (e_conf ce)) ?m"
  note m = register_message_props
  have wf: "wf_command ?m" using m(1) by (simp add: frame_def)
  have 1: "client_handle ce ?m k = Cont (k_write r k)"
    using assms(2,3) by (simp add: client_handle_def k_recv_register_def m r_def)
  have fr: "frame r" and hd: "m_commonid r = cmd_code NETMT_REGISTER" "m_fd r = fd"
    using m wf_conf_client by (simp_all add: r_def frame_def)
  have "client_info r = conf_client (e_conf ce)"
    using wf wf_conf_client by (simp add: r_def)
  then have "server_handle se io r s = Cont (recv_register r s)
      \<and> s_commonid (recv_register r s) = cmd_code NETMT_REGISTER
      \<and> clients (recv_register r s) = map (\<lambda>c. if c_fd c = fd
           then c\<lparr>c_client := conf_client (e_conf ce)\<rparr> else c) (clients s)" for s
    using hd by (simp add: server_handle_def recv_register_def map_conn_def)
  then have 2: "\<forall>s. \<exists>s'. server_handle se io r s = Cont s' \<and> s_commonid s' = cmd_code NETMT_REGISTER
        \<and> clients s' = map (\<lambda>c. if c_fd c = fd then c\<lparr>c_client := conf_client (e_conf ce)\<rparr> else c)
            (clients s)"
    by blast
  have "o_server (snd (register_netmt e u)) = e_wait e ((o_server u)\<lparr>s_sent := s_sent (o_server u)
        @ map (\<lambda>c. (c_fd c, register_message (c_fd c))) (clients (o_server u))\<rparr>)"
    by (simp add: register_netmt_def Let_def vty_print_def)
  moreover note sent_to_register [of fd "o_server u"]
  ultimately show ?thesis
    using 1 fr assms(1) 2
    by (intro exI [where x = "k_write r k"] exI conjI; (assumption | simp))
qed

lemma registration_round_trip_witness:
  "\<exists>k' r s'. client_handle ex_client_env (register_message 5) ex_client = Cont k' \<and> k_sent k' = [r]
    \<and> server_handle ex_env 1 r ex_server = Cont s'
    \<and> clients s' = [ex_conn\<lparr>c_client := conf_client (e_conf ex_client_env)\<rparr>]"
proof -
  have fits: "conf_fits (e_conf ex_client_env)"
    by (simp add: ex_client_env_def conf_fits_def env.defs)
  obtain s1 k' r where "client_handle ex_client_env (register_message 5) ex_client = Cont k'"
      "k_sent k' = k_sent ex_client @ [r]"
    and s: "\<forall>s. \<exists>s'. server_handle ex_env 1 r s = Cont s' \<and> s_commonid s' = cmd_code NETMT_REGISTER
        \<and> clients s' = map (\<lambda>c. if c_fd c = 5 then c\<lparr>c_client := conf_client (e_conf ex_client_env)\<rparr> else c)
            (clients s)"
    using registration_round_trip [OF ex_fields(7) fits ex_fields(14), of ex_cmd_env ex_env 1]
    by (elim exE conjE) (rule that, assumption+)
  moreover have "clients ex_server = [ex_conn]" "c_fd ex_conn = 5"
    by (simp_all add: ex_server_def ex_conn_def)
  ultimately show ?thesis using ex_fields(20) spec [OF s, of ex_server] by auto
qed



section \<open>Shell commands\<close>

text \<open>Cutting the text at every CR and putting a CR behind each piece gives the text back.\<close>

lemma print_pieces_cr: "print_pieces 13 p s = p @ s @ [13]"
  by (induction "13 :: u8" p s rule: print_pieces.induct) auto

definition conn_text :: "conn \<Rightarrow> u8 list" where
  "conn_text c = (if c_flag c = 1
     then CRLF @ rule_line @ bytes_of ''client (id area type) = ('' @ dec (cl_id (c_client c)) @ [32]
       @ cstr (cl_area (c_client c)) @ [32] @ cstr (cl_type (c_client c)) @ bytes_of '')'' @ CRLF
       @ c_buffer c @ [13] @ rule_line @ [10]
     else [])"

lemma print_conn_info_text: "print_conn_info c u = vty_print (conn_text c) u"
  by (simp add: print_conn_info_def print_info_using_vty_format_def vty_print_def conn_text_def
      print_pieces_cr)

lemma print_all_text:
  "o_out (print_all_client_return_info u) = o_out u @ concat (map conn_text (clients (o_server u)))"
proof -
  have "o_out (fold print_conn_info cs v) = o_out v @ concat (map conn_text cs)" for cs v
    by (induction cs arbitrary: v) (simp_all add: print_conn_info_text vty_print_def)
  then show ?thesis by (simp add: print_all_client_return_info_def)
qed

lemma conn_text_one:
  assumes "distinct (map c_io cs)" "\<forall>c \<in> set cs. c_flag c \<noteq> 1" "find (\<lambda>c. c_io c = io) cs = Some conn"
  shows "concat (map conn_text (map (\<lambda>c. if c_io c = io then f c else c) cs)) = conn_text (f conn)"
proof -
  have none: "concat (map conn_text (map (\<lambda>c. if c_io c = io then f c else c) cs)) = []"
    if "\<forall>c \<in> set cs. c_flag c \<noteq> 1 \<and> c_io c \<noteq> io" for cs
    using that by (auto simp: conn_text_def)
  show ?thesis
    using assms
  proof (induction cs)
    case (Cons c cs)
    show ?case
    proof (cases "c_io c = io")
      case True
      then have "\<forall>c \<in> set cs. c_flag c \<noteq> 1 \<and> c_io c \<noteq> io"
        using Cons.prems by (auto simp: image_iff)
      then show ?thesis using True Cons.prems none [of cs] by simp
    next
      case False
      then show ?thesis using Cons by (simp add: conn_text_def)
    qed
  qed simp
qed

lemma exec_message_props:
  assumes "0 \<notin> set line" "length line < BUFFER_SIZE"
  shows "wf_command (stamp_len (exec_message line))" "cstr (m_cmdstr (stamp_len (exec_message line))) = line"
    "m_commonid (stamp_len (exec_message line)) = cmd_code NETMT_EXEC"
    "terminated (m_cmdstr (stamp_len (exec_message line)))" "m_cmdstr (stamp_len (exec_message line)) ! 1023 = 0"
proof -
  let ?s = "c_strncpy BUFFER_SIZE line"
  have z: "?s ! 1023 = 0" using assms(2) by (simp add: c_strncpy_def nth_append)
  then have "0 \<in> set ?s" using nth_mem [of 1023 ?s] by simp
  then show "wf_command (stamp_len (exec_message line))" "cstr (m_cmdstr (stamp_len (exec_message line))) = line"
    "m_commonid (stamp_len (exec_message line)) = cmd_code NETMT_EXEC"
    "terminated (m_cmdstr (stamp_len (exec_message line)))" "m_cmdstr (stamp_len (exec_message line)) ! 1023 = 0"
    using assms z
    by (simp_all add: stamp_len_def exec_message_def wf_command_def zero_command_def cstr_strncpy
        terminated_def)
qed

definition shell_output :: "u8 list list \<Rightarrow> u8 list" where
  "shell_output ls = concat (map (\<lambda>l. cstr l @ [13]) ls)"

lemma result_message_props:
  assumes "0 \<notin> set out" "length out < POPEN_SIZE"
  shows "wf_command (result_message out)" "frame (result_message out)" "total_result (result_message out) = out"
    "m_commonid (result_message out) = cmd_code NETMT_EXEC"
    "m_subcommonid (result_message out) = sub_code NETMT_EXEC_SHELL_RESULT" "terminated (m_union (result_message out))"
proof -
  have "c_strncpy POPEN_SIZE out ! 4095 = 0" using assms(2) by (simp add: c_strncpy_def nth_append)
  then have "0 \<in> set (c_strncpy POPEN_SIZE out)"
    using nth_mem [of 4095 "c_strncpy POPEN_SIZE out"] by simp
  then show "wf_command (result_message out)" "frame (result_message out)" "total_result (result_message out) = out"
    "m_commonid (result_message out) = cmd_code NETMT_EXEC"
    "m_subcommonid (result_message out) = sub_code NETMT_EXEC_SHELL_RESULT" "terminated (m_union (result_message out))"
    using assms
    by (simp_all add: result_message_def wf_command_def frame_def total_result_def zero_command_def cstr_strncpy
        terminated_def)
qed



end
