(* ===== verification/Buffer.thy ===== *)
theory Buffer
  imports Prelude
begin

text \<open>
  The output buffer of a terminal session, \<open>buffer.c\<close>: a list of fixed-size blocks, appended to by
  \<open>buffer_write\<close> and written out in whole (\<open>buffer_flush_all\<close>), by number of bytes
  (\<open>buffer_flush\<close>) or by screen (\<open>buffer_flush_window\<close>). What its users rely on is a byte queue;
  the locale \<open>byte_queue\<close> states that contract. \<open>writev\<close> is a parameter of the process: a flush
  is modelled by the vector of byte strings handed to it, since the code does not look at how much
  of it was taken.
\<close>

section \<open>Blocks\<close>

text \<open>\<open>bd_data\<close> is the filled part of a block, up to \<open>cp\<close>; \<open>bd_sp\<close> the part already written out.\<close>

record bdata =
  bd_data :: string
  bd_sp :: nat

record buffer =
  b_size :: nat
  b_blocks :: "bdata list"
  b_alloc :: nat
  b_length :: nat

definition unread :: "bdata \<Rightarrow> string" where
  "unread d = drop (bd_sp d) (bd_data d)"

definition buffer_data_new :: bdata where
  "buffer_data_new = \<lparr>bd_data = [], bd_sp = 0\<rparr>"

definition buffer_new :: "nat \<Rightarrow> buffer" where
  "buffer_new sz = \<lparr>b_size = sz, b_blocks = [], b_alloc = 0, b_length = 0\<rparr>"

text \<open>The C string at the start of the first block; a block that is not NUL-terminated is read
  beyond its end, a buffer without blocks is a NULL pointer.\<close>

definition buffer_getstr :: "buffer \<Rightarrow> string outcome" where
  "buffer_getstr b =
     (case b_blocks b of
        [] \<Rightarrow> Fault NullDeref
      | d # _ \<Rightarrow> if CHR 0x00 \<in> set (bd_data d) then Cont (takeWhile (\<lambda>c. c \<noteq> CHR 0x00) (bd_data d))
                else Fault Overread)"

definition tail_drained :: "bdata list \<Rightarrow> bool" where
  "tail_drained ds \<longleftrightarrow> ds = [] \<or> length (bd_data (last ds)) = bd_sp (last ds)"

definition buffer_empty :: "buffer \<Rightarrow> bool" where
  "buffer_empty b \<longleftrightarrow> tail_drained (b_blocks b)"

definition buffer_reset :: "buffer \<Rightarrow> buffer" where
  "buffer_reset b = b\<lparr>b_blocks := [], b_alloc := 0, b_length := 0\<rparr>"

definition buffer_add :: "buffer \<Rightarrow> buffer" where
  "buffer_add b = b\<lparr>b_blocks := b_blocks b @ [buffer_data_new], b_alloc := b_alloc b + 1\<rparr>"

section \<open>Writing\<close>

text \<open>The loop of \<open>buffer_write\<close>. Blocks are never filled beyond \<open>size\<close>, and \<open>size\<close> is
  positive for every buffer the program makes (with 0 the loop would allocate for ever).\<close>

definition need_block :: "buffer \<Rightarrow> bool" where
  "need_block b \<longleftrightarrow> b_blocks b = [] \<or> length (bd_data (last (b_blocks b))) \<ge> b_size b"

definition fill_last :: "string \<Rightarrow> buffer \<Rightarrow> buffer" where
  "fill_last xs b =
     (let d = last (b_blocks b)
      in b\<lparr>b_blocks := butlast (b_blocks b) @ [d\<lparr>bd_data := bd_data d @ xs\<rparr>]\<rparr>)"

definition room :: "buffer \<Rightarrow> nat" where
  "room b = b_size b - length (bd_data (last (b_blocks b)))"

lemma room_pos: "0 < b_size b \<Longrightarrow> 0 < room (if need_block b then buffer_add b else b)"
  by (auto simp: room_def need_block_def buffer_add_def buffer_data_new_def)

lemma b_size_add [simp]: "b_size (buffer_add b) = b_size b"
  by (simp add: buffer_add_def)

function write_loop :: "string \<Rightarrow> buffer \<Rightarrow> buffer" where
  "write_loop xs b =
     (if xs = [] \<or> b_size b = 0 then b
      else let b1 = (if need_block b then buffer_add b else b)
        in if length xs \<le> room b1 then fill_last xs b1
           else write_loop (drop (room b1) xs) (fill_last (take (room b1) xs) b1))"
  by pat_completeness auto
termination
proof (relation "measure (\<lambda>(xs, b). length xs)", goal_cases)
  case (2 xs b b1)
  then have "0 < room b1" using room_pos [of b] by simp
  then show ?case using 2 by (auto simp: not_le)
qed simp

declare write_loop.simps [simp del]

definition buffer_write :: "string \<Rightarrow> buffer \<Rightarrow> buffer" where
  "buffer_write xs b = write_loop xs (b\<lparr>b_length := b_length b + length xs\<rparr>)"

definition buffer_putc :: "char \<Rightarrow> buffer \<Rightarrow> buffer" where
  "buffer_putc c b = buffer_write [c] b"

text \<open>Two bytes in memory order, the low one first.\<close>

definition buffer_putw :: "u16 \<Rightarrow> buffer \<Rightarrow> buffer" where
  "buffer_putw c b = buffer_write [char_of (unat c), char_of (unat (drop_bit 8 c))] b"

definition buffer_putstr :: "string \<Rightarrow> buffer \<Rightarrow> buffer" where
  "buffer_putstr s b = buffer_write s b"

section \<open>Flushing\<close>

text \<open>Up to \<open>n\<close> bytes: the vector for \<open>writev\<close> and the blocks that are kept.\<close>

fun flush_loop :: "nat \<Rightarrow> bdata list \<Rightarrow> string list \<times> bdata list" where
  "flush_loop n [] = ([], [])"
| "flush_loop n (d # ds) =
     (if n \<le> length (unread d)
      then ([take n (unread d)],
            if bd_sp d + n = length (bd_data d) then ds else d\<lparr>bd_sp := bd_sp d + n\<rparr> # ds)
      else (let (iov, rest) = flush_loop (n - length (unread d)) ds in (unread d # iov, rest)))"

definition keep_blocks :: "bdata list \<Rightarrow> buffer \<Rightarrow> buffer" where
  "keep_blocks ds b =
     b\<lparr>b_blocks := ds, b_alloc := b_alloc b - (length (b_blocks b) - length ds)\<rparr>"

definition buffer_flush :: "nat \<Rightarrow> buffer \<Rightarrow> string list \<times> buffer" where
  "buffer_flush n b = (let (iov, ds) = flush_loop n (b_blocks b) in (iov, keep_blocks ds b))"

definition buffer_flush_all :: "buffer \<Rightarrow> string list \<times> buffer" where
  "buffer_flush_all b =
     (if buffer_empty b then ([], b) else (map unread (b_blocks b), buffer_reset b))"

text \<open>The literal is written with its terminating NUL (\<open>sizeof more\<close>).\<close>

definition more_text :: string where
  "more_text = '' --More-- '' @ [CHR 0x00]"

definition erase_text :: string where
  "erase_text = replicate 10 (CHR 0x08) @ replicate 10 (CHR '' '') @ replicate 10 (CHR 0x08)"

definition buffer_flush_vty_all :: "bool \<Rightarrow> bool \<Rightarrow> buffer \<Rightarrow> string list \<times> buffer" where
  "buffer_flush_vty_all erase no_more b =
     ((if erase then [erase_text] else []) @ map unread (b_blocks b)
        @ (if \<not> buffer_empty b \<and> \<not> no_more then [more_text] else []),
      keep_blocks [] b)"

definition buffer_flush_vty :: "nat \<Rightarrow> bool \<Rightarrow> bool \<Rightarrow> buffer \<Rightarrow> string list \<times> buffer" where
  "buffer_flush_vty n erase no_more b =
     (let (iov, ds) = flush_loop n (b_blocks b)
      in ((if erase then [erase_text] else []) @ iov
            @ (if \<not> tail_drained ds \<and> \<not> no_more then [more_text] else []),
          keep_blocks ds b))"

text \<open>How many bytes fill a screen: a line ends at a newline or at the width of the window. A
  non-positive height is never reached.\<close>

fun window_bytes :: "int \<Rightarrow> int \<Rightarrow> int \<Rightarrow> int \<Rightarrow> string \<Rightarrow> nat" where
  "window_bytes width height lp lineno [] = 0"
| "window_bytes width height lp lineno (c # cs) =
     (if c = CHR 0x0A \<or> lp = width then
        (if lineno + 1 = height then 1
         else Suc (window_bytes width height 1 (lineno + 1) cs))
      else Suc (window_bytes width height (lp + 1) lineno cs))"

definition content :: "buffer \<Rightarrow> string" where
  "content b = concat (map unread (b_blocks b))"

definition buffer_flush_window ::
  "int \<Rightarrow> int \<Rightarrow> bool \<Rightarrow> bool \<Rightarrow> buffer \<Rightarrow> string list \<times> buffer" where
  "buffer_flush_window width height erase no_more b =
     buffer_flush_vty (window_bytes width (if height \<ge> 2 then height - 1 else height) 0 0 (content b))
       erase no_more b"

section \<open>Invariant\<close>

text \<open>Every block holds something unread and at most \<open>size\<close> bytes.\<close>

definition block_ok :: "nat \<Rightarrow> bdata \<Rightarrow> bool" where
  "block_ok sz d \<longleftrightarrow> bd_sp d < length (bd_data d) \<and> length (bd_data d) \<le> sz"

definition buf_ok :: "buffer \<Rightarrow> bool" where
  "buf_ok b \<longleftrightarrow> 0 < b_size b \<and> list_all (block_ok (b_size b)) (b_blocks b) \<and> b_alloc b = length (b_blocks b)"

lemma buf_ok_new [inv_intros]: "0 < sz \<Longrightarrow> buf_ok (buffer_new sz)"
  by (simp add: buf_ok_def buffer_new_def)

lemma content_new [simp]: "content (buffer_new sz) = []"
  by (simp add: content_def buffer_new_def)

lemma buf_ok_reset [inv_intros]: "buf_ok b \<Longrightarrow> buf_ok (buffer_reset b)"
  by (simp add: buf_ok_def buffer_reset_def)

lemma content_reset [simp]: "content (buffer_reset b) = []"
  by (simp add: content_def buffer_reset_def)

lemma tail_drained_iff: "list_all (block_ok sz) ds \<Longrightarrow> tail_drained ds = (ds = [])"
  by (cases ds rule: rev_cases) (auto simp: tail_drained_def block_ok_def)

lemma buffer_empty_iff: "buf_ok b \<Longrightarrow> buffer_empty b = (content b = [])"
  by (cases "b_blocks b")
    (auto simp: buffer_empty_def buf_ok_def tail_drained_iff content_def block_ok_def unread_def)

section \<open>Writing appends\<close>

text \<open>\<open>buf_pre\<close> is the invariant inside the loop, where the last block may be new.\<close>

definition buf_pre :: "buffer \<Rightarrow> bool" where
  "buf_pre b \<longleftrightarrow> 0 < b_size b \<and> list_all (block_ok (b_size b)) (butlast (b_blocks b))
     \<and> b_blocks b \<noteq> [] \<and> bd_sp (last (b_blocks b)) \<le> length (bd_data (last (b_blocks b)))
     \<and> length (bd_data (last (b_blocks b))) \<le> b_size b \<and> b_alloc b = length (b_blocks b)"

lemma list_all_snoc: "xs \<noteq> [] \<Longrightarrow> list_all P xs = (list_all P (butlast xs) \<and> P (last xs))"
  by (cases xs rule: rev_cases) auto

lemma pre_of_ok:
  assumes "buf_ok b"
  shows "buf_pre (if need_block b then buffer_add b else b)
    \<and> content (if need_block b then buffer_add b else b) = content b"
  using assms
  by (auto simp: buf_pre_def buf_ok_def need_block_def buffer_add_def buffer_data_new_def content_def
      unread_def list_all_snoc block_ok_def)

lemma fill_last_ok:
  assumes "buf_pre b" "xs \<noteq> []" "length xs \<le> room b"
  shows "buf_ok (fill_last xs b) \<and> content (fill_last xs b) = content b @ xs"
proof -
  obtain ds d where b: "b_blocks b = ds @ [d]" using assms(1) by (cases "b_blocks b" rule: rev_cases) (auto simp: buf_pre_def)
  obtain y ys where "xs = y # ys" using assms(2) by (cases xs) auto
  then show ?thesis using assms b
    by (auto simp: buf_pre_def buf_ok_def fill_last_def room_def content_def unread_def block_ok_def Let_def)
qed

lemma b_size_fill [simp]: "b_size (fill_last xs b) = b_size b"
  by (simp add: fill_last_def Let_def)

lemma write_loop_ok: "buf_ok b \<Longrightarrow> buf_ok (write_loop xs b) \<and> content (write_loop xs b) = content b @ xs"
proof (induction xs b rule: write_loop.induct)
  case (1 xs b)
  let ?b1 = "if need_block b then buffer_add b else b"
  have sz: "0 < b_size b" using 1 by (simp add: buf_ok_def)
  note pre = pre_of_ok [OF 1(2)] and r = room_pos [OF sz]
  show ?case
  proof (cases "xs = []")
    case True
    then show ?thesis using 1(2) by (subst (1 2) write_loop.simps) simp
  next
    case False
    show ?thesis
    proof (cases "length xs \<le> room ?b1")
      case True
      then show ?thesis
        using False sz pre fill_last_ok [of ?b1 xs] by (subst (1 2) write_loop.simps) (simp add: Let_def)
    next
      case l: False
      have f: "buf_ok (fill_last (take (room ?b1) xs) ?b1)
          \<and> content (fill_last (take (room ?b1) xs) ?b1) = content ?b1 @ take (room ?b1) xs"
        using pre r False by (intro fill_last_ok) auto
      have "\<not> (xs = [] \<or> b_size b = 0)" using False sz by simp
      then show ?thesis
        using 1(1) [OF _ refl l] f pre l by (subst (1 2) write_loop.simps) (simp add: Let_def)
    qed
  qed
qed

lemma buf_ok_write [inv_intros]: "buf_ok b \<Longrightarrow> buf_ok (buffer_write xs b)"
  and content_write: "buf_ok b \<Longrightarrow> content (buffer_write xs b) = content b @ xs"
  using write_loop_ok [of "b\<lparr>b_length := b_length b + length xs\<rparr>" xs]
  by (simp_all add: buffer_write_def buf_ok_def content_def)

section \<open>Flushing takes from the front\<close>

lemma flush_loop_split:
  "flush_loop n ds = (iov, rest) \<Longrightarrow> list_all (block_ok sz) ds \<Longrightarrow>
     concat iov = take n (concat (map unread ds))
     \<and> concat (map unread rest) = drop n (concat (map unread ds))
     \<and> list_all (block_ok sz) rest \<and> length iov \<le> length ds \<and> length rest \<le> length ds"
proof (induction n ds arbitrary: iov rest rule: flush_loop.induct)
  case (2 n d ds)
  show ?case
  proof (cases "n \<le> length (unread d)")
    case True
    then show ?thesis
      using 2(2,3) by (auto simp: unread_def block_ok_def add.commute)
  next
    case False
    obtain iov' where r: "flush_loop (n - length (unread d)) ds = (iov', rest)" "iov = unread d # iov'"
      using 2(2) False by (auto split: prod.splits)
    then show ?thesis using 2(1) [OF False r(1)] 2(3) False by (auto simp: not_le)
  qed
qed simp

lemma keep_blocks_ok:
  "buf_ok b \<Longrightarrow> list_all (block_ok (b_size b)) ds \<Longrightarrow> length ds \<le> length (b_blocks b) \<Longrightarrow>
     buf_ok (keep_blocks ds b) \<and> content (keep_blocks ds b) = concat (map unread ds)"
  by (simp add: buf_ok_def keep_blocks_def content_def)

text \<open>Number of entries of the vector against the entries allocated for it: three on the stack
  for a single block, otherwise two more than blocks.\<close>

definition iov_entries :: "buffer \<Rightarrow> nat" where
  "iov_entries b = (if b_alloc b = 1 then 3 else b_alloc b + 2)"

lemma flush_vty_ok:
  assumes "buf_ok b" "buffer_flush_vty n erase no_more b = (iov, b')"
  shows "buf_ok b' \<and> content b' = drop n (content b) \<and> length iov \<le> iov_entries b
    \<and> concat iov = (if erase then erase_text else []) @ take n (content b)
        @ (if n < length (content b) \<and> \<not> no_more then more_text else [])"
proof -
  obtain v ds where v: "flush_loop n (b_blocks b) = (v, ds)" by fastforce
  have ok: "list_all (block_ok (b_size b)) (b_blocks b)" using assms(1) by (simp add: buf_ok_def)
  note s = flush_loop_split [OF v ok]
  have k: "buf_ok (keep_blocks ds b)" "content (keep_blocks ds b) = concat (map unread ds)"
    using keep_blocks_ok [OF assms(1)] s by auto
  have "(ds = []) = (drop n (content b) = [])"
    using s buffer_empty_iff [OF k(1)] k(2) tail_drained_iff [of "b_size b" ds]
    by (simp add: buffer_empty_def keep_blocks_def content_def)
  then have d: "tail_drained ds = (length (content b) \<le> n)"
    using s tail_drained_iff [of "b_size b" ds] by simp
  show ?thesis
    using assms(2) v s k d assms(1) by (auto simp: buffer_flush_vty_def iov_entries_def buf_ok_def content_def)
qed

section \<open>A screen\<close>

lemma window_bytes_lines:
  "0 \<le> lineno \<Longrightarrow> lineno < height \<Longrightarrow>
     int (count_list (take (window_bytes width height lp lineno cs) cs) (CHR 0x0A)) \<le> height - lineno"
proof (induction width height lp lineno cs rule: window_bytes.induct)
  case (2 width height lp lineno c cs)
  then show ?case by (auto simp: Let_def)
qed simp

text \<open>A line is never longer on the screen than its width: the terminal lines needed for a text.\<close>

fun screen_lines :: "int \<Rightarrow> int \<Rightarrow> string \<Rightarrow> int" where
  "screen_lines width lp [] = 0"
| "screen_lines width lp (c # cs) =
     (if c = CHR 0x0A \<or> lp = width then 1 + screen_lines width 1 cs else screen_lines width (lp + 1) cs)"

lemma window_bytes_screen:
  "lineno < height \<Longrightarrow>
     lineno + screen_lines width lp (take (window_bytes width height lp lineno cs) cs) \<le> height
     \<and> (window_bytes width height lp lineno cs < length cs \<longrightarrow>
        lineno + screen_lines width lp (take (window_bytes width height lp lineno cs) cs) = height)"
proof (induction width height lp lineno cs rule: window_bytes.induct)
  case (2 width height lp lineno c cs)
  then show ?case by auto
qed simp

section \<open>The contract\<close>

text \<open>A byte queue: what the users of a buffer rely on.\<close>

locale byte_queue =
  fixes ok :: "'b \<Rightarrow> bool" and view :: "'b \<Rightarrow> string"
    and put :: "string \<Rightarrow> 'b \<Rightarrow> 'b" and take_n :: "nat \<Rightarrow> 'b \<Rightarrow> string list \<times> 'b"
  assumes put_ok: "ok b \<Longrightarrow> ok (put xs b)"
    and put_view: "ok b \<Longrightarrow> view (put xs b) = view b @ xs"
    and take_ok: "ok b \<Longrightarrow> take_n n b = (out, b') \<Longrightarrow> ok b'"
    and take_view: "ok b \<Longrightarrow> take_n n b = (out, b') \<Longrightarrow> concat out @ view b' = view b"
begin

text \<open>Whatever is put and taken, in any order, comes out in the order it was put in.\<close>

fun run :: "(string + nat) list \<Rightarrow> 'b \<Rightarrow> string \<times> 'b" where
  "run [] b = ([], b)"
| "run (Inl xs # ops) b = run ops (put xs b)"
| "run (Inr n # ops) b = (let (out, b1) = take_n n b; (rest, b2) = run ops b1 in (concat out @ rest, b2))"

fun puts :: "(string + nat) list \<Rightarrow> string" where
  "puts [] = []"
| "puts (Inl xs # ops) = xs @ puts ops"
| "puts (Inr n # ops) = puts ops"

lemma run_fifo:
  "ok b \<Longrightarrow> run ops b = (out, b') \<Longrightarrow> ok b' \<and> out @ view b' = view b @ puts ops"
proof (induction ops arbitrary: b out)
  case (Cons a ops)
  show ?case
  proof (cases a)
    case (Inl xs)
    then show ?thesis using Cons.prems Cons.IH [of "put xs b" out] put_ok [of b xs] put_view [of b xs] by simp
  next
    case (Inr n)
    obtain o1 b1 where t: "take_n n b = (o1, b1)" by fastforce
    obtain o2 where r: "run ops b1 = (o2, b')" "out = concat o1 @ o2"
      using Cons.prems(2) Inr t by (auto split: prod.splits)
    have "ok b' \<and> o2 @ view b' = view b1 @ puts ops"
      using Cons.IH [OF take_ok [OF Cons.prems(1) t] r(1)] .
    moreover have "view b @ puts ops = concat o1 @ view b1 @ puts ops"
      using take_view [OF Cons.prems(1) t, symmetric] by simp
    ultimately show ?thesis using r(2) Inr by simp
  qed
qed simp

end

interpretation obuf: byte_queue buf_ok content buffer_write buffer_flush
proof
  fix b b' xs n out
  assume ok: "buf_ok b"
  show "buf_ok (buffer_write xs b)" by (rule buf_ok_write [OF ok])
  show "content (buffer_write xs b) = content b @ xs" by (rule content_write [OF ok])
  assume f: "buffer_flush n b = (out, b')"
  obtain v ds where v: "flush_loop n (b_blocks b) = (v, ds)" by fastforce
  have ds: "list_all (block_ok (b_size b)) (b_blocks b)" using ok by (simp add: buf_ok_def)
  note s = flush_loop_split [OF v ds]
  have b': "b' = keep_blocks ds b" "out = v" using f v by (simp_all add: buffer_flush_def)
  show "buf_ok b'" using keep_blocks_ok [OF ok] s b' by simp
  show "concat out @ content b' = content b"
    using keep_blocks_ok [OF ok] s b' by (simp add: content_def)
qed

text \<open>C31. The paged output of a terminal: each screen is the next piece of what was written, in
  order and without loss; it takes at most the lines of the window (less one for the prompt), and
  exactly so many if something is left, which is announced by \<open>--More--\<close>. The vector handed to
  \<open>writev\<close> fits the memory allocated for it.\<close>

theorem flush_window_pages:
  assumes "buf_ok b" "2 \<le> height" "buffer_flush_window width height erase no_more b = (iov, b')"
  shows "\<exists>page. content b = page @ content b' \<and> buf_ok b' \<and> length iov \<le> iov_entries b
    \<and> concat iov = (if erase then erase_text else []) @ page
        @ (if content b' \<noteq> [] \<and> \<not> no_more then more_text else [])
    \<and> screen_lines width 0 page \<le> height - 1
    \<and> (content b' \<noteq> [] \<longrightarrow> screen_lines width 0 page = height - 1)"
proof -
  let ?n = "window_bytes width (height - 1) 0 0 (content b)"
  have f: "buffer_flush_vty ?n erase no_more b = (iov, b')"
    using assms(2,3) by (simp add: buffer_flush_window_def)
  note s = flush_vty_ok [OF assms(1) f]
  have "content b = take ?n (content b) @ content b'" using s by simp
  then show ?thesis
    using s window_bytes_screen [of 0 "height - 1" width 0 "content b"] assms(2)
    by (intro exI [where x = "take ?n (content b)"]) auto
qed

lemma flush_window_pages_witness:
  "\<exists>page. screen_lines 80 0 page \<le> 2
     \<and> concat (fst (buffer_flush_window 80 3 False False
         (buffer_write (''a'' @ [CHR 0x0A] @ ''b'' @ [CHR 0x0A] @ ''c'') (buffer_new 4)))) = page @ more_text"
proof -
  let ?b = "buffer_write (''a'' @ [CHR 0x0A] @ ''b'' @ [CHR 0x0A] @ ''c'') (buffer_new 4)"
  have ok: "buf_ok ?b" by (intro inv_intros) simp
  obtain iov b' where f: "buffer_flush_window 80 3 False False ?b = (iov, b')" by fastforce
  have c: "content (snd (buffer_flush_window 80 3 False False ?b)) = ''c''" by code_simp
  show ?thesis
    using flush_window_pages [OF ok _ f] c f by auto
qed

end
