(* ===== verification/VtyState.thy ===== *)
theory VtyState
  imports Buffer CmdTable
begin

text \<open>
  The state of a terminal session (\<open>struct vty\<close> of \<open>vty.h\<close>), the host configuration and the
  globals of \<open>vty.c\<close> and \<open>command.c\<close> that sessions share, and the operations on them that need
  no command table lookup but the prompt: output, the configuration lock, the moves between
  nodes, and the password check.
\<close>

section \<open>State\<close>

datatype vty_type = VTY_TERM | VTY_FILE | VTY_SHELL | VTY_SHELL_SERV

datatype vty_status = VTY_NORMAL | VTY_CLOSE | VTY_MORE | VTY_MORELINE | VTY_START | VTY_CONTINUE

datatype vty_escape = ESC_NORMAL | VTY_PRE_ESCAPE | VTY_ESCAPE

definition VTY_BUFSIZ :: nat where "VTY_BUFSIZ = 512"
definition VTY_MAXHIST :: nat where "VTY_MAXHIST = 20"
definition VTY_READ_BUFSIZ :: nat where "VTY_READ_BUFSIZ = 512"
definition VTY_TIMEOUT_DEFAULT :: nat where "VTY_TIMEOUT_DEFAULT = 600"

text \<open>\<open>vt_buf\<close> is the whole input buffer, of \<open>max\<close> bytes; \<open>vt_direct\<close> collects what is
  written past the output buffer, to a file descriptor or to standard output.\<close>

record vty =
  vt_fd :: nat
  vt_type :: vty_type
  vt_node :: node_type
  vt_address :: string
  vt_fail :: nat
  vt_obuf :: buffer
  vt_direct :: string
  vt_buf :: string
  vt_cp :: nat
  vt_length :: nat
  vt_hist :: "string option list"
  vt_hp :: nat
  vt_hindex :: nat
  vt_escape :: vty_escape
  vt_status :: vty_status
  vt_iac :: bool
  vt_sb :: bool
  vt_sb_buffer :: "buffer option"
  vt_width :: int
  vt_height :: int
  vt_lines :: int
  vt_monitor :: bool
  vt_config :: bool
  vt_v_timeout :: nat
  vt_t_read :: bool
  vt_t_write :: bool
  vt_t_timeout :: bool

definition vt_max :: "vty \<Rightarrow> nat" where
  "vt_max v = length (vt_buf v)"

record host =
  h_name :: "string option"
  h_password :: "string option"
  h_password_encrypt :: "string option"
  h_enable :: "string option"
  h_enable_encrypt :: "string option"
  h_lines :: int
  h_logfile :: "string option"
  h_log_stdout :: bool
  h_log_syslog :: bool
  h_config :: "string option"
  h_advanced :: bool
  h_encrypt :: bool
  h_motd :: "string option"

text \<open>The part of \<open>struct zlog\<close> that commands set.\<close>

record zlog =
  z_facility :: string
  z_maskpri :: nat
  z_record_priority :: bool
  z_stdout :: bool
  z_syslog :: bool
  z_file :: "string option"

text \<open>The file system as the configuration commands see it: the files, the name \<open>mkstemp\<close> makes of a
  template (\<open>None\<close>: it fails), which \<open>open\<close>, \<open>link\<close> and \<open>unlink\<close> the system permits, the time that
  \<open>strftime\<close> prints, and the first descriptor that is not taken for good.\<close>

record fsys =
  fs_files :: "string \<Rightarrow> string option"
  fs_mkstemp :: "string \<Rightarrow> string option"
  fs_may_open :: "string \<Rightarrow> bool"
  fs_may_link :: "string \<Rightarrow> bool"
  fs_may_unlink :: "string \<Rightarrow> bool"
  fs_time :: string
  fs_first :: nat

text \<open>The globals. \<open>l_nodename\<close> is the answer of \<open>uname\<close>, \<open>l_heap n\<close> what \<open>realloc\<close> leaves in \<open>n\<close>
  fresh bytes, \<open>l_cwd\<close> the working directory, \<open>l_open\<close> tells whether a log file can be opened;
  \<open>l_vtyvec\<close> is the vector of sessions, indexed by descriptor, \<open>l_written\<close> what was written to
  descriptors so far, \<open>l_uninit\<close> what a local variable holds that was never assigned;
  \<open>l_app\<close> is the state of the program the library is linked to.\<close>

record 'x lib =
  l_host :: host
  l_zlog :: zlog
  l_vty_config :: bool
  l_no_password_check :: bool
  l_timeout_val :: nat
  l_access :: "string option"
  l_access6 :: "string option"
  l_nodename :: string
  l_heap :: "nat \<Rightarrow> string"
  l_cwd :: string
  l_open :: "string \<Rightarrow> bool"
  l_fs :: fsys
  l_vtyvec :: "vty vec"
  l_written :: "(nat \<times> string) list"
  l_uninit :: int
  l_app :: 'x

record 'x session =
  s_lib :: "'x lib"
  s_vty :: vty

definition on_vty :: "(vty \<Rightarrow> vty) \<Rightarrow> 'x session \<Rightarrow> 'x session" where
  "on_vty f s = s\<lparr>s_vty := f (s_vty s)\<rparr>"

definition on_host :: "(host \<Rightarrow> host) \<Rightarrow> 'x session \<Rightarrow> 'x session" where
  "on_host f s = s\<lparr>s_lib := (s_lib s)\<lparr>l_host := f (l_host (s_lib s))\<rparr>\<rparr>"

definition s_host :: "'x session \<Rightarrow> host" where
  "s_host s = l_host (s_lib s)"

text \<open>The caller goes on after the callee has returned, in one way or the other.\<close>

fun after :: "'s outcome \<Rightarrow> ('s \<Rightarrow> 't outcome) \<Rightarrow> 't outcome" where
  "after (Cont s) f = f s"
| "after (Ret s) f = f s"
| "after (Fault e) f = Fault e"

lemma after_Cont: "(after m f = Cont t) = (\<exists>s. (m = Cont s \<or> m = Ret s) \<and> f s = Cont t)"
  by (cases m) auto

lemma after_not_Fault: "(\<And>e. m \<noteq> Fault e) \<Longrightarrow> (\<And>s e. m = Cont s \<or> m = Ret s \<Longrightarrow> f s \<noteq> Fault e) \<Longrightarrow> after m f \<noteq> Fault e'"
  by (cases m) auto

section \<open>Construction\<close>

definition vty_new :: vty where
  "vty_new = \<lparr>vt_fd = 0, vt_type = VTY_TERM, vt_node = AUTH_NODE, vt_address = [], vt_fail = 0,
     vt_obuf = buffer_new 100, vt_direct = [], vt_buf = replicate VTY_BUFSIZ (CHR 0x00), vt_cp = 0,
     vt_length = 0, vt_hist = replicate VTY_MAXHIST None, vt_hp = 0, vt_hindex = 0,
     vt_escape = ESC_NORMAL, vt_status = VTY_NORMAL, vt_iac = False, vt_sb = False,
     vt_sb_buffer = None, vt_width = 0, vt_height = 0, vt_lines = 0, vt_monitor = False,
     vt_config = False, vt_v_timeout = 0, vt_t_read = False, vt_t_write = False, vt_t_timeout = False\<rparr>"

section \<open>Output\<close>

definition vty_shell :: "vty \<Rightarrow> bool" where
  "vty_shell v \<longleftrightarrow> vt_type v = VTY_SHELL"

definition vty_shell_serv :: "vty \<Rightarrow> bool" where
  "vty_shell_serv v \<longleftrightarrow> vt_type v = VTY_SHELL_SERV"

text \<open>\<open>vty_out\<close> is given the formatted text.\<close>

definition vty_out :: "string \<Rightarrow> vty \<Rightarrow> vty" where
  "vty_out str v =
     (if vty_shell v \<or> vty_shell_serv v then v\<lparr>vt_direct := vt_direct v @ str\<rparr>
      else v\<lparr>vt_obuf := buffer_write str (vt_obuf v)\<rparr>)"

definition VTY_NEWLINE :: "vty \<Rightarrow> string" where
  "VTY_NEWLINE v = (if vt_type v = VTY_TERM then [CHR 0x0D, CHR 0x0A] else [CHR 0x0A])"

definition vty_line :: "string \<Rightarrow> vty \<Rightarrow> vty" where
  "vty_line str v = vty_out (str @ VTY_NEWLINE v) v"

definition in_auth :: "vty \<Rightarrow> bool" where
  "in_auth v \<longleftrightarrow> vt_node v = AUTH_NODE \<or> vt_node v = AUTH_ENABLE_NODE"

text \<open>Nothing typed is echoed while a password is asked for.\<close>

definition vty_write :: "string \<Rightarrow> vty \<Rightarrow> vty" where
  "vty_write str v = (if in_auth v then v else v\<lparr>vt_obuf := buffer_write str (vt_obuf v)\<rparr>)"

definition vty_hello :: "'x session \<Rightarrow> 'x session" where
  "vty_hello s = (case h_motd (s_host s) of None \<Rightarrow> s | Some m \<Rightarrow> on_vty (vty_out m) s)"

text \<open>A format with (at most) one \<open>%s\<close>.\<close>

fun fmt_s :: "string \<Rightarrow> string \<Rightarrow> string" where
  "fmt_s (a # b # cs) x = (if a = CHR ''%'' \<and> b = CHR ''s'' then x @ cs else a # fmt_s (b # cs) x)"
| "fmt_s cs x = cs"

definition hostname :: "'x session \<Rightarrow> string" where
  "hostname s = (case h_name (s_host s) of Some n \<Rightarrow> n | None \<Rightarrow> l_nodename (s_lib s))"

definition vty_prompt :: "'f cmd_node vec \<Rightarrow> 'x session \<Rightarrow> 'x session outcome" where
  "vty_prompt tbl s =
     (if vt_type (s_vty s) = VTY_TERM
      then after (cmd_prompt tbl (vt_node (s_vty s))) (\<lambda>p. Cont (on_vty (vty_out (fmt_s p (hostname s))) s))
      else Cont s)"

definition vty_will_echo :: "vty \<Rightarrow> vty" where
  "vty_will_echo = vty_out [CHR 0xFF, CHR 0xFB, CHR 0x01]"

definition vty_will_suppress_go_ahead :: "vty \<Rightarrow> vty" where
  "vty_will_suppress_go_ahead = vty_out [CHR 0xFF, CHR 0xFB, CHR 0x03]"

definition vty_dont_linemode :: "vty \<Rightarrow> vty" where
  "vty_dont_linemode = vty_out [CHR 0xFF, CHR 0xFE, CHR 0x22]"

definition vty_do_window_size :: "vty \<Rightarrow> vty" where
  "vty_do_window_size = vty_out [CHR 0xFF, CHR 0xFD, CHR 0x1F]"

section \<open>The configuration lock\<close>

definition set_lock :: "bool \<Rightarrow> 'x session \<Rightarrow> 'x session" where
  "set_lock b s = s\<lparr>s_lib := (s_lib s)\<lparr>l_vty_config := b\<rparr>, s_vty := (s_vty s)\<lparr>vt_config := b\<rparr>\<rparr>"

definition vty_config_lock :: "'x session \<Rightarrow> bool \<times> 'x session" where
  "vty_config_lock s =
     (let s1 = (if \<not> l_vty_config (s_lib s) then set_lock True s else s) in (vt_config (s_vty s1), s1))"

definition vty_config_unlock :: "'x session \<Rightarrow> 'x session" where
  "vty_config_unlock s =
     (if l_vty_config (s_lib s) \<and> vt_config (s_vty s) then set_lock False s else s)"

section \<open>Moves between nodes\<close>

definition set_node :: "node_type \<Rightarrow> 'x session \<Rightarrow> 'x session" where
  "set_node n = on_vty (\<lambda>v. v\<lparr>vt_node := n\<rparr>)"

definition config_terminal :: "'x session \<Rightarrow> int \<times> 'x session" where
  "config_terminal s =
     (let (locked, s1) = vty_config_lock s
      in if locked then (CMD_SUCCESS, set_node CONFIG_NODE s1)
         else (CMD_WARNING, on_vty (vty_line ''VTY configuration is locked by other VTY'') s1))"

definition enable :: "'x session \<Rightarrow> int \<times> 'x session" where
  "enable s =
     (CMD_SUCCESS, set_node (if h_enable (s_host s) = None \<and> h_enable_encrypt (s_host s) = None
        \<or> vty_shell_serv (s_vty s) then ENABLE_NODE else AUTH_ENABLE_NODE) s)"

definition disable :: "'x session \<Rightarrow> int \<times> 'x session" where
  "disable s = (CMD_SUCCESS, if vt_node (s_vty s) = ENABLE_NODE then set_node VIEW_NODE s else s)"


definition config_exit :: "'x session \<Rightarrow> (int \<times> 'x session) outcome" where
  "config_exit s =
     (case vt_node (s_vty s) of
        VIEW_NODE \<Rightarrow> (if vty_shell (s_vty s) then Fault ProcExit
          else Cont (CMD_SUCCESS, on_vty (\<lambda>v. v\<lparr>vt_status := VTY_CLOSE\<rparr>) s))
      | ENABLE_NODE \<Rightarrow> (if vty_shell (s_vty s) then Fault ProcExit
          else Cont (CMD_SUCCESS, on_vty (\<lambda>v. v\<lparr>vt_status := VTY_CLOSE\<rparr>) s))
      | CONFIG_NODE \<Rightarrow> Cont (CMD_SUCCESS, vty_config_unlock (set_node ENABLE_NODE s))
      | n \<Rightarrow>
        (if n \<in> {INTERFACE_NODE, ZEBRA_NODE, BGP_NODE, RIP_NODE, RIPNG_NODE, OSPF_NODE, OSPF6_NODE,
             KEYCHAIN_NODE, MASC_NODE, RMAP_NODE, VTY_NODE}
         then Cont (CMD_SUCCESS, set_node CONFIG_NODE s)
         else if n \<in> {BGP_VPNV4_NODE, BGP_IPV4_NODE, BGP_IPV4M_NODE, BGP_IPV6_NODE}
         then Cont (CMD_SUCCESS, set_node BGP_NODE s)
         else if n = KEYCHAIN_KEY_NODE then Cont (CMD_SUCCESS, set_node KEYCHAIN_NODE s)
         else Cont (CMD_SUCCESS, s)))"

text \<open>The nodes that \<open>end\<close> and control-Z leave for the enable node.\<close>

definition config_nodes :: "node_type set" where
  "config_nodes = {CONFIG_NODE, INTERFACE_NODE, ZEBRA_NODE, RIP_NODE, RIPNG_NODE, BGP_NODE, BGP_VPNV4_NODE,
     BGP_IPV4_NODE, BGP_IPV4M_NODE, BGP_IPV6_NODE, RMAP_NODE, OSPF_NODE, OSPF6_NODE, KEYCHAIN_NODE,
     KEYCHAIN_KEY_NODE, MASC_NODE, VTY_NODE}"

definition leave_config :: "node_type set \<Rightarrow> 'x session \<Rightarrow> 'x session" where
  "leave_config ns s = (if vt_node (s_vty s) \<in> ns then set_node ENABLE_NODE (vty_config_unlock s) else s)"

definition config_end :: "'x session \<Rightarrow> int \<times> 'x session" where
  "config_end s = (CMD_SUCCESS, leave_config config_nodes s)"

text \<open>Control-Z. The cursor goes back to the start of the line; what was typed stays in the buffer.\<close>

definition vty_end_config :: "'f cmd_node vec \<Rightarrow> 'x session \<Rightarrow> 'x session outcome" where
  "vty_end_config tbl s =
     after (vty_prompt tbl (leave_config config_nodes (on_vty (vty_line []) s)))
       (\<lambda>s1. Cont (on_vty (\<lambda>v. v\<lparr>vt_cp := 0\<rparr>) s1))"

definition vty_down_level :: "'f cmd_node vec \<Rightarrow> 'x session \<Rightarrow> 'x session outcome" where
  "vty_down_level tbl s =
     after (config_exit (on_vty (vty_line []) s))
       (\<lambda>(_, s1). after (vty_prompt tbl s1) (\<lambda>s2. Cont (on_vty (\<lambda>v. v\<lparr>vt_cp := 0\<rparr>) s2)))"

section \<open>Passwords\<close>

definition or_else :: "'a option \<Rightarrow> 'a option \<Rightarrow> 'a option" where
  "or_else a b = (case a of Some x \<Rightarrow> Some x | None \<Rightarrow> b)"

text \<open>Which password is asked for, and where the right one leads.\<close>

definition auth_password :: "host \<Rightarrow> node_type \<Rightarrow> string option" where
  "auth_password h n =
     (if n = AUTH_NODE then or_else (h_password_encrypt h) (h_password h)
      else if n = AUTH_ENABLE_NODE then or_else (h_enable_encrypt h) (h_enable h) else None)"

definition auth_next :: "host \<Rightarrow> node_type \<Rightarrow> node_type" where
  "auth_next h n =
     (if n = AUTH_NODE then (if h_advanced h \<and> h_enable h = None then ENABLE_NODE else VIEW_NODE)
      else if n = AUTH_ENABLE_NODE then ENABLE_NODE else AUTH_NODE)"

definition vty_auth :: "string \<Rightarrow> 'x session \<Rightarrow> 'x session" where
  "vty_auth buf s =
     (let v = s_vty s; n = vt_node v;
          fail = (case auth_password (s_host s) n of None \<Rightarrow> True | Some p \<Rightarrow> strcmp buf p \<noteq> 0)
      in if \<not> fail then on_vty (\<lambda>v. v\<lparr>vt_fail := 0, vt_node := auth_next (s_host s) n\<rparr>) s
         else let v1 = v\<lparr>vt_fail := vt_fail v + 1\<rparr>
           in s\<lparr>s_vty :=
             (if vt_fail v1 \<ge> 3 then
                (if n = AUTH_NODE
                 then (vty_line ''% Bad passwords, too many failures!'' v1)\<lparr>vt_status := VTY_CLOSE\<rparr>
                 else (vty_line ''% Bad enable passwords, too many failures!'' (v1\<lparr>vt_fail := 0\<rparr>))
                    \<lparr>vt_node := VIEW_NODE\<rparr>)
              else v1)\<rparr>)"

end
