(* ===== verification/VtyEdit.thy ===== *)
theory VtyEdit
  imports VtyState "HOL-Library.While_Combinator"
begin

text \<open>
  The line editor of a terminal session (\<open>vty.c\<close>): the cursor and the characters of the input
  buffer, the echo that keeps the remote terminal in step, and the command history. The
  specification is a line with a cursor, a pair of strings, and the screen line of a terminal that
  receives the echo.
\<close>

section \<open>Memory\<close>

text \<open>Bytes written into the buffer at a position inside it, and \<open>memmove\<close> within it.\<close>

definition poke :: "nat \<Rightarrow> string \<Rightarrow> vty \<Rightarrow> vty" where
  "poke i xs v = v\<lparr>vt_buf := take i (vt_buf v) @ xs @ drop (i + length xs) (vt_buf v)\<rparr>"

definition peek :: "nat \<Rightarrow> nat \<Rightarrow> vty \<Rightarrow> string" where
  "peek i n v = take n (drop i (vt_buf v))"

text \<open>\<open>realloc\<close> keeps the old bytes; the new half holds whatever was in memory there.\<close>

definition fresh :: "(nat \<Rightarrow> string) \<Rightarrow> nat \<Rightarrow> string" where
  "fresh h n = take n (h n @ replicate n (CHR 0x00))"

definition vty_ensure :: "(nat \<Rightarrow> string) \<Rightarrow> nat \<Rightarrow> vty \<Rightarrow> vty" where
  "vty_ensure h len v = (if vt_max v \<le> len then v\<lparr>vt_buf := vt_buf v @ fresh h (vt_max v)\<rparr> else v)"

section \<open>Editing operations\<close>

definition BS :: string where "BS = [CHR 0x08]"

definition vty_self_insert :: "(nat \<Rightarrow> string) \<Rightarrow> char \<Rightarrow> vty \<Rightarrow> vty" where
  "vty_self_insert h c v =
     (let v1 = vty_ensure h (vt_length v + 1) v;
          n = vt_length v1 - vt_cp v1;
          v2 = poke (vt_cp v1) (c # peek (vt_cp v1) n v1) v1;
          v3 = vty_write (peek (vt_cp v2) (n + 1) v2) v2;
          v4 = (vty_write BS ^^ n) v3
      in v4\<lparr>vt_cp := vt_cp v4 + 1, vt_length := vt_length v4 + 1\<rparr>)"

definition vty_self_insert_overwrite :: "(nat \<Rightarrow> string) \<Rightarrow> char \<Rightarrow> vty \<Rightarrow> vty" where
  "vty_self_insert_overwrite h c v =
     (let v1 = vty_ensure h (vt_length v + 1) v;
          v2 = (poke (vt_cp v1) [c] v1)\<lparr>vt_cp := vt_cp v1 + 1\<rparr>;
          v3 = (if vt_cp v2 > vt_length v2 then v2\<lparr>vt_length := vt_length v2 + 1\<rparr> else v2)
      in vty_write [c] v3)"

text \<open>\<open>strcpy\<close> into the buffer without a check of its size.\<close>

definition vty_insert_word_overwrite :: "string \<Rightarrow> vty \<Rightarrow> vty outcome" where
  "vty_insert_word_overwrite str v =
     (if vt_cp v + length str + 1 > vt_max v then Fault Overrun
      else let v1 = poke (vt_cp v) (str @ [CHR 0x00]) (vty_write str v)
        in Cont (v1\<lparr>vt_cp := vt_cp v1 + length str, vt_length := vt_cp v1 + length str\<rparr>))"

definition vty_forward_char :: "vty \<Rightarrow> vty" where
  "vty_forward_char v =
     (if vt_cp v < vt_length v
      then let v1 = vty_write (peek (vt_cp v) 1 v) v in v1\<lparr>vt_cp := vt_cp v1 + 1\<rparr>
      else v)"

definition vty_backward_char :: "vty \<Rightarrow> vty" where
  "vty_backward_char v =
     (if vt_cp v > 0 then vty_write BS (v\<lparr>vt_cp := vt_cp v - 1\<rparr>) else v)"

lemma vt_cp_write [simp]: "vt_cp (vty_write s v) = vt_cp v"
  by (simp add: vty_write_def)

function vty_beginning_of_line :: "vty \<Rightarrow> vty" where
  "vty_beginning_of_line v = (if vt_cp v > 0 then vty_beginning_of_line (vty_backward_char v) else v)"
  by pat_completeness auto
termination by (relation "measure vt_cp") (auto simp: vty_backward_char_def)

declare vty_beginning_of_line.simps [simp del]

lemma vt_length_write [simp]: "vt_length (vty_write s v) = vt_length v"
  by (simp add: vty_write_def)

function vty_end_of_line :: "vty \<Rightarrow> vty" where
  "vty_end_of_line v = (if vt_cp v < vt_length v then vty_end_of_line (vty_forward_char v) else v)"
  by pat_completeness auto
termination
  by (relation "measure (\<lambda>v. vt_length v - vt_cp v)") (auto simp: vty_forward_char_def Let_def)

declare vty_end_of_line.simps [simp del]

text \<open>This function redraws the line from its start.\<close>

definition vty_redraw_line :: "vty \<Rightarrow> vty" where
  "vty_redraw_line v =
     (let v1 = vty_write (peek 0 (vt_length v) v) v in v1\<lparr>vt_cp := vt_length v1\<rparr>)"

definition at_char :: "nat \<Rightarrow> vty \<Rightarrow> char" where
  "at_char i v = vt_buf v ! i"

text \<open>The word loops test \<open>cp != length\<close>; \<open>NoReturn\<close> is a loop that does not end.\<close>

definition loop :: "('s \<Rightarrow> bool) \<Rightarrow> ('s \<Rightarrow> 's) \<Rightarrow> 's \<Rightarrow> 's outcome" where
  "loop b c s = (case while_option b c s of None \<Rightarrow> Fault NoReturn | Some t \<Rightarrow> Cont t)"

definition at_cursor :: "(char \<Rightarrow> bool) \<Rightarrow> vty \<Rightarrow> bool" where
  "at_cursor P v \<longleftrightarrow> vt_cp v \<noteq> vt_length v \<and> P (at_char (vt_cp v) v)"

definition before_cursor :: "(char \<Rightarrow> bool) \<Rightarrow> vty \<Rightarrow> bool" where
  "before_cursor P v \<longleftrightarrow> vt_cp v > 0 \<and> P (at_char (vt_cp v - 1) v)"

definition blank :: "char \<Rightarrow> bool" where "blank c \<longleftrightarrow> c = CHR '' ''"

definition nonblank :: "char \<Rightarrow> bool" where "nonblank c \<longleftrightarrow> c \<noteq> CHR '' ''"

definition vty_forward_word :: "vty \<Rightarrow> vty outcome" where
  "vty_forward_word v = after (loop (at_cursor nonblank) vty_forward_char v) (loop (at_cursor blank) vty_forward_char)"

definition vty_backward_pure_word :: "vty \<Rightarrow> vty outcome" where
  "vty_backward_pure_word = loop (before_cursor nonblank) vty_backward_char"

definition vty_backward_word :: "vty \<Rightarrow> vty outcome" where
  "vty_backward_word v = after (loop (before_cursor blank) vty_backward_char v) (loop (before_cursor nonblank) vty_backward_char)"

text \<open>\<open>vty_delete_char\<close> on a line that is not empty.\<close>

definition delete_char :: "vty \<Rightarrow> vty" where
  "delete_char v =
     (if in_auth v \<or> vt_cp v = vt_length v then v
      else let n = vt_length v - vt_cp v;
               v1 = v\<lparr>vt_length := vt_length v - 1\<rparr>;
               v2 = poke (vt_length v1) [CHR 0x00] (poke (vt_cp v1) (peek (vt_cp v1 + 1) (n - 1) v1) v1);
               v3 = vty_write ('' '') (vty_write (peek (vt_cp v2) (n - 1) v2) v2)
           in (vty_write BS ^^ n) v3)"

definition vty_delete_char :: "'f cmd_node vec \<Rightarrow> 'x session \<Rightarrow> 'x session outcome" where
  "vty_delete_char tbl s =
     (if in_auth (s_vty s) then Cont s
      else if vt_length (s_vty s) = 0 then vty_down_level tbl s
      else Cont (on_vty delete_char s))"

text \<open>Its other callers come with a character in front of or at the cursor.\<close>

definition delete_backward_char :: "vty \<Rightarrow> vty" where
  "delete_backward_char v = (if vt_cp v = 0 then v else delete_char (vty_backward_char v))"

definition vty_delete_backward_char :: "'f cmd_node vec \<Rightarrow> 'x session \<Rightarrow> 'x session outcome" where
  "vty_delete_backward_char tbl s =
     (if vt_cp (s_vty s) = 0 then Cont s else vty_delete_char tbl (on_vty vty_backward_char s))"

definition vty_kill_line :: "vty \<Rightarrow> vty" where
  "vty_kill_line v =
     (let n = vt_length v - vt_cp v in
      if n = 0 then v
      else let v1 = (vty_write BS ^^ n) ((vty_write ('' '') ^^ n) v)
        in (poke (vt_cp v1) (replicate n (CHR 0x00)) v1)\<lparr>vt_length := vt_cp v1\<rparr>)"

definition vty_kill_line_from_beginning :: "vty \<Rightarrow> vty" where
  "vty_kill_line_from_beginning v = vty_kill_line (vty_beginning_of_line v)"

text \<open>Inside these loops the line is not empty: there is a character at, or before, the cursor.\<close>

definition vty_forward_kill_word :: "vty \<Rightarrow> vty outcome" where
  "vty_forward_kill_word v = after (loop (at_cursor blank) delete_char v) (loop (at_cursor nonblank) delete_char)"

definition vty_backward_kill_word :: "vty \<Rightarrow> vty outcome" where
  "vty_backward_kill_word v =
     after (loop (before_cursor blank) delete_backward_char v) (loop (before_cursor nonblank) delete_backward_char)"

definition vty_transpose_chars :: "(nat \<Rightarrow> string) \<Rightarrow> vty \<Rightarrow> vty" where
  "vty_transpose_chars h v =
     (if vt_length v < 2 \<or> vt_cp v < 1 then v
      else if vt_cp v = vt_length v then
        (let c1 = at_char (vt_cp v - 1) v; c2 = at_char (vt_cp v - 2) v
         in vty_self_insert_overwrite h c2 (vty_self_insert_overwrite h c1
              (vty_backward_char (vty_backward_char v))))
      else
        (let c1 = at_char (vt_cp v) v; c2 = at_char (vt_cp v - 1) v
         in vty_self_insert_overwrite h c2 (vty_self_insert_overwrite h c1 (vty_backward_char v))))"

definition vty_clear_buf :: "vty \<Rightarrow> vty" where
  "vty_clear_buf v = v\<lparr>vt_buf := replicate (vt_max v) (CHR 0x00)\<rparr>"

section \<open>History\<close>

text \<open>The string in the buffer; without a NUL in it, \<open>strlen\<close> reads on behind it.\<close>

definition buf_string :: "vty \<Rightarrow> string outcome" where
  "buf_string v = (if CHR 0x00 \<in> set (vt_buf v) then Cont (takeWhile (\<lambda>c. c \<noteq> CHR 0x00) (vt_buf v))
     else Fault Overread)"

text \<open>The index arithmetic of the ring of 20 lines.\<close>

definition hist_next :: "nat \<Rightarrow> nat" where
  "hist_next i = (if i = VTY_MAXHIST - 1 then 0 else i + 1)"

definition hist_prev :: "nat \<Rightarrow> nat" where
  "hist_prev i = (if i = 0 then VTY_MAXHIST - 1 else i - 1)"

definition vty_history_print :: "vty \<Rightarrow> vty outcome" where
  "vty_history_print v =
     (let v1 = vty_kill_line_from_beginning v in
      case vt_hist v1 ! vt_hp v1 of
        None \<Rightarrow> Fault NullDeref
      | Some l \<Rightarrow>
        if length l > vt_max v1 then Fault Overrun
        else Cont (vty_redraw_line ((poke 0 l v1)\<lparr>vt_cp := length l, vt_length := length l\<rparr>)))"

definition vty_next_line :: "vty \<Rightarrow> vty outcome" where
  "vty_next_line v =
     (if vt_hp v = vt_hindex v then Cont v
      else let i = hist_next (vt_hp v) in
        if vt_hist v ! i = None then Cont v else vty_history_print (v\<lparr>vt_hp := i\<rparr>))"

definition vty_previous_line :: "vty \<Rightarrow> vty outcome" where
  "vty_previous_line v =
     (let i = hist_prev (vt_hp v) in
      if vt_hist v ! i = None then Cont v else vty_history_print (v\<lparr>vt_hp := i\<rparr>))"

definition vty_hist_add :: "vty \<Rightarrow> vty outcome" where
  "vty_hist_add v =
     (if vt_length v = 0 then Cont v
      else after (buf_string v) (\<lambda>l.
        if vt_hist v ! hist_prev (vt_hindex v) \<noteq> None
           \<and> strcmp l (the (vt_hist v ! hist_prev (vt_hindex v))) = 0
        then Cont (v\<lparr>vt_hp := vt_hindex v\<rparr>)
        else (let i = hist_next (vt_hindex v)
          in Cont (v\<lparr>vt_hist := (vt_hist v)[vt_hindex v := Some l], vt_hindex := i, vt_hp := i\<rparr>))))"

text \<open>\<open>show history\<close>: from the oldest line on, around the ring.\<close>

function show_history_loop :: "nat \<Rightarrow> nat \<Rightarrow> vty \<Rightarrow> vty" where
  "show_history_loop 0 index v = v"
| "show_history_loop (Suc n) index v =
     (if index = vt_hindex v then v
      else if index = VTY_MAXHIST then show_history_loop n 0 v
      else show_history_loop n (index + 1)
        (case vt_hist v ! index of None \<Rightarrow> v | Some l \<Rightarrow> vty_out (''  '' @ l @ VTY_NEWLINE v) v))"
  by pat_completeness auto
termination by (relation "measure fst") auto

definition show_history :: "vty \<Rightarrow> vty" where
  "show_history v = show_history_loop (VTY_MAXHIST + 1) (vt_hindex v + 1) v"

end
