(* ===== verification/VtyScreen.thy ===== *)
theory VtyScreen
  imports VtyEdit
begin

text \<open>
  What the line editor promises: a line with a cursor, changed by each key as an editor's user
  expects, and a terminal that shows exactly that line with its cursor in the same place. The
  proofs relate the input buffer to a pair of strings and the echo to the screen of a terminal.
\<close>

section \<open>A terminal\<close>

text \<open>One row of a terminal: what is left of the cursor, and from the cursor on. A backspace moves
  the cursor, any other character is written over the one under the cursor.\<close>

fun scr :: "string \<Rightarrow> string \<times> string \<Rightarrow> string \<times> string" where
  "scr [] row = row"
| "scr (c # cs) (a, b) =
     scr cs (if c = CHR 0x08 then (if a = [] then (a, b) else (butlast a, last a # b)) else (a @ [c], tl b))"

definition blanks :: "nat \<Rightarrow> string" where
  "blanks n = replicate n (CHR '' '')"

definition plain :: "string \<Rightarrow> bool" where
  "plain s \<longleftrightarrow> (\<forall>c \<in> set s. 31 < (of_char c :: nat) \<and> (of_char c :: nat) < 127)"

lemma plain_simps [simp]:
  "plain []" "plain (c # s) = (31 < (of_char c :: nat) \<and> (of_char c :: nat) < 127 \<and> plain s)"
  "plain (s @ s') = (plain s \<and> plain s')" "plain (rev s) = plain s"
  by (auto simp: plain_def)

lemma plain_subset: "plain s \<Longrightarrow> set s' \<subseteq> set s \<Longrightarrow> plain s'"
  by (auto simp: plain_def)

lemma plain_no_control: "plain s \<Longrightarrow> (of_char c :: nat) \<le> 31 \<Longrightarrow> c \<notin> set s"
  by (auto simp: plain_def)

lemma plain_no_bs: "plain s \<Longrightarrow> CHR 0x08 \<notin> set s"
  by (rule plain_no_control) simp_all

lemma plain_blanks [simp]: "plain (blanks n)"
  by (simp add: plain_def blanks_def)

lemma scr_append [simp]: "scr (s @ s') row = scr s' (scr s row)"
  by (induction s row rule: scr.induct) auto

lemma scr_text: "CHR 0x08 \<notin> set s \<Longrightarrow> scr s (a, b) = (a @ s, drop (length s) b)"
  by (induction s arbitrary: a b) (auto simp: drop_Suc)

lemma scr_back: "scr (replicate (length c) (CHR 0x08)) (a @ c, b) = (a, c @ b)"
  by (induction c arbitrary: b rule: rev_induct) (auto simp: butlast_append)

lemma scr_back_to: "n = length c \<Longrightarrow> scr (replicate n (CHR 0x08)) (a @ c, b) = (a, c @ b)"
  by (simp add: scr_back)

lemma drop_blanks [simp]: "drop k (blanks n) = blanks (n - k)"
  by (simp add: blanks_def)

lemma length_blanks [simp]: "length (blanks n) = n"
  by (simp add: blanks_def)

section \<open>The buffer as a line with a cursor\<close>

definition out :: "vty \<Rightarrow> string" where
  "out v = content (vt_obuf v)"

text \<open>\<open>l\<close> before the cursor, \<open>r\<close> from it on, \<open>t\<close> the rest of the buffer, which is never empty.\<close>

definition holds :: "vty \<Rightarrow> string \<Rightarrow> string \<Rightarrow> string \<Rightarrow> bool" where
  "holds v l r t \<longleftrightarrow> vt_buf v = l @ r @ t \<and> vt_cp v = length l \<and> vt_length v = length l + length r
     \<and> t \<noteq> [] \<and> buf_ok (vt_obuf v)"

text \<open>Editing changes the line and the output, nothing else.\<close>

definition frame :: "vty \<Rightarrow> vty \<Rightarrow> bool" where
  "frame v v' \<longleftrightarrow> (\<exists>b c l ob. v' = v\<lparr>vt_buf := b, vt_cp := c, vt_length := l, vt_obuf := ob\<rparr>)"

lemma frameI: "frame v (v\<lparr>vt_buf := b, vt_cp := c, vt_length := l, vt_obuf := ob\<rparr>)"
  unfolding frame_def by blast

lemma frame_refl [simp]: "frame v v"
  unfolding frame_def by (rule exI [where x = "vt_buf v"], rule exI [where x = "vt_cp v"],
      rule exI [where x = "vt_length v"], rule exI [where x = "vt_obuf v"]) simp

lemma frame_trans: "frame v1 v2 \<Longrightarrow> frame v2 v3 \<Longrightarrow> frame v1 v3"
  unfolding frame_def by (elim exE, hypsubst, intro exI) simp

lemma frame_auth: "frame v v' \<Longrightarrow> in_auth v' = in_auth v"
  by (auto simp: frame_def in_auth_def)

lemma frame_same:
  "frame v v' \<Longrightarrow> vt_node v' = vt_node v" "frame v v' \<Longrightarrow> vt_status v' = vt_status v"
  "frame v v' \<Longrightarrow> vt_config v' = vt_config v" "frame v v' \<Longrightarrow> vt_type v' = vt_type v"
  "frame v v' \<Longrightarrow> vt_hist v' = vt_hist v" "frame v v' \<Longrightarrow> vt_hp v' = vt_hp v"
  "frame v v' \<Longrightarrow> vt_hindex v' = vt_hindex v" "frame v v' \<Longrightarrow> vt_iac v' = vt_iac v"
  "frame v v' \<Longrightarrow> vt_sb v' = vt_sb v" "frame v v' \<Longrightarrow> vt_escape v' = vt_escape v"
  by (auto simp: frame_def)

section \<open>Echo\<close>

text \<open>\<open>v'\<close> is \<open>v\<close> with \<open>s\<close> echoed, unless a password is being typed.\<close>

definition shown :: "vty \<Rightarrow> string \<Rightarrow> string" where
  "shown v s = (if in_auth v then [] else s)"

definition echoes :: "vty \<Rightarrow> string \<Rightarrow> vty \<Rightarrow> bool" where
  "echoes v s v' \<longleftrightarrow> (\<exists>ob. v' = v\<lparr>vt_obuf := ob\<rparr> \<and> buf_ok ob \<and> content ob = out v @ shown v s)"

lemma echoes_write: "buf_ok (vt_obuf v) \<Longrightarrow> echoes v s (vty_write s v)"
  by (auto simp: echoes_def vty_write_def shown_def out_def buf_ok_write content_write
      intro: exI [where x = "vt_obuf v"] exI [where x = "buffer_write s (vt_obuf v)"])

lemma echoes_trans: "echoes v s v' \<Longrightarrow> echoes v' s' v'' \<Longrightarrow> echoes v (s @ s') v''"
  by (auto simp: echoes_def out_def shown_def in_auth_def)

lemma echoes_nil: "buf_ok (vt_obuf v) \<Longrightarrow> echoes v [] v"
  by (auto simp: echoes_def out_def shown_def intro: exI [where x = "vt_obuf v"])

lemma echoes_ok: "echoes v s v' \<Longrightarrow> buf_ok (vt_obuf v')"
  by (auto simp: echoes_def)

lemma echoes_pow:
  "buf_ok (vt_obuf v) \<Longrightarrow> echoes v (concat (replicate n s)) ((vty_write s ^^ n) v)"
proof (induction n)
  case (Suc n)
  have "echoes v (concat (replicate n s) @ s) (vty_write s ((vty_write s ^^ n) v))"
    using Suc echoes_trans [OF Suc.IH echoes_write] echoes_ok by blast
  moreover have "concat (replicate n s) @ s = concat (replicate (Suc n) s)"
    by (induction n) auto
  ultimately show ?case by simp
qed (simp add: echoes_nil)

lemma concat_replicate_single: "concat (replicate n [c]) = replicate n c"
  by (induction n) auto

lemma echoes_bs: "buf_ok (vt_obuf v) \<Longrightarrow> echoes v (replicate n (CHR 0x08)) ((vty_write BS ^^ n) v)"
  using echoes_pow [of v n BS] by (simp add: BS_def concat_replicate_single)

section \<open>Editing steps\<close>

definition zeros :: "string \<Rightarrow> bool" where
  "zeros t \<longleftrightarrow> (\<forall>c \<in> set t. c = CHR 0x00)"

lemma zeros_simps [simp]:
  "zeros []" "zeros (c # t) = (c = CHR 0x00 \<and> zeros t)" "zeros (t @ t') = (zeros t \<and> zeros t')"
  "zeros (replicate n (CHR 0x00))"
  by (auto simp: zeros_def)

text \<open>The rest of a buffer that has not grown is zero, and it will not grow for the next key.\<close>

definition clean :: "vty \<Rightarrow> string \<Rightarrow> bool" where
  "clean v t \<longleftrightarrow> vt_max v = VTY_BUFSIZ \<and> zeros t \<and> 2 \<le> length t"

text \<open>An echo that takes a screen row with the line \<open>(l, r)\<close>, behind any prompt, to one with
  the line \<open>(l', r')\<close>.\<close>

definition redraws :: "string \<Rightarrow> string \<Rightarrow> string \<Rightarrow> string \<Rightarrow> string \<Rightarrow> bool" where
  "redraws s l r l' r' \<longleftrightarrow> (\<forall>p n. \<exists>n'. scr s (p @ l, r @ blanks n) = (p @ l', r' @ blanks n'))"

lemma redrawsI: "(\<And>p n. scr s (p @ l, r @ blanks n) = (p @ l', r' @ blanks (f n))) \<Longrightarrow> redraws s l r l' r'"
  by (auto simp: redraws_def)

lemma redraws_nil: "redraws [] l r l r"
  by (auto simp: redraws_def)

lemma redraws_trans: "redraws s l r l1 r1 \<Longrightarrow> redraws s' l1 r1 l2 r2 \<Longrightarrow> redraws (s @ s') l r l2 r2"
  unfolding redraws_def by (metis scr_append)

definition refined ::
  "vty \<Rightarrow> string \<Rightarrow> string \<Rightarrow> vty \<Rightarrow> string \<Rightarrow> string \<Rightarrow> string \<Rightarrow> bool" where
  "refined v l r v' l' r' t' \<longleftrightarrow> holds v' l' r' t' \<and> frame v v'
     \<and> (\<exists>s. out v' = out v @ shown v s \<and> redraws s l r l' r')"

definition edited ::
  "vty \<Rightarrow> string \<Rightarrow> string \<Rightarrow> string \<Rightarrow> vty \<Rightarrow> string \<Rightarrow> string \<Rightarrow> string \<Rightarrow> bool" where
  "edited v l r t v' l' r' t' \<longleftrightarrow> refined v l r v' l' r' t' \<and> (clean v t \<longrightarrow> clean v' t')"

lemma refined_trans:
  assumes "refined v l r v1 l1 r1 t1" "refined v1 l1 r1 v2 l2 r2 t2"
  shows "refined v l r v2 l2 r2 t2"
proof -
  obtain s s' where s: "out v1 = out v @ shown v s" "redraws s l r l1 r1"
    "out v2 = out v1 @ shown v1 s'" "redraws s' l1 r1 l2 r2"
    using assms by (auto simp: refined_def)
  have "frame v v1" using assms(1) by (simp add: refined_def)
  then have "out v2 = out v @ shown v (s @ s')"
    using s(1,3) frame_auth by (simp add: shown_def)
  then show ?thesis
    using assms redraws_trans [OF s(2,4)] frame_trans by (auto simp: refined_def)
qed

lemma refined_refl: "holds v l r t \<Longrightarrow> refined v l r v l r t"
  by (auto simp: refined_def shown_def redraws_nil intro!: exI [where x = "[]"])

lemma refined_holds: "refined v l r v' l' r' t' \<Longrightarrow> holds v' l' r' t'"
  by (simp add: refined_def)

lemma edited_holds: "edited v l r t v' l' r' t' \<Longrightarrow> holds v' l' r' t'"
  by (simp add: edited_def refined_def)

lemma edited_frame: "edited v l r t v' l' r' t' \<Longrightarrow> frame v v'"
  by (simp add: edited_def refined_def)

lemma edited_refl: "holds v l r t \<Longrightarrow> edited v l r t v l r t"
  by (simp add: edited_def refined_refl)

lemma edited_trans: "edited v l r t v1 l1 r1 t1 \<Longrightarrow> edited v1 l1 r1 t1 v2 l2 r2 t2 \<Longrightarrow> edited v l r t v2 l2 r2 t2"
  using refined_trans by (auto simp: edited_def)

text \<open>How the steps of this section are proved: the fields of the new state, and an echo.\<close>

lemma refinedI:
  assumes e: "echoes v s v1" and v': "v' = v1\<lparr>vt_buf := b, vt_cp := c, vt_length := n\<rparr>"
    and b: "b = l' @ r' @ t'" "c = length l'" "n = length l' + length r'" "t' \<noteq> []"
    and r: "redraws s l r l' r'"
  shows "refined v l r v' l' r' t' \<and> vt_buf v' = b"
proof -
  obtain ob where ob: "v1 = v\<lparr>vt_obuf := ob\<rparr>" "buf_ok ob" "content ob = out v @ shown v s"
    using e by (auto simp: echoes_def)
  have "v' = v\<lparr>vt_buf := b, vt_cp := c, vt_length := n, vt_obuf := ob\<rparr>" by (simp add: v' ob(1))
  then show ?thesis
    using ob(2,3) b r frameI [where v = v and b = b and c = c and l = n and ob = ob]
    by (auto simp: refined_def holds_def out_def)
qed

lemma editedI:
  assumes e: "echoes v s v1" and h: "holds v l r t" and v': "v' = v1\<lparr>vt_buf := b, vt_cp := c, vt_length := n\<rparr>"
    and b: "b = l' @ r' @ t'" "c = length l'" "n = length l' + length r'" "t' \<noteq> []"
    and cl: "zeros t \<Longrightarrow> vt_max v = VTY_BUFSIZ \<Longrightarrow> 2 \<le> length t \<Longrightarrow> zeros t' \<and> 2 \<le> length t' \<and> length b = VTY_BUFSIZ"
    and r: "redraws s l r l' r'"
  shows "edited v l r t v' l' r' t'"
  using refinedI [OF e v' b r] cl by (auto simp: edited_def clean_def vt_max_def)

text \<open>The echo of an operation that has changed the fields first.\<close>

lemma echoes_commute:
  assumes "echoes (v\<lparr>vt_buf := b, vt_cp := c, vt_length := n\<rparr>) s v1"
  shows "\<exists>v2. echoes v s v2 \<and> v1 = v2\<lparr>vt_buf := b, vt_cp := c, vt_length := n\<rparr>"
proof -
  obtain ob where "v1 = v\<lparr>vt_buf := b, vt_cp := c, vt_length := n, vt_obuf := ob\<rparr>" "buf_ok ob"
    "content ob = out v @ shown v s"
    using assms by (auto simp: echoes_def out_def shown_def in_auth_def)
  then show ?thesis
    by (intro exI [where x = "v\<lparr>vt_obuf := ob\<rparr>"]) (auto simp: echoes_def)
qed

lemma peek_holds: "holds v l r t \<Longrightarrow> peek (length l) (length r) v = r"
  "holds v l r t \<Longrightarrow> peek 0 (length l + length r) v = l @ r"
  "holds v l r t \<Longrightarrow> peek (vt_cp v) 1 v = take 1 (r @ t)"
  by (auto simp: holds_def peek_def)

lemma holds_ok: "holds v l r t \<Longrightarrow> buf_ok (vt_obuf v)"
  by (simp add: holds_def)

lemma edited_forward_char:
  assumes h: "holds v l (c # r) t" and p: "plain [c]"
  shows "edited v l (c # r) t (vty_forward_char v) (l @ [c]) r t"
proof (rule editedI [OF echoes_write [OF holds_ok [OF h]] h, where s = "[c]"])
  show "vty_forward_char v = (vty_write [c] v)\<lparr>vt_buf := l @ (c # r) @ t, vt_cp := length l + 1,
      vt_length := length l + 1 + length r\<rparr>"
    using h by (auto simp: vty_forward_char_def Let_def peek_holds(3) holds_def peek_def vty_write_def)
  show "redraws [c] l (c # r) (l @ [c]) r"
    using p by (intro redrawsI [where f = id]) auto
qed (use h in \<open>auto simp: holds_def vt_max_def\<close>)

lemma edited_backward_char:
  assumes h: "holds v (l @ [c]) r t"
  shows "edited v (l @ [c]) r t (vty_backward_char v) l (c # r) t"
proof (rule editedI [OF echoes_write [OF holds_ok [OF h]] h, where s = BS])
  show "vty_backward_char v = (vty_write BS v)\<lparr>vt_buf := (l @ [c]) @ r @ t, vt_cp := length l,
      vt_length := length l + 1 + length r\<rparr>"
    using h by (auto simp: vty_backward_char_def holds_def vty_write_def in_auth_def)
  show "redraws BS (l @ [c]) r l (c # r)"
    by (intro redrawsI [where f = id]) (simp add: BS_def butlast_append)
qed (use h in \<open>auto simp: holds_def vt_max_def\<close>)

section \<open>Moving\<close>

lemma edited_home: "holds v l r t \<Longrightarrow> edited v l r t (vty_beginning_of_line v) [] (l @ r) t"
proof (induction l arbitrary: v r rule: rev_induct)
  case Nil
  then have "vt_cp v = 0" by (simp add: holds_def)
  then show ?case using edited_refl [OF Nil] by (subst vty_beginning_of_line.simps) simp
next
  case (snoc c l)
  note e = edited_backward_char [OF snoc.prems]
  have "vt_cp v > 0" using snoc.prems by (simp add: holds_def)
  then show ?case
    using edited_trans [OF e snoc.IH [OF edited_holds [OF e]]] by (subst vty_beginning_of_line.simps) simp
qed

lemma edited_end: "holds v l r t \<Longrightarrow> plain r \<Longrightarrow> edited v l r t (vty_end_of_line v) (l @ r) [] t"
proof (induction r arbitrary: v l)
  case Nil
  then have "\<not> vt_cp v < vt_length v" by (simp add: holds_def)
  then show ?case using edited_refl [OF Nil(1)] by (subst vty_end_of_line.simps) simp
next
  case (Cons c r)
  have e: "edited v l (c # r) t (vty_forward_char v) (l @ [c]) r t"
    using edited_forward_char [OF Cons.prems(1)] Cons.prems(2) by simp
  have "vt_cp v < vt_length v" using Cons.prems(1) by (simp add: holds_def)
  then show ?case
    using edited_trans [OF e Cons.IH [OF edited_holds [OF e]]] Cons.prems(2)
    by (subst vty_end_of_line.simps) simp
qed

lemma loop_unfold: "loop b c s = (if b s then loop b c (c s) else Cont s)"
  by (simp add: loop_def while_option_unfold [of b c s])

lemma at_cursor_holds:
  "holds v l (c # r) t \<Longrightarrow> at_cursor P v = P c" "holds v l [] t \<Longrightarrow> \<not> at_cursor P v"
  by (auto simp: holds_def at_cursor_def at_char_def)

lemma before_cursor_holds:
  "holds v (l @ [c]) r t \<Longrightarrow> before_cursor P v = P c" "holds v [] r t \<Longrightarrow> \<not> before_cursor P v"
  by (auto simp: holds_def before_cursor_def at_char_def nth_append)

lemma edited_forward_loop:
  "holds v l r t \<Longrightarrow> plain r \<Longrightarrow>
     \<exists>v'. loop (at_cursor P) vty_forward_char v = Cont v'
       \<and> edited v l r t v' (l @ takeWhile P r) (dropWhile P r) t"
proof (induction r arbitrary: v l)
  case Nil
  then show ?case using edited_refl by (subst loop_unfold) (simp add: at_cursor_holds)
next
  case (Cons c r)
  show ?case
  proof (cases "P c")
    case True
    have e: "edited v l (c # r) t (vty_forward_char v) (l @ [c]) r t"
      using edited_forward_char [OF Cons.prems(1)] Cons.prems(2) by simp
    obtain v' where "loop (at_cursor P) vty_forward_char (vty_forward_char v) = Cont v'"
      "edited (vty_forward_char v) (l @ [c]) r t v' ((l @ [c]) @ takeWhile P r) (dropWhile P r) t"
      using Cons.IH [OF edited_holds [OF e]] Cons.prems(2) by auto
    then show ?thesis
      using edited_trans [OF e] True Cons.prems(1) by (subst loop_unfold) (simp add: at_cursor_holds)
  next
    case False
    then show ?thesis
      using edited_refl [OF Cons.prems(1)] Cons.prems(1) by (subst loop_unfold) (simp add: at_cursor_holds)
  qed
qed

lemma edited_backward_loop:
  "holds v l r t \<Longrightarrow>
     \<exists>v'. loop (before_cursor P) vty_backward_char v = Cont v'
       \<and> edited v l r t v' (rev (dropWhile P (rev l))) (rev (takeWhile P (rev l)) @ r) t"
proof (induction l arbitrary: v r rule: rev_induct)
  case Nil
  then show ?case using edited_refl by (subst loop_unfold) (simp add: before_cursor_holds)
next
  case (snoc c l)
  show ?case
  proof (cases "P c")
    case True
    note e = edited_backward_char [OF snoc.prems]
    obtain v' where "loop (before_cursor P) vty_backward_char (vty_backward_char v) = Cont v'"
      "edited (vty_backward_char v) l (c # r) t v' (rev (dropWhile P (rev l))) (rev (takeWhile P (rev l)) @ c # r) t"
      using snoc.IH [OF edited_holds [OF e]] by auto
    then show ?thesis
      using edited_trans [OF e] True snoc.prems by (subst loop_unfold) (simp add: before_cursor_holds)
  next
    case False
    then show ?thesis
      using edited_refl [OF snoc.prems] snoc.prems by (subst loop_unfold) (simp add: before_cursor_holds)
  qed
qed

section \<open>Deleting\<close>

lemma echoes_chain: "buf_ok (vt_obuf v) \<Longrightarrow> echoes v s v1 \<Longrightarrow> echoes v (s @ replicate n (CHR 0x08)) ((vty_write BS ^^ n) v1)"
  using echoes_trans echoes_bs echoes_ok by blast

lemma redraws_delete: "plain r \<Longrightarrow> redraws (r @ '' '' @ replicate (Suc (length r)) (CHR 0x08)) l (c # r) l r"
proof (rule redrawsI [where f = Suc])
  fix p n
  assume p: "plain r"
  have "scr (r @ '' '') (p @ l, (c # r) @ blanks n) = (p @ l @ r @ '' '', blanks n)"
    using plain_no_bs [OF p] scr_text [of "r @ '' ''" "p @ l" "(c # r) @ blanks n"] by simp
  then show "scr (r @ '' '' @ replicate (Suc (length r)) (CHR 0x08)) (p @ l, (c # r) @ blanks n)
      = (p @ l, r @ blanks (Suc n))"
    using scr_back_to [of "Suc (length r)" "r @ '' ''" "p @ l" "blanks n"]
    by (simp only: scr_append append_assoc [symmetric]) (simp add: blanks_def)
qed

lemma edited_delete_char:
  assumes h: "holds v l (c # r) t" and p: "plain r" and a: "\<not> in_auth v"
  shows "edited v l (c # r) t (delete_char v) l r (CHR 0x00 # t)"
proof -
  let ?b = "l @ r @ CHR 0x00 # t" and ?n = "length l + length r"
  let ?v2 = "v\<lparr>vt_buf := ?b, vt_cp := vt_cp v, vt_length := ?n\<rparr>"
  have ne: "\<not> (in_auth v \<or> vt_cp v = vt_length v)" using h a by (simp add: holds_def)
  have v2: "poke ?n [CHR 0x00] (poke (vt_cp v) (peek (vt_cp v + 1) (length r) (v\<lparr>vt_length := ?n\<rparr>)) (v\<lparr>vt_length := ?n\<rparr>)) = ?v2"
    using h by (simp add: holds_def poke_def peek_def)
  have pk: "peek (vt_cp v) (length r) ?v2 = r" using h by (simp add: holds_def peek_def)
  have sz: "vt_length v - vt_cp v = Suc (length r)" "vt_length v - 1 = ?n" "vt_cp ?v2 = vt_cp v"
    "vt_cp (v\<lparr>vt_length := ?n\<rparr>) = vt_cp v" "vt_length (v\<lparr>vt_length := ?n\<rparr>) = ?n"
    using h by (simp_all add: holds_def)
  have d: "delete_char v = (vty_write BS ^^ Suc (length r)) (vty_write '' '' (vty_write r ?v2))"
    unfolding delete_char_def if_not_P [OF ne] Let_def sz diff_Suc_1 v2 pk by (rule refl)
  have ok: "buf_ok (vt_obuf ?v2)" using h by (simp add: holds_def)
  have "echoes ?v2 ((r @ '' '') @ replicate (Suc (length r)) (CHR 0x08)) (delete_char v)"
    unfolding d by (intro echoes_chain ok echoes_trans [OF echoes_write [OF ok]] echoes_write echoes_ok [OF echoes_write [OF ok]])
  then obtain v3 where e: "echoes v (r @ '' '' @ replicate (Suc (length r)) (CHR 0x08)) v3"
    and d4: "delete_char v = v3\<lparr>vt_buf := ?b, vt_cp := vt_cp v, vt_length := ?n\<rparr>"
    using echoes_commute by fastforce
  show ?thesis
    by (rule editedI [OF e h d4]) (use h redraws_delete [OF p] in \<open>auto simp: holds_def vt_max_def\<close>)
qed

lemma edited_delete_backward_char:
  assumes h: "holds v (l @ [c]) r t" and p: "plain r" and a: "\<not> in_auth v"
  shows "edited v (l @ [c]) r t (delete_backward_char v) l r (CHR 0x00 # t)"
proof -
  note e = edited_backward_char [OF h]
  have "edited (vty_backward_char v) l (c # r) t (delete_char (vty_backward_char v)) l r (CHR 0x00 # t)"
    using edited_delete_char [OF edited_holds [OF e] p] a frame_auth [OF edited_frame [OF e]] by simp
  moreover have "vt_cp v \<noteq> 0" using h by (simp add: holds_def)
  ultimately show ?thesis using edited_trans [OF e] by (simp add: delete_backward_char_def)
qed

lemma edited_kill_loop:
  "holds v l r t \<Longrightarrow> plain r \<Longrightarrow> \<not> in_auth v \<Longrightarrow>
     \<exists>v' t'. loop (at_cursor P) delete_char v = Cont v' \<and> edited v l r t v' l (dropWhile P r) t'"
proof (induction r arbitrary: v t)
  case Nil
  then show ?case using edited_refl [OF Nil(1)] by (subst loop_unfold) (auto simp: at_cursor_holds)
next
  case (Cons c r)
  show ?case
  proof (cases "P c")
    case True
    have e: "edited v l (c # r) t (delete_char v) l r (CHR 0x00 # t)"
      using edited_delete_char [OF Cons.prems(1)] Cons.prems by simp
    obtain v' t' where "loop (at_cursor P) delete_char (delete_char v) = Cont v'"
      "edited (delete_char v) l r (CHR 0x00 # t) v' l (dropWhile P r) t'"
      using Cons.IH [OF edited_holds [OF e]] Cons.prems frame_auth [OF edited_frame [OF e]] by auto
    then show ?thesis
      using exI [of "edited v l (c # r) t v' l (dropWhile P r)", OF edited_trans [OF e]] True Cons.prems(1) by (subst loop_unfold) (auto simp: at_cursor_holds)
  next
    case False
    then show ?thesis
      using edited_refl [OF Cons.prems(1)] Cons.prems(1) by (subst loop_unfold) (auto simp: at_cursor_holds)
  qed
qed

lemma edited_backward_kill_loop:
  "holds v l r t \<Longrightarrow> plain r \<Longrightarrow> \<not> in_auth v \<Longrightarrow>
     \<exists>v' t'. loop (before_cursor P) delete_backward_char v = Cont v'
       \<and> edited v l r t v' (rev (dropWhile P (rev l))) r t'"
proof (induction l arbitrary: v t rule: rev_induct)
  case Nil
  then show ?case using edited_refl [OF Nil(1)] by (subst loop_unfold) (auto simp: before_cursor_holds)
next
  case (snoc c l)
  show ?case
  proof (cases "P c")
    case True
    note e = edited_delete_backward_char [OF snoc.prems]
    obtain v' t' where "loop (before_cursor P) delete_backward_char (delete_backward_char v) = Cont v'"
      "edited (delete_backward_char v) l r (CHR 0x00 # t) v' (rev (dropWhile P (rev l))) r t'"
      using snoc.IH [OF edited_holds [OF e]] snoc.prems frame_auth [OF edited_frame [OF e]] by auto
    then show ?thesis
      using exI [of "edited v (l @ [c]) r t v' (rev (dropWhile P (rev l))) r", OF edited_trans [OF e]] True snoc.prems by (subst loop_unfold) (auto simp: before_cursor_holds)
  next
    case False
    then show ?thesis
      using edited_refl [OF snoc.prems(1)] snoc.prems by (subst loop_unfold) (auto simp: before_cursor_holds)
  qed
qed

lemma redraws_kill: "redraws (blanks (length r) @ replicate (length r) (CHR 0x08)) l r l []"
proof (rule redrawsI [where f = "\<lambda>n. length r + n"])
  fix p n
  have "scr (blanks (length r)) (p @ l, r @ blanks n) = (p @ l @ blanks (length r), blanks n)"
    using scr_text [of "blanks (length r)" "p @ l"] by (simp add: plain_no_bs)
  then show "scr (blanks (length r) @ replicate (length r) (CHR 0x08)) (p @ l, r @ blanks n)
      = (p @ l, [] @ blanks (length r + n))"
    using scr_back_to [of "length r" "blanks (length r)" "p @ l" "blanks n"]
    by (simp add: blanks_def replicate_add)
qed

lemma echoes_blanks: "buf_ok (vt_obuf v) \<Longrightarrow> echoes v (blanks n) ((vty_write '' '' ^^ n) v)"
  using echoes_pow [of v n "'' ''"] by (simp add: blanks_def concat_replicate_single)

lemma echoes_same: "echoes v s v' \<Longrightarrow> vt_cp v' = vt_cp v \<and> vt_buf v' = vt_buf v \<and> vt_length v' = vt_length v"
  by (auto simp: echoes_def)

lemma edited_kill_line:
  assumes h: "holds v l r t"
  shows "\<exists>t'. edited v l r t (vty_kill_line v) l [] t'"
proof (cases "r = []")
  case True
  then have "vty_kill_line v = v" using h by (simp add: vty_kill_line_def holds_def)
  then show ?thesis using edited_refl [OF h] True by auto
next
  case False
  define v1 where "v1 = (vty_write BS ^^ length r) ((vty_write '' '' ^^ length r) v)"
  have e: "echoes v (blanks (length r) @ replicate (length r) (CHR 0x08)) v1"
    unfolding v1_def by (intro echoes_chain echoes_blanks holds_ok [OF h])
  note s = echoes_same [OF e]
  have n: "vt_length v - vt_cp v = length r" using h by (simp add: holds_def)
  have "poke (vt_cp v1) (replicate (length r) (CHR 0x00)) v1 = v1\<lparr>vt_buf := l @ replicate (length r) (CHR 0x00) @ t\<rparr>"
    using h s by (simp add: holds_def poke_def)
  then have k: "vty_kill_line v = v1\<lparr>vt_buf := l @ replicate (length r) (CHR 0x00) @ t, vt_cp := length l,
      vt_length := length l\<rparr>"
    using False n s h by (simp add: vty_kill_line_def Let_def v1_def [symmetric] holds_def)
  show ?thesis
    by (rule exI, rule editedI [OF e h k, where t' = "replicate (length r) (CHR 0x00) @ t"])
      (use h redraws_kill in \<open>auto simp: holds_def vt_max_def\<close>)
qed

section \<open>Overwriting and inserting\<close>

lemma ensure_holds:
  assumes "holds v l r t"
  shows "\<exists>t'. vty_ensure h (vt_length v + 1) v = v\<lparr>vt_buf := l @ r @ t'\<rparr> \<and> 2 \<le> length t' \<and> hd t' = hd t
    \<and> (2 \<le> length t \<longrightarrow> t' = t)"
proof (cases "vt_max v \<le> vt_length v + 1")
  case True
  then have t: "length t = 1" using assms by (cases t) (auto simp: holds_def vt_max_def)
  have f: "length (fresh h (vt_max v)) = vt_max v" by (simp add: fresh_def)
  have "1 \<le> vt_max v" using assms t by (simp add: holds_def vt_max_def)
  then show ?thesis
    using True assms t f by (intro exI [where x = "t @ fresh h (vt_max v)"]) (auto simp: vty_ensure_def holds_def hd_append)
next
  case False
  then show ?thesis
    using assms by (intro exI [where x = t]) (auto simp: vty_ensure_def holds_def vt_max_def)
qed

lemma vt_length_same: "vt_length v = n \<Longrightarrow> v\<lparr>vt_length := n\<rparr> = v"
  by simp

lemma edited_overwrite:
  assumes h: "holds v l (c0 # r) t" and p: "plain [c]"
  shows "\<exists>t'. edited v l (c0 # r) t (vty_self_insert_overwrite hp c v) (l @ [c]) r t'"
proof -
  obtain t' where t': "vty_ensure hp (vt_length v + 1) v = v\<lparr>vt_buf := l @ (c0 # r) @ t'\<rparr>" "2 \<le> length t'"
    "2 \<le> length t \<Longrightarrow> t' = t" using ensure_holds [OF h] by blast
  let ?v2 = "v\<lparr>vt_buf := l @ c # r @ t', vt_cp := length l + 1, vt_length := vt_length v\<rparr>"
  have o: "vty_self_insert_overwrite hp c v = vty_write [c] ?v2"
    using h t'(1) by (simp add: vty_self_insert_overwrite_def Let_def poke_def holds_def vt_length_same)
  have "echoes ?v2 [c] (vty_write [c] ?v2)" by (rule echoes_write) (use h in \<open>simp add: holds_def\<close>)
  then obtain v3 where e: "echoes v [c] v3"
    "vty_self_insert_overwrite hp c v = v3\<lparr>vt_buf := l @ c # r @ t', vt_cp := length l + 1,
        vt_length := vt_length v\<rparr>"
    unfolding o using echoes_commute by blast
  have "redraws [c] l (c0 # r) (l @ [c]) r" using p by (intro redrawsI [where f = id]) auto
  then show ?thesis
    by (intro exI [where x = t'] editedI [OF e(1) h e(2)]) (use h t' in \<open>auto simp: holds_def vt_max_def\<close>)
qed

fun transposed :: "string \<Rightarrow> string \<Rightarrow> string \<times> string" where
  "transposed (b # a # k) [] = (rev k @ [b, a], [])"
| "transposed (a # k) (b # r) = (rev k @ [b, a], r)"
| "transposed k r = (rev k, r)"

lemma edited_transpose:
  assumes h: "holds v l r t" and p: "plain l" "plain r"
  shows "\<exists>t'. edited v l r t (vty_transpose_chars hp v)
    (fst (transposed (rev l) r)) (snd (transposed (rev l) r)) t'"
proof -
  consider (small) "length l + length r < 2 \<or> l = []" | (tail) k a b where "l = k @ [a, b]" "r = []"
    | (mid) k a b r' where "l = k @ [a]" "r = b # r'"
  proof (cases l rule: rev_cases)
    case (snoc k b)
    note l = snoc
    show ?thesis
    proof (cases r)
      case Nil
      then show ?thesis using l that(1,2) by (cases k rule: rev_cases) auto
    next
      case (Cons c r')
      then show ?thesis using l that(3) by blast
    qed
  qed (use that(1) in blast)
  then show ?thesis
  proof cases
    case small
    then have "vty_transpose_chars hp v = v"
      using h by (auto simp: vty_transpose_chars_def holds_def)
    moreover have "transposed (rev l) r = (l, r)"
      using small by (cases "(rev l, r)" rule: transposed.cases) (auto simp: rev_swap)
    ultimately show ?thesis using edited_refl [OF h] by auto
  next
    case tail
    have h0: "holds v ((k @ [a]) @ [b]) [] t" using h tail by simp
    note e1 = edited_backward_char [OF h0]
    note e2 = edited_backward_char [OF edited_holds [OF e1]]
    obtain t1 where e3: "edited (vty_backward_char (vty_backward_char v)) k (a # [b]) t
        (vty_self_insert_overwrite hp b (vty_backward_char (vty_backward_char v))) (k @ [b]) [b] t1"
      using edited_overwrite [OF edited_holds [OF e2]] p tail by fastforce
    obtain t2 where e4: "edited (vty_self_insert_overwrite hp b (vty_backward_char (vty_backward_char v))) (k @ [b]) [b] t1
        (vty_self_insert_overwrite hp a (vty_self_insert_overwrite hp b (vty_backward_char (vty_backward_char v))))
        ((k @ [b]) @ [a]) [] t2"
      using edited_overwrite [OF edited_holds [OF e3]] p tail by fastforce
    have "vty_transpose_chars hp v
        = vty_self_insert_overwrite hp a (vty_self_insert_overwrite hp b (vty_backward_char (vty_backward_char v)))"
      using h tail by (simp add: vty_transpose_chars_def holds_def at_char_def Let_def nth_append)
    then show ?thesis
      using edited_trans [OF e1 edited_trans [OF e2 edited_trans [OF e3 e4]]] tail by auto
  next
    case mid
    have h0: "holds v (k @ [a]) (b # r') t" using h mid by simp
    note e1 = edited_backward_char [OF h0]
    obtain t1 where e2: "edited (vty_backward_char v) k (a # b # r') t
        (vty_self_insert_overwrite hp b (vty_backward_char v)) (k @ [b]) (b # r') t1"
      using edited_overwrite [OF edited_holds [OF e1]] p mid by fastforce
    obtain t2 where e3: "edited (vty_self_insert_overwrite hp b (vty_backward_char v)) (k @ [b]) (b # r') t1
        (vty_self_insert_overwrite hp a (vty_self_insert_overwrite hp b (vty_backward_char v))) ((k @ [b]) @ [a]) r' t2"
      using edited_overwrite [OF edited_holds [OF e2]] p mid by fastforce
    have "vty_transpose_chars hp v = vty_self_insert_overwrite hp a (vty_self_insert_overwrite hp b (vty_backward_char v))"
      using h mid by (simp add: vty_transpose_chars_def holds_def at_char_def Let_def nth_append)
    then show ?thesis using edited_trans [OF e1 edited_trans [OF e2 e3]] mid by auto
  qed
qed

lemma refined_insert:
  assumes h: "holds v l r t" and p: "plain [c]" "plain r"
  shows "\<exists>t'. refined v l r (vty_self_insert hp c v) (l @ [c]) r t'
    \<and> (clean v t \<longrightarrow> 3 \<le> length t \<longrightarrow> clean (vty_self_insert hp c v) t')"
proof -
  obtain t0 where t0: "vty_ensure hp (vt_length v + 1) v = v\<lparr>vt_buf := l @ r @ t0\<rparr>" "2 \<le> length t0"
    "2 \<le> length t \<Longrightarrow> t0 = t" using ensure_holds [OF h] by blast
  obtain x t' where x: "t0 = x # t'" "t' \<noteq> []" using t0(2) by (cases t0; cases "tl t0") auto
  let ?v2 = "v\<lparr>vt_buf := l @ c # r @ t'\<rparr>"
  have v2: "poke (vt_cp v) (c # peek (vt_cp v) (length r) (v\<lparr>vt_buf := l @ r @ t0\<rparr>)) (v\<lparr>vt_buf := l @ r @ t0\<rparr>) = ?v2"
    using h x by (simp add: poke_def peek_def holds_def)
  have pk: "peek (vt_cp v) (length r + 1) ?v2 = c # r" using h by (simp add: peek_def holds_def)
  define v4 where "v4 = (vty_write BS ^^ length r) (vty_write (c # r) ?v2)"
  have n: "vt_length v - vt_cp v = length r" using h by (simp add: holds_def)
  have ok: "buf_ok (vt_obuf ?v2)" using h by (simp add: holds_def)
  have e4: "echoes ?v2 ((c # r) @ replicate (length r) (CHR 0x08)) v4"
    unfolding v4_def by (intro echoes_chain ok echoes_write)
  have s: "vt_cp v4 = length l" "vt_length v4 = length l + length r"
    using echoes_same [OF e4] h by (simp_all add: holds_def)
  have i: "vty_self_insert hp c v = v4\<lparr>vt_cp := length l + 1, vt_length := length l + length r + 1\<rparr>"
    using t0(1) v2 pk n s by (simp add: vty_self_insert_def Let_def v4_def [symmetric])
  obtain v5 where e: "echoes v ((c # r) @ replicate (length r) (CHR 0x08)) v5"
    "v4 = v5\<lparr>vt_buf := l @ c # r @ t', vt_cp := vt_cp v, vt_length := vt_length v\<rparr>"
    using echoes_commute [where v = v and b = "l @ c # r @ t'" and c = "vt_cp v" and n = "vt_length v"] e4 by auto
  have i': "vty_self_insert hp c v = v5\<lparr>vt_buf := l @ c # r @ t', vt_cp := length l + 1, vt_length := length l + length r + 1\<rparr>"
    by (simp add: i e(2))
  have rd: "redraws ((c # r) @ replicate (length r) (CHR 0x08)) l r (l @ [c]) r"
  proof (rule redrawsI [where f = "\<lambda>n. n - 1"])
    fix q n
    have "scr (c # r) (q @ l, r @ blanks n) = (q @ l @ c # r, blanks (n - 1))"
      using scr_text [of "c # r" "q @ l" "r @ blanks n"] plain_no_bs [of "c # r"] p by simp
    then show "scr ((c # r) @ replicate (length r) (CHR 0x08)) (q @ l, r @ blanks n) = (q @ l @ [c], r @ blanks (n - 1))"
      using scr_back_to [of "length r" r "q @ l @ [c]" "blanks (n - 1)"] by (simp only: scr_append) simp
  qed
  have "refined v l r (vty_self_insert hp c v) (l @ [c]) r t' \<and> vt_buf (vty_self_insert hp c v) = l @ c # r @ t'"
    by (rule refinedI [OF e(1) i' _ _ _ x(2) rd]) simp_all
  then show ?thesis
    using h t0 x by (intro exI [where x = t']) (auto simp: clean_def vt_max_def holds_def)
qed

section \<open>The editor refines a line with a cursor\<close>

datatype edit = Typed char | Forward | Backward | Home | EndOfLine | Delete | Rubout | KillLine | KillBack
  | Transpose | ForwardWord | BackwardWord | KillWord | RuboutWord

fun run_edit :: "(nat \<Rightarrow> string) \<Rightarrow> edit \<Rightarrow> vty \<Rightarrow> vty outcome" where
  "run_edit h (Typed c) v = Cont (vty_self_insert h c v)"
| "run_edit h Forward v = Cont (vty_forward_char v)"
| "run_edit h Backward v = Cont (vty_backward_char v)"
| "run_edit h Home v = Cont (vty_beginning_of_line v)"
| "run_edit h EndOfLine v = Cont (vty_end_of_line v)"
| "run_edit h Delete v = Cont (delete_char v)"
| "run_edit h Rubout v = Cont (delete_backward_char v)"
| "run_edit h KillLine v = Cont (vty_kill_line v)"
| "run_edit h KillBack v = Cont (vty_kill_line_from_beginning v)"
| "run_edit h Transpose v = Cont (vty_transpose_chars h v)"
| "run_edit h ForwardWord v = vty_forward_word v"
| "run_edit h BackwardWord v = vty_backward_word v"
| "run_edit h KillWord v = vty_forward_kill_word v"
| "run_edit h RuboutWord v = vty_backward_kill_word v"

fun run_edits :: "(nat \<Rightarrow> string) \<Rightarrow> edit list \<Rightarrow> vty \<Rightarrow> vty outcome" where
  "run_edits h [] v = Cont v"
| "run_edits h (e # es) v = after (run_edit h e v) (run_edits h es)"

fun spec_edit :: "edit \<Rightarrow> string \<times> string \<Rightarrow> string \<times> string" where
  "spec_edit (Typed c) (l, r) = (l @ [c], r)"
| "spec_edit Forward (l, r) = (l @ take 1 r, tl r)"
| "spec_edit Backward (l, r) = (butlast l, drop (length l - 1) l @ r)"
| "spec_edit Home (l, r) = ([], l @ r)"
| "spec_edit EndOfLine (l, r) = (l @ r, [])"
| "spec_edit Delete (l, r) = (l, tl r)"
| "spec_edit Rubout (l, r) = (butlast l, r)"
| "spec_edit KillLine (l, r) = (l, [])"
| "spec_edit KillBack (l, r) = ([], [])"
| "spec_edit Transpose (l, r) = transposed (rev l) r"
| "spec_edit ForwardWord (l, r) =
     (l @ takeWhile nonblank r @ takeWhile blank (dropWhile nonblank r), dropWhile blank (dropWhile nonblank r))"
| "spec_edit BackwardWord (l, r) =
     (rev (dropWhile nonblank (dropWhile blank (rev l))),
      rev (takeWhile nonblank (dropWhile blank (rev l))) @ rev (takeWhile blank (rev l)) @ r)"
| "spec_edit KillWord (l, r) = (l, dropWhile nonblank (dropWhile blank r))"
| "spec_edit RuboutWord (l, r) = (rev (dropWhile nonblank (dropWhile blank (rev l))), r)"

definition typed_ok :: "edit \<Rightarrow> bool" where
  "typed_ok e \<longleftrightarrow> (\<forall>c. e = Typed c \<longrightarrow> plain [c])"

definition line_of :: "string \<times> string \<Rightarrow> string" where
  "line_of p = fst p @ snd p"

text \<open>The line never gets longer than 510 characters.\<close>

fun fits :: "edit list \<Rightarrow> string \<times> string \<Rightarrow> bool" where
  "fits [] p = True"
| "fits (e # es) p = (length (line_of (spec_edit e p)) \<le> 510 \<and> fits es (spec_edit e p))"

lemma transposed_set: "transposed k r = (l', r') \<Longrightarrow> set (l' @ r') \<subseteq> set k \<union> set r"
  by (induction k r rule: transposed.induct) auto

lemma spec_edit_plain: "typed_ok e \<Longrightarrow> plain (line_of p) \<Longrightarrow> plain (line_of (spec_edit e p))"
proof (cases p)
  case (Pair l r)
  assume a: "typed_ok e" "plain (line_of p)"
  have tr: "set (fst (transposed (rev l) r)) \<subseteq> set l \<union> set r" "set (snd (transposed (rev l) r)) \<subseteq> set l \<union> set r"
    using transposed_set [of "rev l" r "fst (transposed (rev l) r)" "snd (transposed (rev l) r)"] by auto
  have rl: "set (dropWhile P (dropWhile Q (rev l))) \<subseteq> set l"
    "set (takeWhile P (dropWhile Q (rev l))) \<subseteq> set l" for P Q
    using set_dropWhileD [of _ Q "rev l"] by (auto dest!: set_dropWhileD set_takeWhileD)
  have sub: "set (line_of (spec_edit e p)) \<subseteq> set (line_of p)" if "\<not> (\<exists>c. e = Typed c)"
    using that Pair tr
    by (cases e) (auto simp: line_of_def dest: set_takeWhileD set_dropWhileD in_set_butlastD in_set_dropD
        in_set_takeD subsetD [OF set_mono_suffix [OF suffix_tl]] subsetD [OF rl(1)] subsetD [OF rl(2)])
  show ?thesis
  proof (cases "\<exists>c. e = Typed c")
    case True
    then show ?thesis using a Pair by (auto simp: typed_ok_def line_of_def)
  next
    case False
    then show ?thesis using plain_subset [OF a(2) sub] by blast
  qed
qed

lemma holds_short: "holds v l r t \<Longrightarrow> clean v t \<Longrightarrow> length l + length r + length t = 512"
  by (simp add: holds_def clean_def vt_max_def VTY_BUFSIZ_def)

lemma edit_step:
  assumes h: "holds v l r t" and p: "plain (l @ r)" and a: "\<not> in_auth v" and ty: "typed_ok e"
    and s: "spec_edit e (l, r) = (l', r')"
  shows "\<exists>v' t'. run_edit hp e v = Cont v' \<and> refined v l r v' l' r' t'
    \<and> (clean v t \<and> length (l' @ r') \<le> 510 \<longrightarrow> clean v' t')"
proof -
  have pl: "plain l" "plain r" using p by simp_all
  have fin: "?thesis" if "run_edit hp e v = Cont v'" "edited v l r t v' l' r' t'" for v' t'
    using that by (intro exI [where x = v'] exI [where x = t']) (simp add: edited_def)
  show ?thesis
  proof (cases e)
    case (Typed c)
    obtain t' where t': "refined v l r (vty_self_insert hp c v) (l @ [c]) r t'"
      "clean v t \<longrightarrow> 3 \<le> length t \<longrightarrow> clean (vty_self_insert hp c v) t'"
      using refined_insert [OF h _ pl(2)] ty Typed by (auto simp: typed_ok_def)
    then show ?thesis
      using Typed s holds_short [OF h]
      by (intro exI [where x = "vty_self_insert hp c v"] exI [where x = t']) auto
  next
    case Forward
    show ?thesis
    proof (cases r)
      case Nil
      then have "vty_forward_char v = v" using h by (simp add: vty_forward_char_def holds_def)
      then show ?thesis using Forward s Nil edited_refl [OF h] by (intro fin) auto
    next
      case (Cons c r1)
      then show ?thesis
        using Forward s h pl edited_forward_char [of v l c r1 t] by (intro fin) auto
    qed
  next
    case Backward
    show ?thesis
    proof (cases l rule: rev_cases)
      case Nil
      then have "vty_backward_char v = v" using h by (simp add: vty_backward_char_def holds_def)
      then show ?thesis using Backward s Nil edited_refl [OF h] by (intro fin) auto
    next
      case (snoc l1 c)
      then show ?thesis
        using Backward s h edited_backward_char [of v l1 c r t] by (intro fin) auto
    qed
  next
    case Home
    then show ?thesis using s edited_home [OF h] by (intro fin) auto
  next
    case EndOfLine
    then show ?thesis using s edited_end [OF h pl(2)] by (intro fin) auto
  next
    case Delete
    show ?thesis
    proof (cases r)
      case Nil
      then have "delete_char v = v" using h by (simp add: delete_char_def holds_def)
      then show ?thesis using Delete s Nil edited_refl [OF h] by (intro fin) auto
    next
      case (Cons c r1)
      then show ?thesis
        using Delete s h pl a edited_delete_char [of v l c r1 t] by (intro fin) auto
    qed
  next
    case Rubout
    show ?thesis
    proof (cases l rule: rev_cases)
      case Nil
      then have "delete_backward_char v = v" using h by (simp add: delete_backward_char_def holds_def)
      then show ?thesis using Rubout s Nil edited_refl [OF h] by (intro fin) auto
    next
      case (snoc l1 c)
      then show ?thesis
        using Rubout s h pl a edited_delete_backward_char [of v l1 c r t] by (intro fin) auto
    qed
  next
    case KillLine
    obtain t' where "edited v l r t (vty_kill_line v) l [] t'" using edited_kill_line [OF h] by blast
    then show ?thesis using KillLine s by (intro fin) auto
  next
    case KillBack
    note e1 = edited_home [OF h]
    obtain t' where "edited (vty_beginning_of_line v) [] (l @ r) t (vty_kill_line (vty_beginning_of_line v)) [] [] t'"
      using edited_kill_line [OF edited_holds [OF e1]] by blast
    then show ?thesis
      using KillBack s edited_trans [OF e1] by (intro fin) (auto simp: vty_kill_line_from_beginning_def)
  next
    case Transpose
    obtain t' where "edited v l r t (vty_transpose_chars hp v) (fst (transposed (rev l) r)) (snd (transposed (rev l) r)) t'"
      using edited_transpose [OF h pl] by blast
    then show ?thesis using Transpose s by (intro fin) auto
  next
    case ForwardWord
    obtain v1 where v1: "loop (at_cursor nonblank) vty_forward_char v = Cont v1"
      "edited v l r t v1 (l @ takeWhile nonblank r) (dropWhile nonblank r) t"
      using edited_forward_loop [OF h pl(2)] by blast
    have "plain (dropWhile nonblank r)" by (rule plain_subset [OF pl(2)]) (auto dest: set_dropWhileD)
    then obtain v2 where "loop (at_cursor blank) vty_forward_char v1 = Cont v2"
      "edited v1 (l @ takeWhile nonblank r) (dropWhile nonblank r) t v2
        ((l @ takeWhile nonblank r) @ takeWhile blank (dropWhile nonblank r)) (dropWhile blank (dropWhile nonblank r)) t"
      using edited_forward_loop [OF edited_holds [OF v1(2)]] by blast
    then show ?thesis
      using ForwardWord s v1 edited_trans [OF v1(2)] by (intro fin) (auto simp: vty_forward_word_def)
  next
    case BackwardWord
    obtain v1 where v1: "loop (before_cursor blank) vty_backward_char v = Cont v1"
      "edited v l r t v1 (rev (dropWhile blank (rev l))) (rev (takeWhile blank (rev l)) @ r) t"
      using edited_backward_loop [OF h] by blast
    obtain v2 where "loop (before_cursor nonblank) vty_backward_char v1 = Cont v2"
      "edited v1 (rev (dropWhile blank (rev l))) (rev (takeWhile blank (rev l)) @ r) t v2
        (rev (dropWhile nonblank (dropWhile blank (rev l))))
        (rev (takeWhile nonblank (dropWhile blank (rev l))) @ rev (takeWhile blank (rev l)) @ r) t"
      using edited_backward_loop [OF edited_holds [OF v1(2)], of nonblank] by auto
    then show ?thesis
      using BackwardWord s v1 edited_trans [OF v1(2)] by (intro fin) (auto simp: vty_backward_word_def)
  next
    case KillWord
    obtain v1 t1 where v1: "loop (at_cursor blank) delete_char v = Cont v1"
      "edited v l r t v1 l (dropWhile blank r) t1"
      using edited_kill_loop [OF h pl(2) a] by blast
    have "plain (dropWhile blank r)" by (rule plain_subset [OF pl(2)]) (auto dest: set_dropWhileD)
    then obtain v2 t2 where "loop (at_cursor nonblank) delete_char v1 = Cont v2"
      "edited v1 l (dropWhile blank r) t1 v2 l (dropWhile nonblank (dropWhile blank r)) t2"
      using edited_kill_loop [OF edited_holds [OF v1(2)]] a frame_auth [OF edited_frame [OF v1(2)]] by blast
    then show ?thesis
      using KillWord s v1 edited_trans [OF v1(2)] by (intro fin) (auto simp: vty_forward_kill_word_def)
  next
    case RuboutWord
    obtain v1 t1 where v1: "loop (before_cursor blank) delete_backward_char v = Cont v1"
      "edited v l r t v1 (rev (dropWhile blank (rev l))) r t1"
      using edited_backward_kill_loop [OF h pl(2) a] by blast
    obtain v2 t2 where "loop (before_cursor nonblank) delete_backward_char v1 = Cont v2"
      "edited v1 (rev (dropWhile blank (rev l))) r t1 v2 (rev (dropWhile nonblank (dropWhile blank (rev l)))) r t2"
      using edited_backward_kill_loop [OF edited_holds [OF v1(2)] pl(2), of nonblank] a frame_auth [OF edited_frame [OF v1(2)]]
      by auto
    then show ?thesis
      using RuboutWord s v1 edited_trans [OF v1(2)] by (intro fin) (auto simp: vty_backward_kill_word_def)
  qed
qed

lemma edit_steps:
  "holds v l r t \<Longrightarrow> plain (l @ r) \<Longrightarrow> \<not> in_auth v \<Longrightarrow> list_all typed_ok es \<Longrightarrow>
     \<exists>v' l' r' t'. fold spec_edit es (l, r) = (l', r') \<and> run_edits hp es v = Cont v' \<and> refined v l r v' l' r' t'
       \<and> plain (l' @ r') \<and> (clean v t \<and> fits es (l, r) \<longrightarrow> clean v' t')"
proof (induction es arbitrary: v l r t)
  case Nil
  then show ?case using refined_refl [OF Nil(1)] by (auto intro!: exI [where x = t])
next
  case (Cons e es)
  obtain l1 r1 where s1: "spec_edit e (l, r) = (l1, r1)" by fastforce
  obtain v1 t1 where 1: "run_edit hp e v = Cont v1" "refined v l r v1 l1 r1 t1"
    "clean v t \<and> length (l1 @ r1) \<le> 510 \<longrightarrow> clean v1 t1"
    using edit_step [OF Cons.prems(1-3) _ s1, of hp] Cons.prems(4) by auto
  have p1: "plain (l1 @ r1)"
    using spec_edit_plain [of e "(l, r)"] Cons.prems(2,4) s1 by (simp add: line_of_def)
  have a1: "\<not> in_auth v1" using 1(2) Cons.prems(3) frame_auth by (auto simp: refined_def)
  obtain v' l' r' t' where 2: "fold spec_edit es (l1, r1) = (l', r')" "run_edits hp es v1 = Cont v'"
    "refined v1 l1 r1 v' l' r' t'" "plain (l' @ r')" "clean v1 t1 \<and> fits es (l1, r1) \<longrightarrow> clean v' t'"
    using Cons.IH [OF refined_holds [OF 1(2)] p1 a1] Cons.prems(4) by fastforce
  show ?case
    using 1 2 s1 refined_trans [OF 1(2) 2(3)] by (auto simp: line_of_def intro!: exI [where x = t'])
qed

lemma clean_buf_string:
  assumes "holds v l r t" "clean v t" "plain (l @ r)"
  shows "buf_string v = Cont (l @ r)"
proof -
  obtain t' where t: "t = CHR 0x00 # t'" using assms(2) by (cases t) (auto simp: clean_def)
  have "CHR 0x00 \<notin> set (l @ r)" using plain_no_control [OF assms(3)] by simp
  then have "takeWhile (\<lambda>c. c \<noteq> CHR 0x00) ((l @ r) @ t) = l @ r"
    unfolding t by (subst takeWhile_append2) auto
  then show ?thesis using assms(1) t by (simp add: buf_string_def holds_def)
qed


lemma new_line: "holds (vty_new\<lparr>vt_node := n\<rparr>) [] [] (replicate 512 (CHR 0x00))
  \<and> clean (vty_new\<lparr>vt_node := n\<rparr>) (replicate 512 (CHR 0x00))"
  by (auto simp: holds_def clean_def vty_new_def VTY_BUFSIZ_def vt_max_def intro: buf_ok_new)


section \<open>A loop without end\<close>

lemma loop_stuck:
  assumes "b s" "c s = s"
  shows "loop b c s = Fault NoReturn"
proof -
  have "(c ^^ k) s = s" for k by (induction k) (simp_all add: assms(2))
  then show ?thesis using assms(1) by (simp add: loop_def while_option_def)
qed

text \<open>C32. While a password is asked for, \<open>ESC d\<close> with the cursor before the end of what was typed
  never returns: the key deletes nothing there, and its loop waits for the end of the line. The
  process serves nobody any more.\<close>

theorem kill_word_hangs_at_password:
  assumes "holds v l r t" "in_auth v" "r \<noteq> []"
  shows "vty_forward_kill_word v = Fault NoReturn"
proof -
  obtain c r' where r: "r = c # r'" using assms(3) by (cases r) auto
  have d: "delete_char v = v" using assms(2) by (simp add: delete_char_def)
  have h: "holds v l (c # r') t" using assms(1) r by simp
  show ?thesis
  proof (cases "blank c")
    case True
    then have "at_cursor blank v" using at_cursor_holds(1) [OF h] by simp
    then show ?thesis by (simp add: vty_forward_kill_word_def loop_stuck d)
  next
    case False
    then have "\<not> at_cursor blank v" "at_cursor nonblank v"
      using at_cursor_holds(1) [OF h] by (simp_all add: blank_def nonblank_def)
    then show ?thesis
      by (simp add: vty_forward_kill_word_def loop_unfold [of "at_cursor blank"] loop_stuck d)
  qed
qed

lemma kill_word_hangs_at_password_witness:
  "vty_forward_kill_word (vty_backward_char (vty_self_insert (\<lambda>n. []) CHR ''x'' vty_new)) = Fault NoReturn"
proof -
  have h: "holds vty_new [] [] (replicate 512 (CHR 0x00))"
    by (simp add: holds_def vty_new_def VTY_BUFSIZ_def buf_ok_new)
  obtain t' where r: "refined vty_new [] [] (vty_self_insert (\<lambda>n. []) CHR ''x'' vty_new) ([] @ ''x'') [] t'"
    using refined_insert [OF h, of "CHR ''x''" "\<lambda>n. []"] by auto
  have h1: "holds (vty_self_insert (\<lambda>n. []) CHR ''x'' vty_new) ([] @ ''x'') [] t'"
    and f1: "frame vty_new (vty_self_insert (\<lambda>n. []) CHR ''x'' vty_new)"
    using r by (simp_all add: refined_def)
  note e = edited_backward_char [OF h1]
  have "in_auth (vty_backward_char (vty_self_insert (\<lambda>n. []) CHR ''x'' vty_new))"
    using frame_auth [OF f1] frame_auth [OF edited_frame [OF e]] by (simp add: in_auth_def vty_new_def)
  then show ?thesis using kill_word_hangs_at_password [OF edited_holds [OF e]] by simp
qed

end
