(* ===== verification/CmdMatch.thy ===== *)
theory CmdMatch
  imports CmdTable
begin

text \<open>
  Matching of one typed word against the variable words of a command: IPv4 and IPv6 addresses
  and prefixes, and numeric ranges (\<open>cmd_ipv4_match\<close> and its neighbours in \<open>command.c\<close>).
  The typed word is \<open>None\<close> for the NULL that completion passes behind a trailing space.
\<close>

section \<open>Match types\<close>

datatype match_type =
  no_match | extend_match | ipv4_prefix_match | ipv4_match | ipv6_prefix_match | ipv6_match
| range_match | vararg_match | partly_match | exact_match

primrec match_rank :: "match_type \<Rightarrow> nat" where
  "match_rank no_match = 0"
| "match_rank extend_match = 1"
| "match_rank ipv4_prefix_match = 2"
| "match_rank ipv4_match = 3"
| "match_rank ipv6_prefix_match = 4"
| "match_rank ipv6_match = 5"
| "match_rank range_match = 6"
| "match_rank vararg_match = 7"
| "match_rank partly_match = 8"
| "match_rank exact_match = 9"

lemma match_rank_inject [simp]: "(match_rank a = match_rank b) = (a = b)"
  by (cases a; cases b) simp_all

text \<open>The enumerators are compared by their values.\<close>

instantiation match_type :: linorder
begin

definition less_eq_match_type :: "match_type \<Rightarrow> match_type \<Rightarrow> bool" where
  "less_eq_match_type a b \<longleftrightarrow> match_rank a \<le> match_rank b"

definition less_match_type :: "match_type \<Rightarrow> match_type \<Rightarrow> bool" where
  "less_match_type a b \<longleftrightarrow> match_rank a < match_rank b"

instance
  by standard (auto simp: less_eq_match_type_def less_match_type_def)

end

lemmas match_order = less_eq_match_type_def less_match_type_def

lemma no_match_le [simp]: "no_match \<le> m"
  by (simp add: match_order)

lemma le_exact_match [simp]: "m \<le> exact_match"
  by (cases m) (simp_all add: match_order)

section \<open>IPv4\<close>

text \<open>The inner loop: digits up to a dot or the end.\<close>

fun ipv4_scan :: "nat \<Rightarrow> string \<Rightarrow> string \<Rightarrow> match_type + (string \<times> string \<times> nat)" where
  "ipv4_scan dots acc [] = Inr (acc, [], dots)"
| "ipv4_scan dots acc (c # cs) =
     (if c = CHR ''.'' then
        (if dots \<ge> 3 then Inl no_match
         else if cs \<noteq> [] \<and> hd cs = CHR ''.'' then Inl no_match
         else if cs = [] then Inl partly_match
         else Inr (acc, c # cs, dots + 1))
      else if \<not> c_isdigit c then Inl no_match
      else ipv4_scan dots (acc @ [c]) cs)"

lemma ipv4_scan_shrinks: "ipv4_scan dots acc s = Inr (d, r, dots') \<Longrightarrow> length r \<le> length s"
  by (induction dots acc s rule: ipv4_scan.induct) (auto split: if_splits)

function ipv4_loop :: "nat \<Rightarrow> nat \<Rightarrow> string \<Rightarrow> match_type" where
  "ipv4_loop dots nums s =
     (case ipv4_scan dots [] s of
        Inl m \<Rightarrow> m
      | Inr (d, r, dots') \<Rightarrow>
        if length d > 3 then no_match
        else if atoi d > 255 then no_match
        else if r = [] then (if nums + 1 < 4 then partly_match else exact_match)
        else ipv4_loop dots' (nums + 1) (tl r))"
  by pat_completeness auto
termination
  by (relation "measure (\<lambda>(d, n, s). length s)") (auto dest!: ipv4_scan_shrinks simp: neq_Nil_conv)

declare ipv4_loop.simps [simp del]

definition cmd_ipv4_match :: "string option \<Rightarrow> match_type" where
  "cmd_ipv4_match str = (case str of None \<Rightarrow> partly_match | Some s \<Rightarrow> ipv4_loop 0 0 s)"

text \<open>The prefix version stops at a slash as well.\<close>

fun prefix_scan :: "nat \<Rightarrow> string \<Rightarrow> string \<Rightarrow> match_type + (string \<times> string \<times> nat)" where
  "prefix_scan dots acc [] = Inr (acc, [], dots)"
| "prefix_scan dots acc (c # cs) =
     (if c = CHR ''/'' then Inr (acc, c # cs, dots)
      else if c = CHR ''.'' then
        (if dots = 3 then Inl no_match
         else if cs \<noteq> [] \<and> (hd cs = CHR ''.'' \<or> hd cs = CHR ''/'') then Inl no_match
         else if cs = [] then Inl partly_match
         else Inr (acc, c # cs, dots + 1))
      else if \<not> c_isdigit c then Inl no_match
      else prefix_scan dots (acc @ [c]) cs)"

lemma prefix_scan_shrinks: "prefix_scan dots acc s = Inr (d, r, dots') \<Longrightarrow> length r \<le> length s"
  by (induction dots acc s rule: prefix_scan.induct) (auto split: if_splits)

definition prefix_mask :: "string \<Rightarrow> match_type" where
  "prefix_mask s =
     (if \<not> list_all c_isdigit s then no_match
      else if atoi s > 32 then no_match else exact_match)"

function prefix_loop :: "nat \<Rightarrow> string \<Rightarrow> match_type" where
  "prefix_loop dots s =
     (case prefix_scan dots [] s of
        Inl m \<Rightarrow> m
      | Inr (d, r, dots') \<Rightarrow>
        if length d > 3 then no_match
        else if atoi d > 255 then no_match
        else if dots' = 3 \<and> r \<noteq> [] \<and> hd r = CHR ''/'' then
          (if tl r = [] then partly_match else prefix_mask (tl r))
        else if r = [] then partly_match
        else prefix_loop dots' (tl r))"
  by pat_completeness auto
termination
  by (relation "measure (\<lambda>(d, s). length s)") (auto dest!: prefix_scan_shrinks simp: neq_Nil_conv)

declare prefix_loop.simps [simp del]

definition cmd_ipv4_prefix_match :: "string option \<Rightarrow> match_type" where
  "cmd_ipv4_prefix_match str = (case str of None \<Rightarrow> partly_match | Some s \<Rightarrow> prefix_loop 0 s)"

section \<open>IPv6\<close>

datatype v6_state = STATE_START | STATE_COLON | STATE_DOUBLE | STATE_ADDR | STATE_DOT | STATE_SLASH | STATE_MASK

text \<open>\<open>v6_seg\<close> is the text from \<open>sp\<close> up to the current character.\<close>

record v6 =
  v6_st :: v6_state
  v6_colons :: int
  v6_nums :: nat
  v6_double :: nat
  v6_seg :: string

definition v6_init :: v6 where
  "v6_init = \<lparr>v6_st = STATE_START, v6_colons = 0, v6_nums = 0, v6_double = 0, v6_seg = []\<rparr>"

definition next_is :: "char \<Rightarrow> string \<Rightarrow> bool" where
  "next_is c cs \<longleftrightarrow> cs \<noteq> [] \<and> hd cs = c"

text \<open>\<open>STATE_START\<close> looks at the first character without consuming it.\<close>

definition v6_start :: "char \<Rightarrow> string \<Rightarrow> v6 \<Rightarrow> v6 option" where
  "v6_start c cs v =
     (if c = CHR '':'' then
        (if \<not> next_is CHR '':'' cs \<and> cs \<noteq> [] then None
         else Some (v\<lparr>v6_colons := v6_colons v - 1, v6_st := STATE_COLON\<rparr>))
      else Some (v\<lparr>v6_seg := [], v6_st := STATE_ADDR\<rparr>))"

text \<open>One character of an address; \<open>None\<close> is \<open>return no_match\<close>.\<close>

definition v6_step :: "char \<Rightarrow> string \<Rightarrow> v6 \<Rightarrow> v6 option" where
  "v6_step c cs v =
     (case v6_st v of
        STATE_COLON \<Rightarrow>
          (let v1 = v\<lparr>v6_colons := v6_colons v + 1\<rparr>
           in if next_is CHR '':'' cs then Some (v1\<lparr>v6_st := STATE_DOUBLE, v6_seg := v6_seg v @ [c]\<rparr>)
              else Some (v1\<lparr>v6_seg := [], v6_st := STATE_ADDR\<rparr>))
      | STATE_DOUBLE \<Rightarrow>
          (if v6_double v \<noteq> 0 then None
           else if next_is CHR '':'' cs then None
           else Some (v\<lparr>v6_colons := (if cs \<noteq> [] then v6_colons v + 1 else v6_colons v), v6_seg := [],
             v6_st := STATE_ADDR, v6_double := v6_double v + 1, v6_nums := v6_nums v + 1\<rparr>))
      | STATE_ADDR \<Rightarrow>
          (let field_end = next_is CHR '':'' cs \<or> cs = [];
               v1 = (if field_end then v\<lparr>v6_nums := v6_nums v + 1, v6_st := STATE_COLON\<rparr> else v);
               v2 = (if next_is CHR ''.'' cs then v1\<lparr>v6_st := STATE_DOT\<rparr> else v1)
           in if field_end \<and> length (v6_seg v) > 3 then None
              else Some (v2\<lparr>v6_seg := v6_seg v @ [c]\<rparr>))
      | STATE_DOT \<Rightarrow> Some (v\<lparr>v6_st := STATE_ADDR, v6_seg := v6_seg v @ [c]\<rparr>)
      | _ \<Rightarrow> Some (v\<lparr>v6_seg := v6_seg v @ [c]\<rparr>))"

definition v6_bounds :: "nat \<Rightarrow> v6 \<Rightarrow> bool" where
  "v6_bounds n v \<longleftrightarrow> v6_nums v \<le> n \<and> v6_colons v \<le> 7"

fun ipv6_loop :: "v6 \<Rightarrow> string \<Rightarrow> match_type" where
  "ipv6_loop v [] = exact_match"
| "ipv6_loop v (c # cs) =
     (case (if v6_st v = STATE_START then v6_start c cs v else Some v) of
        None \<Rightarrow> no_match
      | Some v1 \<Rightarrow>
        (case v6_step c cs v1 of
           None \<Rightarrow> no_match
         | Some v2 \<Rightarrow> if v6_bounds 8 v2 then ipv6_loop v2 cs else no_match))"

definition ipv6_char :: "char \<Rightarrow> bool" where
  "ipv6_char c \<longleftrightarrow> c \<in> set ''0123456789abcdefABCDEF:.%''"

definition cmd_ipv6_match :: "string option \<Rightarrow> match_type" where
  "cmd_ipv6_match str =
     (case str of
        None \<Rightarrow> partly_match
      | Some s \<Rightarrow> if \<not> list_all ipv6_char s then no_match else ipv6_loop v6_init s)"

text \<open>One character of a prefix: \<open>Inl\<close> is an early return.\<close>

definition v6p_step :: "char \<Rightarrow> string \<Rightarrow> v6 \<Rightarrow> match_type + v6" where
  "v6p_step c cs v =
     (case v6_st v of
        STATE_COLON \<Rightarrow>
          (let v1 = v\<lparr>v6_colons := v6_colons v + 1\<rparr>
           in if next_is CHR ''/'' cs then Inl no_match
              else if next_is CHR '':'' cs then Inr (v1\<lparr>v6_st := STATE_DOUBLE, v6_seg := v6_seg v @ [c]\<rparr>)
              else Inr (v1\<lparr>v6_seg := [], v6_st := STATE_ADDR\<rparr>))
      | STATE_DOUBLE \<Rightarrow>
          (if v6_double v \<noteq> 0 then Inl no_match
           else if next_is CHR '':'' cs then Inl no_match
           else Inr (v\<lparr>v6_colons := (if cs \<noteq> [] \<and> \<not> next_is CHR ''/'' cs then v6_colons v + 1 else v6_colons v),
             v6_seg := [], v6_st := (if next_is CHR ''/'' cs then STATE_SLASH else STATE_ADDR),
             v6_double := v6_double v + 1, v6_nums := v6_nums v + 1\<rparr>))
      | STATE_ADDR \<Rightarrow>
          (if next_is CHR '':'' cs \<or> next_is CHR ''.'' cs \<or> cs = [] \<or> next_is CHR ''/'' cs then
             (if length (v6_seg v) > 3 then Inl no_match
              else if CHR ''/'' \<in> set (v6_seg v @ [c]) then Inl no_match
              else Inr (v\<lparr>v6_nums := v6_nums v + 1, v6_seg := [],
                v6_st := (if next_is CHR '':'' cs then STATE_COLON else if next_is CHR ''.'' cs then STATE_DOT
                  else if next_is CHR ''/'' cs then STATE_SLASH else STATE_ADDR)\<rparr>))
           else Inr (v\<lparr>v6_seg := v6_seg v @ [c]\<rparr>))
      | STATE_DOT \<Rightarrow> Inr (v\<lparr>v6_st := STATE_ADDR, v6_seg := v6_seg v @ [c]\<rparr>)
      | STATE_SLASH \<Rightarrow> if cs = [] then Inl partly_match else Inr (v\<lparr>v6_st := STATE_MASK, v6_seg := v6_seg v @ [c]\<rparr>)
      | _ \<Rightarrow> Inr (v\<lparr>v6_seg := v6_seg v @ [c]\<rparr>))"

definition v6p_mask :: "string \<Rightarrow> match_type" where
  "v6p_mask s =
     (let (n, r) = strtol s; mask = sint (word_of_int n :: 32 word)
      in if r \<noteq> [] then no_match
         else if mask < 0 \<or> mask > 128 then no_match else exact_match)"

fun v6p_loop :: "v6 \<Rightarrow> string \<Rightarrow> match_type" where
  "v6p_loop v [] = (if v6_st v = STATE_MASK then v6p_mask [] else partly_match)"
| "v6p_loop v (c # cs) =
     (if v6_st v = STATE_MASK then v6p_mask (c # cs)
      else case (if v6_st v = STATE_START then v6_start c cs v else Some v) of
        None \<Rightarrow> no_match
      | Some v1 \<Rightarrow>
        (case v6p_step c cs v1 of
           Inl m \<Rightarrow> m
         | Inr v2 \<Rightarrow> if v6_bounds 11 v2 then v6p_loop v2 cs else no_match))"

definition cmd_ipv6_prefix_match :: "string option \<Rightarrow> match_type" where
  "cmd_ipv6_prefix_match str =
     (case str of
        None \<Rightarrow> partly_match
      | Some s \<Rightarrow>
        if \<not> list_all (\<lambda>c. ipv6_char c \<or> c = CHR ''/'') s then no_match else v6p_loop v6_init s)"

section \<open>Ranges\<close>

text \<open>The text before the first \<open>c\<close>, if there is one and the text is at most 10 characters.\<close>

definition upto_char :: "char \<Rightarrow> string \<Rightarrow> (string \<times> string) option" where
  "upto_char c s = (if c \<in> set s \<and> length (takeWhile (\<lambda>x. x \<noteq> c) s) \<le> 10
     then Some (takeWhile (\<lambda>x. x \<noteq> c) s, tl (dropWhile (\<lambda>x. x \<noteq> c) s)) else None)"

definition cmd_range_match :: "string \<Rightarrow> string option \<Rightarrow> bool" where
  "cmd_range_match rng str =
     (case str of
        None \<Rightarrow> True
      | Some s \<Rightarrow>
        (let (val, r) = strtoul s in
         if r \<noteq> [] then False
         else case upto_char CHR ''-'' (tl rng) of
           None \<Rightarrow> False
         | Some (lo, rng') \<Rightarrow>
           (let (mn, r1) = strtoul lo in
            if r1 \<noteq> [] then False
            else case upto_char CHR ''>'' rng' of
              None \<Rightarrow> False
            | Some (hi, _) \<Rightarrow>
              (let (mx, r2) = strtoul hi in
               if r2 \<noteq> [] then False else \<not> (val < mn \<or> val > mx)))))"

section \<open>What the IPv4 matcher accepts\<close>

fun fields :: "string \<Rightarrow> string list" where
  "fields [] = [[]]"
| "fields (c # cs) = (if c = CHR ''.'' then [] # fields cs else (c # hd (fields cs)) # tl (fields cs))"

definition octet :: "string \<Rightarrow> bool" where
  "octet f \<longleftrightarrow> list_all c_isdigit f \<and> length f \<le> 3 \<and> dec_val f \<le> 255"

lemma fields_ne [simp]: "fields s \<noteq> []"
  by (cases s) auto

lemma isdigit_not_dot: "c_isdigit c \<Longrightarrow> c \<noteq> CHR ''.''"
  by (auto simp: c_isdigit_def)

lemma fields_digits:
  "list_all c_isdigit d \<Longrightarrow> fields (d @ r) = (d @ hd (fields r)) # tl (fields r)"
  by (induction d) (auto simp: isdigit_not_dot)

lemma ipv4_scan_digits:
  "list_all c_isdigit d \<Longrightarrow> ipv4_scan dots acc (d @ r) = ipv4_scan dots (acc @ d) r"
  by (induction d arbitrary: acc) (auto simp: isdigit_not_dot)

lemma split_digits: "s = takeWhile c_isdigit s @ dropWhile c_isdigit s" "list_all c_isdigit (takeWhile c_isdigit s)"
  by simp (auto simp: list_all_iff dest: set_takeWhileD)

lemma atoi_octet: "list_all c_isdigit d \<Longrightarrow> length d \<le> 3 \<Longrightarrow> (atoi d > 255) = (dec_val d > 255)"
  by (simp add: atoi_digits)

lemma ipv4_loop_exact:
  "n \<le> 3 \<Longrightarrow> (ipv4_loop n n s = exact_match) \<longleftrightarrow>
     length (fields s) = 4 - n \<and> list_all octet (fields s) \<and> list_all (\<lambda>f. f \<noteq> []) (tl (fields s))"
proof (induction "length s" arbitrary: n s rule: less_induct)
  case less
  define d where "d = takeWhile c_isdigit s"
  define r where "r = dropWhile c_isdigit s"
  have s: "s = d @ r" and d: "list_all c_isdigit d" by (simp_all add: d_def r_def split_digits(2))
  have f: "fields s = (d @ hd (fields r)) # tl (fields r)" using fields_digits [OF d] s by simp
  have sc: "ipv4_scan n [] s = ipv4_scan n d r" using ipv4_scan_digits [OF d, of n "[]" r] s by simp
  show ?case
  proof (cases r)
    case Nil
    then show ?thesis
      using d less.prems f sc atoi_octet [OF d]
      by (subst ipv4_loop.simps) (auto simp: octet_def)
  next
    case (Cons c cs)
    then have nd: "\<not> c_isdigit c" using hd_dropWhile [of c_isdigit s] by (simp add: r_def)
    show ?thesis
    proof (cases "c = CHR ''.''")
      case False
      then have "\<not> octet (hd (fields s))" using f Cons nd by (simp add: octet_def)
      then have "\<not> list_all octet (fields s)" by (cases "fields s") simp_all
      moreover have "ipv4_scan n d r = Inl no_match" using Cons False nd by simp
      ultimately show ?thesis by (subst ipv4_loop.simps) (simp add: sc)
    next
      case True
      have fs: "fields s = d # fields cs" using f Cons True by simp
      have hd0: "list_all (\<lambda>f. f \<noteq> []) (fields cs) \<longleftrightarrow> cs \<noteq> [] \<and> hd cs \<noteq> CHR ''.''
          \<and> list_all (\<lambda>f. f \<noteq> []) (tl (fields cs))"
        by (cases cs) auto
      have o: "octet d \<longleftrightarrow> \<not> length d > 3 \<and> \<not> atoi d > 255"
        using d atoi_octet [OF d] by (auto simp: octet_def)
      show ?thesis
      proof (cases "n = 3 \<or> cs = [] \<or> hd cs = CHR ''.''")
        case True
        then have "ipv4_scan n d r \<in> {Inl no_match, Inl partly_match}"
          using Cons \<open>c = CHR ''.''\<close> less.prems by auto
        then have "ipv4_loop n n s \<noteq> exact_match" by (subst ipv4_loop.simps) (auto simp: sc)
        moreover have "\<not> (length (fields s) = 4 - n \<and> list_all (\<lambda>f. f \<noteq> []) (fields cs))"
          using True hd0 by (cases "fields cs") (auto simp: fs)
        ultimately show ?thesis by (auto simp: fs)
      next
        case False
        then have "ipv4_scan n d r = Inr (d, r, n + 1)" using Cons \<open>c = CHR ''.''\<close> less.prems by auto
        then have "(ipv4_loop n n s = exact_match) = (octet d \<and> ipv4_loop (n + 1) (n + 1) cs = exact_match)"
          using Cons o by (subst ipv4_loop.simps) (simp add: sc)
        moreover have "(ipv4_loop (n + 1) (n + 1) cs = exact_match) \<longleftrightarrow>
            length (fields cs) = 4 - (n + 1) \<and> list_all octet (fields cs)
            \<and> list_all (\<lambda>f. f \<noteq> []) (tl (fields cs))"
          using less.hyps [of cs "n + 1"] less.prems False s Cons by simp
        ultimately show ?thesis
          using False hd0 less.prems by (auto simp: fs)
      qed
    qed
  qed
qed

text \<open>C21. The IPv4 matcher reports an exact match for exactly the strings of four fields of at
  most three digits, each at most 255, between dots, in which only the first field may be
  empty (so the malformed \<open>.1.2.3\<close> is accepted).\<close>

theorem ipv4_match_exact:
  "cmd_ipv4_match (Some s) = exact_match \<longleftrightarrow>
     length (fields s) = 4 \<and> list_all octet (fields s) \<and> list_all (\<lambda>f. f \<noteq> []) (tl (fields s))"
  using ipv4_loop_exact [of 0 s] by (simp add: cmd_ipv4_match_def)

section \<open>What a range accepts\<close>

lemma upto_char_digits:
  assumes "list_all c_isdigit d" "length d \<le> 10" "\<not> c_isdigit c"
  shows "upto_char c (d @ c # r) = Some (d, r)"
proof -
  have n: "c \<notin> set d" using assms(1,3) by (auto simp: list_all_iff)
  then have "takeWhile (\<lambda>x. x \<noteq> c) (d @ c # r) = d" "dropWhile (\<lambda>x. x \<noteq> c) (d @ c # r) = c # r"
    by (induction d; auto)+
  then show ?thesis using assms(2) by (simp add: upto_char_def)
qed

text \<open>C28. For a range whose limits have at most ten digits, a typed decimal number of any length is
  accepted iff its value is between the limits.\<close>

theorem range_match_between:
  assumes "list_all c_isdigit lo" "length lo \<le> 10" "list_all c_isdigit hi" "length hi \<le> 10"
    and "list_all c_isdigit s"
  shows "cmd_range_match (''<'' @ lo @ ''-'' @ hi @ ''>'') (Some s) \<longleftrightarrow>
    dec_val lo \<le> dec_val s \<and> dec_val s \<le> dec_val hi"
proof -
  have small: "dec_val d < 2 ^ 63" if "list_all c_isdigit d" "length d \<le> 10" for d
  proof -
    have "dec_val d < 10 ^ length d" using that(1) by (rule dec_val_bound)
    also have "(10::nat) ^ length d \<le> 10 ^ 10" using that(2) by (intro power_increasing) auto
    finally show ?thesis by simp
  qed
  note b = small [OF assms(1,2)] small [OF assms(3,4)]
  have "upto_char CHR ''-'' (lo @ CHR ''-'' # hi @ ''>'') = Some (lo, hi @ ''>'')"
    "upto_char CHR ''>'' (hi @ ''>'') = Some (hi, [])"
    using upto_char_digits [OF assms(1,2), of "CHR ''-''" "hi @ ''>''"]
      upto_char_digits [OF assms(3,4), of "CHR ''>''" "[]"]
    by (auto simp: c_isdigit_def)
  then show ?thesis
    using b assms by (auto simp: cmd_range_match_def strtoul_digits not_le)
qed

lemma range_match_between_witness:
  "cmd_range_match ''<0-512>'' (Some ''24'') \<and> \<not> cmd_range_match ''<0-512>'' (Some ''513'')"
  using range_match_between [of "''0''" "''512''" "''24''"] range_match_between [of "''0''" "''512''" "''513''"]
  by (simp add: c_isdigit_def dec_val_def digit_val_def)

end
