(* ===== verification/CmdSort.thy ===== *)
theory CmdSort
  imports CmdTable
begin

text \<open>
  Sorting of the command table when the library starts (\<open>sort_node\<close>), over the interface
  \<open>cmp_order\<close> of a C comparison function. The order in which \<open>qsort\<close> leaves equal elements is
  unspecified in C; the model is one of the permitted behaviours.
\<close>

section \<open>Comparison functions\<close>

fun insort_cmp :: "('a \<Rightarrow> 'a \<Rightarrow> int) \<Rightarrow> 'a \<Rightarrow> 'a list \<Rightarrow> 'a list" where
  "insort_cmp cmp x [] = [x]"
| "insort_cmp cmp x (y # ys) = (if cmp x y \<le> 0 then x # y # ys else y # insort_cmp cmp x ys)"

definition c_qsort :: "('a \<Rightarrow> 'a \<Rightarrow> int) \<Rightarrow> 'a list \<Rightarrow> 'a list" where
  "c_qsort cmp xs = foldr (insort_cmp cmp) xs []"

lemma mset_insort_cmp: "mset (insort_cmp cmp x xs) = add_mset x (mset xs)"
  by (induction xs) auto

lemma mset_c_qsort [simp]: "mset (c_qsort cmp xs) = mset xs"
  by (induction xs) (simp_all add: c_qsort_def mset_insort_cmp)

lemma set_c_qsort [simp]: "set (c_qsort cmp xs) = set xs"
  by (metis mset_c_qsort set_mset_mset)

lemma length_c_qsort [simp]: "length (c_qsort cmp xs) = length xs"
  by (metis mset_c_qsort size_mset)

locale cmp_order =
  fixes cmp :: "'a \<Rightarrow> 'a \<Rightarrow> int"
  assumes cmp_total: "cmp a b \<le> 0 \<or> cmp b a \<le> 0"
    and cmp_trans: "cmp a b \<le> 0 \<Longrightarrow> cmp b c \<le> 0 \<Longrightarrow> cmp a c \<le> 0"
begin

definition le :: "'a \<Rightarrow> 'a \<Rightarrow> bool" where
  "le a b \<longleftrightarrow> cmp a b \<le> 0"

lemma set_insort: "set (insort_cmp cmp x xs) = insert x (set xs)"
  by (induction xs) auto

lemma sorted_insort: "sorted_wrt le xs \<Longrightarrow> sorted_wrt le (insort_cmp cmp x xs)"
proof (induction xs)
  case (Cons y ys)
  then show ?case
    using cmp_total [of x y] by (auto simp: le_def set_insort intro: cmp_trans)
qed simp

lemma sorted_qsort: "sorted_wrt (\<lambda>a b. cmp a b \<le> 0) (c_qsort cmp xs)"
proof -
  have "sorted_wrt le (c_qsort cmp xs)"
    by (induction xs) (simp_all add: c_qsort_def sorted_insort)
  then show ?thesis by (simp add: le_def [abs_def])
qed

text \<open>Where the comparison tells all elements apart, there is only one result.\<close>

lemma sorted_unique:
  assumes "\<And>a b. cmp a b \<le> 0 \<Longrightarrow> cmp b a \<le> 0 \<Longrightarrow> a = b"
    and "sorted_wrt le xs" "mset xs = mset ys" "sorted_wrt le ys"
  shows "xs = ys"
  using assms(2-4)
proof (induction xs arbitrary: ys)
  case (Cons x xs)
  then obtain y ys' where ys: "ys = y # ys'" by (cases ys) auto
  have "x \<in> set ys" "y \<in> set (x # xs)"
    using Cons.prems(2) ys by (metis list.set_intros(1) set_mset_mset)+
  then have "le x y" "le y x"
    using Cons.prems(1,3) ys cmp_total [of x x] by (auto simp: le_def)
  then have "x = y" using assms(1) by (simp add: le_def)
  then show ?case using Cons ys by simp
qed simp

end

section \<open>The table\<close>

definition cmp_node :: "'f cmd_element \<Rightarrow> 'f cmd_element \<Rightarrow> int" where
  "cmp_node a b = strcmp (ce_string a) (ce_string b)"

definition cmp_desc :: "desc \<Rightarrow> desc \<Rightarrow> int" where
  "cmp_desc a b = strcmp (d_cmd a) (d_cmd b)"

interpretation by_node: cmp_order cmp_node
proof
  fix a b c :: "'f cmd_element"
  show "cmp_node a b \<le> 0 \<or> cmp_node b a \<le> 0"
    using strcmp_swap [of "ce_string a" "ce_string b"] by (auto simp: cmp_node_def)
  show "cmp_node a b \<le> 0 \<Longrightarrow> cmp_node b c \<le> 0 \<Longrightarrow> cmp_node a c \<le> 0"
    unfolding cmp_node_def by (rule strcmp_trans)
qed

interpretation by_desc: cmp_order cmp_desc
proof
  fix a b c :: desc
  show "cmp_desc a b \<le> 0 \<or> cmp_desc b a \<le> 0"
    using strcmp_swap [of "d_cmd a" "d_cmd b"] by (auto simp: cmp_desc_def)
  show "cmp_desc a b \<le> 0 \<Longrightarrow> cmp_desc b c \<le> 0 \<Longrightarrow> cmp_desc a c \<le> 0"
    unfolding cmp_desc_def by (rule strcmp_trans)
qed

text \<open>The last word's alternatives of a command are sorted too; a command without words is a read
  in front of the vector.\<close>

definition sort_last :: "'f cmd_element \<Rightarrow> 'f cmd_element option" where
  "sort_last el = (case rev (ce_strvec el) of
       [] \<Rightarrow> None
     | dv # r \<Rightarrow> Some (el\<lparr>ce_strvec := rev r @ [c_qsort cmp_desc dv]\<rparr>))"

fun map_opt :: "('a \<Rightarrow> 'b option) \<Rightarrow> 'a list \<Rightarrow> 'b list option" where
  "map_opt f [] = Some []"
| "map_opt f (x # xs) =
     (case f x of None \<Rightarrow> None
      | Some y \<Rightarrow> (case map_opt f xs of None \<Rightarrow> None | Some ys \<Rightarrow> Some (y # ys)))"

definition sort_elements :: "'f cmd_element list \<Rightarrow> 'f cmd_element list option" where
  "sort_elements els = map_opt sort_last (c_qsort cmp_node els)"

text \<open>The comparison dereferences every slot of the vector, so the slots in use must not be NULL.\<close>

definition sort_cmd_vector :: "'f cmd_element vec \<Rightarrow> 'f cmd_element vec option" where
  "sort_cmd_vector v =
     (if None \<in> set (slots v) then None
      else case sort_elements (map the (slots v)) of
        None \<Rightarrow> None
      | Some els \<Rightarrow> Some (v\<lparr>v_index := map Some els @ drop (v_max v) (v_index v)\<rparr>))"

fun sort_node_slots :: "'f cmd_node option list \<Rightarrow> 'f cmd_node option list option" where
  "sort_node_slots [] = Some []"
| "sort_node_slots (None # ns) = map_option ((#) None) (sort_node_slots ns)"
| "sort_node_slots (Some n # ns) =
     (case sort_cmd_vector (cn_vector n) of
        None \<Rightarrow> None
      | Some v \<Rightarrow> map_option ((#) (Some (n\<lparr>cn_vector := v\<rparr>))) (sort_node_slots ns))"

definition sort_node :: "'f cmd_node vec \<Rightarrow> 'f cmd_node vec option" where
  "sort_node v = (case sort_node_slots (slots v) of
       None \<Rightarrow> None
     | Some ns \<Rightarrow> Some (v\<lparr>v_index := ns @ drop (v_max v) (v_index v)\<rparr>))"

section \<open>What sorting keeps\<close>

lemma map_opt_Some: "(\<And>x. x \<in> set xs \<Longrightarrow> \<exists>y. f x = Some y \<and> P x y) \<Longrightarrow>
    \<exists>ys. map_opt f xs = Some ys \<and> list_all2 P xs ys"
proof (induction xs)
  case (Cons x xs)
  then obtain y where "f x = Some y" "P x y" by (metis list.set_intros(1))
  moreover obtain ys where "map_opt f xs = Some ys" "list_all2 P xs ys"
    using Cons by (metis list.set_intros(2))
  ultimately show ?case by simp
qed simp

text \<open>The same command, up to the order of its last word's alternatives.\<close>

definition same_command :: "'f cmd_element \<Rightarrow> 'f cmd_element \<Rightarrow> bool" where
  "same_command a b \<longleftrightarrow> ce_string b = ce_string a \<and> ce_func b = ce_func a \<and> ce_doc b = ce_doc a
     \<and> ce_daemon b = ce_daemon a \<and> ce_cmdsize b = ce_cmdsize a
     \<and> butlast (ce_strvec b) = butlast (ce_strvec a)
     \<and> mset (last (ce_strvec b)) = mset (last (ce_strvec a))
     \<and> sorted_wrt (\<lambda>x y. cmp_desc x y \<le> 0) (last (ce_strvec b))"

lemma sort_last_same:
  assumes "ce_strvec el \<noteq> []"
  shows "\<exists>el'. sort_last el = Some el' \<and> same_command el el'"
proof -
  obtain r dv where r: "ce_strvec el = r @ [dv]" using assms by (metis rev_exhaust)
  then show ?thesis
    using by_desc.sorted_qsort [of dv] by (auto simp: sort_last_def same_command_def)
qed

text \<open>C23. Sorting a table of commands that have at least one word always succeeds: the result
  holds the same commands, in the order of \<open>strcmp\<close> on their specifications, each with its words
  unchanged but for the order of the last word's alternatives, which is that of \<open>strcmp\<close> too.\<close>

theorem sort_elements_sorts:
  assumes "\<forall>el \<in> set els. ce_strvec el \<noteq> []"
  shows "\<exists>els' perm. sort_elements els = Some els' \<and> mset perm = mset els \<and> list_all2 same_command perm els'
    \<and> sorted_wrt (\<lambda>a b. strcmp (ce_string a) (ce_string b) \<le> 0) els'"
proof -
  let ?perm = "c_qsort cmp_node els"
  obtain els' where e: "sort_elements els = Some els'" "list_all2 same_command ?perm els'"
    using map_opt_Some [of ?perm sort_last same_command] assms sort_last_same
    by (auto simp: sort_elements_def)
  have "map ce_string els' = map ce_string ?perm"
    using e(2) by (induction rule: list_all2_induct) (auto simp: same_command_def)
  moreover have "sorted_wrt (\<lambda>a b. strcmp a b \<le> 0) (map ce_string ?perm)"
    using by_node.sorted_qsort [of els] by (simp add: sorted_wrt_map cmp_node_def)
  ultimately have "sorted_wrt (\<lambda>a b. strcmp a b \<le> 0) (map ce_string els')" by simp
  then show ?thesis using e by (intro exI [where x = els'] exI [where x = ?perm]) (simp add: sorted_wrt_map)
qed

lemma sort_elements_sorts_witness:
  "\<exists>els'. sort_elements
     [\<lparr>ce_string = ''quit'', ce_func = (), ce_doc = None, ce_daemon = 0,
       ce_strvec = [[\<lparr>d_cmd = ''quit'', d_str = None\<rparr>]], ce_cmdsize = 1\<rparr>,
      \<lparr>ce_string = ''list'', ce_func = (), ce_doc = None, ce_daemon = 0,
       ce_strvec = [[\<lparr>d_cmd = ''list'', d_str = None\<rparr>]], ce_cmdsize = 1\<rparr>] = Some els'
    \<and> sorted_wrt (\<lambda>a b. strcmp (ce_string a) (ce_string b) \<le> 0) els'"
proof -
  let ?els = "[\<lparr>ce_string = ''quit'', ce_func = (), ce_doc = None, ce_daemon = 0,
       ce_strvec = [[\<lparr>d_cmd = ''quit'', d_str = None\<rparr>]], ce_cmdsize = 1\<rparr>,
      \<lparr>ce_string = ''list'', ce_func = (), ce_doc = None, ce_daemon = 0,
       ce_strvec = [[\<lparr>d_cmd = ''list'', d_str = None\<rparr>]], ce_cmdsize = 1\<rparr>]"
  have "\<forall>el \<in> set ?els. ce_strvec el \<noteq> []" by simp
  from sort_elements_sorts [OF this] show ?thesis by blast
qed

end
