(* ===== verification/CmdExec.thy ===== *)
theory CmdExec
  imports CmdMatch CmdSort
begin

text \<open>
  Finding and running the command that a line means, as \<open>command.c\<close> does it: the commands of
  the current node are filtered word by word (\<open>cmd_filter_by_completion\<close>,
  \<open>cmd_filter_by_string\<close>, \<open>is_cmd_ambiguous\<close>), the one that is left is run with the words at
  its variable positions. A command vector is the list of its slots; the functions work on a copy.
\<close>

section \<open>Matching one word\<close>

text \<open>The match type a description's word contributes, \<open>None\<close> when it does not match.\<close>

definition match_completion :: "string \<Rightarrow> string \<Rightarrow> match_type option" where
  "match_completion command str =
     (if CMD_VARARG str then Some vararg_match
      else if CMD_RANGE str then
        (if cmd_range_match str (Some command) then Some range_match else None)
      else if CMD_IPV6 str then
        (if cmd_ipv6_match (Some command) \<noteq> no_match then Some ipv6_match else None)
      else if CMD_IPV6_PREFIX str then
        (if cmd_ipv6_prefix_match (Some command) \<noteq> no_match then Some ipv6_prefix_match else None)
      else if CMD_IPV4 str then
        (if cmd_ipv4_match (Some command) \<noteq> no_match then Some ipv4_match else None)
      else if CMD_IPV4_PREFIX str then
        (if cmd_ipv4_prefix_match (Some command) \<noteq> no_match then Some ipv4_prefix_match else None)
      else if CMD_OPTION str \<or> CMD_VARIABLE str then Some extend_match
      else if strncmp command str (length command) = 0 then
        (if strcmp command str = 0 then Some exact_match else Some partly_match)
      else None)"

definition match_string :: "string \<Rightarrow> string \<Rightarrow> match_type option" where
  "match_string command str =
     (if CMD_VARARG str then Some vararg_match
      else if CMD_RANGE str then
        (if cmd_range_match str (Some command) then Some range_match else None)
      else if CMD_IPV6 str then
        (if cmd_ipv6_match (Some command) = exact_match then Some ipv6_match else None)
      else if CMD_IPV6_PREFIX str then
        (if cmd_ipv6_prefix_match (Some command) = exact_match then Some ipv6_prefix_match else None)
      else if CMD_IPV4 str then
        (if cmd_ipv4_match (Some command) = exact_match then Some ipv4_match else None)
      else if CMD_IPV4_PREFIX str then
        (if cmd_ipv4_prefix_match (Some command) = exact_match then Some ipv4_prefix_match else None)
      else if CMD_OPTION str \<or> CMD_VARIABLE str then Some extend_match
      else if strcmp command str = 0 then Some exact_match
      else None)"

section \<open>Filters\<close>

text \<open>The inner loop over the alternatives of a word: the match type only grows.\<close>

fun match_descs :: "(string \<Rightarrow> match_type option) \<Rightarrow> desc list \<Rightarrow> match_type \<Rightarrow> match_type \<times> nat" where
  "match_descs f [] mt = (mt, 0)"
| "match_descs f (d # ds) mt =
     (case f (d_cmd d) of
        None \<Rightarrow> match_descs f ds mt
      | Some t \<Rightarrow> (let (mt', n) = match_descs f ds (max mt t) in (mt', n + 1)))"

fun filter_slots ::
  "(string \<Rightarrow> match_type option) \<Rightarrow> nat \<Rightarrow> 'f cmd_element option list \<Rightarrow> match_type
     \<Rightarrow> match_type \<times> 'f cmd_element option list" where
  "filter_slots f index [] mt = (mt, [])"
| "filter_slots f index (None # v) mt =
     (let (mt', v') = filter_slots f index v mt in (mt', None # v'))"
| "filter_slots f index (Some el # v) mt =
     (if index \<ge> length (ce_strvec el) then
        (let (mt', v') = filter_slots f index v mt in (mt', None # v'))
      else
        (let (mt1, matched) = match_descs f (ce_strvec el ! index) mt;
             (mt', v') = filter_slots f index v mt1
         in (mt', (if matched = 0 then None else Some el) # v')))"

definition cmd_filter_by_completion ::
  "string \<Rightarrow> 'f cmd_element option list \<Rightarrow> nat \<Rightarrow> match_type \<times> 'f cmd_element option list" where
  "cmd_filter_by_completion command v index = filter_slots (match_completion command) index v no_match"

definition cmd_filter_by_string ::
  "string \<Rightarrow> 'f cmd_element option list \<Rightarrow> nat \<Rightarrow> match_type \<times> 'f cmd_element option list" where
  "cmd_filter_by_string command v index = filter_slots (match_string command) index v no_match"

text \<open>\<open>is_cmd_ambiguous\<close>: \<open>Inl 1\<close> for two different candidates, \<open>Inl 2\<close> for an unfinished address,
  otherwise the commands that match in the best way. \<open>matched\<close> is carried over all commands.\<close>

definition amb_desc ::
  "string \<Rightarrow> match_type \<Rightarrow> string \<Rightarrow> string option \<Rightarrow> nat + (string option \<times> bool)" where
  "amb_desc command type str matched =
     (case type of
        exact_match \<Rightarrow>
          Inr (matched, \<not> (CMD_OPTION str \<or> CMD_VARIABLE str) \<and> strcmp command str = 0)
      | partly_match \<Rightarrow>
          (if \<not> (CMD_OPTION str \<or> CMD_VARIABLE str) \<and> strncmp command str (length command) = 0 then
             (case matched of
                Some m \<Rightarrow> if strcmp m str \<noteq> 0 then Inl 1 else Inr (Some str, True)
              | None \<Rightarrow> Inr (Some str, True))
           else Inr (matched, False))
      | range_match \<Rightarrow>
          (if cmd_range_match str (Some command) then
             (case matched of
                Some m \<Rightarrow> if strcmp m str \<noteq> 0 then Inl 1 else Inr (Some str, True)
              | None \<Rightarrow> Inr (Some str, True))
           else Inr (matched, False))
      | ipv6_match \<Rightarrow> Inr (matched, CMD_IPV6 str)
      | ipv6_prefix_match \<Rightarrow>
          (case cmd_ipv6_prefix_match (Some command) of
             no_match \<Rightarrow> Inr (matched, False)
           | partly_match \<Rightarrow> Inl 2
           | _ \<Rightarrow> Inr (matched, True))
      | ipv4_match \<Rightarrow> Inr (matched, CMD_IPV4 str)
      | ipv4_prefix_match \<Rightarrow>
          (case cmd_ipv4_prefix_match (Some command) of
             no_match \<Rightarrow> Inr (matched, False)
           | partly_match \<Rightarrow> Inl 2
           | _ \<Rightarrow> Inr (matched, True))
      | extend_match \<Rightarrow> Inr (matched, CMD_OPTION str \<or> CMD_VARIABLE str)
      | _ \<Rightarrow> Inr (matched, False))"

fun amb_descs ::
  "string \<Rightarrow> match_type \<Rightarrow> desc list \<Rightarrow> string option \<Rightarrow> nat + (string option \<times> bool)" where
  "amb_descs command type [] matched = Inr (matched, False)"
| "amb_descs command type (d # ds) matched =
     (case amb_desc command type (d_cmd d) matched of
        Inl r \<Rightarrow> Inl r
      | Inr (matched', hit) \<Rightarrow>
        (case amb_descs command type ds matched' of
           Inl r \<Rightarrow> Inl r
         | Inr (matched'', hit') \<Rightarrow> Inr (matched'', hit \<or> hit')))"

fun amb_slots ::
  "string \<Rightarrow> match_type \<Rightarrow> nat \<Rightarrow> 'f cmd_element option list \<Rightarrow> string option
     \<Rightarrow> nat + 'f cmd_element option list" where
  "amb_slots command type index [] matched = Inr []"
| "amb_slots command type index (None # v) matched =
     map_sum id ((#) None) (amb_slots command type index v matched)"
| "amb_slots command type index (Some el # v) matched =
     (case amb_descs command type (ce_strvec el ! index) matched of
        Inl r \<Rightarrow> Inl r
      | Inr (matched', hit) \<Rightarrow>
        map_sum id ((#) (if hit then Some el else None)) (amb_slots command type index v matched'))"

definition is_cmd_ambiguous ::
  "string \<Rightarrow> 'f cmd_element option list \<Rightarrow> nat \<Rightarrow> match_type \<Rightarrow> nat + 'f cmd_element option list" where
  "is_cmd_ambiguous command v index type = amb_slots command type index v None"

section \<open>Execution\<close>

text \<open>What executing a line comes to: a result code, or a call of the command's function with
  its arguments.\<close>

datatype 'f exec_result = Code int | Call "'f cmd_element" "string list" | Crash fault

type_synonym 'f word_filter =
  "string \<Rightarrow> 'f cmd_element option list \<Rightarrow> nat \<Rightarrow> match_type \<times> 'f cmd_element option list"

fun match_loop ::
  "'f word_filter \<Rightarrow> string list \<Rightarrow> nat \<Rightarrow> 'f cmd_element option list \<Rightarrow> match_type
     \<Rightarrow> int + (match_type \<times> nat \<times> 'f cmd_element option list)" where
  "match_loop flt [] index v mt = Inr (mt, index, v)"
| "match_loop flt (w # ws) index v mt =
     (let (mt1, v1) = flt w v index in
      if mt1 = vararg_match then Inr (mt1, index, v1)
      else case is_cmd_ambiguous w v1 index mt1 of
        Inl r \<Rightarrow> Inl (if r = 1 then CMD_ERR_AMBIGUOUS else CMD_ERR_NO_MATCH)
      | Inr v2 \<Rightarrow> match_loop flt ws (index + 1) v2 mt1)"

definition push_arg :: "string \<Rightarrow> string list \<Rightarrow> string list outcome" where
  "push_arg w argv = (if length argv < CMD_ARGC_MAX then Cont (argv @ [w]) else Fault Overrun)"

text \<open>The arguments: every word at a variable, optional or alternative position, and everything
  from a variable-argument position on. \<open>Ret\<close> is \<open>CMD_ERR_EXEED_ARGC_MAX\<close>.\<close>

fun cmd_args :: "string list \<Rightarrow> desc list list \<Rightarrow> bool \<Rightarrow> string list \<Rightarrow> string list outcome" where
  "cmd_args [] sv varflag argv = Cont argv"
| "cmd_args (w # ws) sv varflag argv =
     (case (if varflag then Cont (True, True)
            else case sv of
              [] \<Rightarrow> Fault Overread
            | [d] # _ \<Rightarrow> (let vf = CMD_VARARG (d_cmd d)
                in Cont (vf, vf \<or> CMD_VARIABLE (d_cmd d) \<or> CMD_OPTION (d_cmd d)))
            | _ # _ \<Rightarrow> Cont (False, True)) of
        Cont (vf, take_it) \<Rightarrow>
          (case (if take_it then push_arg w argv else Cont argv) of
             Cont argv' \<Rightarrow>
               if length argv' \<ge> CMD_ARGC_MAX then Ret argv' else cmd_args ws (tl sv) vf argv'
           | Ret argv' \<Rightarrow> Ret argv'
           | Fault e \<Rightarrow> Fault e)
      | Ret x \<Rightarrow> Ret argv
      | Fault e \<Rightarrow> Fault e)"

definition exec_with ::
  "'f word_filter \<Rightarrow> string list \<Rightarrow> 'f cmd_element option list \<Rightarrow> 'f exec_result" where
  "exec_with flt vline v =
     (case match_loop flt vline 0 v no_match of
        Inl c \<Rightarrow> Code c
      | Inr (mt, index, v') \<Rightarrow>
        (let els = map the (filter (\<lambda>x. x \<noteq> None) v');
             hits = filter (\<lambda>el. mt = vararg_match \<or> index \<ge> ce_cmdsize el) els
         in case hits of
              [] \<Rightarrow> Code (if els \<noteq> [] then CMD_ERR_INCOMPLETE else CMD_ERR_NO_MATCH)
            | _ # _ # _ \<Rightarrow> Code CMD_ERR_AMBIGUOUS
            | [el] \<Rightarrow>
              (case cmd_args vline (ce_strvec el) False [] of
                 Fault e \<Rightarrow> Crash e
               | Ret _ \<Rightarrow> Code CMD_ERR_EXEED_ARGC_MAX
               | Cont argv \<Rightarrow> if ce_daemon el \<noteq> 0 then Code CMD_SUCCESS_DAEMON else Call el argv)))"

definition exec_node ::
  "'f word_filter \<Rightarrow> 'f cmd_node vec \<Rightarrow> node_type \<Rightarrow> string list \<Rightarrow> 'f exec_result" where
  "exec_node flt tbl node vline =
     (case cmd_node_vector tbl node of
        Cont v \<Rightarrow> exec_with flt vline (slots (vector_copy v))
      | Ret v \<Rightarrow> Crash NullDeref
      | Fault e \<Rightarrow> Crash e)"

definition cmd_execute_command :: "'f cmd_node vec \<Rightarrow> node_type \<Rightarrow> string list \<Rightarrow> 'f exec_result" where
  "cmd_execute_command = exec_node cmd_filter_by_completion"

definition cmd_execute_command_strict :: "'f cmd_node vec \<Rightarrow> node_type \<Rightarrow> string list \<Rightarrow> 'f exec_result" where
  "cmd_execute_command_strict = exec_node cmd_filter_by_string"

section \<open>What the filters keep\<close>

lemma match_descs_count: "snd (match_descs f ds mt) = 0 \<longleftrightarrow> (\<forall>d \<in> set ds. f (d_cmd d) = None)"
  by (induction f ds mt rule: match_descs.induct) (auto split: option.splits simp: Let_def case_prod_beta)

lemma match_descs_type:
  "fst (match_descs f ds mt) = mt \<or> (\<exists>d \<in> set ds. f (d_cmd d) = Some (fst (match_descs f ds mt)))"
  by (induction f ds mt rule: match_descs.induct)
    (auto split: option.splits simp: Let_def case_prod_beta max_def)

text \<open>Both loops in one equation per slot.\<close>

lemma filter_slots_Some:
  "filter_slots f index (Some el # v) mt =
     (let hits = index < length (ce_strvec el) \<and> (\<exists>d \<in> set (ce_strvec el ! index). f (d_cmd d) \<noteq> None);
          mt1 = (if index < length (ce_strvec el) then fst (match_descs f (ce_strvec el ! index) mt) else mt)
      in (fst (filter_slots f index v mt1), (if hits then Some el else None) # snd (filter_slots f index v mt1)))"
  using match_descs_count [of f "ce_strvec el ! index" mt] by (auto simp: Let_def case_prod_beta)

lemma filter_slots_keeps:
  "Some el \<in> set (snd (filter_slots f i v mt)) \<Longrightarrow>
     Some el \<in> set v \<and> i < length (ce_strvec el) \<and> (\<exists>d \<in> set (ce_strvec el ! i). f (d_cmd d) \<noteq> None)"
proof (induction v arbitrary: mt)
  case (Cons x v)
  then show ?case
    by (cases x) (auto simp: filter_slots_Some Let_def case_prod_beta
        simp del: filter_slots.simps(3) split: if_splits)
qed simp

lemma filter_slots_type:
  "fst (filter_slots f i v mt) = mt \<or>
     (\<exists>el d. Some el \<in> set (snd (filter_slots f i v mt)) \<and> i < length (ce_strvec el)
       \<and> d \<in> set (ce_strvec el ! i) \<and> f (d_cmd d) = Some (fst (filter_slots f i v mt)))"
proof (induction v arbitrary: mt)
  case (Cons x v)
  show ?case
  proof (cases x)
    case None
    then show ?thesis using Cons.IH [of mt] by (simp add: Let_def case_prod_beta)
  next
    case (Some el)
    show ?thesis
    proof (cases "i < length (ce_strvec el)")
      case False
      then show ?thesis using Cons.IH [of mt] Some
        by (simp add: filter_slots_Some Let_def del: filter_slots.simps)
    next
      case True
      let ?mt1 = "fst (match_descs f (ce_strvec el ! i) mt)"
      have "?mt1 = mt \<or> (\<exists>d \<in> set (ce_strvec el ! i). f (d_cmd d) = Some ?mt1)"
        by (rule match_descs_type)
      then show ?thesis
        using Cons.IH [of ?mt1] Some True
        by (simp add: filter_slots_Some Let_def del: filter_slots.simps) (metis option.distinct(1))
    qed
  qed
qed simp

lemma amb_slots_keeps:
  "amb_slots command type i v matched = Inr v' \<Longrightarrow> Some el \<in> set v' \<Longrightarrow> Some el \<in> set v"
proof (induction v arbitrary: v' matched)
  case (Cons x v)
  show ?case
  proof (cases x)
    case None
    then obtain w where "amb_slots command type i v matched = Inr w" "v' = None # w"
      using Cons.prems(1) by (cases "amb_slots command type i v matched") auto
    then show ?thesis using Cons by auto
  next
    case (Some y)
    then obtain m h w where "amb_slots command type i v m = Inr w" "v' = (if h then Some y else None) # w"
      using Cons.prems(1)
      by (cases "amb_descs command type (ce_strvec y ! i) matched")
        (auto simp: map_sum_def split: sum.splits)
    then show ?thesis using Cons Some by (auto split: if_splits)
  qed
qed simp

section \<open>Arguments\<close>

fun args_of :: "string list \<Rightarrow> desc list list \<Rightarrow> string list" where
  "args_of [] sv = []"
| "args_of (w # ws) [] = []"
| "args_of (w # ws) ([d] # sv) =
     (if CMD_VARARG (d_cmd d) then w # ws
      else if CMD_VARIABLE (d_cmd d) \<or> CMD_OPTION (d_cmd d) then w # args_of ws sv
      else args_of ws sv)"
| "args_of (w # ws) (dv # sv) = w # args_of ws sv"

text \<open>The description of every word that the argument loop looks at exists.\<close>

definition args_reach :: "string list \<Rightarrow> desc list list \<Rightarrow> bool" where
  "args_reach ws sv \<longleftrightarrow> length ws \<le> length sv \<or> (\<exists>dv \<in> set sv. \<exists>d. dv = [d] \<and> CMD_VARARG (d_cmd d))"

lemma cmd_args_varflag:
  "length argv < 25 \<Longrightarrow> cmd_args ws sv True argv = Cont (argv @ ws) \<and> length (argv @ ws) < 25
     \<or> (\<exists>x. cmd_args ws sv True argv = Ret x \<and> length (argv @ ws) \<ge> 25)"
proof (induction ws arbitrary: sv argv)
  case (Cons w ws)
  then show ?case
    using Cons.IH [of "argv @ [w]" "tl sv"] by (auto simp: push_arg_def CMD_ARGC_MAX_def)
qed simp

lemma cmd_args_result:
  "length argv < 25 \<Longrightarrow> args_reach ws sv \<Longrightarrow>
     cmd_args ws sv False argv = Cont (argv @ args_of ws sv) \<and> length (argv @ args_of ws sv) < 25
     \<or> (\<exists>x. cmd_args ws sv False argv = Ret x \<and> length (argv @ args_of ws sv) \<ge> 25)"
proof (induction ws arbitrary: sv argv)
  case (Cons w ws)
  obtain dv sv' where sv: "sv = dv # sv'"
    using Cons.prems(2) by (cases sv) (auto simp: args_reach_def)
  show ?case
  proof (cases "\<exists>d. dv = [d] \<and> CMD_VARARG (d_cmd d)")
    case True
    then show ?thesis
      using Cons.prems(1) cmd_args_varflag [of "argv @ [w]" ws sv'] sv
      by (cases "length argv < 24") (auto simp: push_arg_def CMD_ARGC_MAX_def)
  next
    case False
    then have r: "args_reach ws sv'" using Cons.prems(2) sv by (auto simp: args_reach_def)
    show ?thesis
      using False Cons.prems(1) Cons.IH [OF _ r, of argv] Cons.IH [OF _ r, of "argv @ [w]"] sv
      by (cases dv rule: list.exhaust; cases "tl dv")
        (auto simp: push_arg_def CMD_ARGC_MAX_def)
  qed
qed simp

definition elem_args_ok :: "'f cmd_element \<Rightarrow> bool" where
  "elem_args_ok el \<longleftrightarrow> (\<forall>dv \<in> set (ce_strvec el). length dv \<noteq> 1 \<longrightarrow> (\<forall>d \<in> set dv. \<not> CMD_VARARG (d_cmd d)))"

text \<open>The first \<open>k\<close> words of \<open>ws\<close> match the command's words from position \<open>i\<close> on.\<close>

definition follows ::
  "(string \<Rightarrow> string \<Rightarrow> match_type option) \<Rightarrow> string list \<Rightarrow> nat \<Rightarrow> nat \<Rightarrow> 'f cmd_element \<Rightarrow> bool" where
  "follows f ws i k el \<longleftrightarrow> (\<forall>j < k. i + j < length (ce_strvec el)
     \<and> (\<exists>d \<in> set (ce_strvec el ! (i + j)). f (ws ! j) (d_cmd d) \<noteq> None))"

text \<open>A command is meant by a line: its words match up to the end of the line and are enough, or up
  to a position from which the command takes everything.\<close>

definition meant ::
  "(string \<Rightarrow> string \<Rightarrow> match_type option) \<Rightarrow> string list \<Rightarrow> 'f cmd_element \<Rightarrow> bool" where
  "meant f ws el \<longleftrightarrow> follows f ws 0 (length ws) el \<and> ce_cmdsize el \<le> length ws
     \<or> (\<exists>k < length ws. follows f ws 0 k el \<and> k < length (ce_strvec el)
          \<and> (\<exists>d. ce_strvec el ! k = [d] \<and> CMD_VARARG (d_cmd d)))"

lemma follows_length: "follows f ws 0 k el \<Longrightarrow> k \<le> length (ce_strvec el)"
  by (cases k) (auto simp: follows_def)

text \<open>What a caller may rely on: no memory error, an error code, or a call of a command of the
  node that the line means, with the words at its variable positions.\<close>

definition exec_result_ok ::
  "('f cmd_element \<Rightarrow> bool) \<Rightarrow> 'f cmd_element option list \<Rightarrow> string list \<Rightarrow> 'f exec_result \<Rightarrow> bool" where
  "exec_result_ok means v ws r =
     (case r of
        Crash e \<Rightarrow> False
      | Code c \<Rightarrow> c \<in> {CMD_ERR_NO_MATCH, CMD_ERR_AMBIGUOUS, CMD_ERR_INCOMPLETE, CMD_ERR_EXEED_ARGC_MAX,
          CMD_SUCCESS_DAEMON}
      | Call el argv \<Rightarrow> Some el \<in> set v \<and> means el \<and> argv = args_of ws (ce_strvec el)
          \<and> length argv < CMD_ARGC_MAX \<and> ce_daemon el = 0)"

lemma match_loop_code:
  "match_loop flt ws i v mt = Inl c \<Longrightarrow> c \<in> {CMD_ERR_AMBIGUOUS, CMD_ERR_NO_MATCH}"
  by (induction ws arbitrary: i v mt) (auto simp: Let_def split: prod.splits sum.splits if_splits)

section \<open>The interface of a word filter\<close>

text \<open>\<open>f w str\<close> is the match type of the typed word \<open>w\<close> at a description word \<open>str\<close>. What execution
  relies on is that a filter is made of it and that variable arguments match anything.\<close>

locale word_filter =
  fixes flt :: "'f word_filter"
    and f :: "string \<Rightarrow> string \<Rightarrow> match_type option"
  assumes flt_filter: "flt w v i = filter_slots (f w) i v no_match"
    and f_vararg: "(f w str = Some vararg_match) = CMD_VARARG str"
begin

text \<open>What the loop over the words leaves: commands of the start whose words all match, up to the
  end of the line, or up to a word that one of them takes as a variable argument.\<close>

lemma match_loop_result:
  assumes "match_loop flt ws i v mt = Inr (mt', i', v')" "mt \<noteq> vararg_match"
  shows "\<exists>k \<le> length ws. i' = i + k \<and> (\<forall>el. Some el \<in> set v' \<longrightarrow> Some el \<in> set v \<and> follows f ws i k el)
    \<and> (if mt' = vararg_match
       then (\<forall>el. Some el \<in> set v' \<longrightarrow> i' < length (ce_strvec el))
         \<and> (\<exists>el. Some el \<in> set v' \<and> (\<exists>d \<in> set (ce_strvec el ! i'). CMD_VARARG (d_cmd d)))
         \<and> k < length ws
       else k = length ws)"
  using assms
proof (induction ws arbitrary: i v mt)
  case Nil
  then show ?case by (auto simp: follows_def)
next
  case (Cons w ws)
  obtain mt1 v1 where fl: "flt w v i = (mt1, v1)" by fastforce
  then have fs: "filter_slots (f w) i v no_match = (mt1, v1)" by (simp add: flt_filter)
  have keep: "Some el \<in> set v1 \<Longrightarrow> Some el \<in> set v \<and> i < length (ce_strvec el)
      \<and> (\<exists>d \<in> set (ce_strvec el ! i). f w (d_cmd d) \<noteq> None)" for el
    using filter_slots_keeps [of el "f w" i v no_match] by (simp add: fs)
  show ?case
  proof (cases "mt1 = vararg_match")
    case True
    then have "mt' = vararg_match" "i' = i" "v' = v1" using Cons.prems(1) fl by simp_all
    moreover obtain el d where "Some el \<in> set v1" "d \<in> set (ce_strvec el ! i)" "f w (d_cmd d) = Some vararg_match"
      using filter_slots_type [of "f w" i v no_match] True by (auto simp: fs)
    ultimately show ?thesis
      using keep f_vararg by (intro exI [where x = 0]) (auto simp: follows_def)
  next
    case False
    then obtain v2 where am: "is_cmd_ambiguous w v1 i mt1 = Inr v2"
      and rec: "match_loop flt ws (i + 1) v2 mt1 = Inr (mt', i', v')"
      using Cons.prems(1) fl by (auto split: sum.splits)
    have keep2: "Some el \<in> set v2 \<Longrightarrow> Some el \<in> set v1" for el
      using amb_slots_keeps am unfolding is_cmd_ambiguous_def by fast
    from Cons.IH [OF rec False] obtain k where k: "k \<le> length ws" "i' = i + 1 + k"
      "\<forall>el. Some el \<in> set v' \<longrightarrow> Some el \<in> set v2 \<and> follows f ws (i + 1) k el"
      and mt: "if mt' = vararg_match
       then (\<forall>el. Some el \<in> set v' \<longrightarrow> i' < length (ce_strvec el))
         \<and> (\<exists>el. Some el \<in> set v' \<and> (\<exists>d \<in> set (ce_strvec el ! i'). CMD_VARARG (d_cmd d)))
         \<and> k < length ws
       else k = length ws"
      by blast
    have "Some el \<in> set v \<and> follows f (w # ws) i (Suc k) el" if "Some el \<in> set v'" for el
      using k(3) keep keep2 that by (auto simp: follows_def nth_Cons' less_Suc_eq_0_disj)
    then show ?thesis
      using k mt by (intro exI [where x = "Suc k"]) (auto split: if_splits)
  qed
qed

lemma exec_good:
  assumes "slots_ok elem_args_ok v"
  shows "exec_result_ok (meant f ws) v ws (exec_with flt ws v)"
proof (cases "match_loop flt ws 0 v no_match")
  case (Inl c)
  then show ?thesis using match_loop_code [OF Inl] by (auto simp: exec_with_def exec_result_ok_def)
next
  case (Inr r)
  obtain mt i v' where r: "r = (mt, i, v')" by (cases r)
  obtain k where k: "k \<le> length ws" "i = k"
    "\<And>el. Some el \<in> set v' \<Longrightarrow> Some el \<in> set v \<and> follows f ws 0 k el"
    and mt: "if mt = vararg_match
       then (\<forall>el. Some el \<in> set v' \<longrightarrow> i < length (ce_strvec el))
         \<and> (\<exists>el. Some el \<in> set v' \<and> (\<exists>d \<in> set (ce_strvec el ! i). CMD_VARARG (d_cmd d)))
         \<and> k < length ws
       else k = length ws"
    using match_loop_result [OF Inr [unfolded r]] by auto
  define els where "els = map the (filter (\<lambda>x. x \<noteq> None) v')"
  define hits where "hits = filter (\<lambda>el. mt = vararg_match \<or> i \<ge> ce_cmdsize el) els"
  have els: "el \<in> set els \<longleftrightarrow> Some el \<in> set v'" for el
    by (auto simp: els_def image_iff)
  have e: "exec_with flt ws v = (case hits of
        [] \<Rightarrow> Code (if els \<noteq> [] then CMD_ERR_INCOMPLETE else CMD_ERR_NO_MATCH)
      | _ # _ # _ \<Rightarrow> Code CMD_ERR_AMBIGUOUS
      | [el] \<Rightarrow> (case cmd_args ws (ce_strvec el) False [] of
                 Fault e \<Rightarrow> Crash e | Ret _ \<Rightarrow> Code CMD_ERR_EXEED_ARGC_MAX
               | Cont argv \<Rightarrow> if ce_daemon el \<noteq> 0 then Code CMD_SUCCESS_DAEMON else Call el argv))"
    by (simp add: exec_with_def Inr r els_def hits_def Let_def)
  show ?thesis
  proof (cases "\<exists>el. hits = [el]")
    case False
    then show ?thesis by (auto simp: e exec_result_ok_def split: list.splits)
  next
    case True
    then obtain el where h: "hits = [el]" by blast
    then have "el \<in> set hits" by simp
    then have el: "Some el \<in> set v'" "mt = vararg_match \<or> i \<ge> ce_cmdsize el"
      by (auto simp: hits_def els)
    have m: "meant f ws el"
    proof (cases "mt = vararg_match")
      case False
      then show ?thesis using mt k el by (auto simp: meant_def)
    next
      case True
      then have "hits = els" by (simp add: hits_def)
      then obtain d where d: "d \<in> set (ce_strvec el ! i)" "CMD_VARARG (d_cmd d)" "i < length (ce_strvec el)"
        using mt True h els by (metis list.set_intros(1) empty_iff list.set(1) set_ConsD)
      then have "length (ce_strvec el ! i) = 1"
        using assms k(3) [OF el(1)] nth_mem by (fastforce simp: slots_ok_def elem_args_ok_def)
      then have "\<exists>d. ce_strvec el ! i = [d] \<and> CMD_VARARG (d_cmd d)"
        using d by (cases "ce_strvec el ! i") auto
      then show ?thesis using True mt k el d(3) unfolding meant_def by auto
    qed
    then have "args_reach ws (ce_strvec el)"
      using follows_length by (auto simp: meant_def args_reach_def) (metis nth_mem)
    then have "cmd_args ws (ce_strvec el) False [] = Cont (args_of ws (ce_strvec el))
          \<and> length (args_of ws (ce_strvec el)) < CMD_ARGC_MAX
        \<or> (\<exists>x. cmd_args ws (ce_strvec el) False [] = Ret x)"
      using cmd_args_result [of "[]" ws "ce_strvec el"] by (auto simp: CMD_ARGC_MAX_def)
    then show ?thesis using m k(3) [OF el(1)] by (auto simp: e h exec_result_ok_def)
  qed
qed

text \<open>Whatever the table holds, only a command of the list is called.\<close>

lemma exec_call:
  assumes "exec_with flt ws v = Call el argv"
  shows "Some el \<in> set v"
proof -
  obtain mt i v' where m: "match_loop flt ws 0 v no_match = Inr (mt, i, v')"
    using assms by (cases "match_loop flt ws 0 v no_match") (auto simp: exec_with_def)
  have "filter (\<lambda>el. mt = vararg_match \<or> i \<ge> ce_cmdsize el) (map the (filter (\<lambda>x. x \<noteq> None) v')) = [el]"
    using assms by (auto simp: exec_with_def m Let_def split: list.splits outcome.splits if_splits)
  then have "el \<in> set (filter (\<lambda>el. mt = vararg_match \<or> i \<ge> ce_cmdsize el) (map the (filter (\<lambda>x. x \<noteq> None) v')))"
    by simp
  then have "Some el \<in> set v'" by auto
  then show ?thesis using match_loop_result [OF m] by auto
qed

end

interpretation completion: word_filter cmd_filter_by_completion match_completion
  by unfold_locales
    (auto simp: cmd_filter_by_completion_def match_completion_def split: if_splits)

interpretation strict: word_filter cmd_filter_by_string match_string
  by unfold_locales
    (auto simp: cmd_filter_by_string_def match_string_def split: if_splits)

definition installed :: "'f cmd_node vec \<Rightarrow> node_type \<Rightarrow> 'f cmd_element \<Rightarrow> bool" where
  "installed tbl n el \<longleftrightarrow> (\<exists>v. cmd_node_vector tbl n = Cont v \<and> Some el \<in> set (slots (vector_copy v)))"

lemma execute_installed:
  "cmd_execute_command tbl n ws = Call el argv \<Longrightarrow> installed tbl n el"
  "cmd_execute_command_strict tbl n ws = Call el argv \<Longrightarrow> installed tbl n el"
  using completion.exec_call strict.exec_call
  by (auto simp: cmd_execute_command_def cmd_execute_command_strict_def exec_node_def installed_def split: outcome.splits)


definition ex_element :: "nat cmd_element" where
  "ex_element = \<lparr>ce_string = ''show (ip|ipv6)'', ce_func = 1, ce_doc = None, ce_daemon = 0,
     ce_strvec = [[\<lparr>d_cmd = ''show'', d_str = None\<rparr>],
       [\<lparr>d_cmd = ''ip'', d_str = None\<rparr>, \<lparr>d_cmd = ''ipv6'', d_str = None\<rparr>]], ce_cmdsize = 2\<rparr>"

definition ex_node :: "nat cmd_node" where
  "ex_node = \<lparr>cn_node = VIEW_NODE, cn_prompt = ''> '', cn_vtysh = 0, cn_func = None,
     cn_vector = vector_set (Some ex_element) (vector_init 1)\<rparr>"

definition ex_table :: "nat cmd_node vec" where
  "ex_table = vector_set_index (node_num VIEW_NODE) (Some ex_node) (vector_init 1)"

lemma ex_table_facts:
  "table_ok ex_table" "vector_slot ex_table (node_num VIEW_NODE) = Some (Some ex_node)"
  "slots (cn_vector ex_node) = [Some ex_element]" "slots_ok elem_args_ok (slots (cn_vector ex_node))"
proof -
  show s: "slots (cn_vector ex_node) = [Some ex_element]"
    by (simp add: ex_node_def vector_set_ok)
  have "elem_ok ex_element" by (simp add: elem_ok_def ex_element_def cmd_kind_defs)
  then have "node_ok ex_node"
    using s by (simp add: node_ok_def slots_ok_def) (simp add: ex_node_def vector_set_ok)
  then show "table_ok ex_table"
    by (auto simp: table_ok_def ex_table_def vector_set_index_ok slots_ok_def [of _ "[]"] intro!: slots_ok_put)
  show "vector_slot ex_table (node_num VIEW_NODE) = Some (Some ex_node)"
    by (simp add: ex_table_def node_num_def all_nodes_def vector_slot_def vector_set_index_def vector_init_def
        vector_double_def Let_def vector_ensure.simps)
  show "slots_ok elem_args_ok (slots (cn_vector ex_node))"
    by (simp add: s slots_ok_def elem_args_ok_def ex_element_def cmd_kind_defs)
qed


end
