(* ===== verification/CmdComplete.thy ===== *)
theory CmdComplete
  imports CmdExec
begin

text \<open>
  The line editor's help: the candidates for completing a word with TAB
  (\<open>cmd_complete_command\<close>, \<open>cmd_lcd\<close>) and the descriptions shown for \<open>?\<close>
  (\<open>cmd_describe_command\<close>). The line is given as its finished words and the word at the
  cursor, which is \<open>None\<close> (NULL) behind a space.
\<close>

section \<open>Candidates\<close>

definition cmd_entry_function :: "string option \<Rightarrow> string \<Rightarrow> string option" where
  "cmd_entry_function src dst =
     (if CMD_OPTION dst \<or> CMD_VARIABLE dst \<or> CMD_VARARG dst \<or> CMD_IPV4 dst \<or> CMD_IPV4_PREFIX dst
         \<or> CMD_RANGE dst then None
      else case src of
        None \<Rightarrow> Some dst
      | Some s \<Rightarrow> if strncmp s dst (length s) = 0 then Some dst else None)"

definition cmd_entry_function_desc :: "string option \<Rightarrow> string \<Rightarrow> string option" where
  "cmd_entry_function_desc src dst =
     (let when = (\<lambda>b. if b then Some dst else None) in
      if CMD_VARARG dst then Some dst
      else if CMD_RANGE dst then when (cmd_range_match dst src)
      else if CMD_IPV6 dst then when (cmd_ipv6_match src \<noteq> no_match)
      else if CMD_IPV6_PREFIX dst then when (cmd_ipv6_prefix_match src \<noteq> no_match)
      else if CMD_IPV4 dst then when (cmd_ipv4_match src \<noteq> no_match)
      else if CMD_IPV4_PREFIX dst then when (cmd_ipv4_prefix_match src \<noteq> no_match)
      else if CMD_OPTION dst \<or> CMD_VARIABLE dst then Some dst
      else case src of
        None \<Rightarrow> Some dst
      | Some s \<Rightarrow> when (strncmp s dst (length s) = 0))"

definition cmd_unique_string :: "string list \<Rightarrow> string \<Rightarrow> bool" where
  "cmd_unique_string v str \<longleftrightarrow> list_all (\<lambda>m. strcmp m str \<noteq> 0) v"

definition desc_unique_string :: "desc list \<Rightarrow> string \<Rightarrow> bool" where
  "desc_unique_string v str \<longleftrightarrow> list_ex (\<lambda>d. strcmp (d_cmd d) str = 0) v"

section \<open>The common beginning\<close>

fun lcd2 :: "string \<Rightarrow> string \<Rightarrow> nat" where
  "lcd2 (a # as) (b # bs) = (if a \<noteq> b then 0 else Suc (lcd2 as bs))"
| "lcd2 as bs = 0"

fun lcd_loop :: "int \<Rightarrow> string list \<Rightarrow> int" where
  "lcd_loop lcd (s1 # s2 # ss) =
     (let j = int (lcd2 s1 s2)
      in lcd_loop (if lcd < 0 then j else if lcd > j then j else lcd) (s2 # ss))"
| "lcd_loop lcd ss = lcd"

definition cmd_lcd :: "string list \<Rightarrow> int" where
  "cmd_lcd matched = (if length matched < 2 then 0 else lcd_loop (-1) matched)"

section \<open>Completion\<close>

text \<open>Filtering by the finished words; \<open>Inl\<close> is the error. Completion ignores an unfinished
  address (code 2), which leaves the vector half filtered: the commands looked at so far are
  decided, the rest is kept.\<close>

fun amb_partial ::
  "string \<Rightarrow> match_type \<Rightarrow> nat \<Rightarrow> 'f cmd_element option list \<Rightarrow> string option \<Rightarrow> 'f cmd_element option list" where
  "amb_partial command type index [] matched = []"
| "amb_partial command type index (None # v) matched = None # amb_partial command type index v matched"
| "amb_partial command type index (Some el # v) matched =
     (case amb_descs command type (ce_strvec el ! index) matched of
        Inl r \<Rightarrow> Some el # v
      | Inr (matched', hit) \<Rightarrow>
        (if hit then Some el else None) # amb_partial command type index v matched')"

fun complete_filter ::
  "string list \<Rightarrow> nat \<Rightarrow> 'f cmd_element option list \<Rightarrow> int + 'f cmd_element option list" where
  "complete_filter [] i v = Inr v"
| "complete_filter (w # ws) i v =
     (let (mt, v1) = cmd_filter_by_completion w v i in
      case is_cmd_ambiguous w v1 i mt of
        Inl r \<Rightarrow> if r = 1 then Inl CMD_ERR_AMBIGUOUS
                else complete_filter ws (i + 1) (amb_partial w mt i v1 None)
      | Inr v2 \<Rightarrow> complete_filter ws (i + 1) v2)"

fun add_candidates :: "string option \<Rightarrow> desc list \<Rightarrow> string list \<Rightarrow> string list" where
  "add_candidates src [] ms = ms"
| "add_candidates src (d # ds) ms =
     add_candidates src ds
       (case cmd_entry_function src (d_cmd d) of
          None \<Rightarrow> ms
        | Some s \<Rightarrow> if cmd_unique_string ms s then ms @ [s] else ms)"

fun candidates :: "string option \<Rightarrow> nat \<Rightarrow> 'f cmd_element option list \<Rightarrow> string list \<Rightarrow> string list" where
  "candidates src index [] ms = ms"
| "candidates src index (None # v) ms = candidates src index v ms"
| "candidates src index (Some el # v) ms =
     candidates src index v
       (if index \<ge> length (ce_strvec el) then ms else add_candidates src (ce_strvec el ! index) ms)"

definition complete_with ::
  "string list \<Rightarrow> string option \<Rightarrow> 'f cmd_element option list \<Rightarrow> int \<times> string list option" where
  "complete_with ws src v =
     (case complete_filter ws 0 v of
        Inl c \<Rightarrow> (c, None)
      | Inr v' \<Rightarrow>
        (let ms = candidates src (length ws) v' [] in
         case ms of
           [] \<Rightarrow> (if src = None then CMD_ERR_NOTHING_TODO else CMD_ERR_NO_MATCH, None)
         | [m] \<Rightarrow> (CMD_COMPLETE_FULL_MATCH, Some [m])
         | m # _ \<Rightarrow>
           (case src of
              None \<Rightarrow> (CMD_COMPLETE_LIST_MATCH, Some ms)
            | Some s \<Rightarrow>
              (let lcd = cmd_lcd ms in
               if lcd \<noteq> 0 \<and> int (length s) < lcd
               then (CMD_COMPLETE_MATCH, Some [take (nat lcd) m])
               else (CMD_COMPLETE_LIST_MATCH, Some ms)))))"

definition cmd_complete_command ::
  "'f cmd_node vec \<Rightarrow> node_type \<Rightarrow> string list \<Rightarrow> string option \<Rightarrow> (int \<times> string list option) outcome" where
  "cmd_complete_command tbl node ws src =
     (case cmd_node_vector tbl node of
        Cont v \<Rightarrow> Cont (complete_with ws src (slots (vector_copy v)))
      | Ret v \<Rightarrow> Fault NullDeref
      | Fault e \<Rightarrow> Fault e)"

section \<open>Descriptions\<close>

definition desc_cr :: desc where
  "desc_cr = \<lparr>d_cmd = ''<cr>'', d_str = Some ''''\<rparr>"

text \<open>The first loop ends in an error, in the list of everything a variable argument allows, or in
  the commands left. In the second case \<open>*status\<close> is never assigned.\<close>

fun describe_filter ::
  "string list \<Rightarrow> nat \<Rightarrow> 'f cmd_element option list \<Rightarrow> (int + desc list) + 'f cmd_element option list" where
  "describe_filter [] i v = Inr v"
| "describe_filter (w # ws) i v =
     (let (mt, v1) = cmd_filter_by_completion w v i in
      if mt = vararg_match then
        Inl (Inr (concat (map (\<lambda>el. last (ce_strvec el)) (map the (filter (\<lambda>x. x \<noteq> None) v1))) @ [desc_cr]))
      else case is_cmd_ambiguous w v1 i mt of
        Inl r \<Rightarrow> Inl (Inl (if r = 1 then CMD_ERR_AMBIGUOUS else CMD_ERR_NO_MATCH))
      | Inr v2 \<Rightarrow> describe_filter ws (i + 1) v2)"

fun add_descs :: "string option \<Rightarrow> desc list \<Rightarrow> desc list \<Rightarrow> desc list" where
  "add_descs src [] ms = ms"
| "add_descs src (d # ds) ms =
     add_descs src ds
       (case cmd_entry_function_desc src (d_cmd d) of
          None \<Rightarrow> ms
        | Some s \<Rightarrow> if desc_unique_string ms s then ms else ms @ [d])"

fun describe_slots :: "string option \<Rightarrow> nat \<Rightarrow> 'f cmd_element option list \<Rightarrow> desc list \<Rightarrow> desc list" where
  "describe_slots src index [] ms = ms"
| "describe_slots src index (None # v) ms = describe_slots src index v ms"
| "describe_slots src index (Some el # v) ms =
     describe_slots src index v
       (if src \<noteq> None \<and> index \<ge> length (ce_strvec el) then ms
        else if src = None \<and> index = length (ce_strvec el) then
          (if desc_unique_string ms ''<cr>'' then ms else ms @ [desc_cr])
        else add_descs src (ce_strvec el ! index) ms)"

definition describe_with ::
  "string list \<Rightarrow> string option \<Rightarrow> 'f cmd_element option list \<Rightarrow> int option \<times> desc list" where
  "describe_with ws src v =
     (case describe_filter ws 0 v of
        Inl (Inl c) \<Rightarrow> (Some c, [])
      | Inl (Inr ds) \<Rightarrow> (None, ds)
      | Inr v1 \<Rightarrow>
        (let v2 = (case src of None \<Rightarrow> v1 | Some s \<Rightarrow> snd (cmd_filter_by_completion s v1 (length ws)));
             ds = describe_slots src (length ws) v2 []
         in (Some (if ds = [] then CMD_ERR_NO_MATCH else CMD_SUCCESS), ds)))"

definition cmd_describe_command ::
  "'f cmd_node vec \<Rightarrow> node_type \<Rightarrow> string list \<Rightarrow> string option \<Rightarrow> (int option \<times> desc list) outcome" where
  "cmd_describe_command tbl node ws src =
     (case cmd_node_vector tbl node of
        Cont v \<Rightarrow> Cont (describe_with ws src (slots (vector_copy v)))
      | Ret v \<Rightarrow> Fault NullDeref
      | Fault e \<Rightarrow> Fault e)"

section \<open>Facts about the common beginning\<close>

lemma lcd2_prefix: "prefix p a \<Longrightarrow> prefix p b \<Longrightarrow> length p \<le> lcd2 a b"
proof (induction a b arbitrary: p rule: lcd2.induct)
  case (1 a as b bs)
  then show ?case by (cases p) auto
qed auto

lemma lcd2_take: "take (lcd2 a b) a = take (lcd2 a b) b \<and> lcd2 a b \<le> length a \<and> lcd2 a b \<le> length b"
  by (induction a b rule: lcd2.induct) auto

definition lcd_next :: "int \<Rightarrow> nat \<Rightarrow> int" where
  "lcd_next lcd j = (if lcd < 0 \<or> lcd > int j then int j else lcd)"

lemma lcd_loop_step: "lcd_loop lcd (s1 # s2 # ss) = lcd_loop (lcd_next lcd (lcd2 s1 s2)) (s2 # ss)"
  by (simp add: lcd_next_def Let_def)

lemma lcd_next_bounds: "0 \<le> lcd_next lcd j" "lcd_next lcd j \<le> int j" "0 \<le> lcd \<Longrightarrow> lcd_next lcd j \<le> lcd"
  by (auto simp: lcd_next_def)

lemma lcd_loop_upper:
  "\<forall>s \<in> set (s1 # ss). prefix p s \<Longrightarrow> ss \<noteq> [] \<and> lcd < 0 \<or> int (length p) \<le> lcd \<Longrightarrow>
     int (length p) \<le> lcd_loop lcd (s1 # ss)"
proof (induction ss arbitrary: s1 lcd)
  case (Cons s2 ss)
  have "length p \<le> lcd2 s1 s2" using Cons.prems(1) by (simp add: lcd2_prefix)
  then have "int (length p) \<le> lcd_next lcd (lcd2 s1 s2)" using Cons.prems(2) by (auto simp: lcd_next_def)
  then show ?case
    using Cons.IH [of s2 "lcd_next lcd (lcd2 s1 s2)"] Cons.prems(1) unfolding lcd_loop_step by simp
qed auto

lemma lcd_loop_lower:
  "(0 \<le> lcd \<longrightarrow> lcd_loop lcd (s1 # ss) \<le> lcd) \<and> (ss \<noteq> [] \<longrightarrow> lcd_loop lcd (s1 # ss) \<le> int (length s1))
   \<and> (\<forall>s \<in> set (s1 # ss). take (nat (lcd_loop lcd (s1 # ss))) s = take (nat (lcd_loop lcd (s1 # ss))) s1)"
proof (induction ss arbitrary: s1 lcd)
  case (Cons s2 ss)
  define l where "l = lcd_next lcd (lcd2 s1 s2)"
  define n where "n = lcd_loop l (s2 # ss)"
  have l: "0 \<le> l" "l \<le> int (lcd2 s1 s2)" "0 \<le> lcd \<Longrightarrow> l \<le> lcd" using lcd_next_bounds by (auto simp: l_def)
  have IH: "n \<le> l" "\<forall>s \<in> set (s2 # ss). take (nat n) s = take (nat n) s2"
    using Cons.IH [of l s2] l(1) by (simp_all add: n_def)
  have "nat n \<le> lcd2 s1 s2" using IH(1) l(2) by linarith
  then have "take (nat n) s1 = take (nat n) s2" "nat n \<le> length s1"
    using lcd2_take [of s1 s2] by (metis min.absorb1 take_take, linarith)
  then have t: "take (nat n) s1 = take (nat n) s2" "n \<le> int (length s1)" by simp_all
  have "lcd_loop lcd (s1 # s2 # ss) = n" unfolding lcd_loop_step n_def l_def ..
  then show ?case using IH l(3) t by auto
qed simp

text \<open>For two or more candidates \<open>cmd_lcd\<close>, which compares neighbours only, computes the length
  of the longest beginning that all of them share.\<close>

lemma lcd_longest_common_prefix:
  assumes "2 \<le> length ms"
  shows "cmd_lcd ms = int (length (Longest_common_prefix (set ms)))
    \<and> take (nat (cmd_lcd ms)) (hd ms) = Longest_common_prefix (set ms)"
proof -
  let ?p = "Longest_common_prefix (set ms)" and ?n = "lcd_loop (-1) ms"
  have ne: "set ms \<noteq> {}" "hd ms \<in> set ms" using assms by (cases ms; auto)+
  have c: "cmd_lcd ms = ?n" using assms by (simp add: cmd_lcd_def)
  obtain m ms' where ms: "ms = m # ms'" "ms' \<noteq> []" using assms by (cases ms; cases "tl ms") auto
  have "\<forall>s \<in> set ms. prefix ?p s" by (simp add: Longest_common_prefix_prefix)
  then have 1: "int (length ?p) \<le> ?n" using lcd_loop_upper [of m ms' ?p "-1"] ms by simp
  have t: "\<forall>s \<in> set ms. prefix (take (nat ?n) (hd ms)) s"
    using lcd_loop_lower [of "-1" m ms'] ms by (metis list.sel(1) take_is_prefix)
  have "?n \<le> int (length (hd ms))" using lcd_loop_lower [of "-1" m ms'] ms by simp
  then have l: "int (length (take (nat ?n) (hd ms))) = ?n" using 1 by simp
  have pre: "prefix (take (nat ?n) (hd ms)) ?p"
    using t ne(1) by (simp add: Longest_common_prefix_max_prefix)
  then have 2: "?n \<le> int (length ?p)" using l prefix_length_le by fastforce
  have "length (take (nat ?n) (hd ms)) = length ?p" using 1 2 l by linarith
  then have "take (nat ?n) (hd ms) = ?p" using pre by (auto simp: prefix_def)
  then show ?thesis using 1 2 c by simp
qed

section \<open>What completion offers\<close>

definition offered :: "string option \<Rightarrow> nat \<Rightarrow> 'f cmd_element option list \<Rightarrow> string set" where
  "offered src index v = {w. cmd_entry_function src w = Some w \<and>
     (\<exists>el. Some el \<in> set v \<and> index < length (ce_strvec el) \<and> w \<in> d_cmd ` set (ce_strvec el ! index))}"

lemma entry_function_same: "cmd_entry_function src w = Some x \<Longrightarrow> x = w"
  by (auto simp: cmd_entry_function_def split: if_splits option.splits)

lemma unique_string_set: "cmd_unique_string v x \<longleftrightarrow> x \<notin> set v"
  by (auto simp: cmd_unique_string_def list_all_iff strcmp_eq_0)

lemma add_candidates_set:
  "distinct ms \<Longrightarrow> distinct (add_candidates src ds ms) \<and> set (add_candidates src ds ms) =
     set ms \<union> {w \<in> d_cmd ` set ds. cmd_entry_function src w = Some w}"
proof (induction ds arbitrary: ms)
  case (Cons d ds)
  define ms' where "ms' = (case cmd_entry_function src (d_cmd d) of
      None \<Rightarrow> ms | Some s \<Rightarrow> if cmd_unique_string ms s then ms @ [s] else ms)"
  have "distinct ms'" "set ms' = set ms \<union> {w. w = d_cmd d \<and> cmd_entry_function src w = Some w}"
    using Cons.prems entry_function_same [of src "d_cmd d"]
    by (auto simp: ms'_def unique_string_set split: option.splits)
  then show ?case using Cons.IH [of ms'] by (auto simp: ms'_def)
qed simp

lemma candidates_set:
  "distinct ms \<Longrightarrow> distinct (candidates src index v ms) \<and> set (candidates src index v ms) =
     set ms \<union> offered src index v"
proof (induction v arbitrary: ms)
  case (Cons x v)
  show ?case
  proof (cases x)
    case None
    then show ?thesis using Cons by (simp add: offered_def)
  next
    case (Some el)
    define ms' where "ms' = (if index \<ge> length (ce_strvec el) then ms else add_candidates src (ce_strvec el ! index) ms)"
    have ms': "distinct ms'" "set ms' = set ms \<union> {w. cmd_entry_function src w = Some w \<and> index < length (ce_strvec el)
        \<and> w \<in> d_cmd ` set (ce_strvec el ! index)}"
      using Cons.prems add_candidates_set [OF Cons.prems, of src "ce_strvec el ! index"]
      by (auto simp: ms'_def)
    have "offered src index (x # v) = {w. cmd_entry_function src w = Some w \<and> index < length (ce_strvec el)
        \<and> w \<in> d_cmd ` set (ce_strvec el ! index)} \<union> offered src index v"
      by (auto simp: offered_def Some)
    moreover have "candidates src index (x # v) ms = candidates src index v ms'" by (simp add: Some ms'_def)
    ultimately show ?thesis using Cons.IH [OF ms'(1)] ms'(2) by auto
  qed
qed (simp add: offered_def)

lemma offered_prefix: "w \<in> offered (Some s) index v \<Longrightarrow> prefix s w"
  by (auto simp: offered_def cmd_entry_function_def strncmp_prefix split: if_splits)



end
