(* ===== verification/VtyCommand.thy ===== *)
theory VtyCommand
  imports VtyScreen CmdExec CmdComplete
begin

text \<open>
  The keys of a terminal session that look a line up in the command table (\<open>vty.c\<close>): execution on
  return (\<open>vty_execute\<close>, \<open>vty_command\<close>), completion on TAB (\<open>vty_complete_command\<close>), and the help
  on a question mark (\<open>vty_describe_command\<close>, \<open>vty_describe_fold\<close>). The functions that commands
  call are the parameter \<open>run\<close>, an interpretation of the function names stored in the table.
\<close>

type_synonym ('f, 'x) runner = "'f \<Rightarrow> string list \<Rightarrow> 'x session \<Rightarrow> (int \<times> 'x session) outcome"

definition vty_m :: "(vty \<Rightarrow> vty outcome) \<Rightarrow> 'x session \<Rightarrow> 'x session outcome" where
  "vty_m f s = after (f (s_vty s)) (\<lambda>v. Cont (s\<lparr>s_vty := v\<rparr>))"

section \<open>Execution\<close>

definition command_message :: "int \<Rightarrow> vty \<Rightarrow> vty" where
  "command_message ret v =
     (if ret = CMD_WARNING then (if vt_type v = VTY_FILE then vty_line ''Warning...'' v else v)
      else if ret = CMD_ERR_AMBIGUOUS then vty_line ''% Ambiguous command.'' v
      else if ret = CMD_ERR_NO_MATCH then vty_line ''% Unknown command.'' v
      else if ret = CMD_ERR_INCOMPLETE then vty_line ''% Command incomplete.'' v
      else v)"

text \<open>The result of the table lookup, carried out.\<close>

definition carry_out :: "('f, 'x) runner \<Rightarrow> 'f exec_result \<Rightarrow> 'x session \<Rightarrow> (int \<times> 'x session) outcome" where
  "carry_out run r s =
     (case r of
        Crash e \<Rightarrow> Fault e
      | Code c \<Rightarrow> Cont (c, s)
      | Call el argv \<Rightarrow> run (ce_func el) argv s)"

definition vty_command ::
  "'f cmd_node vec \<Rightarrow> ('f, 'x) runner \<Rightarrow> string \<Rightarrow> 'x session \<Rightarrow> (int \<times> 'x session) outcome" where
  "vty_command tbl run buf s =
     (case cmd_make_strvec (Some buf) of
        None \<Rightarrow> Cont (CMD_SUCCESS, s)
      | Some vline \<Rightarrow>
        after (carry_out run (cmd_execute_command tbl (vt_node (s_vty s)) vline) s)
          (\<lambda>(ret, s1). Cont (ret, on_vty (command_message ret) s1)))"

definition clear_line :: "vty \<Rightarrow> vty" where
  "clear_line v = vty_clear_buf (v\<lparr>vt_cp := 0, vt_length := 0\<rparr>)"

definition prompt_after :: "'f cmd_node vec \<Rightarrow> 'x session \<Rightarrow> 'x session outcome" where
  "prompt_after tbl s =
     (if vt_status (s_vty s) \<notin> {VTY_CLOSE, VTY_START, VTY_CONTINUE} then vty_prompt tbl s else Cont s)"

definition vty_execute :: "'f cmd_node vec \<Rightarrow> ('f, 'x) runner \<Rightarrow> 'x session \<Rightarrow> 'x session outcome" where
  "vty_execute tbl run s =
     after (buf_string (s_vty s)) (\<lambda>buf.
       after (if in_auth (s_vty s) then Cont (vty_auth buf s)
              else after (vty_command tbl run buf s) (\<lambda>(ret, s1).
                if vt_type (s_vty s1) = VTY_TERM then vty_m vty_hist_add s1 else Cont s1))
         (\<lambda>s2. prompt_after tbl (on_vty clear_line s2)))"

section \<open>Completion\<close>

text \<open>The words of the line; after a blank the last one is the NULL appended to the vector. With
  nothing typed, \<open>buf[length - 1]\<close> is a read in front of the buffer.\<close>

definition last_char :: "vty \<Rightarrow> char outcome" where
  "last_char v = (if vt_length v = 0 \<or> vt_max v < vt_length v then Fault Overread
     else Cont (vt_buf v ! (vt_length v - 1)))"

definition split_last :: "string list \<Rightarrow> char \<Rightarrow> string list \<times> string option" where
  "split_last ws c = (if c_isspace c then (ws, None) else (butlast ws, Some (last ws)))"

definition line_words :: "vty \<Rightarrow> (string list \<times> string option) option outcome" where
  "line_words v =
     after (buf_string v) (\<lambda>buf.
       case cmd_make_strvec (Some buf) of
         None \<Rightarrow> Cont None
       | Some ws \<Rightarrow> after (last_char v) (\<lambda>c. Cont (Some (split_last ws c))))"

definition reprompt :: "'f cmd_node vec \<Rightarrow> 'x session \<Rightarrow> 'x session outcome" where
  "reprompt tbl s = after (vty_prompt tbl s) (\<lambda>s1. Cont (on_vty vty_redraw_line s1))"

definition insert_completion :: "'f cmd_node vec \<Rightarrow> string \<Rightarrow> 'x session \<Rightarrow> 'x session outcome" where
  "insert_completion tbl w s =
     after (reprompt tbl s)
       (vty_m (\<lambda>v. after (vty_backward_pure_word v) (vty_insert_word_overwrite w)))"

definition pad :: "nat \<Rightarrow> string \<Rightarrow> string" where
  "pad n s = s @ replicate (n - length s) (CHR '' '')"

text \<open>Six candidates to a line.\<close>

fun print_matched :: "nat \<Rightarrow> string list \<Rightarrow> vty \<Rightarrow> vty" where
  "print_matched i [] v = v"
| "print_matched i (m # ms) v =
     print_matched (i + 1) ms
       (vty_out (pad 10 m @ '' '') (if i \<noteq> 0 \<and> i mod 6 = 0 then vty_line [] v else v))"

definition vty_complete_command :: "'f cmd_node vec \<Rightarrow> 'x session \<Rightarrow> 'x session outcome" where
  "vty_complete_command tbl s =
     (if in_auth (s_vty s) then Cont s
      else after (line_words (s_vty s)) (\<lambda>l. case l of
        None \<Rightarrow> Cont s
      | Some (ws, src) \<Rightarrow>
        after (cmd_complete_command tbl (vt_node (s_vty s)) ws src) (\<lambda>(ret, matched).
          let s1 = on_vty (vty_line []) s; m0 = hd (the matched) in
          if ret = CMD_ERR_AMBIGUOUS then reprompt tbl (on_vty (vty_line ''% Ambiguous command.'') s1)
          else if ret = CMD_ERR_NO_MATCH \<or> ret = CMD_ERR_NOTHING_TODO then reprompt tbl s1
          else if ret = CMD_COMPLETE_FULL_MATCH then
            after (insert_completion tbl m0 s1)
              (\<lambda>s2. Cont (on_vty (vty_self_insert (l_heap (s_lib s2)) (CHR '' '')) s2))
          else if ret = CMD_COMPLETE_MATCH then insert_completion tbl m0 s1
          else if ret = CMD_COMPLETE_LIST_MATCH then
            reprompt tbl (on_vty (\<lambda>v. vty_line [] (print_matched 0 (the matched) v)) s1)
          else Cont s1)))"

section \<open>Help\<close>

definition desc_name :: "desc \<Rightarrow> string" where
  "desc_name d = (case d_cmd d of c # cs \<Rightarrow> if c = CHR ''.'' then cs else c # cs | [] \<Rightarrow> [])"

text \<open>The last blank at a position from 1 up to \<open>pos\<close>, or 0.\<close>

fun fold_pos :: "string \<Rightarrow> nat \<Rightarrow> nat" where
  "fold_pos p 0 = 0"
| "fold_pos p (Suc n) = (if p ! Suc n = CHR '' '' then Suc n else fold_pos p n)"

lemma fold_pos_le: "fold_pos p n \<le> n"
  by (induction n) auto

function fold_lines :: "nat \<Rightarrow> string \<Rightarrow> string list" where
  "fold_lines w p =
     (if length p > w \<and> fold_pos p w \<noteq> 0
      then take (fold_pos p w) p # fold_lines w (drop (fold_pos p w + 1) p)
      else [p])"
  by pat_completeness auto
termination by (relation "measure (\<lambda>(w, p). length p)") auto

declare fold_lines.simps [simp del]

definition desc_line :: "nat \<Rightarrow> string \<Rightarrow> string \<Rightarrow> vty \<Rightarrow> vty" where
  "desc_line cmd_width cmd str v = vty_line (''  '' @ pad cmd_width cmd @ ''  '' @ str) v"

definition vty_describe_fold :: "nat \<Rightarrow> int \<Rightarrow> desc \<Rightarrow> vty \<Rightarrow> vty" where
  "vty_describe_fold cmd_width desc_width d v =
     (if desc_width \<le> 0 then desc_line cmd_width (desc_name d) (the (d_str d)) v
      else case fold_lines (nat desc_width) (the (d_str d)) of
        [] \<Rightarrow> v
      | p # ps \<Rightarrow> fold (desc_line cmd_width []) ps (desc_line cmd_width (desc_name d) p v))"

text \<open>\<open>desc_width >= strlen\<close> compares without sign: a negative width is larger than every length.\<close>

definition desc_fits :: "int \<Rightarrow> string \<Rightarrow> bool" where
  "desc_fits desc_width str \<longleftrightarrow> desc_width < 0 \<or> int (length str) \<le> desc_width"

definition print_desc :: "nat \<Rightarrow> int \<Rightarrow> desc \<Rightarrow> vty \<Rightarrow> vty" where
  "print_desc width desc_width d v =
     (case d_str d of
        None \<Rightarrow> vty_line (''  '' @ desc_name d) v
      | Some str \<Rightarrow> if desc_fits desc_width str then desc_line width (desc_name d) str v
                  else vty_describe_fold width desc_width d v)"

definition desc_shown :: "desc list \<Rightarrow> desc list" where
  "desc_shown ds =
     (let vs = filter (\<lambda>d. d_cmd d \<noteq> []) ds;
          crs = filter (\<lambda>d. d_cmd d = ''<cr>'') vs
      in filter (\<lambda>d. d_cmd d \<noteq> ''<cr>'') vs @ (if crs = [] then [] else [last crs]))"

definition desc_col :: "desc list \<Rightarrow> nat" where
  "desc_col ds = foldl max 0 (map (length \<circ> desc_name) (filter (\<lambda>d. d_cmd d \<noteq> []) ds))"

definition describe_words :: "vty \<Rightarrow> (string list \<times> string option) outcome" where
  "describe_words v = after (line_words v) (\<lambda>l. Cont (case l of None \<Rightarrow> ([], None) | Some x \<Rightarrow> x))"

definition vty_describe_command :: "'f cmd_node vec \<Rightarrow> 'x session \<Rightarrow> 'x session outcome" where
  "vty_describe_command tbl s =
     after (describe_words (s_vty s)) (\<lambda>(ws, src).
       after (cmd_describe_command tbl (vt_node (s_vty s)) ws src) (\<lambda>(status, ds).
         let s1 = on_vty (vty_line []) s;
             ret = (case status of Some c \<Rightarrow> c | None \<Rightarrow> l_uninit (s_lib s)) in
         if ret = CMD_ERR_AMBIGUOUS then reprompt tbl (on_vty (vty_line ''% Ambiguous command.'') s1)
         else if ret = CMD_ERR_NO_MATCH
         then reprompt tbl (on_vty (vty_line ''% There is no matched command.'') s1)
         else let width = desc_col ds; desc_width = vt_width (s_vty s) - (int width + 6)
           in reprompt tbl (on_vty (fold (print_desc width desc_width) (desc_shown ds)) s1)))"

end
