(* ===== verification/VtyRead.thy ===== *)
theory VtyRead
  imports VtyCommand
begin

text \<open>
  The life of a terminal session (\<open>vty.c\<close>): the byte machine of \<open>vty_read\<close> with the telnet
  options, escape sequences and the pager, the output side \<open>vty_flush\<close>, and creation, time-out and
  closing. A handler runs on one session and the shared library state; afterwards the session is
  stored back in the vector, or is gone. The threads of a session are flags: armed or not.
  \<open>output_func\<close> is never set in the program, so the model has only its NULL case.
\<close>

section \<open>Control keys\<close>

definition stop_nodes :: "node_type set" where
  "stop_nodes = {CONFIG_NODE, INTERFACE_NODE, ZEBRA_NODE, RIP_NODE, RIPNG_NODE, BGP_NODE, RMAP_NODE,
     OSPF_NODE, OSPF6_NODE, KEYCHAIN_NODE, KEYCHAIN_KEY_NODE, MASC_NODE, VTY_NODE}"

definition vty_stop_input :: "'f cmd_node vec \<Rightarrow> 'x session \<Rightarrow> 'x session outcome" where
  "vty_stop_input tbl s =
     after (vty_prompt tbl (leave_config stop_nodes (on_vty (\<lambda>v. vty_line [] (clear_line v)) s)))
       (\<lambda>s1. Cont (on_vty (\<lambda>v. v\<lparr>vt_hp := vt_hindex v\<rparr>) s1))"

definition vty_escape_map :: "char \<Rightarrow> vty \<Rightarrow> vty outcome" where
  "vty_escape_map c v =
     after (if c = CHR ''A'' then vty_previous_line v
            else if c = CHR ''B'' then vty_next_line v
            else if c = CHR ''C'' then Cont (vty_forward_char v)
            else if c = CHR ''D'' then Cont (vty_backward_char v)
            else Cont v)
       (\<lambda>v1. Cont (v1\<lparr>vt_escape := ESC_NORMAL\<rparr>))"

definition vty_buffer_reset :: "'f cmd_node vec \<Rightarrow> 'x session \<Rightarrow> 'x session outcome" where
  "vty_buffer_reset tbl s = reprompt tbl (on_vty (\<lambda>v. v\<lparr>vt_obuf := buffer_reset (vt_obuf v)\<rparr>) s)"

section \<open>Telnet\<close>

definition IAC :: char where "IAC = CHR 0xFF"
definition SB :: char where "SB = CHR 0xFA"
definition SE :: char where "SE = CHR 0xF0"
definition TELOPT_NAWS :: char where "TELOPT_NAWS = CHR 0x1F"

text \<open>A byte as a (signed) \<open>char\<close>.\<close>

definition char_val :: "char \<Rightarrow> int" where
  "char_val c = (let n = of_char c :: int in if n < 128 then n else n - 256)"

text \<open>The subnegotiation collected in \<open>sb_buffer\<close>, on \<open>SE\<close>.\<close>

definition sub_option :: "string \<Rightarrow> nat \<Rightarrow> vty \<Rightarrow> vty" where
  "sub_option buffer len v =
     (if hd buffer = TELOPT_NAWS \<and> len \<ge> 5
      then v\<lparr>vt_width := char_val (buffer ! 2),
             vt_height := (if vt_lines v \<ge> 0 then vt_lines v else char_val (buffer ! 4))\<rparr>
      else v)\<lparr>vt_sb := False\<rparr>"

text \<open>The number of bytes to skip is returned with the session. After \<open>IAC SB\<close> without any data
  there is no block to read from.\<close>

definition vty_telnet_option :: "char \<Rightarrow> vty \<Rightarrow> (nat \<times> vty) outcome" where
  "vty_telnet_option c v =
     (if c = SB then
        (case vt_sb_buffer v of
           None \<Rightarrow> Fault NullDeref
         | Some b \<Rightarrow> Cont (0, v\<lparr>vt_sb_buffer := Some (buffer_reset b), vt_sb := True\<rparr>))
      else if c = SE then
        (if \<not> vt_sb v then Cont (0, v)
         else case vt_sb_buffer v of
           None \<Rightarrow> Fault NullDeref
         | Some b \<Rightarrow>
           (case b_blocks b of
              [] \<Rightarrow> Fault NullDeref
            | d # _ \<Rightarrow> Cont (0, sub_option (bd_data d) (b_length b) v)))
      else Cont (1, v))"

section \<open>One byte\<close>

definition more_key :: "'f cmd_node vec \<Rightarrow> char \<Rightarrow> 'x session \<Rightarrow> 'x session outcome" where
  "more_key tbl c s =
     (if c = CHR 0x03 \<or> c = CHR ''q'' \<or> c = CHR ''Q'' then vty_buffer_reset tbl s
      else if c = CHR 0x0A \<or> c = CHR 0x0D then Cont (on_vty (\<lambda>v. v\<lparr>vt_status := VTY_MORELINE\<rparr>) s)
      else Cont s)"

definition pre_escape_key :: "char \<Rightarrow> vty \<Rightarrow> vty outcome" where
  "pre_escape_key c v =
     (if c = CHR ''['' then Cont (v\<lparr>vt_escape := VTY_ESCAPE\<rparr>)
      else after (if c = CHR ''b'' then vty_backward_word v
                  else if c = CHR ''f'' then vty_forward_word v
                  else if c = CHR ''d'' then vty_forward_kill_word v
                  else if c = CHR 0x08 \<or> c = CHR 0x7F then vty_backward_kill_word v
                  else Cont v)
             (\<lambda>v1. Cont (v1\<lparr>vt_escape := ESC_NORMAL\<rparr>)))"

definition c_printable :: "char \<Rightarrow> bool" where
  "c_printable c \<longleftrightarrow> 31 < (of_char c :: nat) \<and> (of_char c :: nat) < 127"

definition type_char :: "char \<Rightarrow> 'x session \<Rightarrow> 'x session" where
  "type_char c s = on_vty (vty_self_insert (l_heap (s_lib s)) c) s"

definition plain_key ::
  "'f cmd_node vec \<Rightarrow> ('f, 'x) runner \<Rightarrow> char \<Rightarrow> 'x session \<Rightarrow> 'x session outcome" where
  "plain_key tbl run c s =
     (if c = CHR 0x01 then Cont (on_vty vty_beginning_of_line s)
      else if c = CHR 0x02 then Cont (on_vty vty_backward_char s)
      else if c = CHR 0x03 then vty_stop_input tbl s
      else if c = CHR 0x04 then vty_delete_char tbl s
      else if c = CHR 0x05 then Cont (on_vty vty_end_of_line s)
      else if c = CHR 0x06 then Cont (on_vty vty_forward_char s)
      else if c = CHR 0x08 \<or> c = CHR 0x7F then vty_delete_backward_char tbl s
      else if c = CHR 0x0B then Cont (on_vty vty_kill_line s)
      else if c = CHR 0x0E then vty_m vty_next_line s
      else if c = CHR 0x10 then vty_m vty_previous_line s
      else if c = CHR 0x14 then Cont (on_vty (vty_transpose_chars (l_heap (s_lib s))) s)
      else if c = CHR 0x15 then Cont (on_vty vty_kill_line_from_beginning s)
      else if c = CHR 0x17 then vty_m vty_backward_kill_word s
      else if c = CHR 0x1A then vty_end_config tbl s
      else if c = CHR 0x0A \<or> c = CHR 0x0D then vty_execute tbl run (on_vty (vty_line []) s)
      else if c = CHR 0x09 then vty_complete_command tbl s
      else if c = CHR ''?'' then (if in_auth (s_vty s) then Cont (type_char c s) else vty_describe_command tbl s)
      else if c_printable c then Cont (type_char c s)
      else Cont s)"

text \<open>ESC with a bracket behind it in the same read.\<close>

definition escape_key :: "string \<Rightarrow> vty \<Rightarrow> nat \<times> vty" where
  "escape_key rest v =
     (if rest \<noteq> [] \<and> hd rest = CHR ''['' then (1, v\<lparr>vt_escape := VTY_ESCAPE\<rparr>)
      else (0, v\<lparr>vt_escape := VTY_PRE_ESCAPE\<rparr>))"

definition no_skip :: "'s outcome \<Rightarrow> (nat \<times> 's) outcome" where
  "no_skip m = after m (\<lambda>s. Cont (0, s))"

definition input_key ::
  "'f cmd_node vec \<Rightarrow> ('f, 'x) runner \<Rightarrow> char \<Rightarrow> string \<Rightarrow> 'x session \<Rightarrow> (nat \<times> 'x session) outcome" where
  "input_key tbl run c rest s =
     (if vt_status (s_vty s) = VTY_MORE then no_skip (more_key tbl c s)
      else if vt_escape (s_vty s) = VTY_ESCAPE then no_skip (vty_m (vty_escape_map c) s)
      else if vt_escape (s_vty s) = VTY_PRE_ESCAPE then no_skip (vty_m (pre_escape_key c) s)
      else if c = CHR 0x1B then (let (k, v) = escape_key rest (s_vty s) in Cont (k, s\<lparr>s_vty := v\<rparr>))
      else no_skip (plain_key tbl run c s))"

definition sb_put :: "char \<Rightarrow> vty \<Rightarrow> vty outcome" where
  "sb_put c v =
     (case vt_sb_buffer v of
        None \<Rightarrow> Fault NullDeref
      | Some b \<Rightarrow> Cont (v\<lparr>vt_sb_buffer := Some (buffer_putc c b)\<rparr>))"

text \<open>The body of the loop of \<open>vty_read\<close>: the byte, the bytes behind it in the same read, and how
  many of them are skipped.\<close>

definition read_byte ::
  "'f cmd_node vec \<Rightarrow> ('f, 'x) runner \<Rightarrow> char \<Rightarrow> string \<Rightarrow> 'x session \<Rightarrow> (nat \<times> 'x session) outcome" where
  "read_byte tbl run c rest s =
     (let v = s_vty s in
      if c = IAC \<and> \<not> vt_iac v then Cont (0, s\<lparr>s_vty := v\<lparr>vt_iac := True\<rparr>\<rparr>)
      else
        let v1 = (if c = IAC then v\<lparr>vt_iac := False\<rparr> else v) in
        if vt_sb v1 \<and> \<not> vt_iac v1 then no_skip (after (sb_put c v1) (\<lambda>v2. Cont (s\<lparr>s_vty := v2\<rparr>)))
        else if vt_iac v1 then
          after (vty_telnet_option c v1) (\<lambda>(ret, v2). Cont (ret, s\<lparr>s_vty := v2\<lparr>vt_iac := False\<rparr>\<rparr>))
        else input_key tbl run c rest (s\<lparr>s_vty := v1\<rparr>))"

function read_loop ::
  "'f cmd_node vec \<Rightarrow> ('f, 'x) runner \<Rightarrow> string \<Rightarrow> 'x session \<Rightarrow> 'x session outcome" where
  "read_loop tbl run [] s = Cont s"
| "read_loop tbl run (c # cs) s =
     after (read_byte tbl run c cs s) (\<lambda>(k, s1). read_loop tbl run (drop k cs) s1)"
  by pat_completeness auto
termination by (relation "measure (\<lambda>(tbl, run, cs, s). length cs)") auto

section \<open>Threads and the session vector\<close>

datatype vty_event_kind = EV_READ | EV_WRITE | EV_TIMEOUT_RESET

fun vty_event :: "vty_event_kind \<Rightarrow> vty \<Rightarrow> vty" where
  "vty_event EV_READ v =
     v\<lparr>vt_t_read := True, vt_t_timeout := (if vt_v_timeout v \<noteq> 0 then True else vt_t_timeout v)\<rparr>"
| "vty_event EV_WRITE v = v\<lparr>vt_t_write := True\<rparr>"
| "vty_event EV_TIMEOUT_RESET v = v\<lparr>vt_t_timeout := (vt_v_timeout v \<noteq> 0)\<rparr>"

text \<open>\<open>keep\<close>: the handler ends and the session stays.\<close>

definition keep :: "'x session \<Rightarrow> 'x lib" where
  "keep s = (s_lib s)\<lparr>l_vtyvec := vector_set_index (vt_fd (s_vty s)) (Some (s_vty s)) (l_vtyvec (s_lib s))\<rparr>"

definition write_fd :: "nat \<Rightarrow> string list \<Rightarrow> 'x lib \<Rightarrow> 'x lib" where
  "write_fd fd iov l = (if iov = [] then l else l\<lparr>l_written := l_written l @ [(fd, concat iov)]\<rparr>)"

definition vty_close :: "'x session \<Rightarrow> 'x lib" where
  "vty_close s =
     (let v = s_vty s;
          l1 = write_fd (vt_fd v) (fst (buffer_flush_all (vt_obuf v))) (s_lib s);
          l2 = l1\<lparr>l_vtyvec := vector_unset (vt_fd v) (l_vtyvec l1)\<rparr>
      in s_lib (vty_config_unlock (s\<lparr>s_lib := l2\<rparr>)))"

text \<open>\<open>read\<close> delivered these bytes; none at all is the end of the connection or an error.\<close>

definition vty_read ::
  "'f cmd_node vec \<Rightarrow> ('f, 'x) runner \<Rightarrow> string \<Rightarrow> 'x session \<Rightarrow> 'x lib outcome" where
  "vty_read tbl run buf s =
     (let s0 = on_vty (\<lambda>v. v\<lparr>vt_t_read := False, vt_status := (if buf = [] then VTY_CLOSE else vt_status v)\<rparr>) s
      in after (read_loop tbl run buf s0) (\<lambda>s1.
        Cont (if vt_status (s_vty s1) = VTY_CLOSE then vty_close s1
              else keep (on_vty (vty_event EV_READ \<circ> vty_event EV_WRITE) s1))))"

section \<open>Output\<close>

definition put_obuf :: "string list \<times> buffer \<Rightarrow> 'x session \<Rightarrow> 'x session" where
  "put_obuf r s =
     s\<lparr>s_lib := write_fd (vt_fd (s_vty s)) (fst r) (s_lib s), s_vty := (s_vty s)\<lparr>vt_obuf := snd r\<rparr>\<rparr>"

text \<open>\<open>vty_flush\<close> after a command that prints its output by parts.\<close>

definition flush_started :: "'f cmd_node vec \<Rightarrow> 'x session \<Rightarrow> 'x lib outcome" where
  "flush_started tbl s =
     after (vty_prompt tbl (on_vty (\<lambda>v. v\<lparr>vt_status := VTY_NORMAL\<rparr>)
         (put_obuf (buffer_flush_vty_all False True (vt_obuf (s_vty s))) s)))
       (\<lambda>s1. Cont (keep (on_vty (\<lambda>v. let v1 = vty_event EV_WRITE v
          in if vt_lines v = 0 then vty_event EV_READ v1 else v1) s1)))"

definition flush_page :: "vty \<Rightarrow> string list \<times> buffer" where
  "flush_page v =
     (let erase = (vt_status v = VTY_MORE \<or> vt_status v = VTY_MORELINE) in
      if vt_lines v = 0 then buffer_flush_window (vt_width v) 25 False True (vt_obuf v)
      else if vt_status v = VTY_MORELINE then buffer_flush_window (vt_width v) 1 erase False (vt_obuf v)
      else buffer_flush_window (vt_width v) (if vt_lines v \<ge> 0 then vt_lines v else vt_height v) erase False
        (vt_obuf v))"

definition flush_done :: "vty \<Rightarrow> vty" where
  "flush_done v = (let v1 = v\<lparr>vt_status := VTY_NORMAL\<rparr> in if vt_lines v = 0 then vty_event EV_READ v1 else v1)"

definition flush_more :: "vty \<Rightarrow> vty" where
  "flush_more v = (let v1 = v\<lparr>vt_status := VTY_MORE\<rparr> in if vt_lines v = 0 then vty_event EV_WRITE v1 else v1)"

definition flush_normal :: "'x session \<Rightarrow> 'x lib" where
  "flush_normal s =
     (let s1 = put_obuf (flush_page (s_vty s)) s in
      if buffer_empty (vt_obuf (s_vty s1)) then
        (if vt_status (s_vty s1) = VTY_CLOSE then vty_close s1 else keep (on_vty flush_done s1))
      else keep (on_vty flush_more s1))"

definition vty_flush :: "'f cmd_node vec \<Rightarrow> 'x session \<Rightarrow> 'x lib outcome" where
  "vty_flush tbl s =
     (let s0 = on_vty (\<lambda>v. v\<lparr>vt_t_write := False, vt_t_read := (vt_lines v \<noteq> 0 \<and> vt_t_read v)\<rparr>) s
      in if vt_status (s_vty s0) = VTY_START \<or> vt_status (s_vty s0) = VTY_CONTINUE
         then flush_started tbl s0 else Cont (flush_normal s0))"

section \<open>Creation and time-out\<close>

definition first_node :: "'x lib \<Rightarrow> node_type" where
  "first_node l =
     (if l_no_password_check l then (if h_advanced (l_host l) then ENABLE_NODE else VIEW_NODE) else AUTH_NODE)"

definition new_session :: "nat \<Rightarrow> string \<Rightarrow> 'x lib \<Rightarrow> vty" where
  "new_session sock addr l =
     vty_new\<lparr>vt_fd := sock, vt_address := addr, vt_node := first_node l, vt_v_timeout := l_timeout_val l,
       vt_lines := (if h_lines (l_host l) \<ge> 0 then h_lines (l_host l) else -1),
       vt_sb_buffer := Some (buffer_new 1024)\<rparr>"

definition greet :: "'x session \<Rightarrow> 'x session" where
  "greet s =
     (let s1 = vty_hello s;
          s2 = (if l_no_password_check (s_lib s) then s1
                else on_vty (\<lambda>v. vty_out (VTY_NEWLINE v @ ''User Access Verification'' @ VTY_NEWLINE v @ VTY_NEWLINE v) v) s1)
      in on_vty (vty_do_window_size \<circ> vty_dont_linemode \<circ> vty_will_suppress_go_ahead \<circ> vty_will_echo) s2)"

definition vty_create :: "'f cmd_node vec \<Rightarrow> nat \<Rightarrow> string \<Rightarrow> 'x lib \<Rightarrow> 'x lib outcome" where
  "vty_create tbl sock addr l =
     (let v = new_session sock addr l;
          s = \<lparr>s_lib = l\<lparr>l_vtyvec := vector_set_index sock (Some v) (l_vtyvec l)\<rparr>, s_vty = v\<rparr>
      in if \<not> l_no_password_check l \<and> h_password (l_host l) = None \<and> h_password_encrypt (l_host l) = None
         then Cont (vty_close (on_vty (\<lambda>v. (vty_line ''Vty password is not set.'' v)\<lparr>vt_status := VTY_CLOSE\<rparr>) s))
         else after (vty_prompt tbl (greet s))
           (\<lambda>s1. Cont (keep (on_vty (vty_event EV_READ \<circ> vty_event EV_WRITE) s1))))"

definition vty_timeout :: "'x session \<Rightarrow> 'x lib" where
  "vty_timeout s =
     vty_close (on_vty (\<lambda>v. let v1 = v\<lparr>vt_t_timeout := False, vt_v_timeout := 0, vt_obuf := buffer_reset (vt_obuf v)\<rparr>
        in (vty_out (VTY_NEWLINE v @ ''Vty connection is timed out.'' @ VTY_NEWLINE v) v1)\<lparr>vt_status := VTY_CLOSE\<rparr>) s)"

end
