(* ===== verification/Commands.thy ===== *)
theory Commands
  imports VtyRead ServerCmd
begin

text \<open>
  The command functions that the library itself installs (the \<open>DEFUN\<close>s of \<open>command.c\<close> and
  \<open>vty.c\<close>) and the functions that write the configuration: moves between the nodes, the host's
  settings, logging, the settings of the vty line, and the running configuration on the terminal.
  A command gets its arguments and the session; a missing argument is a read outside \<open>argv\<close>.
  The flags and the file of \<open>struct zlog\<close> are those of \<open>log.c\<close>.
\<close>

section \<open>Arguments and results\<close>

definition on_lib :: "('x lib \<Rightarrow> 'x lib) \<Rightarrow> 'x session \<Rightarrow> 'x session" where
  "on_lib f s = s\<lparr>s_lib := f (s_lib s)\<rparr>"

definition on_zlog :: "(zlog \<Rightarrow> zlog) \<Rightarrow> 'x session \<Rightarrow> 'x session" where
  "on_zlog f = on_lib (\<lambda>l. l\<lparr>l_zlog := f (l_zlog l)\<rparr>)"

definition with_arg :: "string list \<Rightarrow> nat \<Rightarrow> (string \<Rightarrow> 'r outcome) \<Rightarrow> 'r outcome" where
  "with_arg argv i f = (if i < length argv then f (argv ! i) else Fault Overread)"

definition cmd_ok :: "'x session \<Rightarrow> (int \<times> 'x session) outcome" where
  "cmd_ok s = Cont (CMD_SUCCESS, s)"

definition cmd_warn :: "string \<Rightarrow> 'x session \<Rightarrow> (int \<times> 'x session) outcome" where
  "cmd_warn str s = Cont (CMD_WARNING, on_vty (vty_line str) s)"

definition first_byte :: "string \<Rightarrow> char" where
  "first_byte w = (case w of [] \<Rightarrow> CHR 0x00 | c # _ \<Rightarrow> c)"

section \<open>Version, help and list\<close>

definition show_version :: "'x session \<Rightarrow> (int \<times> 'x session) outcome" where
  "show_version s = cmd_ok (case h_motd (s_host s) of None \<Rightarrow> s | Some m \<Rightarrow> on_vty (vty_out m) s)"

definition help_lines :: "string list" where
  "help_lines =
    [''Zebra VTY provides advanced help feature.  When you need help,'',
     ''anytime at the command line please press '?'.'', '''',
     ''If nothing matches, the help list will be empty and you must backup'',
     '' until entering a '?' shows the available options.'',
     ''Two styles of help are provided:'',
     ''1. Full help is available when you are ready to enter a'',
     ''command argument (e.g. 'show ?') and describes each possible'',
     ''argument.'',
     ''2. Partial help is provided when an abbreviated argument is entered'',
     ''   and you want to know what arguments match the input'',
     ''   (e.g. 'show me?'.)'', '''']"

definition config_help :: "'x session \<Rightarrow> (int \<times> 'x session) outcome" where
  "config_help s = cmd_ok (on_vty (\<lambda>v. vty_out (concat (map (\<lambda>l. l @ VTY_NEWLINE v) help_lines)) v) s)"

fun list_slots :: "'f cmd_element option list \<Rightarrow> vty \<Rightarrow> vty" where
  "list_slots [] v = v"
| "list_slots (None # els) v = list_slots els v"
| "list_slots (Some el # els) v = list_slots els (vty_line (''  '' @ ce_string el) v)"

definition config_list :: "'f cmd_node vec \<Rightarrow> 'x session \<Rightarrow> (int \<times> 'x session) outcome" where
  "config_list tbl s =
     after (cmd_node_vector tbl (vt_node (s_vty s))) (\<lambda>cv. cmd_ok (on_vty (list_slots (slots cv)) s))"

section \<open>Host name and passwords\<close>

definition config_hostname :: "string list \<Rightarrow> 'x session \<Rightarrow> (int \<times> 'x session) outcome" where
  "config_hostname argv s = with_arg argv 0 (\<lambda>w.
     if \<not> c_isalpha (first_byte w) then cmd_warn ''Please specify string starting with alphabet'' s
     else cmd_ok (on_host (\<lambda>h. h\<lparr>h_name := Some w\<rparr>) s))"

definition config_no_hostname :: "'x session \<Rightarrow> (int \<times> 'x session) outcome" where
  "config_no_hostname s = cmd_ok (on_host (\<lambda>h. h\<lparr>h_name := None\<rparr>) s)"

text \<open>The encryption is commented out of the program and returns NULL, which \<open>strdup\<close> reads.\<close>

definition zencrypt :: "string \<Rightarrow> string option" where
  "zencrypt passwd = None"

definition dup_encrypted :: "string \<Rightarrow> (string \<Rightarrow> 'r outcome) \<Rightarrow> 'r outcome" where
  "dup_encrypted passwd f = (case zencrypt passwd of None \<Rightarrow> Fault NullDeref | Some e \<Rightarrow> f e)"

text \<open>Both passwords are set the same way: \<open>put p e\<close> stores the clear and the encrypted form.\<close>

definition set_password ::
  "(string option \<Rightarrow> string option \<Rightarrow> host \<Rightarrow> host) \<Rightarrow> string list \<Rightarrow> 'x session \<Rightarrow> (int \<times> 'x session) outcome" where
  "set_password put argv s =
     (case argv of
        [] \<Rightarrow> cmd_warn ''Please specify password.'' s
      | [k, w] \<Rightarrow>
          if first_byte k = CHR ''8'' then cmd_ok (on_host (put None (Some w)) s)
          else cmd_warn ''Unknown encryption type.'' s
      | w # _ \<Rightarrow>
          if \<not> c_isalnum (first_byte w) then cmd_warn ''Please specify string starting with alphanumeric'' s
          else if h_encrypt (s_host s) then dup_encrypted w (\<lambda>e. cmd_ok (on_host (put None (Some e)) s))
          else cmd_ok (on_host (put (Some w) None) s))"

definition config_password :: "string list \<Rightarrow> 'x session \<Rightarrow> (int \<times> 'x session) outcome" where
  "config_password = set_password (\<lambda>p e h. h\<lparr>h_password := p, h_password_encrypt := e\<rparr>)"

definition config_enable_password :: "string list \<Rightarrow> 'x session \<Rightarrow> (int \<times> 'x session) outcome" where
  "config_enable_password = set_password (\<lambda>p e h. h\<lparr>h_enable := p, h_enable_encrypt := e\<rparr>)"

definition no_config_enable_password :: "'x session \<Rightarrow> (int \<times> 'x session) outcome" where
  "no_config_enable_password s = cmd_ok (on_host (\<lambda>h. h\<lparr>h_enable := None, h_enable_encrypt := None\<rparr>) s)"

definition service_password_encrypt :: "'x session \<Rightarrow> (int \<times> 'x session) outcome" where
  "service_password_encrypt s =
     (if h_encrypt (s_host s) then cmd_ok s
      else let s1 = on_host (\<lambda>h. h\<lparr>h_encrypt := True\<rparr>) s in
        after (case h_password (s_host s1) of
            None \<Rightarrow> Cont s1
          | Some p \<Rightarrow> dup_encrypted p (\<lambda>e. Cont (on_host (\<lambda>h. h\<lparr>h_password_encrypt := Some e\<rparr>) s1))) (\<lambda>s2.
        after (case h_enable (s_host s2) of
            None \<Rightarrow> Cont s2
          | Some p \<Rightarrow> dup_encrypted p (\<lambda>e. Cont (on_host (\<lambda>h. h\<lparr>h_enable_encrypt := Some e\<rparr>) s2))) cmd_ok))"

definition no_service_password_encrypt :: "'x session \<Rightarrow> (int \<times> 'x session) outcome" where
  "no_service_password_encrypt s =
     cmd_ok (if h_encrypt (s_host s)
       then on_host (\<lambda>h. h\<lparr>h_encrypt := False,
         h_password_encrypt := (if h_password h \<noteq> None then None else h_password_encrypt h),
         h_enable_encrypt := (if h_enable h \<noteq> None then None else h_enable_encrypt h)\<rparr>) s
       else s)"

section \<open>Lines of a terminal\<close>

text \<open>The value is stored in an \<open>int\<close>.\<close>

definition with_lines :: "string list \<Rightarrow> (int \<Rightarrow> 'x session \<Rightarrow> 'x session) \<Rightarrow> 'x session \<Rightarrow> (int \<times> 'x session) outcome" where
  "with_lines argv f s = with_arg argv 0 (\<lambda>w.
     let (n, rest) = strtol w; lines = sint (word_of_int n :: 32 word) in
     if lines < 0 \<or> lines > 512 \<or> rest \<noteq> [] then cmd_warn ''length is malformed'' s
     else cmd_ok (f lines s))"

definition config_terminal_length :: "string list \<Rightarrow> 'x session \<Rightarrow> (int \<times> 'x session) outcome" where
  "config_terminal_length argv = with_lines argv (\<lambda>n. on_vty (\<lambda>v. v\<lparr>vt_lines := n\<rparr>))"

definition config_terminal_no_length :: "'x session \<Rightarrow> (int \<times> 'x session) outcome" where
  "config_terminal_no_length s = cmd_ok (on_vty (\<lambda>v. v\<lparr>vt_lines := -1\<rparr>) s)"

definition service_terminal_length :: "string list \<Rightarrow> 'x session \<Rightarrow> (int \<times> 'x session) outcome" where
  "service_terminal_length argv = with_lines argv (\<lambda>n. on_host (\<lambda>h. h\<lparr>h_lines := n\<rparr>))"

definition no_service_terminal_length :: "'x session \<Rightarrow> (int \<times> 'x session) outcome" where
  "no_service_terminal_length s = cmd_ok (on_host (\<lambda>h. h\<lparr>h_lines := -1\<rparr>) s)"

end
