(* ===== verification/VtyLine.thy ===== *)
theory VtyLine
  imports VtyRead
begin

text \<open>
  From bytes on the wire to a command: a typed line, with all the editing keys, is executed as the
  line the editor's specification says; and the inputs on which the byte machine goes wrong.
\<close>

section \<open>Keys as bytes\<close>

fun key_bytes :: "edit \<Rightarrow> string" where
  "key_bytes (Typed c) = [c]"
| "key_bytes Forward = [CHR 0x06]"
| "key_bytes Backward = [CHR 0x02]"
| "key_bytes Home = [CHR 0x01]"
| "key_bytes EndOfLine = [CHR 0x05]"
| "key_bytes Delete = [CHR 0x04]"
| "key_bytes Rubout = [CHR 0x7F]"
| "key_bytes KillLine = [CHR 0x0B]"
| "key_bytes KillBack = [CHR 0x15]"
| "key_bytes Transpose = [CHR 0x14]"
| "key_bytes ForwardWord = [CHR 0x1B, CHR ''f'']"
| "key_bytes BackwardWord = [CHR 0x1B, CHR ''b'']"
| "key_bytes KillWord = [CHR 0x1B, CHR ''d'']"
| "key_bytes RuboutWord = [CHR 0x17]"

text \<open>A question mark asks for help, and control-D on an empty line leaves the node: neither is an
  editing key.\<close>

definition key_ok :: "edit \<Rightarrow> string \<times> string \<Rightarrow> bool" where
  "key_ok e p \<longleftrightarrow> (\<forall>c. e = Typed c \<longrightarrow> plain [c] \<and> c \<noteq> CHR ''?'') \<and> (e = Delete \<longrightarrow> line_of p \<noteq> [])"

fun keys_ok :: "edit list \<Rightarrow> string \<times> string \<Rightarrow> bool" where
  "keys_ok [] p = True"
| "keys_ok (e # es) p = (key_ok e p \<and> keys_ok es (spec_edit e p))"

text \<open>No telnet command, escape sequence or page is pending.\<close>

definition ready :: "vty \<Rightarrow> bool" where
  "ready v \<longleftrightarrow> \<not> vt_iac v \<and> \<not> vt_sb v \<and> vt_escape v = ESC_NORMAL \<and> vt_status v \<noteq> VTY_MORE"

lemma frame_ready: "frame v v' \<Longrightarrow> ready v' = ready v"
  by (simp add: ready_def frame_same)

lemma char_ne_num: "(of_char c :: nat) \<noteq> of_char d \<Longrightarrow> c \<noteq> d"
  by auto

lemma plain_key_typed:
  assumes "plain [c]" "c \<noteq> CHR ''?''"
  shows "plain_key tbl run c s = Cont (type_char c s)" "c \<noteq> IAC" "c \<noteq> CHR 0x1B"
proof -
  have ne: "c \<noteq> d" if "(of_char d :: nat) \<le> 31 \<or> 127 \<le> (of_char d :: nat)" for d
    using that assms(1) by auto
  note n = ne [of "CHR 0x01"] ne [of "CHR 0x02"] ne [of "CHR 0x03"] ne [of "CHR 0x04"] ne [of "CHR 0x05"]
    ne [of "CHR 0x06"] ne [of "CHR 0x08"] ne [of "CHR 0x7F"] ne [of "CHR 0x0B"] ne [of "CHR 0x0E"] ne [of "CHR 0x10"]
    ne [of "CHR 0x14"] ne [of "CHR 0x15"] ne [of "CHR 0x17"] ne [of "CHR 0x1A"] ne [of "CHR 0x0A"] ne [of "CHR 0x0D"]
    ne [of "CHR 0x09"]
  have p: "c_printable c" using assms(1) by (simp add: c_printable_def)
  show "plain_key tbl run c s = Cont (type_char c s)"
    unfolding plain_key_def using n p assms(2) by simp
  show "c \<noteq> IAC" "c \<noteq> CHR 0x1B" using ne [of IAC] ne [of "CHR 0x1B"] by (simp_all add: IAC_def)
qed

lemma read_plain:
  assumes "ready (s_vty s)" "c \<noteq> IAC" "c \<noteq> CHR 0x1B" "plain_key tbl run c s = Cont s'"
  shows "read_loop tbl run (c # bs) s = read_loop tbl run bs s'"
  using assms by (simp add: read_byte_def ready_def input_key_def no_skip_def Let_def)

lemma read_escape:
  assumes "ready (s_vty s)" "c \<noteq> IAC" "c \<noteq> CHR ''[''"
    "pre_escape_key c ((s_vty s)\<lparr>vt_escape := VTY_PRE_ESCAPE\<rparr>) = Cont v'"
  shows "read_loop tbl run (CHR 0x1B # c # bs) s = read_loop tbl run bs (s\<lparr>s_vty := v'\<rparr>)"
  using assms
  by (simp add: read_byte_def ready_def input_key_def no_skip_def Let_def IAC_def escape_key_def vty_m_def)

text \<open>An operation run between two settings of the escape state.\<close>

lemma escape_frame:
  assumes "vt_escape v = ESC_NORMAL"
    and "refined (v\<lparr>vt_escape := x\<rparr>) l r v1 l' r' t' \<and> (clean (v\<lparr>vt_escape := x\<rparr>) t \<and> b \<longrightarrow> clean v1 t')"
  shows "refined v l r (v1\<lparr>vt_escape := ESC_NORMAL\<rparr>) l' r' t' \<and> (clean v t \<and> b \<longrightarrow> clean (v1\<lparr>vt_escape := ESC_NORMAL\<rparr>) t')"
proof -
  obtain bb c n ob where v1: "v1 = v\<lparr>vt_escape := x, vt_buf := bb, vt_cp := c, vt_length := n, vt_obuf := ob\<rparr>"
    using assms(2) by (auto simp: refined_def frame_def)
  have "v1\<lparr>vt_escape := ESC_NORMAL\<rparr> = v\<lparr>vt_buf := bb, vt_cp := c, vt_length := n, vt_obuf := ob\<rparr>"
    using assms(1) by (simp add: v1)
  then have "frame v (v1\<lparr>vt_escape := ESC_NORMAL\<rparr>)" using frameI by metis
  then show ?thesis
    using assms(2)
    by (auto simp: refined_def holds_def out_def shown_def in_auth_def clean_def vt_max_def)
qed

lemma holds_escape: "holds v l r t \<Longrightarrow> holds (v\<lparr>vt_escape := x\<rparr>) l r t"
  by (simp add: holds_def)

lemma key_step:
  assumes h: "holds (s_vty s) l r t" and p: "plain (l @ r)" and a: "\<not> in_auth (s_vty s)"
    and rd: "ready (s_vty s)" and k: "key_ok e (l, r)" and sp: "spec_edit e (l, r) = (l', r')"
  shows "\<exists>v' t'. (\<forall>bs. read_loop tbl run (key_bytes e @ bs) s = read_loop tbl run bs (s\<lparr>s_vty := v'\<rparr>))
    \<and> refined (s_vty s) l r v' l' r' t' \<and> (clean (s_vty s) t \<and> length (l' @ r') \<le> 510 \<longrightarrow> clean v' t')"
proof -
  let ?hp = "l_heap (s_lib s)" and ?v = "s_vty s"
  have ty: "typed_ok e" using k by (auto simp: key_ok_def typed_ok_def)
  obtain v1 t1 where s1: "run_edit ?hp e ?v = Cont v1" "refined ?v l r v1 l' r' t1"
    "clean ?v t \<and> length (l' @ r') \<le> 510 \<longrightarrow> clean v1 t1"
    using edit_step [OF h p a ty sp, of ?hp] by blast
  have plain_case: ?thesis
    if "key_bytes e = [c]" "c \<noteq> IAC" "c \<noteq> CHR 0x1B" "plain_key tbl run c s = Cont (s\<lparr>s_vty := v1\<rparr>)" for c
    using that s1 read_plain [OF rd that(2-4)] by (intro exI [where x = v1] exI [where x = t1]) simp
  let ?w = "?v\<lparr>vt_escape := VTY_PRE_ESCAPE\<rparr>"
  have aw: "\<not> in_auth ?w" using a by (simp add: in_auth_def)
  obtain v2 t2 where s2: "run_edit ?hp e ?w = Cont v2" "refined ?w l r v2 l' r' t2"
    "clean ?w t \<and> length (l' @ r') \<le> 510 \<longrightarrow> clean v2 t2"
    using edit_step [OF holds_escape [OF h] p aw ty sp, of ?hp] by blast
  have esc_case: ?thesis
    if "key_bytes e = [CHR 0x1B, c]" "c \<noteq> IAC" "c \<noteq> CHR ''[''"
      "pre_escape_key c ?w = Cont (v2\<lparr>vt_escape := ESC_NORMAL\<rparr>)" for c
  proof -
    have "vt_escape ?v = ESC_NORMAL" using rd by (simp add: ready_def)
    note f = escape_frame [OF this conjI [OF s2(2,3)]]
    have "read_loop tbl run (key_bytes e @ bs) s = read_loop tbl run bs (s\<lparr>s_vty := v2\<lparr>vt_escape := ESC_NORMAL\<rparr>\<rparr>)" for bs
      using read_escape [OF rd that(2-4)] by (simp only: that(1) append_Cons append_Nil)
    then show ?thesis using f by blast
  qed
  have len: "vt_length ?v = length (l @ r)" using h by (simp add: holds_def)
  show ?thesis
  proof (cases e)
    case (Typed c)
    then show ?thesis
      using plain_case [of c] plain_key_typed(1) [of c tbl run s] plain_key_typed(2,3) [of c] k s1(1)
      by (simp add: key_ok_def type_char_def on_vty_def)
  next
    case Delete
    then have "vt_length ?v \<noteq> 0" using k len by (auto simp: key_ok_def line_of_def)
    then show ?thesis
      using Delete a s1(1) by (intro plain_case [of "CHR 0x04"])
        (simp_all add: plain_key_def vty_delete_char_def on_vty_def IAC_def)
  next
    case Rubout
    have "vty_delete_backward_char tbl s = Cont (s\<lparr>s_vty := v1\<rparr>)"
    proof (cases "vt_cp ?v = 0")
      case True
      then show ?thesis using Rubout s1(1) by (simp add: vty_delete_backward_char_def delete_backward_char_def)
    next
      case False
      then have "vt_length ?v \<noteq> 0" using h by (auto simp: holds_def)
      then show ?thesis
        using False Rubout s1(1) a
        by (simp add: vty_delete_backward_char_def delete_backward_char_def vty_delete_char_def on_vty_def
            vty_backward_char_def in_auth_def vty_write_def)
    qed
    then show ?thesis using Rubout by (intro plain_case [of "CHR 0x7F"]) (simp_all add: plain_key_def IAC_def)
  next
    case ForwardWord
    then show ?thesis using s2(1) by (intro esc_case [of "CHR ''f''"]) (simp_all add: pre_escape_key_def IAC_def)
  next
    case BackwardWord
    then show ?thesis using s2(1) by (intro esc_case [of "CHR ''b''"]) (simp_all add: pre_escape_key_def IAC_def)
  next
    case KillWord
    then show ?thesis using s2(1) by (intro esc_case [of "CHR ''d''"]) (simp_all add: pre_escape_key_def IAC_def)
  next
    case Forward
    then show ?thesis using s1(1) by (intro plain_case [of "CHR 0x06"]) (simp_all add: plain_key_def on_vty_def vty_m_def IAC_def)
  next
    case Backward
    then show ?thesis using s1(1) by (intro plain_case [of "CHR 0x02"]) (simp_all add: plain_key_def on_vty_def vty_m_def IAC_def)
  next
    case Home
    then show ?thesis using s1(1) by (intro plain_case [of "CHR 0x01"]) (simp_all add: plain_key_def on_vty_def vty_m_def IAC_def)
  next
    case EndOfLine
    then show ?thesis using s1(1) by (intro plain_case [of "CHR 0x05"]) (simp_all add: plain_key_def on_vty_def vty_m_def IAC_def)
  next
    case KillLine
    then show ?thesis using s1(1) by (intro plain_case [of "CHR 0x0B"]) (simp_all add: plain_key_def on_vty_def vty_m_def IAC_def)
  next
    case KillBack
    then show ?thesis using s1(1) by (intro plain_case [of "CHR 0x15"]) (simp_all add: plain_key_def on_vty_def vty_m_def IAC_def)
  next
    case Transpose
    then show ?thesis using s1(1) by (intro plain_case [of "CHR 0x14"]) (simp_all add: plain_key_def on_vty_def vty_m_def IAC_def)
  next
    case RuboutWord
    then show ?thesis using s1(1) by (intro plain_case [of "CHR 0x17"]) (simp_all add: plain_key_def on_vty_def vty_m_def IAC_def)
  qed
qed

lemma keys_read:
  "holds (s_vty s) l r t \<Longrightarrow> plain (l @ r) \<Longrightarrow> \<not> in_auth (s_vty s) \<Longrightarrow> ready (s_vty s) \<Longrightarrow> keys_ok es (l, r) \<Longrightarrow>
     fold spec_edit es (l, r) = (l', r') \<Longrightarrow>
     \<exists>v' t'. (\<forall>bs. read_loop tbl run (concat (map key_bytes es) @ bs) s = read_loop tbl run bs (s\<lparr>s_vty := v'\<rparr>))
       \<and> refined (s_vty s) l r v' l' r' t' \<and> plain (l' @ r') \<and> (clean (s_vty s) t \<and> fits es (l, r) \<longrightarrow> clean v' t')"
proof (induction es arbitrary: s l r t)
  case Nil
  then show ?case
    using refined_refl [OF Nil(1)] by (intro exI [where x = "s_vty s"] exI [where x = t]) simp
next
  case (Cons e es)
  obtain l1 r1 where s1: "spec_edit e (l, r) = (l1, r1)" by fastforce
  have k: "key_ok e (l, r)" "keys_ok es (l1, r1)" using Cons.prems(5) s1 by auto
  obtain v1 t1 where 1: "\<forall>bs. read_loop tbl run (key_bytes e @ bs) s = read_loop tbl run bs (s\<lparr>s_vty := v1\<rparr>)"
    "refined (s_vty s) l r v1 l1 r1 t1" "clean (s_vty s) t \<and> length (l1 @ r1) \<le> 510 \<longrightarrow> clean v1 t1"
    using key_step [OF Cons.prems(1-4) k(1) s1, of tbl run] by blast
  have "typed_ok e" using k(1) by (auto simp: key_ok_def typed_ok_def)
  then have p1: "plain (l1 @ r1)"
    using spec_edit_plain [of e "(l, r)"] Cons.prems(2) s1 by (simp add: line_of_def)
  have f1: "frame (s_vty s) v1" using 1(2) by (simp add: refined_def)
  obtain v' t' where 2: "\<forall>bs. read_loop tbl run (concat (map key_bytes es) @ bs) (s\<lparr>s_vty := v1\<rparr>)
      = read_loop tbl run bs (s\<lparr>s_vty := v1\<rparr>\<lparr>s_vty := v'\<rparr>)"
    "refined v1 l1 r1 v' l' r' t'" "plain (l' @ r')" "clean v1 t1 \<and> fits es (l1, r1) \<longrightarrow> clean v' t'"
    using Cons.IH [of "s\<lparr>s_vty := v1\<rparr>" l1 r1 t1] refined_holds [OF 1(2)] p1 k(2) s1 Cons.prems(3,4,6)
      frame_auth [OF f1] frame_ready [OF f1] by auto
  show ?case
    using 1 2 s1 refined_trans [OF 1(2) 2(2)]
    by (intro exI [where x = v'] exI [where x = t']) (simp add: line_of_def)
qed

section \<open>The executed line\<close>

lemma holds_out: "holds v l r t \<Longrightarrow> vt_type v = VTY_TERM \<Longrightarrow> holds (vty_out x v) l r t"
  by (simp add: holds_def vty_out_def vty_shell_def vty_shell_serv_def buf_ok_write)

lemma out_frame: "vt_type v = VTY_TERM \<Longrightarrow> frame v (vty_out x v)"
  unfolding frame_def
  by (rule exI [where x = "vt_buf v"], rule exI [where x = "vt_cp v"], rule exI [where x = "vt_length v"],
      rule exI [where x = "buffer_write x (vt_obuf v)"]) (simp add: vty_out_def vty_shell_def vty_shell_serv_def)

lemma clean_out: "clean v t \<Longrightarrow> clean (vty_out x v) t"
  by (simp add: clean_def vty_out_def vt_max_def)

text \<open>The handlers fall through or fault; none leaves by \<open>Ret\<close>.\<close>

lemma after_no_Ret: "(\<And>s. f s \<noteq> Ret x) \<Longrightarrow> after m f \<noteq> Ret x"
  by (cases m) auto

lemma prompt_no_Ret: "prompt_after tbl s \<noteq> Ret x"
  by (simp add: prompt_after_def vty_prompt_def after_no_Ret)

lemma execute_no_Ret: "vty_execute tbl run s \<noteq> Ret x"
  unfolding vty_execute_def by (intro after_no_Ret prompt_no_Ret)

lemma newline_key:
  assumes "ready (s_vty s)" "c = CHR 0x0D \<or> c = CHR 0x0A"
  shows "read_loop tbl run [c] s = vty_execute tbl run (on_vty (vty_line []) s)"
proof -
  have "read_byte tbl run c [] s = no_skip (vty_execute tbl run (on_vty (vty_line []) s))"
    using assms by (auto simp: read_byte_def ready_def input_key_def plain_key_def IAC_def)
  then show ?thesis
    using execute_no_Ret by (cases "vty_execute tbl run (on_vty (vty_line []) s)") (auto simp: no_skip_def)
qed

text \<open>What \<open>vty_execute\<close> does with a line once the line is known.\<close>

definition execute_line :: "'f cmd_node vec \<Rightarrow> ('f, 'x) runner \<Rightarrow> string \<Rightarrow> 'x session \<Rightarrow> 'x session outcome" where
  "execute_line tbl run line s =
     after (vty_command tbl run line s) (\<lambda>(ret, s1).
       after (if vt_type (s_vty s1) = VTY_TERM then vty_m vty_hist_add s1 else Cont s1)
         (\<lambda>s2. prompt_after tbl (on_vty clear_line s2)))"

lemma after_assoc: "after (after m f) g = after m (\<lambda>x. after (f x) g)"
  by (cases m) auto

lemma execute_line:
  assumes "buf_string (s_vty s) = Cont line" "\<not> in_auth (s_vty s)"
  shows "vty_execute tbl run s = execute_line tbl run line s"
  using assms by (simp add: vty_execute_def execute_line_def after_assoc case_prod_unfold)


text \<open>A fresh session, for the examples.\<close>

definition ex_lib :: "unit lib" where
  "ex_lib = \<lparr>l_host = \<lparr>h_name = Some ''r'', h_password = Some ''pw'', h_password_encrypt = None, h_enable = None,
       h_enable_encrypt = None, h_lines = -1, h_logfile = None, h_log_stdout = False, h_log_syslog = False,
       h_config = None, h_advanced = False, h_encrypt = False, h_motd = None\<rparr>,
     l_zlog = \<lparr>z_facility = ''daemon'', z_maskpri = 7, z_record_priority = False, z_stdout = False,
       z_syslog = False, z_file = None\<rparr>,
     l_vty_config = False, l_no_password_check = True, l_timeout_val = 600, l_access = None, l_access6 = None,
     l_nodename = ''n'', l_heap = (\<lambda>n. []), l_cwd = ''/'', l_open = (\<lambda>f. True),
     l_fs = \<lparr>fs_files = (\<lambda>f. None), fs_mkstemp = (\<lambda>t. None), fs_may_open = (\<lambda>f. True), fs_may_link = (\<lambda>f. True),
       fs_may_unlink = (\<lambda>f. True), fs_time = [], fs_first = 8\<rparr>, l_vtyvec = vector_init 1,
     l_written = [], l_uninit = 0, l_app = ()\<rparr>"

definition ex_session :: "node_type \<Rightarrow> unit session" where
  "ex_session n = \<lparr>s_lib = ex_lib, s_vty = (new_session 5 ''a'' ex_lib)\<lparr>vt_node := n\<rparr>\<rparr>"

lemma ex_session_facts:
  "holds (s_vty (ex_session n)) [] [] (replicate 512 (CHR 0x00))" "clean (s_vty (ex_session n)) (replicate 512 (CHR 0x00))"
  "ready (s_vty (ex_session n))" "vt_type (s_vty (ex_session n)) = VTY_TERM" "in_auth (s_vty (ex_session n)) = (n = AUTH_NODE \<or> n = AUTH_ENABLE_NODE)"
  "vt_sb_buffer (s_vty (ex_session n)) = Some (buffer_new 1024)" "vt_node (s_vty (ex_session n)) = n"
  by (simp_all add: ex_session_def new_session_def vty_new_def holds_def clean_def ready_def vt_max_def VTY_BUFSIZ_def
      buf_ok_new in_auth_def)


end
