(* ===== verification/CmdSettings.thy ===== *)
theory CmdSettings
  imports Commands VtyLine
begin

text \<open>
  The commands for logging and banner (\<open>command.c\<close>) with the functions of \<open>log.c\<close> they call, and
  the settings of the vty line (\<open>vty.c\<close>). A facility of syslog is represented by its name.
\<close>

section \<open>Logging\<close>

definition zlog_priority :: "string list" where
  "zlog_priority = [''emergencies'', ''alerts'', ''critical'', ''errors'', ''warnings'', ''notifications'',
     ''informational'', ''debugging'']"

definition LOG_DEBUG :: nat where "LOG_DEBUG = 7"

definition zlog_set_stdout :: "bool \<Rightarrow> zlog \<Rightarrow> zlog" where
  "zlog_set_stdout b z = z\<lparr>z_stdout := b\<rparr>"

definition zlog_set_syslog :: "bool \<Rightarrow> zlog \<Rightarrow> zlog" where
  "zlog_set_syslog b z = z\<lparr>z_syslog := b\<rparr>"

definition zlog_reset_file :: "zlog \<Rightarrow> zlog" where
  "zlog_reset_file z = z\<lparr>z_file := None\<rparr>"

definition zlog_set_file :: "(string \<Rightarrow> bool) \<Rightarrow> string \<Rightarrow> zlog \<Rightarrow> bool \<times> zlog" where
  "zlog_set_file may_open filename z =
     (let z1 = zlog_reset_file z in if may_open filename then (True, z1\<lparr>z_file := Some filename\<rparr>) else (False, z1))"

definition config_log_stdout :: "'x session \<Rightarrow> (int \<times> 'x session) outcome" where
  "config_log_stdout s = cmd_ok (on_host (\<lambda>h. h\<lparr>h_log_stdout := True\<rparr>) (on_zlog (zlog_set_stdout True) s))"

definition no_config_log_stdout :: "'x session \<Rightarrow> (int \<times> 'x session) outcome" where
  "no_config_log_stdout s = cmd_ok (on_host (\<lambda>h. h\<lparr>h_log_stdout := False\<rparr>) (on_zlog (zlog_set_stdout False) s))"

definition full_path :: "string \<Rightarrow> string \<Rightarrow> string" where
  "full_path cwd w = (if first_byte w \<noteq> CHR ''/'' then cwd @ ''/'' @ w else w)"

text \<open>The message about a file that cannot be opened ends in a plain newline.\<close>

definition config_log_file :: "string list \<Rightarrow> 'x session \<Rightarrow> (int \<times> 'x session) outcome" where
  "config_log_file argv s = with_arg argv 0 (\<lambda>w.
     let (ret, z) = zlog_set_file (l_open (s_lib s)) (full_path (l_cwd (s_lib s)) w) (l_zlog (s_lib s));
         s1 = on_zlog (\<lambda>_. z) s in
     if \<not> ret then Cont (CMD_WARNING, on_vty (vty_out (''can't open logfile '' @ w @ [CHR 0x0A])) s1)
     else cmd_ok (on_host (\<lambda>h. h\<lparr>h_logfile := Some w\<rparr>) s1))"

definition no_config_log_file :: "'x session \<Rightarrow> (int \<times> 'x session) outcome" where
  "no_config_log_file s = cmd_ok (on_host (\<lambda>h. h\<lparr>h_logfile := None\<rparr>) (on_zlog zlog_reset_file s))"

definition config_log_syslog :: "'x session \<Rightarrow> (int \<times> 'x session) outcome" where
  "config_log_syslog s =
     cmd_ok (on_zlog (\<lambda>z. z\<lparr>z_facility := ''daemon''\<rparr>)
       (on_host (\<lambda>h. h\<lparr>h_log_syslog := True\<rparr>) (on_zlog (zlog_set_syslog True) s)))"

text \<open>The comparisons look at the first character, at two, or at six.\<close>

definition facility_tests :: "(string \<times> nat) list" where
  "facility_tests = [(''kern'', 1), (''user'', 2), (''mail'', 1), (''daemon'', 1), (''auth'', 1), (''syslog'', 1),
     (''lpr'', 2), (''news'', 1), (''uucp'', 2), (''cron'', 1), (''local0'', 6), (''local1'', 6), (''local2'', 6),
     (''local3'', 6), (''local4'', 6), (''local5'', 6), (''local6'', 6), (''local7'', 6)]"

fun facility_of :: "(string \<times> nat) list \<Rightarrow> string \<Rightarrow> string" where
  "facility_of [] w = ''daemon''"
| "facility_of ((f, n) # ts) w = (if strncmp w f n = 0 then f else facility_of ts w)"

definition config_log_syslog_facility :: "string list \<Rightarrow> 'x session \<Rightarrow> (int \<times> 'x session) outcome" where
  "config_log_syslog_facility argv s =
     (let s1 = on_host (\<lambda>h. h\<lparr>h_log_syslog := True\<rparr>) (on_zlog (zlog_set_syslog True) s)
      in with_arg argv 0 (\<lambda>w. cmd_ok (on_zlog (\<lambda>z. z\<lparr>z_facility := facility_of facility_tests w\<rparr>) s1)))"

definition no_config_log_syslog :: "'x session \<Rightarrow> (int \<times> 'x session) outcome" where
  "no_config_log_syslog s =
     cmd_ok (on_zlog (\<lambda>z. z\<lparr>z_facility := ''daemon''\<rparr>)
       (on_host (\<lambda>h. h\<lparr>h_log_syslog := False\<rparr>) (on_zlog (zlog_set_syslog False) s)))"

text \<open>The position of a word in the table of priorities. Only the full name will do.\<close>

fun level_of :: "nat \<Rightarrow> string list \<Rightarrow> string \<Rightarrow> nat option" where
  "level_of n [] w = None"
| "level_of n (p # ps) w = (if strcmp w p = 0 then Some n else level_of (n + 1) ps w)"

definition config_log_trap :: "string list \<Rightarrow> 'x session \<Rightarrow> (int \<times> 'x session) outcome" where
  "config_log_trap argv s = with_arg argv 0 (\<lambda>w.
     case level_of 0 zlog_priority w of
       Some n \<Rightarrow> cmd_ok (on_zlog (\<lambda>z. z\<lparr>z_maskpri := n\<rparr>) s)
     | None \<Rightarrow> Cont (CMD_ERR_NO_MATCH, s))"

definition no_config_log_trap :: "'x session \<Rightarrow> (int \<times> 'x session) outcome" where
  "no_config_log_trap s = cmd_ok (on_zlog (\<lambda>z. z\<lparr>z_maskpri := LOG_DEBUG\<rparr>) s)"

definition config_log_record_priority :: "'x session \<Rightarrow> (int \<times> 'x session) outcome" where
  "config_log_record_priority s = cmd_ok (on_zlog (\<lambda>z. z\<lparr>z_record_priority := True\<rparr>) s)"

definition no_config_log_record_priority :: "'x session \<Rightarrow> (int \<times> 'x session) outcome" where
  "no_config_log_record_priority s = cmd_ok (on_zlog (\<lambda>z. z\<lparr>z_record_priority := False\<rparr>) s)"

section \<open>Banner\<close>

definition default_motd :: string where
  "default_motd = [CHR 0x0D, CHR 0x0A] @ ''Hello, this is CProbe(version V8.0.2).'' @ [CHR 0x0D, CHR 0x0A]
     @ ''Copyright 2019-2020 .'' @ [CHR 0x0D, CHR 0x0A]"

definition banner_motd_default :: "'x session \<Rightarrow> (int \<times> 'x session) outcome" where
  "banner_motd_default s = cmd_ok (on_host (\<lambda>h. h\<lparr>h_motd := Some default_motd\<rparr>) s)"

definition no_banner_motd :: "'x session \<Rightarrow> (int \<times> 'x session) outcome" where
  "no_banner_motd s = cmd_ok (on_host (\<lambda>h. h\<lparr>h_motd := None\<rparr>) s)"

section \<open>The vty line\<close>

text \<open>The sessions as \<open>who\<close> finds them in the vector; the current one through its pointer.\<close>

definition sessions_now :: "'x session \<Rightarrow> vty option list" where
  "sessions_now s =
     (let vec = l_vtyvec (s_lib s); i = vt_fd (s_vty s)
      in slots (case vector_lookup vec i of None \<Rightarrow> vec | Some _ \<Rightarrow> vector_set_index i (Some (s_vty s)) vec))"

fun who_lines :: "nat \<Rightarrow> vty option list \<Rightarrow> vty \<Rightarrow> vty" where
  "who_lines i [] v = v"
| "who_lines i (None # vs) v = who_lines (i + 1) vs v"
| "who_lines i (Some w # vs) v = who_lines (i + 1) vs
     (vty_line ((if vt_config w then ''*'' else '' '') @ ''vty['' @ show_nat i @ ''] connected from '' @ vt_address w @ ''.'') v)"

definition config_who :: "'x session \<Rightarrow> (int \<times> 'x session) outcome" where
  "config_who s = cmd_ok (on_vty (who_lines 0 (sessions_now s)) s)"

definition line_vty :: "'x session \<Rightarrow> (int \<times> 'x session) outcome" where
  "line_vty s = cmd_ok (set_node VTY_NODE s)"

text \<open>The time-out is an \<open>unsigned long\<close>.\<close>

definition exec_timeout :: "string option \<Rightarrow> string option \<Rightarrow> 'x session \<Rightarrow> (int \<times> 'x session) outcome" where
  "exec_timeout min_str sec_str s =
     (let m = (case min_str of None \<Rightarrow> 0 | Some w \<Rightarrow> (word_of_int (fst (strtol w)) :: u64) * 60);
          t = unat (m + (case sec_str of None \<Rightarrow> 0 | Some w \<Rightarrow> word_of_int (fst (strtol w))))
      in cmd_ok (on_vty (\<lambda>v. vty_event EV_TIMEOUT_RESET (v\<lparr>vt_v_timeout := t\<rparr>))
           (on_lib (\<lambda>l. l\<lparr>l_timeout_val := t\<rparr>) s)))"

definition exec_timeout_min :: "string list \<Rightarrow> 'x session \<Rightarrow> (int \<times> 'x session) outcome" where
  "exec_timeout_min argv s = with_arg argv 0 (\<lambda>m. exec_timeout (Some m) None s)"

definition exec_timeout_sec :: "string list \<Rightarrow> 'x session \<Rightarrow> (int \<times> 'x session) outcome" where
  "exec_timeout_sec argv s = with_arg argv 0 (\<lambda>m. with_arg argv 1 (\<lambda>c. exec_timeout (Some m) (Some c) s))"

definition no_exec_timeout :: "'x session \<Rightarrow> (int \<times> 'x session) outcome" where
  "no_exec_timeout s = exec_timeout None None s"

definition vty_access_class :: "string list \<Rightarrow> 'x session \<Rightarrow> (int \<times> 'x session) outcome" where
  "vty_access_class argv s = with_arg argv 0 (\<lambda>w. cmd_ok (on_lib (\<lambda>l. l\<lparr>l_access := Some w\<rparr>) s))"

definition no_vty_access_class :: "string list \<Rightarrow> 'x session \<Rightarrow> (int \<times> 'x session) outcome" where
  "no_vty_access_class argv s =
     (if l_access (s_lib s) = None \<or> argv \<noteq> [] \<and> strcmp (the (l_access (s_lib s))) (hd argv) \<noteq> 0
      then cmd_warn ''Access-class is not currently applied to vty'' s
      else cmd_ok (on_lib (\<lambda>l. l\<lparr>l_access := None\<rparr>) s))"

definition vty_ipv6_access_class :: "string list \<Rightarrow> 'x session \<Rightarrow> (int \<times> 'x session) outcome" where
  "vty_ipv6_access_class argv s = with_arg argv 0 (\<lambda>w. cmd_ok (on_lib (\<lambda>l. l\<lparr>l_access6 := Some w\<rparr>) s))"

definition no_vty_ipv6_access_class :: "string list \<Rightarrow> 'x session \<Rightarrow> (int \<times> 'x session) outcome" where
  "no_vty_ipv6_access_class argv s =
     (if l_access6 (s_lib s) = None \<or> argv \<noteq> [] \<and> strcmp (the (l_access6 (s_lib s))) (hd argv) \<noteq> 0
      then cmd_warn ''IPv6 access-class is not currently applied to vty'' s
      else cmd_ok (on_lib (\<lambda>l. l\<lparr>l_access6 := None\<rparr>) s))"

definition vty_login :: "'x session \<Rightarrow> (int \<times> 'x session) outcome" where
  "vty_login s = cmd_ok (on_lib (\<lambda>l. l\<lparr>l_no_password_check := False\<rparr>) s)"

definition no_vty_login :: "'x session \<Rightarrow> (int \<times> 'x session) outcome" where
  "no_vty_login s = cmd_ok (on_lib (\<lambda>l. l\<lparr>l_no_password_check := True\<rparr>) s)"

definition service_advanced_vty :: "'x session \<Rightarrow> (int \<times> 'x session) outcome" where
  "service_advanced_vty s = cmd_ok (on_host (\<lambda>h. h\<lparr>h_advanced := True\<rparr>) s)"

definition no_service_advanced_vty :: "'x session \<Rightarrow> (int \<times> 'x session) outcome" where
  "no_service_advanced_vty s = cmd_ok (on_host (\<lambda>h. h\<lparr>h_advanced := False\<rparr>) s)"

definition terminal_monitor :: "'x session \<Rightarrow> (int \<times> 'x session) outcome" where
  "terminal_monitor s = cmd_ok (on_vty (\<lambda>v. v\<lparr>vt_monitor := True\<rparr>) s)"

definition terminal_no_monitor :: "'x session \<Rightarrow> (int \<times> 'x session) outcome" where
  "terminal_no_monitor s = cmd_ok (on_vty (\<lambda>v. v\<lparr>vt_monitor := False\<rparr>) s)"

section \<open>Abbreviated facilities\<close>

definition facility_names :: "string list" where
  "facility_names = [''kern'', ''user'', ''mail'', ''daemon'', ''auth'', ''syslog'', ''lpr'', ''news'', ''uucp'', ''cron'',
     ''local0'', ''local1'', ''local2'', ''local3'', ''local4'', ''local5'', ''local6'', ''local7'']"

fun facility_take :: "(string \<times> nat) list \<Rightarrow> string \<Rightarrow> string" where
  "facility_take [] w = ''daemon''"
| "facility_take ((f, n) # ts) w = (if take n w = take n f then f else facility_take ts w)"

lemma facility_of_take: "facility_of ts w = facility_take ts w"
  by (induction ts w rule: facility_take.induct) (simp_all add: strncmp_def strcmp_eq_0)

text \<open>A facility may be abbreviated, and the parser passes the abbreviation on as it was typed. The
  comparisons of \<open>log syslog facility\<close>, of the first one, two or six characters, always find the
  facility that the abbreviation stands for: whatever word begins exactly one of the names sets that
  one, switches logging to syslog on, and changes nothing else.\<close>

theorem facility_abbreviations:
  assumes "filter (prefix w) facility_names = [f]"
  shows "config_log_syslog_facility (w # argv) s =
    cmd_ok (on_host (\<lambda>h. h\<lparr>h_log_syslog := True\<rparr>)
      (on_zlog (\<lambda>z. z\<lparr>z_syslog := True, z_facility := f\<rparr>) s))"
proof -
  have all: "\<forall>f \<in> set facility_names. \<forall>p \<in> set (prefixes f).
      filter (prefix p) facility_names = [f] \<longrightarrow> facility_take facility_tests p = f"
    by code_simp
  have "f \<in> set (filter (prefix w) facility_names)" using assms by simp
  then have "f \<in> set facility_names" "w \<in> set (prefixes f)" by auto
  then have "facility_of facility_tests w = f" using all assms by (simp add: facility_of_take)
  then show ?thesis
    by (simp add: config_log_syslog_facility_def with_arg_def cmd_ok_def on_host_def on_zlog_def on_lib_def zlog_set_syslog_def)
qed

lemma facility_abbreviations_witness:
  "config_log_syslog_facility [''lp''] (ex_session CONFIG_NODE) =
    cmd_ok (on_host (\<lambda>h. h\<lparr>h_log_syslog := True\<rparr>) (on_zlog (\<lambda>z. z\<lparr>z_syslog := True, z_facility := ''lpr''\<rparr>) (ex_session CONFIG_NODE)))"
  by (rule facility_abbreviations) code_simp

end
