(* ===== verification/CmdConfig.thy ===== *)
theory CmdConfig
  imports CmdSettings
begin

text \<open>
  The running configuration: how it is written (\<open>config_write_host\<close>, \<open>vty_config_write\<close>, the
  commands \<open>write terminal\<close>, \<open>write file\<close> and \<open>show startup-config\<close>) and how a configuration
  file is read at the start (\<open>config_from_file\<close>, \<open>vty_read_config\<close>, with the backup file).
  The system calls on files are those of \<open>fsys\<close>; a configuration file is never changed in place,
  so a hard link is a copy.
\<close>

section \<open>Writing the configuration\<close>

definition opt_line :: "string \<Rightarrow> string option \<Rightarrow> vty \<Rightarrow> vty" where
  "opt_line p x v = (case x of None \<Rightarrow> v | Some w \<Rightarrow> vty_line (p @ w) v)"

definition flag_line :: "bool \<Rightarrow> string \<Rightarrow> vty \<Rightarrow> vty" where
  "flag_line b str v = (if b then vty_line str v else v)"

definition password_line :: "string \<Rightarrow> string option \<Rightarrow> string option \<Rightarrow> vty \<Rightarrow> vty" where
  "password_line p clear enc v =
     (case clear of Some w \<Rightarrow> vty_line (p @ w) v | None \<Rightarrow> opt_line (p @ ''8 '') enc v)"

definition syslog_facility_print :: "string \<Rightarrow> string" where
  "syslog_facility_print f = (if f \<in> set facility_names then f else [])"

definition syslog_line :: "string \<Rightarrow> vty \<Rightarrow> vty" where
  "syslog_line f v =
     vty_line [] ((if f \<noteq> ''daemon'' then vty_out ('' facility '' @ syslog_facility_print f) else id) (vty_out ''log syslog'' v))"

definition password_lines :: "host \<Rightarrow> (vty \<Rightarrow> vty) list" where
  "password_lines h =
     (if h_encrypt h
      then [opt_line ''password 8 '' (h_password_encrypt h), opt_line ''enable password 8 '' (h_enable_encrypt h)]
      else [password_line ''password '' (h_password h) (h_password_encrypt h),
            password_line ''enable password '' (h_enable h) (h_enable_encrypt h)])"

definition log_lines :: "host \<Rightarrow> zlog \<Rightarrow> (vty \<Rightarrow> vty) list" where
  "log_lines h z =
     [opt_line ''log file '' (h_logfile h), flag_line (h_log_stdout h) ''log stdout'',
      (if h_log_syslog h then syslog_line (z_facility z) else id),
      flag_line (z_maskpri z \<noteq> LOG_DEBUG) (''log trap '' @ zlog_priority ! z_maskpri z),
      flag_line (z_record_priority z) ''log record-priority'']"

definition service_lines :: "host \<Rightarrow> (vty \<Rightarrow> vty) list" where
  "service_lines h =
     [flag_line (h_advanced h) ''service advanced-vty'', flag_line (h_encrypt h) ''service password-encryption'',
      flag_line (h_lines h \<ge> 0) (''service terminal-length '' @ show_int (h_lines h)),
      flag_line (h_motd h = None) ''no banner motd'']"

text \<open>A writer returns whether a separator follows.\<close>

definition config_write_host :: "'x lib \<Rightarrow> vty \<Rightarrow> int \<times> vty" where
  "config_write_host l v =
     (let h = l_host l in
      (1, fold id ([opt_line ''hostname '' (h_name h)] @ password_lines h @ log_lines h (l_zlog l) @ service_lines h) v))"

definition vty_config_write :: "'x lib \<Rightarrow> vty \<Rightarrow> int \<times> vty" where
  "vty_config_write l v =
     (let t = l_timeout_val l in
      (CMD_SUCCESS, fold id
         [vty_line ''line vty'', opt_line '' access-class '' (l_access l), opt_line '' ipv6 access-class '' (l_access6 l),
          flag_line (t \<noteq> VTY_TIMEOUT_DEFAULT) ('' exec-timeout '' @ show_nat (t div 60) @ '' '' @ show_nat (t mod 60)),
          flag_line (l_no_password_check l) '' no login'', vty_line ''!''] v))"

definition config_write_show_netmt_cmd :: "'x lib \<Rightarrow> vty \<Rightarrow> int \<times> vty" where
  "config_write_show_netmt_cmd l v = (CMD_SUCCESS, v)"

fun write_config :: "config_writer \<Rightarrow> 'x lib \<Rightarrow> vty \<Rightarrow> int \<times> vty" where
  "write_config Config_write_host = config_write_host"
| "write_config Vty_config_write = vty_config_write"
| "write_config Config_write_show_netmt_cmd = config_write_show_netmt_cmd"

text \<open>The loop over the nodes.\<close>

fun write_nodes :: "('f cmd_node \<Rightarrow> bool) \<Rightarrow> 'x lib \<Rightarrow> 'f cmd_node option list \<Rightarrow> vty \<Rightarrow> vty" where
  "write_nodes P l [] v = v"
| "write_nodes P l (None # ns) v = write_nodes P l ns v"
| "write_nodes P l (Some n # ns) v =
     (case cn_func n of
        None \<Rightarrow> write_nodes P l ns v
      | Some w \<Rightarrow>
        if P n then (let (r, v1) = write_config w l v in write_nodes P l ns (if r \<noteq> 0 then vty_line ''!'' v1 else v1))
        else write_nodes P l ns v)"

definition config_write_terminal :: "'f cmd_node vec \<Rightarrow> 'x session \<Rightarrow> (int \<times> 'x session) outcome" where
  "config_write_terminal tbl s =
     cmd_ok (on_vty (\<lambda>v.
       if vt_type v = VTY_SHELL_SERV then write_nodes (\<lambda>n. cn_vtysh n \<noteq> 0) (s_lib s) (slots tbl) v
       else vty_line ''end'' (write_nodes (\<lambda>n. True) (s_lib s) (slots tbl)
              (vty_line ''!'' (vty_out (VTY_NEWLINE v @ ''Current configuration:'' @ VTY_NEWLINE v) v)))) s)"

section \<open>System calls\<close>

datatype sys_result = Done | NoEntry | Failed

definition put_file :: "string \<Rightarrow> string option \<Rightarrow> fsys \<Rightarrow> fsys" where
  "put_file f c fs = fs\<lparr>fs_files := (fs_files fs)(f := c)\<rparr>"

definition fs_open :: "string \<Rightarrow> fsys \<Rightarrow> string option" where
  "fs_open f fs = (if fs_may_open fs f then fs_files fs f else None)"

definition fs_unlink :: "string \<Rightarrow> fsys \<Rightarrow> sys_result \<times> fsys" where
  "fs_unlink f fs =
     (if fs_files fs f = None then (NoEntry, fs)
      else if fs_may_unlink fs f then (Done, put_file f None fs) else (Failed, fs))"

definition fs_link :: "string \<Rightarrow> string \<Rightarrow> fsys \<Rightarrow> sys_result \<times> fsys" where
  "fs_link a b fs =
     (case fs_files fs a of
        None \<Rightarrow> (NoEntry, fs)
      | Some c \<Rightarrow> if fs_files fs b \<noteq> None \<or> \<not> fs_may_link fs b then (Failed, fs) else (Done, put_file b (Some c) fs))"

text \<open>The lowest descriptor that is free: from \<open>fs_first\<close> on only sessions have one.\<close>

definition free_fd :: "'x lib \<Rightarrow> nat" where
  "free_fd l =
     (let a = fs_first (l_fs l); b = max a (v_max (l_vtyvec l))
      in hd (filter (\<lambda>i. vector_lookup (l_vtyvec l) i = None) [a..<b + 1]))"

section \<open>Saving\<close>

text \<open>The old file becomes the backup, the new one takes its place. The result is the message of the
  step that failed and the files at that moment; after it, the name of the temporary file is used
  although it has been freed.\<close>

definition replace_config :: "string \<Rightarrow> string \<Rightarrow> string \<Rightarrow> fsys \<Rightarrow> string option \<times> fsys" where
  "replace_config cf sav tmp fs =
     (let (r1, fs1) = fs_unlink sav fs in
      if r1 = Failed then (Some (''Can't unlink backup configuration file '' @ sav @ ''.''), fs1)
      else let (r2, fs2) = fs_link cf sav fs1 in
      if r2 \<noteq> Done then (Some (''Can't backup old configuration file '' @ sav @ ''.''), fs2)
      else let (r3, fs3) = fs_unlink cf fs2 in
      if r3 \<noteq> Done then (Some (''Can't unlink configuration file '' @ cf @ ''.''), fs3)
      else let (r4, fs4) = fs_link tmp cf fs3 in
      if r4 \<noteq> Done then (Some (''Can't save configuration file '' @ cf @ ''.''), fs4)
      else (None, snd (fs_unlink tmp fs4)))"

definition LF :: char where "LF = CHR 0x0A"

definition file_header :: "string \<Rightarrow> vty \<Rightarrow> vty" where
  "file_header time v =
     vty_out (''!'' @ [LF]) ((if time = [] then id else vty_out (time @ [LF]))
       (vty_out (''!'' @ [LF] @ ''! Zebra configuration saved from vty'' @ [LF] @ ''!   '') v))"

definition file_vty :: "'f cmd_node vec \<Rightarrow> 'x lib \<Rightarrow> vty" where
  "file_vty tbl l = write_nodes (\<lambda>n. True) l (slots tbl)
     (file_header (fs_time (l_fs l)) (vty_new\<lparr>vt_fd := free_fd l, vt_type := VTY_FILE\<rparr>))"

definition config_text :: "'f cmd_node vec \<Rightarrow> 'x lib \<Rightarrow> string" where
  "config_text tbl l = concat (fst (buffer_flush_all (vt_obuf (file_vty tbl l))))"

definition config_write_file :: "'f cmd_node vec \<Rightarrow> 'x session \<Rightarrow> (int \<times> 'x session) outcome" where
  "config_write_file tbl s =
     (case h_config (s_host s) of
        None \<Rightarrow> cmd_warn ''Can't save to configuration file, using vtysh.'' s
      | Some cf \<Rightarrow>
        (case fs_mkstemp (l_fs (s_lib s)) (cf @ ''.XXXXXX'') of
           None \<Rightarrow> cmd_warn (''Can't open configuration file '' @ cf @ ''.XXXXXX.'') s
         | Some tmp \<Rightarrow>
           (let l1 = vty_close \<lparr>s_lib = s_lib s, s_vty = file_vty tbl (s_lib s)\<rparr>;
                (err, fs) = replace_config cf (cf @ ''.sav'') tmp
                  (put_file tmp (Some (config_text tbl (s_lib s))) (l_fs l1))
            in case err of
                 Some msg \<Rightarrow> Fault UseAfterFree
               | None \<Rightarrow> cmd_ok (on_vty (vty_line (''Configuration saved to '' @ cf)) (s\<lparr>s_lib := l1\<lparr>l_fs := fs\<rparr>\<rparr>)))))"

section \<open>Reading lines\<close>

text \<open>\<open>fgets\<close> into a buffer of \<open>n\<close> bytes: a line with its end, or as much as fits.\<close>

definition fgets :: "nat \<Rightarrow> string \<Rightarrow> string \<times> string" where
  "fgets n text =
     (let l = takeWhile (\<lambda>c. c \<noteq> LF) text;
          k = (if length l < length text then min (length l + 1) (n - 1) else min (length l) (n - 1))
      in (take k text, drop k text))"

definition c_string :: "string \<Rightarrow> string" where
  "c_string = takeWhile (\<lambda>c. c \<noteq> CHR 0x00)"

lemma fgets_shrinks: "n > 1 \<Longrightarrow> text \<noteq> [] \<Longrightarrow> (l, r) = fgets n text \<Longrightarrow> length r < length text"
  using length_takeWhile_le [of "\<lambda>c. c \<noteq> LF" "text"]
  by (cases "text") (auto simp: fgets_def Let_def min_def split: if_splits)

definition BUFSIZ :: nat where "BUFSIZ = 8192"

function show_lines :: "string \<Rightarrow> vty \<Rightarrow> vty" where
  "show_lines text v =
     (if text = [] then v
      else let (l, r) = fgets BUFSIZ text
        in show_lines r (vty_line (takeWhile (\<lambda>c. c \<noteq> CHR 0x0D \<and> c \<noteq> LF \<and> c \<noteq> CHR 0x00) l) v))"
  by pat_completeness auto
termination by (relation "measure (\<lambda>(text, v). length text)") (auto simp: BUFSIZ_def dest: fgets_shrinks [rotated 2])

declare show_lines.simps [simp del]

definition show_startup_config :: "'x session \<Rightarrow> (int \<times> 'x session) outcome" where
  "show_startup_config s =
     (case h_config (s_host s) of
        None \<Rightarrow> Fault NullDeref
      | Some cf \<Rightarrow>
        (case fs_open cf (l_fs (s_lib s)) of
           None \<Rightarrow> cmd_warn (''Can't open configuration file ['' @ cf @ '']'') s
         | Some text \<Rightarrow> cmd_ok (on_vty (show_lines text) s)))"

section \<open>Reading the configuration\<close>

definition exec_strict ::
  "'f cmd_node vec \<Rightarrow> ('f, 'x) runner \<Rightarrow> string list \<Rightarrow> 'x session \<Rightarrow> (int \<times> 'x session) outcome" where
  "exec_strict tbl run vline s = carry_out run (cmd_execute_command_strict tbl (vt_node (s_vty s)) vline) s"

text \<open>A line that fails in the node of the line before is tried again in the configuration node.\<close>

definition or_retry :: "('x session \<Rightarrow> (int \<times> 'x session) outcome) \<Rightarrow> int \<times> 'x session \<Rightarrow> (int \<times> 'x session) outcome" where
  "or_retry f x = (if fst x \<noteq> CMD_SUCCESS \<and> fst x \<noteq> CMD_WARNING then f (snd x) else Cont x)"

definition config_line ::
  "'f cmd_node vec \<Rightarrow> ('f, 'x) runner \<Rightarrow> string list \<Rightarrow> 'x session \<Rightarrow> (int \<times> 'x session) outcome" where
  "config_line tbl run vline s =
     after (exec_strict tbl run vline s) (or_retry (\<lambda>s1.
       if vt_node (s_vty s1) = KEYCHAIN_KEY_NODE
       then after (exec_strict tbl run vline (set_node KEYCHAIN_NODE s1))
              (or_retry (\<lambda>s2. exec_strict tbl run vline (set_node CONFIG_NODE s2)))
       else exec_strict tbl run vline (set_node CONFIG_NODE s1)))"

definition read_into :: "string \<Rightarrow> vty \<Rightarrow> vty" where
  "read_into l v = v\<lparr>vt_buf := l @ CHR 0x00 # drop (length l + 1) (vt_buf v)\<rparr>"

function config_from_file ::
  "'f cmd_node vec \<Rightarrow> ('f, 'x) runner \<Rightarrow> string \<Rightarrow> 'x session \<Rightarrow> (int \<times> 'x session) outcome" where
  "config_from_file tbl run text s =
     (if text = [] then Cont (CMD_SUCCESS, s)
      else let (l, r) = fgets VTY_BUFSIZ text; s0 = on_vty (read_into l) s in
        case cmd_make_strvec (Some (c_string l)) of
          None \<Rightarrow> config_from_file tbl run r s0
        | Some vline \<Rightarrow>
          after (config_line tbl run vline s0) (\<lambda>(ret, s1).
            if ret \<noteq> CMD_SUCCESS \<and> ret \<noteq> CMD_WARNING then Cont (ret, s1) else config_from_file tbl run r s1))"
  by pat_completeness auto
termination by (relation "measure (\<lambda>(tbl, run, text, s). length text)") (auto simp: VTY_BUFSIZ_def dest: fgets_shrinks [rotated 2])

declare config_from_file.simps [simp del]

definition vty_read_file :: "'f cmd_node vec \<Rightarrow> ('f, 'x) runner \<Rightarrow> string \<Rightarrow> 'x lib \<Rightarrow> 'x lib outcome" where
  "vty_read_file tbl run text l =
     after (config_from_file tbl run text \<lparr>s_lib = l, s_vty = vty_new\<lparr>vt_fd := 0, vt_type := VTY_TERM, vt_node := CONFIG_NODE\<rparr>\<rparr>)
       (\<lambda>(ret, s). if ret \<noteq> CMD_SUCCESS then Fault ProcExit else Cont (vty_close s))"

text \<open>The backup is copied to a new file that is then given the name of the missing one. If the backup
  cannot be opened, the name of the new file is freed and then used.\<close>

definition vty_use_backup_config :: "string \<Rightarrow> fsys \<Rightarrow> (string option \<times> fsys) outcome" where
  "vty_use_backup_config fullpath fs =
     (let sav = fullpath @ ''.sav'' in
      if fs_files fs sav = None then Cont (None, fs)
      else case fs_mkstemp fs (fullpath @ ''.XXXXXX'') of
        None \<Rightarrow> Cont (None, fs)
      | Some tmp \<Rightarrow>
        (case fs_open sav (put_file tmp (Some []) fs) of
           None \<Rightarrow> Fault UseAfterFree
         | Some text \<Rightarrow>
           (let fs1 = snd (fs_unlink tmp (snd (fs_link tmp fullpath (put_file tmp (Some text) fs))))
            in Cont (fs_open fullpath fs1, fs1))))"

definition open_or_backup :: "string \<Rightarrow> fsys \<Rightarrow> (string option \<times> fsys) outcome" where
  "open_or_backup path fs =
     (case fs_open path fs of Some text \<Rightarrow> Cont (Some text, fs) | None \<Rightarrow> vty_use_backup_config path fs)"

definition host_config_set :: "string \<Rightarrow> 'x lib \<Rightarrow> 'x lib" where
  "host_config_set filename l = l\<lparr>l_host := (l_host l)\<lparr>h_config := Some filename\<rparr>\<rparr>"

text \<open>Where the configuration comes from, and the name under which it will be saved.\<close>

definition find_config ::
  "string \<Rightarrow> string option \<Rightarrow> string option \<Rightarrow> string \<Rightarrow> fsys \<Rightarrow> (string option \<times> string \<times> fsys) outcome" where
  "find_config cwd config_file config_current_dir config_default_dir fs =
     (case config_file of
        Some f \<Rightarrow> after (open_or_backup (full_path cwd f) fs) (\<lambda>(c, fs1). Cont (c, full_path cwd f, fs1))
      | None \<Rightarrow>
        after (case config_current_dir of None \<Rightarrow> Cont (None, fs) | Some d \<Rightarrow> open_or_backup d fs) (\<lambda>(c, fs1).
          case c of
            Some text \<Rightarrow> Cont (c, cwd @ ''/'' @ the config_current_dir, fs1)
          | None \<Rightarrow> after (open_or_backup config_default_dir fs1) (\<lambda>(c, fs2). Cont (c, config_default_dir, fs2))))"

definition vty_read_config ::
  "'f cmd_node vec \<Rightarrow> ('f, 'x) runner \<Rightarrow> string option \<Rightarrow> string option \<Rightarrow> string \<Rightarrow> 'x lib \<Rightarrow> 'x lib outcome" where
  "vty_read_config tbl run config_file config_current_dir config_default_dir l =
     after (find_config (l_cwd l) config_file config_current_dir config_default_dir (l_fs l)) (\<lambda>(c, fullpath, fs).
       case c of
         None \<Rightarrow> Fault ProcExit
       | Some text \<Rightarrow>
         after (vty_read_file tbl run text (l\<lparr>l_fs := fs\<rparr>)) (\<lambda>l1. Cont (host_config_set fullpath l1)))"

end
