(* ===== verification/NetmtCommands.thy ===== *)
theory NetmtCommands
  imports CmdConfig
begin

text \<open>
  The commands of the program: the \<open>DEFUN\<close> and \<open>ALIAS\<close> declarations of \<open>command.c\<close>, \<open>vty.c\<close> and
  \<open>netmt_servercommand.c\<close> with their specifications and help texts, and what each of their functions
  does. The commands of \<open>netmt_servercommand.c\<close> work on the state of the server (\<open>operator\<close>) and
  print on the session.
\<close>

section \<open>Declarations\<close>

datatype base_func =
  Config_terminal | Enable | Disable | Config_exit | Config_end | Show_version | Config_help |
  Config_list | Config_write_file | Config_write_terminal | Show_startup_config

datatype host_func =
  Config_hostname | Config_no_hostname | Config_password | Config_enable_password |
  No_config_enable_password | Service_password_encrypt | No_service_password_encrypt |
  Config_terminal_length | Config_terminal_no_length | Service_terminal_length |
  No_service_terminal_length | Banner_motd_default | No_banner_motd

datatype log_func =
  Config_log_stdout | No_config_log_stdout | Config_log_file | No_config_log_file |
  Config_log_syslog | Config_log_syslog_facility | No_config_log_syslog | Config_log_trap |
  No_config_log_trap | Config_log_record_priority | No_config_log_record_priority

datatype line_func =
  Config_who | Line_vty | Exec_timeout_min | Exec_timeout_sec | No_exec_timeout |
  Vty_access_class | No_vty_access_class | Vty_ipv6_access_class | No_vty_ipv6_access_class |
  Vty_login | No_vty_login | Service_advanced_vty | No_service_advanced_vty | Terminal_monitor |
  Terminal_no_monitor | Show_history

datatype netmt_func =
  Show_netmt_help | Show_netmt_version | Show_status_netmt | Show_netmt_client_addr | Send_netmt |
  Get_netmt | Register_netmt | Ping_netmt | Exec_shell_remote

datatype func = Base base_func | Host host_func | Log log_func | Line line_func | Netmt netmt_func

text \<open>A help text of several lines.\<close>

definition doc :: "string list \<Rightarrow> string" where
  "doc ls = concat (map (\<lambda>l. l @ [LF]) ls)"

definition defun :: "string \<Rightarrow> func \<Rightarrow> string \<Rightarrow> func cmd_element" where
  "defun cmdstr f helpstr = \<lparr>ce_string = cmdstr, ce_func = f, ce_doc = Some helpstr, ce_daemon = 0,
     ce_strvec = [], ce_cmdsize = 0\<rparr>"

definition config_terminal_cmd :: "func cmd_element" where
  "config_terminal_cmd = defun ''configure terminal'' (Base Config_terminal)
    (doc [''Configuration from vty interface'', ''Configuration terminal''])"

definition config_enable_cmd :: "func cmd_element" where
  "config_enable_cmd = defun ''enable'' (Base Enable)
    (doc [''Turn on privileged mode command''])"

definition config_disable_cmd :: "func cmd_element" where
  "config_disable_cmd = defun ''disable'' (Base Disable)
    (doc [''Turn off privileged mode command''])"

definition config_exit_cmd :: "func cmd_element" where
  "config_exit_cmd = defun ''exit'' (Base Config_exit)
    (doc [''Exit current mode and down to previous mode''])"

definition config_quit_cmd :: "func cmd_element" where
  "config_quit_cmd = defun ''quit'' (Base Config_exit)
    (doc [''Exit current mode and down to previous mode''])"

definition config_end_cmd :: "func cmd_element" where
  "config_end_cmd = defun ''end'' (Base Config_end)
    ''End current mode and change to enable mode.''"

definition show_version_cmd :: "func cmd_element" where
  "show_version_cmd = defun ''show version'' (Base Show_version)
    (doc [''Show running system information'', ''Displays zebra version''])"

definition config_help_cmd :: "func cmd_element" where
  "config_help_cmd = defun ''help'' (Base Config_help)
    (doc [''Description of the interactive help system''])"

definition config_list_cmd :: "func cmd_element" where
  "config_list_cmd = defun ''list'' (Base Config_list)
    (doc [''Print command list''])"

definition config_write_file_cmd :: "func cmd_element" where
  "config_write_file_cmd = defun ''write file'' (Base Config_write_file)
    (doc [''Write running configuration to memory, network, or terminal'',
      ''Write to configuration file''])"

definition config_write_cmd :: "func cmd_element" where
  "config_write_cmd = defun ''write'' (Base Config_write_file)
    (doc [''Write running configuration to memory, network, or terminal''])"

definition config_write_memory_cmd :: "func cmd_element" where
  "config_write_memory_cmd = defun ''write memory'' (Base Config_write_file)
    (doc [''Write running configuration to memory, network, or terminal'',
      ''Write configuration to the file (same as write file)''])"

definition copy_runningconfig_startupconfig_cmd :: "func cmd_element" where
  "copy_runningconfig_startupconfig_cmd = defun ''copy running-config startup-config'' (Base Config_write_file)
    (doc [''Copy configuration'', ''Copy running config to... '',
      ''Copy running config to startup config (same as write file)''])"

definition config_write_terminal_cmd :: "func cmd_element" where
  "config_write_terminal_cmd = defun ''write terminal'' (Base Config_write_terminal)
    (doc [''Write running configuration to memory, network, or terminal'', ''Write to terminal''])"

definition show_running_config_cmd :: "func cmd_element" where
  "show_running_config_cmd = defun ''show running-config'' (Base Config_write_terminal)
    (doc [''Show running system information'', ''running configuration''])"

definition show_startup_config_cmd :: "func cmd_element" where
  "show_startup_config_cmd = defun ''show startup-config'' (Base Show_startup_config)
    (doc [''Show running system information'', ''Contentes of startup configuration''])"

definition hostname_cmd :: "func cmd_element" where
  "hostname_cmd = defun ''hostname WORD'' (Host Config_hostname)
    (doc [''Set system's network name'', ''This system's network name''])"

definition no_hostname_cmd :: "func cmd_element" where
  "no_hostname_cmd = defun ''no hostname [HOSTNAME]'' (Host Config_no_hostname)
    (doc [''Negate a command or set its defaults'', ''Reset system's network name'',
      ''Host name of this router''])"

definition password_cmd :: "func cmd_element" where
  "password_cmd = defun ''password (8|) WORD'' (Host Config_password)
    (doc [''Assign the terminal connection password'',
      ''Specifies a HIDDEN password will follow'', ''dummy string '',
      ''The HIDDEN line password string''])"

definition password_text_cmd :: "func cmd_element" where
  "password_text_cmd = defun ''password LINE'' (Host Config_password)
    (doc [''Assign the terminal connection password'',
      ''The UNENCRYPTED (cleartext) line password''])"

definition enable_password_cmd :: "func cmd_element" where
  "enable_password_cmd = defun ''enable password (8|) WORD'' (Host Config_enable_password)
    (doc [''Modify enable password parameters'', ''Assign the privileged level password'',
      ''Specifies a HIDDEN password will follow'', ''dummy string '',
      ''The HIDDEN 'enable' password string''])"

definition enable_password_text_cmd :: "func cmd_element" where
  "enable_password_text_cmd = defun ''enable password LINE'' (Host Config_enable_password)
    (doc [''Modify enable password parameters'', ''Assign the privileged level password'',
      ''The UNENCRYPTED (cleartext) 'enable' password''])"

definition no_enable_password_cmd :: "func cmd_element" where
  "no_enable_password_cmd = defun ''no enable password'' (Host No_config_enable_password)
    (doc [''Negate a command or set its defaults'', ''Modify enable password parameters'',
      ''Assign the privileged level password''])"

definition service_password_encrypt_cmd :: "func cmd_element" where
  "service_password_encrypt_cmd = defun ''service password-encryption'' (Host Service_password_encrypt)
    (doc [''Set up miscellaneous service'', ''Enable encrypted passwords''])"

definition no_service_password_encrypt_cmd :: "func cmd_element" where
  "no_service_password_encrypt_cmd = defun ''no service password-encryption'' (Host No_service_password_encrypt)
    (doc [''Negate a command or set its defaults'', ''Set up miscellaneous service'',
      ''Enable encrypted passwords''])"

definition config_terminal_length_cmd :: "func cmd_element" where
  "config_terminal_length_cmd = defun ''terminal length <0-512>'' (Host Config_terminal_length)
    (doc [''Set terminal line parameters'', ''Set number of lines on a screen'',
      ''Number of lines on screen (0 for no pausing)''])"

definition config_terminal_no_length_cmd :: "func cmd_element" where
  "config_terminal_no_length_cmd = defun ''terminal no length'' (Host Config_terminal_no_length)
    (doc [''Set terminal line parameters'', ''Negate a command or set its defaults'',
      ''Set number of lines on a screen''])"

definition service_terminal_length_cmd :: "func cmd_element" where
  "service_terminal_length_cmd = defun ''service terminal-length <0-512>'' (Host Service_terminal_length)
    (doc [''Set up miscellaneous service'', ''System wide terminal length configuration'',
      ''Number of lines of VTY (0 means no line control)''])"

definition no_service_terminal_length_cmd :: "func cmd_element" where
  "no_service_terminal_length_cmd = defun ''no service terminal-length [<0-512>]'' (Host No_service_terminal_length)
    (doc [''Negate a command or set its defaults'', ''Set up miscellaneous service'',
      ''System wide terminal length configuration'',
      ''Number of lines of VTY (0 means no line control)''])"

definition config_log_stdout_cmd :: "func cmd_element" where
  "config_log_stdout_cmd = defun ''log stdout'' (Log Config_log_stdout)
    (doc [''Logging control'', ''Logging goes to stdout''])"

definition no_config_log_stdout_cmd :: "func cmd_element" where
  "no_config_log_stdout_cmd = defun ''no log stdout'' (Log No_config_log_stdout)
    (doc [''Negate a command or set its defaults'', ''Logging control'',
      ''Cancel logging to stdout''])"

definition config_log_file_cmd :: "func cmd_element" where
  "config_log_file_cmd = defun ''log file FILENAME'' (Log Config_log_file)
    (doc [''Logging control'', ''Logging to file'', ''Logging filename''])"

definition no_config_log_file_cmd :: "func cmd_element" where
  "no_config_log_file_cmd = defun ''no log file [FILENAME]'' (Log No_config_log_file)
    (doc [''Negate a command or set its defaults'', ''Logging control'',
      ''Cancel logging to file'', ''Logging file name''])"

definition config_log_syslog_cmd :: "func cmd_element" where
  "config_log_syslog_cmd = defun ''log syslog'' (Log Config_log_syslog)
    (doc [''Logging control'', ''Logging goes to syslog''])"

definition config_log_syslog_facility_cmd :: "func cmd_element" where
  "config_log_syslog_facility_cmd = defun (''log syslog facility (kern|user|mail|daemon|auth|syslog|lpr|news|uucp|''
     @ ''cron|local0|local1|local2|local3|local4|local5|local6|local7)'') (Log Config_log_syslog_facility)
    (doc [''Logging control'', ''Logging goes to syslog'',
      ''Facility parameter for syslog messages'', ''Kernel'', ''User process'',
      ''Mail system'', ''System daemons'', ''Authorization system'', ''Syslog itself'',
      ''Line printer system'', ''USENET news'', ''Unix-to-Unix copy system'',
      ''Cron/at facility'', ''Local use'', ''Local use'', ''Local use'', ''Local use'',
      ''Local use'', ''Local use'', ''Local use'', ''Local use''])"

definition no_config_log_syslog_cmd :: "func cmd_element" where
  "no_config_log_syslog_cmd = defun ''no log syslog'' (Log No_config_log_syslog)
    (doc [''Negate a command or set its defaults'', ''Logging control'',
      ''Cancel logging to syslog''])"

definition no_config_log_syslog_facility_cmd :: "func cmd_element" where
  "no_config_log_syslog_facility_cmd = defun (''no log syslog facility (kern|user|mail|daemon|auth|syslog|lpr|news|''
     @ ''uucp|cron|local0|local1|local2|local3|local4|local5|local6|local7)'') (Log No_config_log_syslog)
    (doc [''Negate a command or set its defaults'', ''Logging control'',
      ''Logging goes to syslog'', ''Facility parameter for syslog messages'', ''Kernel'',
      ''User process'', ''Mail system'', ''System daemons'', ''Authorization system'',
      ''Syslog itself'', ''Line printer system'', ''USENET news'',
      ''Unix-to-Unix copy system'', ''Cron/at facility'', ''Local use'', ''Local use'',
      ''Local use'', ''Local use'', ''Local use'', ''Local use'', ''Local use'', ''Local use''])"

definition config_log_trap_cmd :: "func cmd_element" where
  "config_log_trap_cmd = defun (''log trap (emergencies|alerts|critical|errors|warnings|notifications|''
     @ ''informational|debugging)'') (Log Config_log_trap)
    (doc [''Logging control'', ''Limit logging to specifed level''])"

definition no_config_log_trap_cmd :: "func cmd_element" where
  "no_config_log_trap_cmd = defun ''no log trap'' (Log No_config_log_trap)
    (doc [''Negate a command or set its defaults'', ''Logging control'',
      ''Permit all logging information''])"

definition config_log_record_priority_cmd :: "func cmd_element" where
  "config_log_record_priority_cmd = defun ''log record-priority'' (Log Config_log_record_priority)
    (doc [''Logging control'', ''Log the priority of the message within the message''])"

definition no_config_log_record_priority_cmd :: "func cmd_element" where
  "no_config_log_record_priority_cmd = defun ''no log record-priority'' (Log No_config_log_record_priority)
    (doc [''Negate a command or set its defaults'', ''Logging control'',
      ''Do not log the priority of the message within the message''])"

definition banner_motd_default_cmd :: "func cmd_element" where
  "banner_motd_default_cmd = defun ''banner motd default'' (Host Banner_motd_default)
    (doc [''Set banner string'', ''Strings for motd'', ''Default string''])"

definition no_banner_motd_cmd :: "func cmd_element" where
  "no_banner_motd_cmd = defun ''no banner motd'' (Host No_banner_motd)
    (doc [''Negate a command or set its defaults'', ''Set banner string'', ''Strings for motd''])"

definition config_who_cmd :: "func cmd_element" where
  "config_who_cmd = defun ''who'' (Line Config_who)
    (doc [''Display who is on vty''])"

definition line_vty_cmd :: "func cmd_element" where
  "line_vty_cmd = defun ''line vty'' (Line Line_vty)
    (doc [''Configure a terminal line'', ''Virtual terminal''])"

definition exec_timeout_min_cmd :: "func cmd_element" where
  "exec_timeout_min_cmd = defun ''exec-timeout <0-35791>'' (Line Exec_timeout_min)
    (doc [''Set timeout value'', ''Timeout value in minutes''])"

definition exec_timeout_sec_cmd :: "func cmd_element" where
  "exec_timeout_sec_cmd = defun ''exec-timeout <0-35791> <0-2147483>'' (Line Exec_timeout_sec)
    (doc [''Set the EXEC timeout'', ''Timeout in minutes'', ''Timeout in seconds''])"

definition no_exec_timeout_cmd :: "func cmd_element" where
  "no_exec_timeout_cmd = defun ''no exec-timeout'' (Line No_exec_timeout)
    (doc [''Negate a command or set its defaults'', ''Set the EXEC timeout''])"

definition vty_access_class_cmd :: "func cmd_element" where
  "vty_access_class_cmd = defun ''access-class WORD'' (Line Vty_access_class)
    (doc [''Filter connections based on an IP access list'', ''IP access list''])"

definition no_vty_access_class_cmd :: "func cmd_element" where
  "no_vty_access_class_cmd = defun ''no access-class [WORD]'' (Line No_vty_access_class)
    (doc [''Negate a command or set its defaults'',
      ''Filter connections based on an IP access list'', ''IP access list''])"

definition vty_ipv6_access_class_cmd :: "func cmd_element" where
  "vty_ipv6_access_class_cmd = defun ''ipv6 access-class WORD'' (Line Vty_ipv6_access_class)
    (doc [''IPv6 information'', ''Filter connections based on an IP access list'',
      ''IPv6 access list''])"

definition no_vty_ipv6_access_class_cmd :: "func cmd_element" where
  "no_vty_ipv6_access_class_cmd = defun ''no ipv6 access-class [WORD]'' (Line No_vty_ipv6_access_class)
    (doc [''Negate a command or set its defaults'', ''IPv6 information'',
      ''Filter connections based on an IP access list'', ''IPv6 access list''])"

definition vty_login_cmd :: "func cmd_element" where
  "vty_login_cmd = defun ''login'' (Line Vty_login)
    (doc [''Enable password checking''])"

definition no_vty_login_cmd :: "func cmd_element" where
  "no_vty_login_cmd = defun ''no login'' (Line No_vty_login)
    (doc [''Negate a command or set its defaults'', ''Enable password checking''])"

definition service_advanced_vty_cmd :: "func cmd_element" where
  "service_advanced_vty_cmd = defun ''service advanced-vty'' (Line Service_advanced_vty)
    (doc [''Set up miscellaneous service'', ''Enable advanced mode vty interface''])"

definition no_service_advanced_vty_cmd :: "func cmd_element" where
  "no_service_advanced_vty_cmd = defun ''no service advanced-vty'' (Line No_service_advanced_vty)
    (doc [''Negate a command or set its defaults'', ''Set up miscellaneous service'',
      ''Enable advanced mode vty interface''])"

definition terminal_monitor_cmd :: "func cmd_element" where
  "terminal_monitor_cmd = defun ''terminal monitor'' (Line Terminal_monitor)
    (doc [''Set terminal line parameters'', ''Copy debug output to the current terminal line''])"

definition terminal_no_monitor_cmd :: "func cmd_element" where
  "terminal_no_monitor_cmd = defun ''terminal no monitor'' (Line Terminal_no_monitor)
    (doc [''Set terminal line parameters'', ''Negate a command or set its defaults'',
      ''Copy debug output to the current terminal line''])"

definition show_history_cmd :: "func cmd_element" where
  "show_history_cmd = defun ''show history'' (Line Show_history)
    (doc [''Show running system information'', ''Display the session command history''])"

definition show_netmt_help_cmd :: "func cmd_element" where
  "show_netmt_help_cmd = defun ''netmt help'' (Netmt Show_netmt_help)
    (doc [''Show running system information'', ''command help''])"

definition show_netmt_version_cmd :: "func cmd_element" where
  "show_netmt_version_cmd = defun ''show netmt version'' (Netmt Show_netmt_version)
    (doc [''Show running system information'', ''show netmt version''])"

definition show_status_netmt_cmd :: "func cmd_element" where
  "show_status_netmt_cmd = defun ''show netmt client'' (Netmt Show_status_netmt)
    (doc [''Show running system information'', ''show netmt client information''])"

definition show_netmt_client_addr_cmd :: "func cmd_element" where
  "show_netmt_client_addr_cmd = defun ''show client addr'' (Netmt Show_netmt_client_addr)
    (doc [''Show running system information'', ''show netmt client addr''])"

definition send_netmt_cmd :: "func cmd_element" where
  "send_netmt_cmd = defun ''send [FILENAME] to remote (all|group|type|single) [CLIENT] [FILENAME]'' (Netmt Send_netmt)
    (doc [''send filepath to remote all|client(ip) filepath''])"

definition get_netmt_cmd :: "func cmd_element" where
  "get_netmt_cmd = defun ''get FILENAME from remote CLIENT FILENAME'' (Netmt Get_netmt)
    (doc [''get filepath from remote client(fd) filepath''])"

definition register_netmt_cmd :: "func cmd_element" where
  "register_netmt_cmd = defun ''register'' (Netmt Register_netmt)
    (doc [''Show running system information'', ''client register''])"

definition ping_netmt_cmd :: "func cmd_element" where
  "ping_netmt_cmd = defun ''ping IP'' (Netmt Ping_netmt)
    (doc [''Show running system information'', ''server ping client ip''])"

definition exec_shell_remote_cmd :: "func cmd_element" where
  "exec_shell_remote_cmd = defun ''exec shell remote (all|group|single) [WORD] [WORD] [WORD] [WORD] [WORD]'' (Netmt Exec_shell_remote)
    (doc [''Show running system information'', '' exec shell remote client ifconfig'',
      ''exec shell remote client(all | clientfd) tar -zxvf filepath''])"

section \<open>The commands of the server\<close>

text \<open>The output of a server command goes to the session.\<close>

definition chars_of :: "u8 list \<Rightarrow> string" where
  "chars_of bs = map (\<lambda>b. char_of (unat b)) bs"

definition on_app ::
  "(operator \<Rightarrow> (int \<times> operator) outcome) \<Rightarrow> operator session \<Rightarrow> (int \<times> operator session) outcome" where
  "on_app f s =
     after (f ((l_app (s_lib s))\<lparr>o_out := []\<rparr>)) (\<lambda>(ret, u).
       Cont (ret, on_vty (vty_out (chars_of (o_out u))) (on_lib (\<lambda>l. l\<lparr>l_app := u\<rparr>) s)))"

definition CRLF_s :: string where "CRLF_s = [CHR 0x0D, LF]"

definition options :: string where "options = ''hvc:ts:dp:o''"

definition detail_options :: string where
  "detail_options = concat (map ((@) CRLF_s)
     [''netmt help                 Print this information'',
      ''show version              Print version'',
      ''-c|--confile <confile>    Set configure file, default etc/{program}.conf'',
      ''-t|--test                 Test configure file and exit'',
      ''-d|--daemon               Daemonize'',
      ''-p|--port <port>          Set listen port'',
      ''-o|--basic command        common command: ls, mkdir, rm, touch, cat, vim'',
      ''-s|--send command         send (fd) string(like ls, rm ...) or only invalid string'',
      ''show netmt client    show client information ''])"

definition default_version :: string where
  "default_version = CRLF_s @ ''Hello, this is NetMt Tool(version V0.0.1).'' @ CRLF_s @ ''Copyright 2021-2022 .'' @ CRLF_s"

definition printf_help :: "vty \<Rightarrow> vty" where
  "printf_help v = vty_out (''Options:'' @ detail_options @ CRLF_s) (vty_out (''Usage: '' @ options @ CRLF_s) v)"

definition show_help :: "vty \<Rightarrow> vty" where
  "show_help v = printf_help v"

definition netmt_show_version :: "vty \<Rightarrow> vty" where
  "netmt_show_version v = vty_out default_version v"

section \<open>What a command does\<close>

primrec run_base :: "func cmd_node vec \<Rightarrow> base_func \<Rightarrow> string list \<Rightarrow> 'x session \<Rightarrow> (int \<times> 'x session) outcome" where
  "run_base tbl Config_terminal argv s = Cont (config_terminal s)"
| "run_base tbl Enable argv s = Cont (enable s)"
| "run_base tbl Disable argv s = Cont (disable s)"
| "run_base tbl Config_exit argv s = config_exit s"
| "run_base tbl Config_end argv s = Cont (config_end s)"
| "run_base tbl Show_version argv s = show_version s"
| "run_base tbl Config_help argv s = config_help s"
| "run_base tbl Config_list argv s = config_list tbl s"
| "run_base tbl Config_write_file argv s = config_write_file tbl s"
| "run_base tbl Config_write_terminal argv s = config_write_terminal tbl s"
| "run_base tbl Show_startup_config argv s = show_startup_config s"

primrec run_host :: "host_func \<Rightarrow> string list \<Rightarrow> 'x session \<Rightarrow> (int \<times> 'x session) outcome" where
  "run_host Config_hostname argv s = config_hostname argv s"
| "run_host Config_no_hostname argv s = config_no_hostname s"
| "run_host Config_password argv s = config_password argv s"
| "run_host Config_enable_password argv s = config_enable_password argv s"
| "run_host No_config_enable_password argv s = no_config_enable_password s"
| "run_host Service_password_encrypt argv s = service_password_encrypt s"
| "run_host No_service_password_encrypt argv s = no_service_password_encrypt s"
| "run_host Config_terminal_length argv s = config_terminal_length argv s"
| "run_host Config_terminal_no_length argv s = config_terminal_no_length s"
| "run_host Service_terminal_length argv s = service_terminal_length argv s"
| "run_host No_service_terminal_length argv s = no_service_terminal_length s"
| "run_host Banner_motd_default argv s = banner_motd_default s"
| "run_host No_banner_motd argv s = no_banner_motd s"

primrec run_log :: "log_func \<Rightarrow> string list \<Rightarrow> 'x session \<Rightarrow> (int \<times> 'x session) outcome" where
  "run_log Config_log_stdout argv s = config_log_stdout s"
| "run_log No_config_log_stdout argv s = no_config_log_stdout s"
| "run_log Config_log_file argv s = config_log_file argv s"
| "run_log No_config_log_file argv s = no_config_log_file s"
| "run_log Config_log_syslog argv s = config_log_syslog s"
| "run_log Config_log_syslog_facility argv s = config_log_syslog_facility argv s"
| "run_log No_config_log_syslog argv s = no_config_log_syslog s"
| "run_log Config_log_trap argv s = config_log_trap argv s"
| "run_log No_config_log_trap argv s = no_config_log_trap s"
| "run_log Config_log_record_priority argv s = config_log_record_priority s"
| "run_log No_config_log_record_priority argv s = no_config_log_record_priority s"

primrec run_line :: "line_func \<Rightarrow> string list \<Rightarrow> 'x session \<Rightarrow> (int \<times> 'x session) outcome" where
  "run_line Config_who argv s = config_who s"
| "run_line Line_vty argv s = line_vty s"
| "run_line Exec_timeout_min argv s = exec_timeout_min argv s"
| "run_line Exec_timeout_sec argv s = exec_timeout_sec argv s"
| "run_line No_exec_timeout argv s = no_exec_timeout s"
| "run_line Vty_access_class argv s = vty_access_class argv s"
| "run_line No_vty_access_class argv s = no_vty_access_class argv s"
| "run_line Vty_ipv6_access_class argv s = vty_ipv6_access_class argv s"
| "run_line No_vty_ipv6_access_class argv s = no_vty_ipv6_access_class argv s"
| "run_line Vty_login argv s = vty_login s"
| "run_line No_vty_login argv s = no_vty_login s"
| "run_line Service_advanced_vty argv s = service_advanced_vty s"
| "run_line No_service_advanced_vty argv s = no_service_advanced_vty s"
| "run_line Terminal_monitor argv s = terminal_monitor s"
| "run_line Terminal_no_monitor argv s = terminal_no_monitor s"
| "run_line Show_history argv s = cmd_ok (on_vty show_history s)"

primrec run_netmt :: "cmd_env \<Rightarrow> netmt_func \<Rightarrow> string list \<Rightarrow> operator session \<Rightarrow> (int \<times> operator session) outcome" where
  "run_netmt e Show_netmt_help argv s = Cont (CMD_SUCCESS, on_vty show_help s)"
| "run_netmt e Show_netmt_version argv s = Cont (CMD_SUCCESS, on_vty netmt_show_version s)"
| "run_netmt e Show_status_netmt argv s = on_app (\<lambda>u. Cont (CMD_SUCCESS, show_netmt_client_status u)) s"
| "run_netmt e Show_netmt_client_addr argv s = on_app (\<lambda>u. Cont (CMD_SUCCESS, show_netmt_addr u)) s"
| "run_netmt e Send_netmt argv s = on_app (send_netmt e (map bytes_of argv)) s"
| "run_netmt e Get_netmt argv s = on_app (get_netmt e (map bytes_of argv)) s"
| "run_netmt e Register_netmt argv s = on_app (\<lambda>u. Cont (register_netmt e u)) s"
| "run_netmt e Ping_netmt argv s = on_app (ping_netmt e (map bytes_of argv)) s"
| "run_netmt e Exec_shell_remote argv s = on_app (exec_shell_remote e (map bytes_of argv)) s"

primrec run_command :: "cmd_env \<Rightarrow> func cmd_node vec \<Rightarrow> (func, operator) runner" where
  "run_command e tbl (Base f) = run_base tbl f"
| "run_command e tbl (Host f) = run_host f"
| "run_command e tbl (Log f) = run_log f"
| "run_command e tbl (Line f) = run_line f"
| "run_command e tbl (Netmt f) = run_netmt e f"

end
