(* ===== verification/VtyFlaws.thy ===== *)
theory VtyFlaws
  imports VtyLine
begin

text \<open>
  Inputs on which the byte machine of \<open>vty_read\<close> goes wrong: a telnet subnegotiation without data,
  completion at the end of a full buffer, control-Z in the middle of a line, and a correction while
  a password is typed.
\<close>

section \<open>Telnet\<close>

lemma read_iac: "\<not> vt_iac (s_vty s) \<Longrightarrow>
  read_loop tbl run (IAC # bs) s = read_loop tbl run bs (s\<lparr>s_vty := (s_vty s)\<lparr>vt_iac := True\<rparr>\<rparr>)"
  by (simp add: read_byte_def Let_def)

text \<open>C35. Whatever state a session is in, also before anyone has logged in: when \<open>IAC SB IAC SE\<close>
  arrives, an empty subnegotiation, the process reads through a NULL pointer.\<close>

theorem empty_subnegotiation_crashes:
  assumes "\<not> vt_iac (s_vty s)" "vt_sb_buffer (s_vty s) = Some b"
  shows "read_loop tbl run ([IAC, SB, IAC, SE] @ bs) s = Fault NullDeref"
proof -
  let ?s1 = "s\<lparr>s_vty := (s_vty s)\<lparr>vt_iac := True\<rparr>\<rparr>"
  let ?s2 = "s\<lparr>s_vty := (s_vty s)\<lparr>vt_iac := False, vt_sb_buffer := Some (buffer_reset b), vt_sb := True\<rparr>\<rparr>"
  let ?s3 = "?s2\<lparr>s_vty := (s_vty ?s2)\<lparr>vt_iac := True\<rparr>\<rparr>"
  have "read_byte tbl run SB (IAC # SE # bs) ?s1 = Cont (0, ?s2)"
    using assms by (simp add: read_byte_def vty_telnet_option_def SB_def IAC_def Let_def)
  then have "read_loop tbl run (SB # IAC # SE # bs) ?s1 = read_loop tbl run (IAC # SE # bs) ?s2" by simp
  also have "\<dots> = read_loop tbl run (SE # bs) ?s3" by (rule read_iac) simp
  also have "read_byte tbl run SE bs ?s3 = Fault NullDeref"
    by (simp add: read_byte_def vty_telnet_option_def SE_def SB_def IAC_def Let_def buffer_reset_def)
  then have "read_loop tbl run (SE # bs) ?s3 = Fault NullDeref" by simp
  finally show ?thesis using read_iac [OF assms(1), of tbl run "SB # IAC # SE # bs"] by simp
qed

lemma empty_subnegotiation_crashes_witness:
  "read_loop ex_table (\<lambda>f argv s. Cont (0, s)) ([IAC, SB, IAC, SE] @ ''exit'') (ex_session AUTH_NODE) = Fault NullDeref"
  by (rule empty_subnegotiation_crashes [OF _ ex_session_facts(6)])
    (simp add: ex_session_facts(3) [unfolded ready_def])

declare read_loop.simps(2) [simp del]

section \<open>Typing\<close>

definition typeable :: "vty \<Rightarrow> string \<Rightarrow> bool" where
  "typeable v w \<longleftrightarrow> plain w \<and> (in_auth v \<or> CHR ''?'' \<notin> set w)"

lemma typed_key:
  assumes "plain [c]" "in_auth (s_vty s) \<or> c \<noteq> CHR ''?''"
  shows "plain_key tbl run c s = Cont (type_char c s)"
proof (cases "c = CHR ''?''")
  case True
  then show ?thesis using assms(2) by (simp add: plain_key_def)
qed (use plain_key_typed(1) assms(1) in blast)

lemma typed_not_special: "plain [c] \<Longrightarrow> c \<noteq> IAC \<and> c \<noteq> CHR 0x1B"
  by (auto simp: IAC_def)

lemma typed_read:
  "holds (s_vty s) l r t \<Longrightarrow> plain r \<Longrightarrow> typeable (s_vty s) w \<Longrightarrow> ready (s_vty s) \<Longrightarrow>
     \<exists>v' t'. (\<forall>bs. read_loop tbl run (w @ bs) s = read_loop tbl run bs (s\<lparr>s_vty := v'\<rparr>))
       \<and> refined (s_vty s) l r v' (l @ w) r t'
       \<and> (clean (s_vty s) t \<and> length l + length w + length r \<le> 510 \<longrightarrow> clean v' t')"
proof (induction w arbitrary: s l t)
  case Nil
  then show ?case
    using refined_refl [OF Nil(1)] by (intro exI [where x = "s_vty s"] exI [where x = t]) simp
next
  case (Cons c w)
  let ?v = "vty_self_insert (l_heap (s_lib s)) c (s_vty s)"
  have pc: "plain [c]" "in_auth (s_vty s) \<or> c \<noteq> CHR ''?''" using Cons.prems(3) by (auto simp: typeable_def)
  obtain t1 where 1: "refined (s_vty s) l r ?v (l @ [c]) r t1" "clean (s_vty s) t \<longrightarrow> 3 \<le> length t \<longrightarrow> clean ?v t1"
    using refined_insert [OF Cons.prems(1) pc(1) Cons.prems(2)] by blast
  have f1: "frame (s_vty s) ?v" using 1(1) by (simp add: refined_def)
  have rd: "read_loop tbl run ((c # w) @ bs) s = read_loop tbl run (w @ bs) (s\<lparr>s_vty := ?v\<rparr>)" for bs
    using read_plain [OF Cons.prems(4) _ _ typed_key [OF pc]] typed_not_special [OF pc(1)]
    by (simp add: type_char_def on_vty_def)
  obtain v' t' where 2: "\<forall>bs. read_loop tbl run (w @ bs) (s\<lparr>s_vty := ?v\<rparr>) = read_loop tbl run bs (s\<lparr>s_vty := ?v\<rparr>\<lparr>s_vty := v'\<rparr>)"
    "refined ?v (l @ [c]) r v' ((l @ [c]) @ w) r t'"
    "clean ?v t1 \<and> length (l @ [c]) + length w + length r \<le> 510 \<longrightarrow> clean v' t'"
    using Cons.IH [of "s\<lparr>s_vty := ?v\<rparr>" "l @ [c]" t1] refined_holds [OF 1(1)] Cons.prems(2,3,4)
      frame_auth [OF f1] frame_ready [OF f1] by (auto simp: typeable_def)
  have "3 \<le> length t" if "clean (s_vty s) t" "length l + length (c # w) + length r \<le> 510"
    using holds_short [OF Cons.prems(1) that(1)] that(2) by simp
  then show ?case
    using 1 2 rd refined_trans [OF 1(1) 2(2)]
    by (intro exI [where x = v'] exI [where x = t']) simp
qed

section \<open>Control-Z\<close>

lemma on_vty_simps [simp]:
  "s_vty (on_vty f s) = f (s_vty s)" "s_lib (on_vty f s) = s_lib s"
  by (simp_all add: on_vty_def)

lemma leave_config_holds:
  "holds (s_vty (leave_config ns s)) l r t = holds (s_vty s) l r t"
  "vt_type (s_vty (leave_config ns s)) = vt_type (s_vty s)"
  "ready (s_vty (leave_config ns s)) = ready (s_vty s)"
  "clean (s_vty (leave_config ns s)) t = clean (s_vty s) t"
  "s_lib (leave_config ns s) = (s_lib s)\<lparr>l_vty_config := l_vty_config (s_lib (leave_config ns s))\<rparr>"
  "vt_node (s_vty (leave_config ns s)) = (if vt_node (s_vty s) \<in> ns then ENABLE_NODE else vt_node (s_vty s))"
  by (simp_all add: leave_config_def set_node_def vty_config_unlock_def set_lock_def holds_def ready_def
      clean_def vt_max_def)

lemma prompt_holds:
  assumes "vt_type (s_vty s) = VTY_TERM" "cmd_prompt tbl (vt_node (s_vty s)) = Cont p"
  shows "\<exists>x. vty_prompt tbl s = Cont (on_vty (vty_out x) s)"
  using assms by (auto simp: vty_prompt_def)

lemma out_keeps:
  "ready (vty_out x v) = ready v" "vt_node (vty_out x v) = vt_node v" "vt_type (vty_out x v) = vt_type v"
  "in_auth (vty_out x v) = in_auth v" "clean (vty_out x v) t = clean v t" "vt_length (vty_out x v) = vt_length v"
  "vt_fail (vty_out x v) = vt_fail v" "vt_status (vty_out x v) = vt_status v"
  by (simp_all add: vty_out_def ready_def in_auth_def clean_def vt_max_def)

text \<open>Control-Z shows a new, empty prompt, but keeps what was typed: the next line is executed
  with the old one behind it.\<close>

theorem control_z_keeps_text:
  assumes "holds (s_vty s) l r t" "clean (s_vty s) t" "plain (l @ r)" "vt_type (s_vty s) = VTY_TERM" "ready (s_vty s)"
    and "n = (if vt_node (s_vty s) \<in> config_nodes then ENABLE_NODE else vt_node (s_vty s))"
    and "cmd_prompt tbl n = Cont p" "\<not> in_auth (s_vty s)"
    and "plain w" "CHR ''?'' \<notin> set w" "length w + length (l @ r) \<le> 510"
  shows "\<exists>s'. read_loop tbl run (CHR 0x1A # w @ [CHR 0x0D]) s = execute_line tbl run (w @ l @ r) s'"
proof -
  let ?s1 = "leave_config config_nodes (on_vty (vty_line []) s)"
  have 1: "holds (s_vty ?s1) l r t" "clean (s_vty ?s1) t" "vt_type (s_vty ?s1) = VTY_TERM" "ready (s_vty ?s1)"
    "vt_node (s_vty ?s1) = n"
    using assms holds_out [of "s_vty s" l r t] by (auto simp: leave_config_holds vty_line_def out_keeps)
  obtain x where x: "vty_prompt tbl ?s1 = Cont (on_vty (vty_out x) ?s1)"
    using prompt_holds [OF 1(3)] 1(5) assms(7) by auto
  define s2 where "s2 = on_vty (\<lambda>v. (vty_out x v)\<lparr>vt_cp := 0\<rparr>) ?s1"
  have z: "plain_key tbl run (CHR 0x1A) s = Cont s2"
    using x by (simp add: plain_key_def vty_end_config_def s2_def)
  have h2: "holds (s_vty s2) [] (l @ r) t" "ready (s_vty s2)" "clean (s_vty s2) t" "vt_type (s_vty s2) = VTY_TERM"
    using holds_out [OF 1(1,3), of x] 1 out_keeps [of x "s_vty ?s1"]
    by (auto simp: s2_def holds_def ready_def clean_def vt_max_def)
  have a2: "\<not> in_auth (s_vty s2)"
    using assms(6,8) 1(5) out_keeps(2) [of x "s_vty ?s1"] by (auto simp: s2_def in_auth_def config_nodes_def split: if_splits)
  obtain v' t' where 3: "\<forall>bs. read_loop tbl run (w @ bs) s2 = read_loop tbl run bs (s2\<lparr>s_vty := v'\<rparr>)"
    "refined (s_vty s2) [] (l @ r) v' ([] @ w) (l @ r) t'" "clean v' t'"
    using typed_read [OF h2(1) assms(3) _ h2(2), of w tbl run] assms(9-11) h2(3) by (auto simp: typeable_def)
  have f: "frame (s_vty s2) v'" and h3: "holds v' w (l @ r) t'" using 3(2) by (simp_all add: refined_def)
  have ty: "vt_type v' = VTY_TERM" using frame_same(4) [OF f] h2(4) by simp
  have b: "buf_string (vty_line [] v') = Cont (w @ l @ r)"
    using clean_buf_string [OF holds_out [OF h3 ty]] 3(3) assms(3,9) by (simp add: vty_line_def out_keeps)
  have "read_loop tbl run [CHR 0x0D] (s2\<lparr>s_vty := v'\<rparr>) = execute_line tbl run (w @ l @ r) (on_vty (vty_line []) (s2\<lparr>s_vty := v'\<rparr>))"
    using newline_key [of "s2\<lparr>s_vty := v'\<rparr>" "CHR 0x0D" tbl run] frame_ready [OF f] h2(2) b frame_auth [OF f] a2
      execute_line [of "on_vty (vty_line []) (s2\<lparr>s_vty := v'\<rparr>)" "w @ l @ r" tbl run] by (simp add: vty_line_def out_keeps)
  moreover have "read_loop tbl run (CHR 0x1A # w @ [CHR 0x0D]) s = read_loop tbl run (w @ [CHR 0x0D]) s2"
    by (rule read_plain [OF assms(5) _ _ z]) (simp_all add: IAC_def)
  ultimately show ?thesis using 3(1) by auto
qed

lemma ex_prompt: "cmd_prompt ex_table VIEW_NODE = Cont ''> ''"
  using ex_table_facts(2) by (simp add: cmd_prompt_def ex_node_def)

lemma control_z_keeps_text_witness:
  "\<exists>s'. read_loop ex_table (\<lambda>f argv s. Cont (0, s)) (CHR 0x1A # ''list'' @ [CHR 0x0D])
       ((ex_session VIEW_NODE)\<lparr>s_vty := vty_self_insert (\<lambda>n. []) CHR ''x'' (s_vty (ex_session VIEW_NODE))\<rparr>)
     = execute_line ex_table (\<lambda>f argv s. Cont (0, s)) ''listx'' s'"
proof -
  note e = ex_session_facts [of VIEW_NODE]
  let ?v = "vty_self_insert (\<lambda>n. []) CHR ''x'' (s_vty (ex_session VIEW_NODE))"
  obtain t where t: "refined (s_vty (ex_session VIEW_NODE)) [] [] ?v ''x'' [] t" "clean ?v t"
    using refined_insert [OF e(1), of "CHR ''x''" "\<lambda>n. []"] e(2) by auto
  then have f: "frame (s_vty (ex_session VIEW_NODE)) ?v" by (simp add: refined_def)
  show ?thesis
    using control_z_keeps_text [of "(ex_session VIEW_NODE)\<lparr>s_vty := ?v\<rparr>" "''x''" "[]" t VIEW_NODE ex_table "''> ''" "''list''"]
      refined_holds [OF t(1)] t(2) frame_ready [OF f] frame_auth [OF f] e ex_prompt frame_same(1,4) [OF f]
    by (simp add: config_nodes_def)
qed

section \<open>A correction in a password\<close>

lemma auth_rubout:
  assumes "holds (s_vty s) (l @ [c]) r t" "in_auth (s_vty s)" "ready (s_vty s)"
  shows "read_loop tbl run (CHR 0x7F # bs) s = read_loop tbl run bs (on_vty vty_backward_char s)"
proof (rule read_plain [OF assms(3)])
  have "vt_cp (s_vty s) \<noteq> 0" using assms(1) by (simp add: holds_def)
  moreover have "in_auth (vty_backward_char (s_vty s))"
    using assms(2) frame_auth [OF edited_frame [OF edited_backward_char [OF assms(1)]]] by simp
  ultimately show "plain_key tbl run (CHR 0x7F) s = Cont (on_vty vty_backward_char s)"
    by (simp add: plain_key_def vty_delete_backward_char_def vty_delete_char_def)
qed (simp_all add: IAC_def)

lemma auth_refused:
  assumes "vt_node (s_vty s) = AUTH_NODE" "vt_fail (s_vty s) < 2" "strcmp buf p \<noteq> 0"
    and "auth_password (s_host s) AUTH_NODE = Some p"
  shows "vty_auth buf s = s\<lparr>s_vty := (s_vty s)\<lparr>vt_fail := vt_fail (s_vty s) + 1\<rparr>\<rparr>"
  using assms by (simp add: vty_auth_def Let_def)

text \<open>While a password is asked for, the erase key moves the cursor and erases nothing. Someone
  who types a wrong character, erases it and goes on with the right password is refused.\<close>

theorem corrected_password_refused:
  assumes "holds (s_vty s) [] [] t" "clean (s_vty s) t" "ready (s_vty s)" "vt_type (s_vty s) = VTY_TERM"
    and "vt_status (s_vty s) = VTY_NORMAL"
    and "vt_node (s_vty s) = AUTH_NODE" "cmd_prompt tbl AUTH_NODE = Cont p" "vt_fail (s_vty s) < 2"
    and "auth_password (s_host s) AUTH_NODE = Some (w @ w')" "plain (w @ [c] @ w')" "length (w @ [c] @ w') \<le> 510"
  shows "\<exists>s'. read_loop tbl run (w @ [c, CHR 0x7F] @ w' @ [CHR 0x0D]) s = Cont s'
    \<and> vt_node (s_vty s') = AUTH_NODE \<and> vt_fail (s_vty s') = vt_fail (s_vty s) + 1 \<and> s_lib s' = s_lib s"
proof -
  have a: "in_auth (s_vty s)" using assms(6) by (simp add: in_auth_def)
  obtain v1 t1 where 1: "\<forall>bs. read_loop tbl run ((w @ [c]) @ bs) s = read_loop tbl run bs (s\<lparr>s_vty := v1\<rparr>)"
    "refined (s_vty s) [] [] v1 ([] @ w @ [c]) [] t1" "clean v1 t1"
    using typed_read [OF assms(1) _ _ assms(3), of "w @ [c]" tbl run] assms(2,10,11) a by (auto simp: typeable_def)
  have f1: "frame (s_vty s) v1" and h1: "holds v1 (w @ [c]) [] t1" using 1(2) by (simp_all add: refined_def)
  note e = edited_backward_char [OF h1]
  let ?v2 = "vty_backward_char v1"
  have f2: "frame (s_vty s) ?v2" by (rule frame_trans [OF f1 edited_frame [OF e]])
  have 2: "read_loop tbl run (CHR 0x7F # bs) (s\<lparr>s_vty := v1\<rparr>) = read_loop tbl run bs (s\<lparr>s_vty := ?v2\<rparr>)" for bs
    using auth_rubout [of "s\<lparr>s_vty := v1\<rparr>" w c "[]" t1] h1 a frame_auth [OF f1] frame_ready [OF f1] assms(3)
    by (simp add: on_vty_def)
  have "clean ?v2 t1" using e 1(3) by (simp add: edited_def)
  then obtain v3 t3 where 3: "\<forall>bs. read_loop tbl run (w' @ bs) (s\<lparr>s_vty := ?v2\<rparr>) = read_loop tbl run bs (s\<lparr>s_vty := v3\<rparr>)"
    "refined ?v2 w [c] v3 (w @ w') [c] t3" "clean v3 t3"
    using typed_read [of "s\<lparr>s_vty := ?v2\<rparr>" w "[c]" t1 w' tbl run] edited_holds [OF e] assms(3,10,11) a
      frame_auth [OF f2] frame_ready [OF f2] by (auto simp: typeable_def)
  have f3: "frame (s_vty s) v3" and h3: "holds v3 (w @ w') [c] t3"
    using 3(2) frame_trans [OF f2] by (simp_all add: refined_def)
  have ty: "vt_type v3 = VTY_TERM" using frame_same(4) [OF f3] assms(4) by simp
  let ?s4 = "s\<lparr>s_vty := vty_line [] v3\<rparr>"
  have b: "buf_string (vty_line [] v3) = Cont (w @ w' @ [c])"
    using clean_buf_string [OF holds_out [OF h3 ty]] 3(3) assms(10) by (simp add: vty_line_def out_keeps)
  have fl: "vt_fail (vty_line [] v3) = vt_fail (s_vty s)" "vt_node (vty_line [] v3) = AUTH_NODE"
    "vt_status (vty_line [] v3) = VTY_NORMAL" "vt_type (vty_line [] v3) = VTY_TERM" "in_auth (vty_line [] v3)"
    using f3 assms(4-6) a by (auto simp: vty_line_def vty_out_def frame_def in_auth_def)
  have "vty_auth (w @ w' @ [c]) ?s4 = ?s4\<lparr>s_vty := (s_vty ?s4)\<lparr>vt_fail := vt_fail (s_vty s) + 1\<rparr>\<rparr>"
    using auth_refused [of ?s4 "w @ w' @ [c]" "w @ w'"] fl assms(8,9) by (simp add: strcmp_eq_0 s_host_def)
  moreover have "vty_execute tbl run ?s4 = prompt_after tbl (on_vty clear_line (vty_auth (w @ w' @ [c]) ?s4))"
    using b fl(5) by (simp add: vty_execute_def)
  moreover have "read_loop tbl run [CHR 0x0D] (s\<lparr>s_vty := v3\<rparr>) = vty_execute tbl run ?s4"
    using newline_key [of "s\<lparr>s_vty := v3\<rparr>" "CHR 0x0D" tbl run] frame_ready [OF f3] assms(3) by (simp add: on_vty_def)
  moreover obtain s5 where s5: "s5 = on_vty clear_line (?s4\<lparr>s_vty := (s_vty ?s4)\<lparr>vt_fail := vt_fail (s_vty s) + 1\<rparr>\<rparr>)"
    by simp
  moreover have n5: "vt_node (s_vty s5) = AUTH_NODE" "vt_type (s_vty s5) = VTY_TERM" "vt_status (s_vty s5) = VTY_NORMAL"
    "vt_fail (s_vty s5) = vt_fail (s_vty s) + 1" "s_lib s5 = s_lib s"
    using fl by (simp_all add: s5 clear_line_def vty_clear_buf_def)
  moreover obtain x where "vty_prompt tbl s5 = Cont (on_vty (vty_out x) s5)"
    using prompt_holds [OF n5(2)] n5(1) assms(7) by auto
  ultimately have "read_loop tbl run [CHR 0x0D] (s\<lparr>s_vty := v3\<rparr>) = Cont (on_vty (vty_out x) s5)"
    by (simp add: prompt_after_def)
  then show ?thesis using 1(1) 2 3(1) n5 by (auto simp: out_keeps)
qed

definition auth_table :: "nat cmd_node vec" where
  "auth_table = vector_set_index (node_num AUTH_NODE)
     (Some \<lparr>cn_node = AUTH_NODE, cn_prompt = ''Password: '', cn_vtysh = 0, cn_func = None, cn_vector = vector_init 1\<rparr>) (vector_init 1)"

lemma auth_prompt: "cmd_prompt auth_table AUTH_NODE = Cont ''Password: ''"
  by (simp add: auth_table_def cmd_prompt_def node_num_def all_nodes_def vector_slot_def vector_set_index_def
      vector_init_def vector_double_def Let_def vector_ensure.simps)

lemma corrected_password_refused_witness:
  "\<exists>s'. read_loop auth_table (\<lambda>f argv s. Cont (0, s)) (''p'' @ [CHR ''x'', CHR 0x7F] @ ''w'' @ [CHR 0x0D]) (ex_session AUTH_NODE)
       = Cont s' \<and> vt_node (s_vty s') = AUTH_NODE \<and> vt_fail (s_vty s') = 1 \<and> s_lib s' = ex_lib"
proof -
  note e = ex_session_facts [of AUTH_NODE]
  have x: "vt_fail (s_vty (ex_session AUTH_NODE)) = 0" "vt_status (s_vty (ex_session AUTH_NODE)) = VTY_NORMAL"
    "s_lib (ex_session AUTH_NODE) = ex_lib" "auth_password (s_host (ex_session AUTH_NODE)) AUTH_NODE = Some (''p'' @ ''w'')"
    by (simp_all add: ex_session_def new_session_def vty_new_def s_host_def ex_lib_def auth_password_def or_else_def)
  show ?thesis
    using corrected_password_refused [OF e(1,2,3,4) x(2) e(7) auth_prompt _ x(4), of "CHR ''x''"] x
    by simp
qed

section \<open>Completion in a full line\<close>

lemma strvec_indented:
  assumes "token p" "hd p \<noteq> CHR ''!''" "hd p \<noteq> CHR ''#''"
  shows "cmd_make_strvec (Some (blanks n @ p)) = Some [p]"
proof -
  obtain c cs where p: "p = c # cs" "\<not> c_isspace c" using assms(1) by (elim tokenE)
  have "dropWhile c_isspace (blanks n @ p) = p"
    using p by (subst dropWhile_append2) (auto simp: blanks_def c_isspace_def)
  moreover have "strvec_loop p = [p]" using strvec_loop_word [OF assms(1), of "[]" "[]"] by simp
  ultimately show ?thesis using p assms(2,3) by (simp add: cmd_make_strvec_def)
qed

lemma redraw_holds: "holds v l [] t \<Longrightarrow> holds (vty_redraw_line v) l [] t"
  by (simp add: holds_def vty_redraw_line_def Let_def vty_write_def buf_ok_write)

lemma redraw_clean: "clean (vty_redraw_line v) t = clean v t"
  by (simp add: clean_def vty_redraw_line_def Let_def vty_write_def vt_max_def)

text \<open>C36. Completion copies the word it found into the line buffer without looking at its size. When
  only one word can follow, and it does not fit behind the blanks of an indented line, TAB writes
  past the end of the buffer.\<close>

theorem completion_overruns:
  assumes "holds (s_vty s) (blanks n @ p) [] t" "clean (s_vty s) t" "ready (s_vty s)" "vt_type (s_vty s) = VTY_TERM"
    and "\<not> in_auth (s_vty s)" "plain p" "token p" "CHR '' '' \<notin> set p" "hd p \<noteq> CHR ''!''" "hd p \<noteq> CHR ''#''"
    and "cmd_prompt tbl (vt_node (s_vty s)) = Cont pr"
    and "cmd_complete_command tbl (vt_node (s_vty s)) [] (Some p) = Cont (CMD_COMPLETE_FULL_MATCH, Some [w])"
    and "n + length w \<ge> 512"
  shows "read_loop tbl run (CHR 0x09 # bs) s = Fault Overrun"
proof -
  have pl: "plain (blanks n @ p)" using assms(6) by simp
  have b: "buf_string (s_vty s) = Cont (blanks n @ p)" using clean_buf_string [OF assms(1,2)] pl by simp
  obtain c cs where p: "p = cs @ [c]" using assms(7) by (cases p rule: rev_cases) (auto simp: token_def)
  then have "\<not> c_isspace c" using assms(7) by (auto simp: token_def)
  moreover have "vt_buf (s_vty s) ! (vt_length (s_vty s) - 1) = c" "vt_length (s_vty s) \<noteq> 0" "\<not> vt_max (s_vty s) < vt_length (s_vty s)"
    using assms(1) p by (auto simp: holds_def nth_append vt_max_def)
  ultimately have lw: "line_words (s_vty s) = Cont (Some ([], Some p))"
    using b strvec_indented [OF assms(7,9,10), of n] by (simp add: line_words_def last_char_def split_last_def)
  let ?v1 = "vty_line [] (s_vty s)"
  have h1: "holds ?v1 (blanks n @ p) [] t" using holds_out [OF assms(1,4)] by (simp add: vty_line_def)
  obtain x where x: "vty_prompt tbl (on_vty (vty_line []) s) = Cont (on_vty (vty_out x) (on_vty (vty_line []) s))"
    using prompt_holds [of "on_vty (vty_line []) s" tbl] assms(4,11) by (auto simp: vty_line_def out_keeps)
  let ?v2 = "vty_redraw_line (vty_out x ?v1)"
  have ty: "vt_type ?v1 = VTY_TERM" using assms(4) by (simp add: vty_line_def out_keeps)
  have h2: "holds ?v2 (blanks n @ p) [] t" by (rule redraw_holds [OF holds_out [OF h1 ty]])
  have c2: "clean ?v2 t" using assms(2) by (simp add: redraw_clean vty_line_def out_keeps)
  have dp: "dropWhile nonblank (rev (blanks n @ p)) = rev (blanks n)" "takeWhile nonblank (rev (blanks n @ p)) = rev p"
  proof -
    have np: "\<forall>x \<in> set (rev p). nonblank x" using assms(8) by (auto simp: nonblank_def)
    show "dropWhile nonblank (rev (blanks n @ p)) = rev (blanks n)"
      using np dropWhile_append2 [of "rev p" nonblank "rev (blanks n)"]
      by (cases n) (simp_all add: blanks_def nonblank_def replicate_append_same)
    show "takeWhile nonblank (rev (blanks n @ p)) = rev p"
      using np takeWhile_append2 [of "rev p" nonblank "rev (blanks n)"]
      by (cases n) (simp_all add: blanks_def nonblank_def replicate_append_same)
  qed
  obtain v3 where v3: "vty_backward_pure_word ?v2 = Cont v3" "edited ?v2 (blanks n @ p) [] t v3 (blanks n) p t"
    using edited_backward_loop [OF h2, of nonblank] dp by (auto simp: vty_backward_pure_word_def)
  have "vt_cp v3 = n" "vt_max v3 = 512"
    using v3(2) c2 by (auto simp: edited_def refined_def holds_def clean_def VTY_BUFSIZ_def)
  then have "vty_insert_word_overwrite w v3 = Fault Overrun" using assms(13) by (simp add: vty_insert_word_overwrite_def)
  then have "vty_complete_command tbl s = Fault Overrun"
    using assms(5,12) lw x v3(1)
    by (simp add: vty_complete_command_def insert_completion_def reprompt_def vty_m_def CMD_COMPLETE_FULL_MATCH_def
        CMD_ERR_AMBIGUOUS_def CMD_ERR_NO_MATCH_def CMD_ERR_NOTHING_TODO_def)
  then have "read_byte tbl run (CHR 0x09) bs s = Fault Overrun"
    using assms(3) by (simp add: read_byte_def ready_def input_key_def plain_key_def IAC_def no_skip_def Let_def)
  then show ?thesis by (simp add: read_loop.simps)
qed

lemma ex_complete:
  "cmd_complete_command ex_table VIEW_NODE [] (Some ''s'') = Cont (CMD_COMPLETE_FULL_MATCH, Some [''show''])"
proof -
  have "vec_ok (cn_vector ex_node)" using slot_some_ok [OF ex_table_facts(1,2)] by (simp add: node_ok_def)
  then have "slots (vector_copy (cn_vector ex_node)) = [Some ex_element]" using ex_table_facts(3) by simp
  moreover have "complete_with [] (Some ''s'') [Some ex_element] = (CMD_COMPLETE_FULL_MATCH, Some [''show''])"
    by code_simp
  ultimately show ?thesis using ex_table_facts(2) by (simp add: cmd_complete_command_def cmd_node_vector_def)
qed

lemma completion_overruns_witness:
  "\<exists>v. buf_string v = Cont (blanks 509 @ ''s'') \<and>
     read_loop ex_table (\<lambda>f argv s. Cont (0, s)) [CHR 0x09] ((ex_session VIEW_NODE)\<lparr>s_vty := v\<rparr>) = Fault Overrun"
proof -
  note e = ex_session_facts [of VIEW_NODE]
  have "typeable (s_vty (ex_session VIEW_NODE)) (blanks 509 @ ''s'')"
    using plain_blanks [of 509] by (simp add: typeable_def) (simp add: blanks_def)
  then obtain v t where 1: "refined (s_vty (ex_session VIEW_NODE)) [] [] v ([] @ blanks 509 @ ''s'') [] t" "clean v t"
    using typed_read [OF e(1) _ _ e(3), of "blanks 509 @ ''s''" ex_table "\<lambda>f argv s. Cont (0, s)"] e(2) by auto
  have h: "holds v (blanks 509 @ ''s'') [] t" and f: "frame (s_vty (ex_session VIEW_NODE)) v"
    using 1(1) by (simp_all add: refined_def)
  have "buf_string v = Cont (blanks 509 @ ''s'')" using clean_buf_string [OF h 1(2)] by simp
  moreover have "read_loop ex_table (\<lambda>f argv s. Cont (0, s)) [CHR 0x09] ((ex_session VIEW_NODE)\<lparr>s_vty := v\<rparr>) = Fault Overrun"
    using completion_overruns [of "(ex_session VIEW_NODE)\<lparr>s_vty := v\<rparr>" 509 "''s''" t ex_table "''> ''" "''show''" "\<lambda>f argv s. Cont (0, s)" "[]"]
      h 1(2) frame_ready [OF f] frame_auth [OF f] frame_same(1,4) [OF f] e ex_prompt ex_complete
    by (simp add: token_def c_isspace_def)
  ultimately show ?thesis by blast
qed

end
