(* ===== verification/VtyView.thy ===== *)
theory VtyView
  imports VtyFlaws
begin

text \<open>
  What the handlers of a session leave alone. \<open>view\<close> forgets the line, the output, the history and
  the telnet and escape states; every operation but the moves between nodes keeps the view, and only
  a command can change the library state otherwise. The first use: nothing runs before the login.
\<close>

section \<open>The view of a session\<close>

definition view :: "vty \<Rightarrow> vty" where
  "view v = v\<lparr>vt_obuf := buffer_new 0, vt_direct := [], vt_buf := [], vt_cp := 0, vt_length := 0, vt_hist := [],
     vt_hp := 0, vt_hindex := 0, vt_escape := ESC_NORMAL, vt_iac := False, vt_sb := False, vt_sb_buffer := None,
     vt_width := 0, vt_height := 0\<rparr>"

named_theorems view_simps \<open>operations that keep the view\<close>

lemma view_upd [view_simps]:
  "view (v\<lparr>vt_obuf := x1\<rparr>) = view v" "view (v\<lparr>vt_direct := x2\<rparr>) = view v" "view (v\<lparr>vt_buf := x3\<rparr>) = view v"
  "view (v\<lparr>vt_cp := n\<rparr>) = view v" "view (v\<lparr>vt_length := n\<rparr>) = view v" "view (v\<lparr>vt_hist := x4\<rparr>) = view v"
  "view (v\<lparr>vt_hp := n\<rparr>) = view v" "view (v\<lparr>vt_hindex := n\<rparr>) = view v" "view (v\<lparr>vt_escape := x5\<rparr>) = view v"
  "view (v\<lparr>vt_iac := b\<rparr>) = view v" "view (v\<lparr>vt_sb := b\<rparr>) = view v" "view (v\<lparr>vt_sb_buffer := x6\<rparr>) = view v"
  "view (v\<lparr>vt_width := i\<rparr>) = view v" "view (v\<lparr>vt_height := i\<rparr>) = view v"
  by (simp_all add: view_def)

lemma view_same:
  assumes "view v' = view v"
  shows "vt_fd v' = vt_fd v" "vt_type v' = vt_type v" "vt_node v' = vt_node v" "vt_fail v' = vt_fail v"
    "vt_status v' = vt_status v" "vt_config v' = vt_config v" "vt_lines v' = vt_lines v" "in_auth v' = in_auth v"
    "vt_t_read v' = vt_t_read v" "vt_t_write v' = vt_t_write v" "vt_t_timeout v' = vt_t_timeout v" "vt_v_timeout v' = vt_v_timeout v"
proof -
  have "f v' = f v" if "\<And>v. f (view v) = f v" for f :: "vty \<Rightarrow> 'z" using that assms by metis
  note e = this
  show "vt_fd v' = vt_fd v" "vt_type v' = vt_type v" "vt_node v' = vt_node v" "vt_fail v' = vt_fail v"
    "vt_status v' = vt_status v" "vt_config v' = vt_config v" "vt_lines v' = vt_lines v" "in_auth v' = in_auth v"
    "vt_t_read v' = vt_t_read v" "vt_t_write v' = vt_t_write v" "vt_t_timeout v' = vt_t_timeout v" "vt_v_timeout v' = vt_v_timeout v"
    by (rule e, simp add: view_def in_auth_def)+
qed

lemma view_pow [view_simps]: "(\<And>v. view (f v) = view v) \<Longrightarrow> view ((f ^^ n) v) = view v"
  by (induction n) auto

lemma view_fold: "(\<And>x v. view (f x v) = view v) \<Longrightarrow> view (fold f xs v) = view v"
  by (induction xs arbitrary: v) auto

lemma view_loop:
  assumes "loop b c v = Cont v' \<or> loop b c v = Ret v'" "\<And>v. view (c v) = view v"
  shows "view v' = view v"
proof -
  have "while_option b c v = Some v'" using assms(1) by (simp add: loop_def split: option.splits)
  then show ?thesis by (rule while_option_rule [where P = "\<lambda>u. view u = view v", rotated]) (simp_all add: assms(2))
qed

text \<open>The same for operations that may fault.\<close>

definition views :: "(vty \<Rightarrow> vty outcome) \<Rightarrow> bool" where
  "views f \<longleftrightarrow> (\<forall>v v'. f v = Cont v' \<or> f v = Ret v' \<longrightarrow> view v' = view v)"

lemma viewsD: "views f \<Longrightarrow> f v = Cont v' \<Longrightarrow> view v' = view v"
  by (auto simp: views_def)

lemma views_loop: "(\<And>v. view (c v) = view v) \<Longrightarrow> views (loop b c)"
  unfolding views_def using view_loop by blast

lemma views_after: "views f \<Longrightarrow> views g \<Longrightarrow> views (\<lambda>v. after (f v) g)"
proof -
  assume a: "views f" "views g"
  have "view v' = view v" if "after (f v) g = Cont v' \<or> after (f v) g = Ret v'" for v v'
    using that a by (cases "f v") (auto simp: views_def)
  then show ?thesis by (simp add: views_def)
qed

lemma views_Cont: "(\<And>v. view (f v) = view v) \<Longrightarrow> views (\<lambda>v. Cont (f v))"
  by (simp add: views_def)

lemma views_if: "views f \<Longrightarrow> views g \<Longrightarrow> views (\<lambda>v. if b v then f v else g v)"
  by (simp add: views_def)

section \<open>The editor keeps the view\<close>

lemma view_output [view_simps]:
  "view (vty_write x v) = view v" "view (vty_out x v) = view v" "view (vty_line x v) = view v"
  "view (poke n x v) = view v" "view (vty_ensure h n v) = view v"
  by (simp_all add: vty_write_def vty_out_def vty_line_def poke_def vty_ensure_def view_simps)

lemma view_edit [view_simps]:
  "view (vty_self_insert h c v) = view v" "view (vty_self_insert_overwrite h c v) = view v"
  "view (vty_forward_char v) = view v" "view (vty_backward_char v) = view v" "view (vty_redraw_line v) = view v"
  "view (delete_char v) = view v" "view (vty_kill_line v) = view v" "view (vty_clear_buf v) = view v"
  by (simp_all add: vty_self_insert_def vty_self_insert_overwrite_def vty_forward_char_def vty_backward_char_def
      vty_redraw_line_def delete_char_def vty_kill_line_def vty_clear_buf_def Let_def view_simps)

lemma view_line_ends [view_simps]: "view (vty_beginning_of_line v) = view v" "view (vty_end_of_line v) = view v"
proof -
  show "view (vty_beginning_of_line v) = view v"
    by (induction v rule: vty_beginning_of_line.induct) (subst vty_beginning_of_line.simps, simp add: view_simps)
  show "view (vty_end_of_line v) = view v"
    by (induction v rule: vty_end_of_line.induct) (subst vty_end_of_line.simps, simp add: view_simps)
qed

lemma view_edit2 [view_simps]:
  "view (delete_backward_char v) = view v" "view (vty_kill_line_from_beginning v) = view v"
  "view (vty_transpose_chars h v) = view v" "view (clear_line v) = view v"
  by (simp_all add: delete_backward_char_def vty_kill_line_from_beginning_def vty_transpose_chars_def clear_line_def
      Let_def view_simps)

lemma view_describe [view_simps]:
  "view (print_matched i ms v) = view v" "view (desc_line w c str v) = view v" "view (vty_describe_fold w d x v) = view v"
  "view (print_desc w d x v) = view v" "view (fold (print_desc w d) xs v) = view v"
proof -
  show "view (print_matched i ms v) = view v" by (induction i ms v rule: print_matched.induct) (auto simp: view_simps)
  show l: "view (desc_line w c str v) = view v" for c str v by (simp add: desc_line_def view_simps)
  have f: "view (fold (desc_line w []) ps v) = view v" for ps v by (rule view_fold) (rule l)
  show d: "view (vty_describe_fold w d x v) = view v" for x v
    by (simp add: vty_describe_fold_def l f split: list.splits)
  show p: "view (print_desc w d x v) = view v" for x v by (simp add: print_desc_def d l view_simps split: option.splits)
  show "view (fold (print_desc w d) xs v) = view v" by (rule view_fold) (rule p)
qed

lemma view_event: "in_auth (vty_event e v) = in_auth v"
  by (cases e) (simp_all add: in_auth_def)

lemma views_words:
  "views vty_forward_word" "views vty_backward_word" "views vty_backward_pure_word" "views vty_forward_kill_word"
  "views vty_backward_kill_word" "views (vty_insert_word_overwrite w)"
  unfolding vty_forward_word_def vty_backward_word_def vty_backward_pure_word_def vty_forward_kill_word_def
    vty_backward_kill_word_def
  by (auto intro!: views_after views_loop simp: view_simps) (auto simp: views_def vty_insert_word_overwrite_def Let_def view_simps)

lemma views_history: "views vty_history_print" "views vty_next_line" "views vty_previous_line" "views vty_hist_add"
proof -
  show p: "views vty_history_print"
    by (auto simp: views_def vty_history_print_def Let_def view_simps split: option.splits if_splits)
  have q: "view v' = view v" if "vty_history_print (v\<lparr>vt_hp := i\<rparr>) = Cont v' \<or> vty_history_print (v\<lparr>vt_hp := i\<rparr>) = Ret v'" for v v' i
    using p that unfolding views_def by (metis view_upd(7))
  show "views vty_next_line" "views vty_previous_line"
    using q by (auto simp: views_def vty_next_line_def vty_previous_line_def Let_def split: if_splits)
  have "view v' = view v" if "vty_hist_add v = Cont v' \<or> vty_hist_add v = Ret v'" for v v'
    using that by (cases "buf_string v") (auto simp: vty_hist_add_def Let_def view_simps split: if_splits)
  then show "views vty_hist_add" by (auto simp: views_def)
qed

lemma views_escape: "views (vty_escape_map c)" "views (pre_escape_key c)" "views (sb_put c)"
proof -
  note h = views_words views_history
  have n: "views (\<lambda>v. Cont (v\<lparr>vt_escape := x\<rparr>))" for x by (rule views_Cont) (rule view_simps)
  have i: "views Cont" "views (\<lambda>v. Cont (vty_forward_char v))" "views (\<lambda>v. Cont (vty_backward_char v))"
    by (auto simp: views_def view_simps)
  show "views (vty_escape_map c)" unfolding vty_escape_map_def by (intro views_after views_if h n i)
  show "views (pre_escape_key c)" unfolding pre_escape_key_def by (intro views_after views_if h n i)
  show "views (sb_put c)" by (auto simp: views_def sb_put_def view_simps split: option.splits)
qed

section \<open>Sessions\<close>

definition yields :: "'s outcome \<Rightarrow> ('s \<Rightarrow> bool) \<Rightarrow> bool" where
  "yields m P \<longleftrightarrow> (\<forall>x. m = Cont x \<or> m = Ret x \<longrightarrow> P x)"

lemma yields_simps [simp]:
  "yields (Cont x) P = P x" "yields (Ret x) P = P x" "yields (Fault e) P"
  by (auto simp: yields_def)

lemma yields_after: "yields m P \<Longrightarrow> (\<And>x. P x \<Longrightarrow> yields (f x) Q) \<Longrightarrow> yields (after m f) Q"
  by (cases m) auto

lemma yields_after': "(\<And>x. yields (f x) Q) \<Longrightarrow> yields (after m f) Q"
  by (cases m) auto

lemma yields_if: "yields m P \<Longrightarrow> yields n P \<Longrightarrow> yields (if b then m else n) P"
  by simp

lemma yields_mono: "yields m P \<Longrightarrow> (\<And>x. P x \<Longrightarrow> Q x) \<Longrightarrow> yields m Q"
  by (auto simp: yields_def)

lemma yieldsD: "yields m P \<Longrightarrow> m = Cont x \<Longrightarrow> P x"
  by (auto simp: yields_def)

lemma yields_views: "views f \<Longrightarrow> yields (f v) (\<lambda>v'. view v' = view v)"
  by (auto simp: views_def yields_def)

definition quiet :: "'x session \<Rightarrow> 'x session \<Rightarrow> bool" where
  "quiet s s' \<longleftrightarrow> s_lib s' = s_lib s \<and> view (s_vty s') = view (s_vty s)"

lemma quiet_refl [simp]: "quiet s s"
  by (simp add: quiet_def)

lemma quiet_trans: "quiet s1 s2 \<Longrightarrow> quiet s2 s3 \<Longrightarrow> quiet s1 s3"
  by (simp add: quiet_def)

lemma quiet_on_vty: "view (f (s_vty s)) = view (s_vty s) \<Longrightarrow> quiet s (on_vty f s)"
  by (simp add: quiet_def)

lemma quiet_then: "quiet s x \<Longrightarrow> view (f (s_vty x)) = view (s_vty x) \<Longrightarrow> quiet s (on_vty f x)"
  by (simp add: quiet_def)

lemma quiet_upd: "view v = view (s_vty s) \<Longrightarrow> quiet s (s\<lparr>s_vty := v\<rparr>)"
  by (simp add: quiet_def)

lemma quiet_same:
  assumes "quiet s s'"
  shows "vt_node (s_vty s') = vt_node (s_vty s)" "in_auth (s_vty s') = in_auth (s_vty s)" "s_lib s' = s_lib s"
  using assms view_same [of "s_vty s'" "s_vty s"] by (simp_all add: quiet_def)

lemma quiet_vty_m: "views f \<Longrightarrow> yields (vty_m f s) (quiet s)"
  unfolding vty_m_def by (rule yields_after [OF yields_views]) (simp_all add: quiet_upd)

text \<open>A step followed by a quiet one.\<close>

lemma yields_quiet: "quiet s s1 \<Longrightarrow> yields m (quiet s1) \<Longrightarrow> yields m (quiet s)"
  by (auto intro: yields_mono quiet_trans)

lemma quiet_prompt: "yields (vty_prompt tbl s) (quiet s)"
  unfolding vty_prompt_def by (auto intro!: yields_after' quiet_on_vty simp: view_simps)

lemma quiet_reprompt: "yields (reprompt tbl s) (quiet s)"
  unfolding reprompt_def
  by (rule yields_after [OF quiet_prompt]) (auto intro: quiet_then simp: view_simps)

lemma quiet_reprompt': "quiet s s1 \<Longrightarrow> yields (reprompt tbl s1) (quiet s)"
  by (rule yields_quiet [OF _ quiet_reprompt])

lemma quiet_prompt': "quiet s s1 \<Longrightarrow> yields (vty_prompt tbl s1) (quiet s)"
  by (rule yields_quiet [OF _ quiet_prompt])

lemma quiet_insert_completion: "quiet s s1 \<Longrightarrow> yields (insert_completion tbl w s1) (quiet s)"
  unfolding insert_completion_def
proof (rule yields_after [OF quiet_reprompt'])
  fix s2
  assume "quiet s s2"
  then show "yields (vty_m (\<lambda>v. after (vty_backward_pure_word v) (vty_insert_word_overwrite w)) s2) (quiet s)"
    by (rule yields_quiet [OF _ quiet_vty_m]) (intro views_after views_words)
qed

lemma quiet_complete: "yields (vty_complete_command tbl s) (quiet s)"
proof -
  have q: "quiet s (on_vty (vty_line x) s)" for x by (rule quiet_on_vty) (simp add: view_simps)
  have q2: "quiet s (on_vty f (on_vty (vty_line []) s))" if "\<And>v. view (f v) = view v" for f
    by (rule quiet_trans [OF q quiet_on_vty]) (rule that)
  have c: "yields (after (insert_completion tbl w (on_vty (vty_line []) s)) (\<lambda>s2. Cont (on_vty (vty_self_insert (l_heap (s_lib s2)) c) s2))) (quiet s)" for w c
    by (rule yields_after [OF quiet_insert_completion [OF q]]) (auto intro: quiet_then simp: view_simps)
  show ?thesis
    unfolding vty_complete_command_def
    by (auto intro!: yields_after' quiet_reprompt' quiet_insert_completion q c q2 simp: Let_def view_simps
        split: option.splits)
qed

lemma quiet_describe: "yields (vty_describe_command tbl s) (quiet s)"
proof -
  have q: "quiet s (on_vty f (on_vty (vty_line []) s))" if "\<And>v. view (f v) = view v" for f
    by (rule quiet_trans [OF quiet_on_vty quiet_on_vty]) (simp_all add: that view_simps)
  show ?thesis
    unfolding vty_describe_command_def
    by (auto intro!: yields_after' quiet_reprompt' q simp: Let_def view_simps split: prod.splits option.splits)
qed

lemma quiet_buffer_reset: "yields (vty_buffer_reset tbl s) (quiet s)"
  unfolding vty_buffer_reset_def by (intro quiet_reprompt' quiet_on_vty) (rule view_simps)

section \<open>Before the login\<close>

lemma leave_config_auth: "in_auth v \<Longrightarrow> v = s_vty s \<Longrightarrow> ns \<subseteq> config_nodes \<Longrightarrow> leave_config ns s = s"
  by (auto simp: leave_config_def in_auth_def config_nodes_def)

lemma stop_nodes_config: "stop_nodes \<subseteq> config_nodes"
  by (simp add: stop_nodes_def config_nodes_def)

text \<open>What a byte can do while a password is asked for.\<close>

definition auth_step :: "'x session \<Rightarrow> 'x session \<Rightarrow> bool" where
  "auth_step s s' \<longleftrightarrow> s_lib s' = s_lib s \<and> vt_config (s_vty s') = vt_config (s_vty s)
     \<and> (vt_node (s_vty s') = vt_node (s_vty s)
        \<or> (\<exists>p. auth_password (s_host s) (vt_node (s_vty s)) = Some p \<and> buf_string (s_vty s) = Cont p
              \<and> vt_node (s_vty s') = auth_next (s_host s) (vt_node (s_vty s)))
        \<or> vt_node (s_vty s) = AUTH_ENABLE_NODE \<and> vt_node (s_vty s') = VIEW_NODE \<and> vt_fail (s_vty s) \<ge> 2)"

lemma quiet_auth_step: "quiet s s' \<Longrightarrow> auth_step s s'"
  using view_same [of "s_vty s'" "s_vty s"] by (simp add: quiet_def auth_step_def)

lemma auth_step_quiet: "auth_step s s1 \<Longrightarrow> quiet s1 s2 \<Longrightarrow> auth_step s s2"
  using view_same [of "s_vty s2" "s_vty s1"] by (simp add: quiet_def auth_step_def)

lemma buf_string_line: "buf_string (vty_line x v) = buf_string v"
  by (simp add: vty_line_def vty_out_def buf_string_def)

lemma auth_step_auth:
  assumes "in_auth (s_vty s)" "buf_string (s_vty s) = Cont buf"
  shows "auth_step s (vty_auth buf (on_vty (vty_line []) s))"
proof -
  let ?v = "vty_line [] (s_vty s)" and ?n = "vt_node (s_vty s)"
  have v: "vt_node ?v = ?n" "vt_fail ?v = vt_fail (s_vty s)" "vt_config ?v = vt_config (s_vty s)"
    by (simp_all add: vty_line_def vty_out_def)
  have w: "vt_config (vty_line x u) = vt_config u" "vt_node (vty_line x u) = vt_node u" for x u
    by (simp_all add: vty_line_def vty_out_def)
  have h: "s_host (on_vty (vty_line []) s) = s_host s" by (simp add: s_host_def)
  show ?thesis
  proof (cases "auth_password (s_host s) ?n = Some buf")
    case True
    then show ?thesis using assms(2) v h by (simp add: auth_step_def vty_auth_def Let_def)
  next
    case False
    then have f: "(case auth_password (s_host s) ?n of None \<Rightarrow> True | Some p \<Rightarrow> strcmp buf p \<noteq> 0)"
      by (simp add: strcmp_eq_0 split: option.splits) blast
    show ?thesis
      using assms(1) f v w h by (simp add: auth_step_def vty_auth_def Let_def in_auth_def) (auto simp: v w)
  qed
qed

lemma execute_auth:
  assumes "in_auth (s_vty s)"
  shows "yields (vty_execute tbl run (on_vty (vty_line []) s)) (auth_step s)"
proof (cases "buf_string (s_vty s)")
  case (Cont buf)
  have "in_auth (vty_line [] (s_vty s))" using assms by (simp add: vty_line_def out_keeps)
  then have e: "vty_execute tbl run (on_vty (vty_line []) s)
      = prompt_after tbl (on_vty clear_line (vty_auth buf (on_vty (vty_line []) s)))"
    using Cont by (simp add: vty_execute_def buf_string_line)
  have q: "quiet (vty_auth buf (on_vty (vty_line []) s)) (on_vty clear_line (vty_auth buf (on_vty (vty_line []) s)))"
    by (rule quiet_on_vty) (simp add: view_simps)
  note a = auth_step_quiet [OF auth_step_auth [OF assms Cont] q]
  show ?thesis unfolding e prompt_after_def
    using a by (auto intro: yields_mono [OF quiet_prompt] auth_step_quiet)
next
  case (Ret buf)
  then show ?thesis by (simp add: buf_string_def split: if_splits)
next
  case (Fault e)
  then show ?thesis by (simp add: vty_execute_def buf_string_line)
qed

lemma plain_key_auth:
  assumes "in_auth (s_vty s)"
  shows "yields (plain_key tbl run c s) (auth_step s)"
proof -
  have q: "yields m (auth_step s)" if "yields m (quiet s)" for m
    using that by (rule yields_mono) (rule quiet_auth_step)
  have o: "auth_step s (on_vty f s)" if "view (f (s_vty s)) = view (s_vty s)" for f
    by (rule quiet_auth_step [OF quiet_on_vty]) (rule that)
  have m: "yields (vty_m f s) (auth_step s)" if "views f" for f using quiet_vty_m [OF that] by (rule q)
  have t: "auth_step s (type_char d s)" for d unfolding type_char_def by (rule o) (simp add: view_simps)
  have l: "leave_config ns (on_vty f s) = on_vty f s" if "ns \<subseteq> config_nodes" "view (f (s_vty s)) = view (s_vty s)" for ns f
  proof (rule leave_config_auth [OF _ _ that(1)])
    show "in_auth (f (s_vty s))" using view_same(8) [OF that(2)] assms by (rule ssubst)
  qed (rule on_vty_simps(1) [symmetric])
  have z: "yields (vty_end_config tbl s) (auth_step s)"
    unfolding vty_end_config_def using l [of config_nodes "vty_line []"]
    by (intro q yields_after [OF quiet_prompt'])
      (auto intro: quiet_then simp: view_simps)
  have st: "yields (vty_stop_input tbl s) (auth_step s)"
    unfolding vty_stop_input_def using l [of stop_nodes "\<lambda>v. vty_line [] (clear_line v)"] stop_nodes_config
    by (intro q yields_after [OF quiet_prompt'])
      (auto intro: quiet_then simp: view_simps)
  have d: "yields (vty_delete_char tbl s) (auth_step s)"
    using assms o [of id] by (simp add: vty_delete_char_def quiet_auth_step)
  have "in_auth (vty_backward_char (s_vty s))" using view_same(8) [OF view_edit(4)] assms by blast
  then have r: "yields (vty_delete_backward_char tbl s) (auth_step s)"
    by (simp add: vty_delete_backward_char_def vty_delete_char_def quiet_auth_step o view_simps)
  show ?thesis
    unfolding plain_key_def using assms
    by (simp add: o m t z st d r views_words views_history view_simps execute_auth q [OF quiet_complete] quiet_auth_step)
qed

lemma yields_no_skip: "yields m P \<Longrightarrow> yields (no_skip m) (\<lambda>(k, s). P s)"
  unfolding no_skip_def by (rule yields_after) simp_all

lemma more_key_quiet:
  "yields (more_key tbl c s) (\<lambda>s'. quiet s s' \<or> s' = on_vty (\<lambda>v. v\<lparr>vt_status := VTY_MORELINE\<rparr>) s)"
  unfolding more_key_def by (auto intro: yields_mono [OF quiet_buffer_reset])

text \<open>A byte is a paging key, part of an escape sequence or telnet command, or a key of its own.\<close>

lemma input_key_cases:
  assumes p: "yields (plain_key tbl run c s0) Q"
    and "\<And>s1. quiet s s1 \<Longrightarrow> Q s1"
    and "\<And>s1. quiet s s1 \<Longrightarrow> Q (on_vty (\<lambda>v. v\<lparr>vt_status := VTY_MORELINE\<rparr>) s1)"
    and q1: "quiet s s0"
  shows "yields (input_key tbl run c rest s0) (\<lambda>(k, s'). Q s')"
proof -
  have m: "yields (more_key tbl c s0) Q"
    by (rule yields_mono [OF more_key_quiet]) (use assms(2,3) q1 quiet_trans in blast)
  have e: "yields (vty_m f s0) Q" if "views f" for f
    using quiet_vty_m [OF that] by (rule yields_mono) (use assms(2) q1 quiet_trans in blast)
  have esc: "yields (let (k, v) = escape_key rest (s_vty s0) in Cont (k, s0\<lparr>s_vty := v\<rparr>)) (\<lambda>(k, s'). Q s')"
  proof -
    have "Q (s0\<lparr>s_vty := snd (escape_key rest (s_vty s0))\<rparr>)"
      by (rule assms(2), rule quiet_trans [OF q1 quiet_upd]) (simp add: escape_key_def view_simps)
    then show ?thesis by (simp add: case_prod_unfold Let_def)
  qed
  show ?thesis
    unfolding input_key_def
    using yields_no_skip [OF m] yields_no_skip [OF e [OF views_escape(1) [of c]]]
      yields_no_skip [OF e [OF views_escape(2) [of c]]] yields_no_skip [OF p] esc by presburger
qed

lemma read_byte_cases:
  assumes "\<And>s1. quiet s s1 \<Longrightarrow> vt_buf (s_vty s1) = vt_buf (s_vty s) \<Longrightarrow> yields (plain_key tbl run c s1) Q"
    and "\<And>s1. quiet s s1 \<Longrightarrow> Q s1"
    and "\<And>s1. quiet s s1 \<Longrightarrow> Q (on_vty (\<lambda>v. v\<lparr>vt_status := VTY_MORELINE\<rparr>) s1)"
  shows "yields (read_byte tbl run c rest s) (\<lambda>(k, s'). Q s')"
proof -
  define v where "v = (if c = IAC then (s_vty s)\<lparr>vt_iac := False\<rparr> else s_vty s)"
  have vv: "view v = view (s_vty s)" by (simp add: v_def view_simps)
  note q = quiet_upd [OF vv]
  have "vt_buf v = vt_buf (s_vty s)" by (simp add: v_def)
  then have "yields (plain_key tbl run c (s\<lparr>s_vty := v\<rparr>)) Q" using assms(1) [OF q] by simp
  then have i: "yields (input_key tbl run c rest (s\<lparr>s_vty := v\<rparr>)) (\<lambda>(k, s'). Q s')"
    by (rule input_key_cases [where s = s]) (use assms(2,3) q in blast)+
  have s: "yields (no_skip (after (sb_put c v) (\<lambda>v2. Cont (s\<lparr>s_vty := v2\<rparr>)))) (\<lambda>(k, s'). Q s')"
  proof (rule yields_no_skip, rule yields_after [OF yields_views [OF views_escape(3)]])
    fix v2
    assume "view v2 = view v"
    then show "yields (Cont (s\<lparr>s_vty := v2\<rparr>)) Q" using assms(2) quiet_upd [of v2 s] vv by simp
  qed
  have t: "yields (after (vty_telnet_option c v) (\<lambda>(ret, v2). Cont (ret, s\<lparr>s_vty := v2\<lparr>vt_iac := False\<rparr>\<rparr>))) (\<lambda>(k, s'). Q s')"
  proof (rule yields_after [where P = "\<lambda>(k, v2). view v2 = view (s_vty s)"])
    show "yields (vty_telnet_option c v) (\<lambda>(k, v2). view v2 = view (s_vty s))"
      by (simp add: vty_telnet_option_def sub_option_def view_simps vv split: option.splits list.splits)
    fix x :: "nat \<times> vty"
    assume "case x of (k, v2) \<Rightarrow> view v2 = view (s_vty s)"
    then show "yields (case x of (ret, v2) \<Rightarrow> Cont (ret, s\<lparr>s_vty := v2\<lparr>vt_iac := False\<rparr>\<rparr>)) (\<lambda>(k, s'). Q s')"
      using assms(2) quiet_upd [of "snd x\<lparr>vt_iac := False\<rparr>" s] by (auto simp: view_simps split: prod.splits)
  qed
  have a: "yields (Cont (0, s\<lparr>s_vty := (s_vty s)\<lparr>vt_iac := True\<rparr>\<rparr>)) (\<lambda>(k, s'). Q s')"
    using assms(2) quiet_upd [of "(s_vty s)\<lparr>vt_iac := True\<rparr>" s] by (simp add: view_simps)
  show ?thesis unfolding read_byte_def Let_def v_def [symmetric] by (intro yields_if a s t i)
qed

lemma input_key_run:
  assumes "in_auth (s_vty s)"
  shows "input_key tbl run' c rest s = input_key tbl run c rest s"
proof -
  have "vty_execute tbl run' (on_vty (vty_line []) s) = vty_execute tbl run (on_vty (vty_line []) s)"
    using assms by (simp add: vty_execute_def vty_line_def out_keeps)
  then have "plain_key tbl run' c s = plain_key tbl run c s" by (simp only: plain_key_def)
  then show ?thesis by (simp only: input_key_def)
qed

text \<open>C34. While a password is asked for, no byte from the network runs a command: the handling does
  not depend on what the commands do, and changes nothing outside the session. The session leaves
  the prompt only by return, when the line in the buffer is the configured password, for the node
  the configuration says; or by the third wrong password on the way to the enable node, back to the
  view node.\<close>

theorem login_gate:
  assumes "in_auth (s_vty s)" "read_byte tbl run c rest s = Cont (k, s')"
  shows "read_byte tbl run' c rest s = Cont (k, s') \<and> s_lib s' = s_lib s
    \<and> (vt_node (s_vty s') = vt_node (s_vty s)
       \<or> (\<exists>p. auth_password (s_host s) (vt_node (s_vty s)) = Some p \<and> buf_string (s_vty s) = Cont p
             \<and> vt_node (s_vty s') = auth_next (s_host s) (vt_node (s_vty s)))
       \<or> vt_node (s_vty s) = AUTH_ENABLE_NODE \<and> vt_node (s_vty s') = VIEW_NODE \<and> vt_fail (s_vty s) \<ge> 2)"
proof -
  define v where "v = (if c = IAC then (s_vty s)\<lparr>vt_iac := False\<rparr> else s_vty s)"
  have "in_auth (s_vty (s\<lparr>s_vty := v\<rparr>))" using assms(1) by (simp add: v_def in_auth_def)
  then have "input_key tbl run' c rest (s\<lparr>s_vty := v\<rparr>) = input_key tbl run c rest (s\<lparr>s_vty := v\<rparr>)"
    by (rule input_key_run)
  then have "read_byte tbl run' c rest s = read_byte tbl run c rest s"
    unfolding read_byte_def Let_def v_def [symmetric] by (simp only:)
  moreover have "yields (read_byte tbl run c rest s) (\<lambda>(k, s'). auth_step s s')"
  proof (rule read_byte_cases)
    fix s1
    assume q: "quiet s s1"
    then have a: "in_auth (s_vty s1)" using quiet_same(2) assms(1) by blast
    show "auth_step s s1" by (rule quiet_auth_step [OF q])
    show "auth_step s (on_vty (\<lambda>v. v\<lparr>vt_status := VTY_MORELINE\<rparr>) s1)"
      using quiet_auth_step [OF q] by (simp add: auth_step_def)
    assume b: "vt_buf (s_vty s1) = vt_buf (s_vty s)"
    then have "buf_string (s_vty s1) = buf_string (s_vty s)" by (simp only: buf_string_def)
    then have "auth_step s s2" if "auth_step s1 s2" for s2
      using that q view_same [of "s_vty s1" "s_vty s"] by (simp add: quiet_def auth_step_def s_host_def)
    then show "yields (plain_key tbl run c s1) (auth_step s)" using plain_key_auth [OF a] by (rule yields_mono [rotated])
  qed
  ultimately show ?thesis using assms(2) by (auto simp: yields_def auth_step_def)
qed

lemma login_gate_witness:
  "\<exists>s k s'. in_auth (s_vty s) \<and> vt_node (s_vty s') = VIEW_NODE \<and> s_lib s' = ex_lib
     \<and> read_byte ex_table (\<lambda>f argv s. Cont (0, s)) (CHR 0x0D) [] s = Cont (k, s')
     \<and> read_byte ex_table (\<lambda>f argv s. Fault NullDeref) (CHR 0x0D) [] s = Cont (k, s')"
proof -
  note e = ex_session_facts [of AUTH_NODE]
  obtain v t where 1: "refined (s_vty (ex_session AUTH_NODE)) [] [] v ([] @ ''pw'') [] t" "clean v t"
    using typed_read [OF e(1) _ _ e(3), of "''pw''" ex_table "\<lambda>f argv s. Cont (0, s)"] e(2,5) by (auto simp: typeable_def)
  have h: "holds v ''pw'' [] t" and f: "frame (s_vty (ex_session AUTH_NODE)) v" using 1(1) by (simp_all add: refined_def)
  have b: "buf_string v = Cont ''pw''" using clean_buf_string [OF h 1(2)] by simp
  let ?s = "(ex_session AUTH_NODE)\<lparr>s_vty := v\<rparr>" and ?run = "\<lambda>(f :: nat) argv (s :: unit session). Cont (0 :: int, s)"
  have n: "vt_node v = AUTH_NODE" "vt_type v = VTY_TERM" "vt_status v = VTY_NORMAL" "ready v"
    using frame_same [OF f] frame_ready [OF f] e by (simp_all add: ex_session_def new_session_def vty_new_def)
  have a: "in_auth v" using n(1) by (simp add: in_auth_def)
  define s2 where "s2 = on_vty clear_line (vty_auth ''pw'' (on_vty (vty_line []) ?s))"
  have au: "vty_auth ''pw'' (on_vty (vty_line []) ?s) = on_vty (\<lambda>v. (vty_line [] v)\<lparr>vt_fail := 0, vt_node := VIEW_NODE\<rparr>) ?s"
    using n by (simp add: vty_auth_def Let_def vty_line_def out_keeps auth_password_def or_else_def auth_next_def s_host_def
        ex_session_def ex_lib_def on_vty_def)
  have 2: "vt_node (s_vty s2) = VIEW_NODE" "vt_type (s_vty s2) = VTY_TERM" "vt_status (s_vty s2) = VTY_NORMAL" "s_lib s2 = ex_lib"
    using n by (simp_all add: s2_def au clear_line_def vty_clear_buf_def vty_line_def out_keeps) (simp add: ex_session_def)
  obtain x where x: "vty_prompt ex_table s2 = Cont (on_vty (vty_out x) s2)"
    using prompt_holds [OF 2(2)] 2(1) ex_prompt by auto
  have "vty_execute ex_table ?run (on_vty (vty_line []) ?s) = Cont (on_vty (vty_out x) s2)"
  proof -
    have "in_auth (vty_line [] v)" using a by (simp add: vty_line_def out_keeps)
    then have "vty_execute ex_table ?run (on_vty (vty_line []) ?s) = prompt_after ex_table s2"
      using b by (simp add: vty_execute_def buf_string_line s2_def)
    then show ?thesis using x 2 by (simp add: prompt_after_def)
  qed
  then have "read_byte ex_table ?run (CHR 0x0D) [] ?s = Cont (0, on_vty (vty_out x) s2)"
    using n(3,4) by (simp add: read_byte_def ready_def input_key_def plain_key_def IAC_def no_skip_def)
  then show ?thesis
    using login_gate [of ?s ex_table ?run "CHR 0x0D" "[]" 0 "on_vty (vty_out x) s2" "\<lambda>f argv s. Fault NullDeref"] a 2
    by (intro exI [where x = ?s] exI [where x = 0] exI [where x = "on_vty (vty_out x) s2"]) (simp add: out_keeps)
qed

end
