(* ===== verification/VtySystem.thy ===== *)
theory VtySystem
  imports VtyView
begin

text \<open>
  All terminal sessions of the process together: the events that the thread loop delivers to them,
  one at a time, as a step relation on the shared library state, and what holds in every state the
  process can reach, whatever the clients send and in whatever order: the configuration lock is
  exclusive and never lost, and no session stops being served. The commands are an interface,
  the locale \<open>command_set\<close>.
\<close>

section \<open>The configuration lock of one session\<close>

text \<open>\<open>b\<close>: another session holds the lock.\<close>

definition lock_kept :: "bool \<Rightarrow> 'x session \<Rightarrow> bool" where
  "lock_kept b s \<longleftrightarrow>
     (vt_config (s_vty s) \<longrightarrow> l_vty_config (s_lib s) \<and> \<not> b) \<and> (b \<longrightarrow> l_vty_config (s_lib s))
     \<and> (l_vty_config (s_lib s) \<longrightarrow> vt_config (s_vty s) \<or> b)"

definition lock_only :: "bool \<Rightarrow> 'x session \<Rightarrow> bool" where
  "lock_only b s \<longleftrightarrow> lock_kept b s \<and> (vt_node (s_vty s) \<in> config_nodes \<longrightarrow> vt_config (s_vty s))"

lemma lock_only_iff: "lock_only b s \<longleftrightarrow>
     (vt_config (s_vty s) \<longrightarrow> l_vty_config (s_lib s) \<and> \<not> b) \<and> (b \<longrightarrow> l_vty_config (s_lib s))
     \<and> (l_vty_config (s_lib s) \<longrightarrow> vt_config (s_vty s) \<or> b)
     \<and> (vt_node (s_vty s) \<in> config_nodes \<longrightarrow> vt_config (s_vty s))"
  by (auto simp: lock_only_def lock_kept_def)

definition same_vector :: "'a vec \<Rightarrow> 'a vec \<Rightarrow> bool" where
  "same_vector v v' \<longleftrightarrow> (vec_ok v \<longrightarrow> vec_ok v' \<and> (\<forall>i. vector_lookup v' i = vector_lookup v i))"

text \<open>No thread of the session is added or taken away but for its timer, which a new time limit sets
  again.\<close>

definition same_threads :: "vty \<Rightarrow> vty \<Rightarrow> bool" where
  "same_threads v v' \<longleftrightarrow> vt_t_read v' = vt_t_read v \<and> vt_t_write v' = vt_t_write v
     \<and> (vt_v_timeout v' = vt_v_timeout v \<and> vt_t_timeout v' = vt_t_timeout v \<or> vt_t_timeout v' = (vt_v_timeout v' \<noteq> 0))"

lemma same_threads_refl [simp]: "same_threads v v"
  by (simp add: same_threads_def)

lemma same_threads_trans: "same_threads u v \<Longrightarrow> same_threads v w \<Longrightarrow> same_threads u w"
  by (auto simp: same_threads_def)

lemma same_threads_fields:
  "vt_t_read v' = vt_t_read v \<Longrightarrow> vt_t_write v' = vt_t_write v \<Longrightarrow> vt_t_timeout v' = vt_t_timeout v \<Longrightarrow>
   vt_v_timeout v' = vt_v_timeout v \<Longrightarrow> same_threads v v'"
  by (simp add: same_threads_def)

lemma same_threads_view: "view v' = view v \<Longrightarrow> same_threads v v'"
  by (rule same_threads_fields) (rule view_same, assumption)+

text \<open>\<open>keeps\<close>: the lock has the same other holders, and the stored sessions are the same; \<open>evolves\<close>: also,
  a session that holds the lock in the configuration nodes goes on holding it there, and its threads
  are the same.\<close>

definition keeps :: "'x session \<Rightarrow> 'x session \<Rightarrow> bool" where
  "keeps s s' \<longleftrightarrow> (\<forall>b. lock_kept b s \<longrightarrow> lock_kept b s') \<and> vt_fd (s_vty s') = vt_fd (s_vty s)
     \<and> same_vector (l_vtyvec (s_lib s)) (l_vtyvec (s_lib s'))"

definition evolves :: "'x session \<Rightarrow> 'x session \<Rightarrow> bool" where
  "evolves s s' \<longleftrightarrow> keeps s s' \<and> (\<forall>b. lock_only b s \<longrightarrow> lock_only b s') \<and> same_threads (s_vty s) (s_vty s')"

lemmas evolves_unfold = evolves_def keeps_def lock_only_iff lock_kept_def same_vector_def same_threads_def

lemma evolves_refl [simp]: "evolves s s"
  by (simp add: evolves_def keeps_def same_vector_def)

lemma evolves_trans: "evolves s1 s2 \<Longrightarrow> evolves s2 s3 \<Longrightarrow> evolves s1 s3"
  using same_threads_trans [of "s_vty s1" "s_vty s2" "s_vty s3"] by (simp add: evolves_def keeps_def same_vector_def)

lemma quiet_evolves: "quiet s s' \<Longrightarrow> evolves s s'"
  using view_same [of "s_vty s'" "s_vty s"] by (simp add: quiet_def evolves_unfold)

lemma yields_evolves: "evolves s s1 \<Longrightarrow> yields m (evolves s1) \<Longrightarrow> yields m (evolves s)"
  by (auto intro: yields_mono evolves_trans)

lemma evolves_status: "evolves s (on_vty (\<lambda>v. v\<lparr>vt_status := x\<rparr>) s)"
  by (simp add: evolves_unfold)

text \<open>The moves between nodes.\<close>

lemma evolves_node:
  assumes "n \<in> config_nodes \<Longrightarrow> vt_config (s_vty s) \<or> vt_node (s_vty s) \<in> config_nodes"
  shows "evolves s (set_node n s)"
  using assms by (auto simp: evolves_unfold set_node_def)

lemma evolves_unlock:
  assumes "n \<notin> config_nodes"
  shows "evolves s (vty_config_unlock (set_node n s))" "evolves s (set_node n (vty_config_unlock s))"
  using assms
  by (cases "l_vty_config (s_lib s)"; cases "vt_config (s_vty s)";
      simp add: evolves_unfold set_node_def vty_config_unlock_def set_lock_def)+

lemma evolves_leave: "evolves s (leave_config ns s)"
proof -
  have "ENABLE_NODE \<notin> config_nodes" by (simp add: config_nodes_def)
  then show ?thesis using evolves_unlock(2) [of ENABLE_NODE s] by (simp add: leave_config_def)
qed

lemma evolves_exit: "yields (config_exit s) (\<lambda>(r, s'). evolves s s')"
proof -
  have e: "ENABLE_NODE \<notin> config_nodes" by (simp add: config_nodes_def)
  have n: "evolves s (set_node m s)" if "vt_node (s_vty s) \<in> config_nodes" for m
    using that by (intro evolves_node) simp
  show ?thesis
    unfolding config_exit_def
    by (cases "vt_node (s_vty s)") (simp_all add: evolves_status evolves_unlock(1) [OF e] n config_nodes_def)
qed

lemma evolves_config_terminal: "evolves s (snd (config_terminal s))"
proof -
  have q: "evolves s (on_vty (vty_line x) s)" for x by (intro quiet_evolves quiet_on_vty) (simp add: view_simps)
  show ?thesis
    using q by (auto simp: config_terminal_def vty_config_lock_def Let_def set_lock_def set_node_def evolves_unfold)
qed

lemma evolves_levels: "evolves s (snd (enable s))" "evolves s (snd (disable s))" "evolves s (snd (config_end s))"
  by (auto simp: enable_def disable_def config_end_def evolves_leave intro!: evolves_node) (simp_all add: config_nodes_def)

lemma evolves_then: "evolves s x \<Longrightarrow> view (f (s_vty x)) = view (s_vty x) \<Longrightarrow> evolves s (on_vty f x)"
  by (rule evolves_trans [OF _ quiet_evolves [OF quiet_on_vty]])

lemma prompt_evolves: "evolves s s1 \<Longrightarrow> yields (vty_prompt tbl s1) (evolves s)"
  by (rule yields_mono [OF quiet_prompt]) (rule evolves_trans [OF _ quiet_evolves])

lemma down_level_evolves:
  fixes s :: "'x session"
  shows "yields (vty_down_level tbl s) (evolves s)"
proof -
  have q: "evolves s (on_vty (vty_line []) s)" by (intro quiet_evolves quiet_on_vty) (simp add: view_simps)
  show ?thesis
    unfolding vty_down_level_def
  proof (rule yields_after [OF evolves_exit])
    fix x :: "int \<times> 'x session"
    assume "case x of (r, s') \<Rightarrow> evolves (on_vty (vty_line []) s) s'"
    then have e: "evolves s (snd x)" using evolves_trans [OF q] by (cases x) simp
    have "yields (after (vty_prompt tbl (snd x)) (\<lambda>s2. Cont (on_vty (\<lambda>v. v\<lparr>vt_cp := 0\<rparr>) s2))) (evolves s)"
      by (rule yields_after [OF prompt_evolves [OF e]]) (simp add: evolves_then view_simps)
    then show "yields (case x of (_, s1) \<Rightarrow> after (vty_prompt tbl s1) (\<lambda>s2. Cont (on_vty (\<lambda>v. v\<lparr>vt_cp := 0\<rparr>) s2))) (evolves s)"
      by (cases x) simp
  qed
qed

section \<open>The interface of the commands\<close>

locale command_set =
  fixes tbl :: "'f cmd_node vec" and run :: "('f, 'x) runner"
  assumes run_evolves: "installed tbl (vt_node (s_vty s)) el \<Longrightarrow> yields (run (ce_func el) argv s) (\<lambda>(r, s'). evolves s s')"
begin

lemma carry_out_evolves:
  "yields (carry_out run (cmd_execute_command tbl (vt_node (s_vty s)) ws) s) (\<lambda>(c, s'). evolves s s')"
proof (cases "cmd_execute_command tbl (vt_node (s_vty s)) ws")
  case (Call el argv)
  then show ?thesis using run_evolves [OF execute_installed(1) [OF Call]] by (simp add: carry_out_def)
qed (simp_all add: carry_out_def)

lemma command_evolves: "yields (vty_command tbl run buf s) (\<lambda>(c, s'). evolves s s')"
proof -
  have "yields (after (carry_out run (cmd_execute_command tbl (vt_node (s_vty s)) ws) s)
      (\<lambda>(ret, s1). Cont (ret, on_vty (command_message ret) s1))) (\<lambda>(c, s'). evolves s s')" for ws
  proof (rule yields_after [OF carry_out_evolves])
    fix x :: "int \<times> 'x session"
    assume "case x of (c, s') \<Rightarrow> evolves s s'"
    moreover have "evolves (snd x) (on_vty (command_message c) (snd x))" for c
      by (intro quiet_evolves quiet_on_vty) (simp add: command_message_def view_simps)
    ultimately show "yields (case x of (ret, s1) \<Rightarrow> Cont (ret, on_vty (command_message ret) s1)) (\<lambda>(c, s'). evolves s s')"
      by (auto split: prod.splits intro: evolves_trans)
  qed
  then show ?thesis by (simp add: vty_command_def split: option.splits)
qed

lemma execute_evolves:
  assumes "evolves s s1"
  shows "yields (vty_execute tbl run s1) (evolves s)"
proof -
  have p: "yields (prompt_after tbl (on_vty clear_line s2)) (evolves s)" if "evolves s s2" for s2
  proof -
    have "evolves s (on_vty clear_line s2)" by (rule evolves_then [OF that]) (simp add: view_simps)
    then show ?thesis by (simp add: prompt_after_def prompt_evolves)
  qed
  have a: "evolves s1 (vty_auth buf s1)" if "in_auth (s_vty s1)" for buf
  proof -
    have "vt_node (vty_line x u) = vt_node u" "vt_config (vty_line x u) = vt_config u" "vt_fd (vty_line x u) = vt_fd u"
      "vt_t_read (vty_line x u) = vt_t_read u" "vt_t_write (vty_line x u) = vt_t_write u"
      "vt_t_timeout (vty_line x u) = vt_t_timeout u" "vt_v_timeout (vty_line x u) = vt_v_timeout u" for x u
      by (simp_all add: vty_line_def vty_out_def)
    then show ?thesis
      using that
      by (auto simp: vty_auth_def Let_def evolves_unfold in_auth_def auth_next_def config_nodes_def)
  qed
  have h: "yields (vty_m vty_hist_add s2) (evolves s)" if "evolves s s2" for s2
    by (rule yields_mono [OF quiet_vty_m [OF views_history(4)]]) (rule evolves_trans [OF that quiet_evolves])
  have c: "yields (after (vty_command tbl run buf s1) (\<lambda>(ret, s2).
      if vt_type (s_vty s2) = VTY_TERM then vty_m vty_hist_add s2 else Cont s2)) (evolves s)" for buf
  proof (rule yields_after [OF command_evolves])
    fix x :: "int \<times> 'x session"
    assume "case x of (c, s') \<Rightarrow> evolves s1 s'"
    then have "evolves s (snd x)" using evolves_trans [OF assms] by (cases x) simp
    then show "yields (case x of (ret, s2) \<Rightarrow> if vt_type (s_vty s2) = VTY_TERM then vty_m vty_hist_add s2 else Cont s2) (evolves s)"
      using h by (cases x) simp
  qed
  show ?thesis
    unfolding vty_execute_def
  proof (rule yields_after', rule yields_after [OF _ p])
    fix buf
    show "yields (if in_auth (s_vty s1) then Cont (vty_auth buf s1)
        else after (vty_command tbl run buf s1) (\<lambda>(ret, s1).
          if vt_type (s_vty s1) = VTY_TERM then vty_m vty_hist_add s1 else Cont s1)) (evolves s)"
      using a c evolves_trans [OF assms] by auto
  qed
qed

lemma plain_key_evolves: "yields (plain_key tbl run c s) (evolves s)"
proof -
  have q: "yields m (evolves s)" if "yields m (quiet s)" for m
    using that by (rule yields_mono) (rule quiet_evolves)
  have o: "evolves s (on_vty f s)" if "view (f (s_vty s)) = view (s_vty s)" for f
    by (rule quiet_evolves [OF quiet_on_vty]) (rule that)
  have m: "yields (vty_m f s) (evolves s)" if "views f" for f using quiet_vty_m [OF that] by (rule q)
  have t: "evolves s (type_char d s)" for d unfolding type_char_def by (rule o) (simp add: view_simps)
  have l: "evolves s (leave_config ns (on_vty f s))" if "view (f (s_vty s)) = view (s_vty s)" for ns f
    using evolves_trans [OF quiet_evolves [OF quiet_on_vty] evolves_leave] that by blast
  have z: "yields (vty_end_config tbl s) (evolves s)"
    unfolding vty_end_config_def
    by (rule yields_after [OF prompt_evolves [OF l]]) (simp_all add: evolves_then view_simps)
  have st: "yields (vty_stop_input tbl s) (evolves s)"
    unfolding vty_stop_input_def
    by (rule yields_after [OF prompt_evolves [OF l]]) (simp_all add: evolves_then view_simps)
  have d: "yields (vty_delete_char tbl s1) (evolves s)" if "evolves s s1" for s1
    unfolding vty_delete_char_def
    using that evolves_then [OF that, of delete_char] yields_evolves [OF that down_level_evolves, of tbl]
    by (simp add: view_simps)
  have r: "yields (vty_delete_backward_char tbl s) (evolves s)"
    unfolding vty_delete_backward_char_def by (simp add: d o view_simps)
  have x: "yields (vty_execute tbl run (on_vty (vty_line []) s)) (evolves s)"
    by (rule execute_evolves [OF o]) (simp add: view_simps)
  show ?thesis
    unfolding plain_key_def
    by (simp add: o m t z st d r x views_words views_history view_simps q [OF quiet_complete] q [OF quiet_describe])
qed

lemma byte_evolves: "yields (read_byte tbl run c rest s) (\<lambda>(k, s'). evolves s s')"
proof (rule read_byte_cases)
  fix s1
  assume q: "quiet s s1"
  show e: "evolves s s1" by (rule quiet_evolves [OF q])
  show "yields (plain_key tbl run c s1) (evolves s)" by (rule yields_evolves [OF e plain_key_evolves])
  show "evolves s (on_vty (\<lambda>v. v\<lparr>vt_status := VTY_MORELINE\<rparr>) s1)" by (rule evolves_trans [OF e evolves_status])
qed

lemma read_evolves: "yields (read_loop tbl run bs s) (evolves s)"
proof (induction "length bs" arbitrary: bs s rule: less_induct)
  case less
  show ?case
  proof (cases bs)
    case (Cons c cs)
    have "yields (after (read_byte tbl run c cs s) (\<lambda>(k, s1). read_loop tbl run (drop k cs) s1)) (evolves s)"
    proof (rule yields_after [OF byte_evolves])
      fix x :: "nat \<times> 'x session"
      assume "case x of (k, s') \<Rightarrow> evolves s s'"
      moreover have "yields (read_loop tbl run (drop (fst x) cs) (snd x)) (evolves (snd x))"
        using Cons by (intro less) simp
      ultimately show "yields (case x of (k, s1) \<Rightarrow> read_loop tbl run (drop k cs) s1) (evolves s)"
        by (cases x) (auto intro: yields_evolves)
    qed
    then show ?thesis by (simp add: Cons read_loop.simps)
  qed simp
qed

end

section \<open>Events\<close>

text \<open>What the thread loop can deliver: a new connection, bytes or the end of a connection (no
  bytes), a descriptor ready for output, an expired timer. A session gets an event only while the
  thread for it is armed.\<close>

datatype sys_event = Accept nat string | Input nat string | Writable nat | Expired nat

definition session_of :: "nat \<Rightarrow> 'x lib \<Rightarrow> vty option" where
  "session_of i l = vector_lookup (l_vtyvec l) i"

fun handle :: "'f cmd_node vec \<Rightarrow> ('f, 'x) runner \<Rightarrow> sys_event \<Rightarrow> 'x lib \<Rightarrow> 'x lib outcome" where
  "handle tbl run (Accept i addr) l = vty_create tbl i addr l"
| "handle tbl run (Input i bs) l = vty_read tbl run bs \<lparr>s_lib = l, s_vty = the (session_of i l)\<rparr>"
| "handle tbl run (Writable i) l = vty_flush tbl \<lparr>s_lib = l, s_vty = the (session_of i l)\<rparr>"
| "handle tbl run (Expired i) l = Cont (vty_timeout \<lparr>s_lib = l, s_vty = the (session_of i l)\<rparr>)"

fun enabled :: "sys_event \<Rightarrow> 'x lib \<Rightarrow> bool" where
  "enabled (Accept i addr) l \<longleftrightarrow> session_of i l = None"
| "enabled (Input i bs) l \<longleftrightarrow> (\<exists>v. session_of i l = Some v \<and> vt_t_read v)"
| "enabled (Writable i) l \<longleftrightarrow> (\<exists>v. session_of i l = Some v \<and> vt_t_write v)"
| "enabled (Expired i) l \<longleftrightarrow> (\<exists>v. session_of i l = Some v \<and> vt_t_timeout v)"

definition sys_start :: "'x lib \<Rightarrow> bool" where
  "sys_start l \<longleftrightarrow> vec_ok (l_vtyvec l) \<and> (\<forall>i. session_of i l = None) \<and> \<not> l_vty_config l"

inductive reachable :: "'f cmd_node vec \<Rightarrow> ('f, 'x) runner \<Rightarrow> 'x lib \<Rightarrow> 'x lib \<Rightarrow> bool"
  for tbl :: "'f cmd_node vec" and run :: "('f, 'x) runner" and l0 :: "'x lib" where
  reach_start: "reachable tbl run l0 l0"
| reach_step: "reachable tbl run l0 l \<Longrightarrow> enabled e l \<Longrightarrow> handle tbl run e l = Cont l' \<Longrightarrow> reachable tbl run l0 l'"

section \<open>Invariant\<close>

text \<open>A session is served: its input is read, or it prints without pausing and output is under way;
  and its timer runs just if it has a time limit.\<close>

definition served :: "vty \<Rightarrow> bool" where
  "served v \<longleftrightarrow> (vt_t_read v \<or> vt_lines v = 0 \<and> vt_t_write v) \<and> (vt_v_timeout v \<noteq> 0 \<longleftrightarrow> vt_t_timeout v)"

definition sys_inv :: "'x lib \<Rightarrow> bool" where
  "sys_inv l \<longleftrightarrow> vec_ok (l_vtyvec l)
     \<and> (\<forall>i v. session_of i l = Some v \<longrightarrow> vt_fd v = i \<and> served v \<and> (vt_node v \<in> config_nodes \<longrightarrow> vt_config v)
          \<and> (vt_config v \<longrightarrow> l_vty_config l))
     \<and> (\<forall>i j v w. session_of i l = Some v \<and> session_of j l = Some w \<and> vt_config v \<and> vt_config w \<longrightarrow> i = j)
     \<and> (l_vty_config l \<longrightarrow> (\<exists>i v. session_of i l = Some v \<and> vt_config v))"

definition others :: "nat \<Rightarrow> 'x lib \<Rightarrow> bool" where
  "others i l \<longleftrightarrow> (\<exists>j v. j \<noteq> i \<and> session_of j l = Some v \<and> vt_config v)"

lemma inv_session:
  assumes "sys_inv l" "session_of i l = Some v"
  shows "vt_fd v = i" "served v" "vt_node v \<in> config_nodes \<Longrightarrow> vt_config v" "vt_config v \<Longrightarrow> l_vty_config l"
    "vt_config v \<Longrightarrow> session_of j l = Some w \<Longrightarrow> vt_config w \<Longrightarrow> i = j"
  using assms unfolding sys_inv_def by blast+

lemma inv_lib: "sys_inv l \<Longrightarrow> vec_ok (l_vtyvec l)" "sys_inv l \<Longrightarrow> l_vty_config l \<Longrightarrow> \<exists>i v. session_of i l = Some v \<and> vt_config v"
  by (simp_all add: sys_inv_def)

lemma inv_lock:
  assumes "sys_inv l" "session_of i l = Some v"
  shows "lock_only (others i l) \<lparr>s_lib = l, s_vty = v\<rparr>"
proof -
  note s = inv_session [OF assms]
  have "\<not> others i l" if "vt_config v" using s(5) that by (auto simp: others_def)
  moreover have "l_vty_config l" if "others i l" using that inv_session(4) [OF assms(1)] by (auto simp: others_def)
  moreover have "vt_config v \<or> others i l" if c: "l_vty_config l"
  proof -
    obtain j w where w: "session_of j l = Some w" "vt_config w" using inv_lib(2) [OF assms(1) c] by blast
    then show ?thesis using assms(2) by (cases "j = i") (auto simp: others_def)
  qed
  ultimately show ?thesis using s(3,4) by (simp add: lock_only_iff)
qed

text \<open>What a handler leaves, but for the session itself.\<close>

definition others_kept :: "nat \<Rightarrow> 'x lib \<Rightarrow> 'x lib \<Rightarrow> bool" where
  "others_kept i l l' \<longleftrightarrow> vec_ok (l_vtyvec l') \<and> (\<forall>j. j \<noteq> i \<longrightarrow> session_of j l' = session_of j l)"

lemma drop_nulls_append: "\<exists>k. xs = drop_nulls xs @ replicate k None"
proof -
  have "rev xs = takeWhile (\<lambda>x. x = None) (rev xs) @ dropWhile (\<lambda>x. x = None) (rev xs)" by simp
  moreover have "takeWhile (\<lambda>x. x = None) (rev xs) = replicate (length (takeWhile (\<lambda>x. x = None) (rev xs))) None"
    by (rule replicate_length_same [symmetric]) (auto dest: set_takeWhileD)
  ultimately have "xs = drop_nulls xs @ rev (replicate (length (takeWhile (\<lambda>x. x = None) (rev xs))) None)"
    unfolding drop_nulls_def by (metis rev_append rev_rev_ident)
  then show ?thesis by (intro exI) simp
qed

lemma lookup_drop_nulls: "(if j < length (drop_nulls xs) then drop_nulls xs ! j else None) = (if j < length xs then xs ! j else None)"
proof -
  obtain k where k: "xs = drop_nulls xs @ replicate k None" using drop_nulls_append by blast
  have "(if j < length (ys @ replicate k None) then (ys @ replicate k None) ! j else None) = (if j < length ys then ys ! j else None)"
    for ys :: "'a option list" by (auto simp: nth_append)
  from this [of "drop_nulls xs"] show ?thesis unfolding k [symmetric] by simp
qed

lemma lookup_unset:
  assumes "vec_ok v"
  shows "vector_lookup (vector_unset i v) j = (if j = i then None else vector_lookup v j)"
proof (cases "i + 1 = length (slots v)")
  case True
  then have "vector_lookup (vector_unset i v) j =
      (if j < length (drop_nulls (butlast (slots v))) then drop_nulls (butlast (slots v)) ! j else None)"
    using vector_unset_ok [OF assms, of i] by (simp add: vector_lookup_slots unset_slot_def del: length_slots)
  also have "\<dots> = (if j < length (butlast (slots v)) then butlast (slots v) ! j else None)"
    by (rule lookup_drop_nulls)
  finally show ?thesis
    using True by (auto simp: vector_lookup_slots [OF assms] nth_butlast simp del: length_slots)
next
  case False
  then show ?thesis
    using vector_unset_ok [OF assms, of i]
    by (auto simp: vector_lookup_slots [OF assms] vector_lookup_slots unset_slot_def simp del: length_slots)
qed

text \<open>Storing the session back, or closing it, gives the invariant again.\<close>

lemma others_same: "others_kept i l l' \<Longrightarrow> others i l' = others i l"
  by (auto simp: others_def others_kept_def)

lemma session_keep:
  "vec_ok (l_vtyvec (s_lib s)) \<Longrightarrow> session_of j (keep s) = (if j = vt_fd (s_vty s) then Some (s_vty s) else session_of j (s_lib s))"
  by (simp add: session_of_def keep_def vec.lookup_put)

lemma keep_inv:
  assumes "sys_inv l" "others_kept i l (s_lib s)" "lock_only (others i l) s" "vt_fd (s_vty s) = i" "served (s_vty s)"
  shows "sys_inv (keep s)"
proof -
  have ok: "vec_ok (l_vtyvec (s_lib s))" using assms(2) by (simp add: others_kept_def)
  have se: "session_of j (keep s) = (if j = i then Some (s_vty s) else session_of j l)" for j
    using session_keep [OF ok] assms(2,4) by (auto simp: others_kept_def)
  have c: "l_vty_config (keep s) = l_vty_config (s_lib s)" "vec_ok (l_vtyvec (keep s))"
    using ok by (simp_all add: keep_def vector_set_index_ok)
  note o = inv_session [OF assms(1)]
  have lk: "l_vty_config (s_lib s)" if "session_of j l = Some w" "vt_config w" "j \<noteq> i" for j w
    using that assms(3) by (auto simp: lock_only_iff others_def)
  have ex: "\<not> vt_config (s_vty s)" if "session_of j l = Some w" "vt_config w" "j \<noteq> i" for j w
    using that assms(3) by (auto simp: lock_only_iff others_def)
  have 1: "vt_fd v = j \<and> served v \<and> (vt_node v \<in> config_nodes \<longrightarrow> vt_config v) \<and> (vt_config v \<longrightarrow> l_vty_config (keep s))"
    if "session_of j (keep s) = Some v" for j v
  proof (cases "j = i")
    case True
    then show ?thesis using that se assms(3-5) c(1) by (auto simp: lock_only_iff)
  next
    case False
    then have "session_of j l = Some v" using that se by simp
    then show ?thesis using o(1-3) lk False c(1) by blast
  qed
  have 2: "j = k" if "session_of j (keep s) = Some v" "session_of k (keep s) = Some w" "vt_config v" "vt_config w" for j k v w
    using that se ex o(5) by (cases "j = i"; cases "k = i") auto
  have 3: "\<exists>j v. session_of j (keep s) = Some v \<and> vt_config v" if "l_vty_config (keep s)"
  proof (cases "vt_config (s_vty s)")
    case True
    then show ?thesis using se [of i] by (intro exI [where x = i]) simp
  next
    case False
    then have "others i l" using that c(1) assms(3) by (simp add: lock_only_iff)
    then obtain j v where "j \<noteq> i" "session_of j l = Some v" "vt_config v" by (auto simp: others_def)
    then show ?thesis using se [of j] by (intro exI [where x = j] exI [where x = v]) simp
  qed
  show ?thesis unfolding sys_inv_def using 1 2 3 c(2) by blast
qed

lemma close_state:
  assumes "vec_ok (l_vtyvec (s_lib s))" "vt_config (s_vty s) \<longrightarrow> l_vty_config (s_lib s)"
  shows "session_of j (vty_close s) = (if j = vt_fd (s_vty s) then None else session_of j (s_lib s))"
    "vec_ok (l_vtyvec (vty_close s))"
    "l_vty_config (vty_close s) = (l_vty_config (s_lib s) \<and> \<not> vt_config (s_vty s))"
  using assms lookup_unset [OF assms(1)] vector_unset_ok(1) [OF assms(1)]
  by (auto simp: vty_close_def Let_def session_of_def vty_config_unlock_def set_lock_def write_fd_def)

lemma close_inv:
  assumes "sys_inv l" "others_kept i l (s_lib s)" "lock_only (others i l) s" "vt_fd (s_vty s) = i"
  shows "sys_inv (vty_close s)"
proof -
  have ok: "vec_ok (l_vtyvec (s_lib s))" "vt_config (s_vty s) \<longrightarrow> l_vty_config (s_lib s)"
    using assms(2,3) by (simp_all add: others_kept_def lock_only_iff)
  have se: "session_of j (vty_close s) = (if j = i then None else session_of j l)" for j
    using close_state(1) [OF ok] assms(2,4) by (auto simp: others_kept_def)
  have c: "l_vty_config (vty_close s) = others i l" using close_state(3) [OF ok] assms(3) by (auto simp: lock_only_iff)
  note o = inv_session [OF assms(1)]
  have 1: "vt_fd v = j \<and> served v \<and> (vt_node v \<in> config_nodes \<longrightarrow> vt_config v) \<and> (vt_config v \<longrightarrow> l_vty_config (vty_close s))"
    if "session_of j (vty_close s) = Some v" for j v
  proof -
    have "session_of j l = Some v" "j \<noteq> i" using that se by (auto split: if_splits)
    then show ?thesis using o(1-3) c by (auto simp: others_def)
  qed
  have 2: "j = k" if "session_of j (vty_close s) = Some v" "session_of k (vty_close s) = Some w" "vt_config v" "vt_config w" for j k v w
    using that se o(5) by (auto split: if_splits)
  have 3: "\<exists>j v. session_of j (vty_close s) = Some v \<and> vt_config v" if lc: "l_vty_config (vty_close s)"
  proof -
    obtain j v where "j \<noteq> i" "session_of j l = Some v" "vt_config v" using lc c by (auto simp: others_def)
    then show ?thesis using se [of j] by (intro exI [where x = j] exI [where x = v]) simp
  qed
  show ?thesis unfolding sys_inv_def using 1 2 3 close_state(2) [OF ok] by blast
qed

section \<open>Every event keeps the invariant\<close>

text \<open>What a handler starts from, and carries along as it evolves.\<close>

definition handling :: "'x lib \<Rightarrow> nat \<Rightarrow> 'x session \<Rightarrow> bool" where
  "handling l i s \<longleftrightarrow> others_kept i l (s_lib s) \<and> lock_only (others i l) s \<and> vt_fd (s_vty s) = i"

lemma handling_keep: "sys_inv l \<Longrightarrow> handling l i s \<Longrightarrow> served (s_vty s) \<Longrightarrow> sys_inv (keep s)"
  by (auto simp: handling_def intro: keep_inv)

lemma handling_close: "sys_inv l \<Longrightarrow> handling l i s \<Longrightarrow> sys_inv (vty_close s)"
  by (auto simp: handling_def intro: close_inv)

text \<open>A handler for the session \<open>i\<close> ends: the session is closed, or it stays, with \<open>F\<close> true of it.\<close>

definition ends :: "'x lib \<Rightarrow> nat \<Rightarrow> (vty \<Rightarrow> bool) \<Rightarrow> 'x lib \<Rightarrow> bool" where
  "ends l i F l' \<longleftrightarrow>
     (\<exists>s. handling l i s \<and> (l' = vty_close s \<or> l' = keep s \<and> served (s_vty s) \<and> F (s_vty s)))"

definition leaves :: "'x lib \<Rightarrow> nat \<Rightarrow> 'x lib \<Rightarrow> (vty \<Rightarrow> bool) \<Rightarrow> bool" where
  "leaves l i l' F \<longleftrightarrow> (\<forall>j. j \<noteq> i \<longrightarrow> session_of j l' = session_of j l) \<and> (\<forall>v. session_of i l' = Some v \<longrightarrow> F v)"

lemma ends_keep: "handling l i s \<Longrightarrow> served (s_vty s) \<Longrightarrow> F (s_vty s) \<Longrightarrow> ends l i F (keep s)"
  by (auto simp: ends_def)

lemma ends_close: "handling l i s \<Longrightarrow> ends l i F (vty_close s)"
  by (auto simp: ends_def)

lemma ends_inv: "sys_inv l \<Longrightarrow> ends l i F l' \<Longrightarrow> sys_inv l'"
  by (auto simp: ends_def intro: handling_keep handling_close)

lemma ends_leaves:
  assumes "ends l i F l'"
  shows "leaves l i l' F"
proof -
  obtain s where s: "handling l i s" "l' = vty_close s \<or> l' = keep s \<and> F (s_vty s)" using assms by (auto simp: ends_def)
  have ok: "vec_ok (l_vtyvec (s_lib s))" "vt_config (s_vty s) \<longrightarrow> l_vty_config (s_lib s)"
    using s(1) by (simp_all add: handling_def others_kept_def lock_only_iff)
  show ?thesis
    using s close_state(1) [OF ok] session_keep [OF ok(1)] by (auto simp: leaves_def handling_def others_kept_def)
qed

lemma handling_start:
  assumes "sys_inv l" "session_of i l = Some v"
  shows "handling l i \<lparr>s_lib = l, s_vty = v\<rparr>"
  using inv_lock [OF assms] inv_lib(1) [OF assms(1)] inv_session(1) [OF assms] by (simp add: handling_def others_kept_def)

lemma handling_evolves: "handling l i s \<Longrightarrow> evolves s s' \<Longrightarrow> handling l i s'"
  by (auto simp: handling_def evolves_def keeps_def others_kept_def same_vector_def session_of_def)

text \<open>Changes of the fields that neither the lock nor the vector depend on.\<close>

lemma handling_upd:
  assumes "handling l i s" "vt_fd v = vt_fd (s_vty s)" "vt_config v = vt_config (s_vty s)" "vt_node v = vt_node (s_vty s)"
  shows "handling l i (s\<lparr>s_vty := v\<rparr>)"
  using assms by (simp add: handling_def lock_only_iff)

lemma handling_on_vty:
  assumes "handling l i s" "vt_fd (f (s_vty s)) = vt_fd (s_vty s)" "vt_config (f (s_vty s)) = vt_config (s_vty s)"
    "vt_node (f (s_vty s)) = vt_node (s_vty s)"
  shows "handling l i (on_vty f s)"
  using handling_upd [OF assms] by (simp add: on_vty_def)

lemma handling_put_obuf: "handling l i s \<Longrightarrow> handling l i (put_obuf r s)"
  by (simp add: handling_def lock_only_iff others_kept_def session_of_def put_obuf_def write_fd_def)

lemma event_fields:
  "vt_fd (vty_event e v) = vt_fd v" "vt_config (vty_event e v) = vt_config v" "vt_node (vty_event e v) = vt_node v"
  by (cases e; simp)+

lemma out_fields: "vt_fd (vty_out x v) = vt_fd v" "vt_config (vty_out x v) = vt_config v" "vt_node (vty_out x v) = vt_node v"
  by (simp_all add: vty_out_def)

lemma quiet_greet: "quiet s (greet s)"
  by (simp add: greet_def Let_def quiet_def vty_hello_def view_simps vty_do_window_size_def
      vty_dont_linemode_def vty_will_suppress_go_ahead_def vty_will_echo_def split: option.splits)

lemma create_handling:
  assumes inv: "sys_inv l" and free: "session_of i l = None"
  shows "handling l i \<lparr>s_lib = l\<lparr>l_vtyvec := vector_set_index i (Some (new_session i addr l)) (l_vtyvec l)\<rparr>,
     s_vty = new_session i addr l\<rparr>"
proof -
  have "l_vty_config l = others i l"
  proof
    assume "l_vty_config l"
    then obtain j v where "session_of j l = Some v" "vt_config v" using inv_lib(2) [OF inv] by blast
    then show "others i l" using free by (cases "j = i") (auto simp: others_def)
  next
    assume "others i l"
    then show "l_vty_config l" using inv_session(4) [OF inv] by (auto simp: others_def)
  qed
  then show ?thesis
    using inv_lib(1) [OF inv]
    by (auto simp: handling_def others_kept_def session_of_def vec.lookup_put vector_set_index_ok lock_only_iff
        new_session_def vty_new_def first_node_def config_nodes_def)
qed

lemma create_ends:
  assumes inv: "sys_inv l" and free: "session_of i l = None" and c: "vty_create tbl i addr l = Cont l'"
  shows "ends l i (\<lambda>v. vt_t_read v \<and> vt_t_write v) l'"
proof -
  let ?v = "new_session i addr l"
  let ?s = "\<lparr>s_lib = l\<lparr>l_vtyvec := vector_set_index i (Some ?v) (l_vtyvec l)\<rparr>, s_vty = ?v\<rparr>"
  have h: "handling l i ?s" by (rule create_handling [OF inv free])
  show ?thesis
  proof (cases "\<not> l_no_password_check l \<and> h_password (l_host l) = None \<and> h_password_encrypt (l_host l) = None")
    case True
    then have "l' = vty_close (on_vty (\<lambda>v. (vty_line ''Vty password is not set.'' v)\<lparr>vt_status := VTY_CLOSE\<rparr>) ?s)"
      using c by (simp add: vty_create_def Let_def)
    then show ?thesis
      using ends_close [OF handling_on_vty [OF h]] by (simp add: vty_line_def out_fields)
  next
    case False
    have g: "evolves ?s (greet ?s)" by (rule quiet_evolves [OF quiet_greet])
    have "after (vty_prompt tbl (greet ?s)) (\<lambda>s1. Cont (keep (on_vty (vty_event EV_READ \<circ> vty_event EV_WRITE) s1))) = Cont l'"
      using c False by (simp add: vty_create_def Let_def)
    then obtain s1 where s1: "vty_prompt tbl (greet ?s) = Cont s1 \<or> vty_prompt tbl (greet ?s) = Ret s1"
      "l' = keep (on_vty (vty_event EV_READ \<circ> vty_event EV_WRITE) s1)" by (auto simp: after_Cont)
    have e: "evolves ?s s1" using prompt_evolves [OF g, of tbl] s1(1) by (auto simp: yields_def)
    then have "handling l i (on_vty (vty_event EV_READ \<circ> vty_event EV_WRITE) s1)"
      by (intro handling_on_vty [OF handling_evolves [OF h]]) (simp_all add: event_fields)
    moreover have "served (s_vty (on_vty (vty_event EV_READ \<circ> vty_event EV_WRITE) s1))"
      using e by (auto simp: evolves_def served_def same_threads_def new_session_def vty_new_def)
    ultimately show ?thesis unfolding s1(2) by (rule ends_keep) simp
  qed
qed

text \<open>What \<open>vty_flush\<close> arms again.\<close>

definition flushed :: "vty \<Rightarrow> vty \<Rightarrow> bool" where
  "flushed v u \<longleftrightarrow> vt_lines u = vt_lines v \<and> vt_v_timeout u = vt_v_timeout v \<and> vt_t_timeout u = vt_t_timeout v
     \<and> (if vt_status v = VTY_START \<or> vt_status v = VTY_CONTINUE
        then vt_t_write u \<and> (vt_t_read u \<longleftrightarrow> vt_lines v = 0 \<or> vt_t_read v)
        else if vt_lines v \<noteq> 0 then \<not> vt_t_write u \<and> vt_t_read u = vt_t_read v
        else vt_t_read u = buffer_empty (vt_obuf u) \<and> vt_t_write u = (\<not> buffer_empty (vt_obuf u)))"

lemma flush_ends:
  assumes inv: "sys_inv l" and se: "session_of i l = Some v" and f: "vty_flush tbl \<lparr>s_lib = l, s_vty = v\<rparr> = Cont l'"
  shows "ends l i (flushed v) l'"
proof -
  let ?f = "\<lambda>v. v\<lparr>vt_t_write := False, vt_t_read := (vt_lines v \<noteq> 0 \<and> vt_t_read v)\<rparr>"
  let ?s = "on_vty ?f \<lparr>s_lib = l, s_vty = v\<rparr>"
  have h: "handling l i ?s" by (rule handling_on_vty [OF handling_start [OF inv se]]) simp_all
  have sv: "served v" using inv_session(2) [OF inv se] .
  show ?thesis
  proof (cases "vt_status v = VTY_START \<or> vt_status v = VTY_CONTINUE")
    case True
    let ?s1 = "on_vty (\<lambda>v. v\<lparr>vt_status := VTY_NORMAL\<rparr>) (put_obuf (buffer_flush_vty_all False True (vt_obuf (s_vty ?s))) ?s)"
    let ?ev = "\<lambda>v. let v1 = vty_event EV_WRITE v in if vt_lines v = 0 then vty_event EV_READ v1 else v1"
    have h1: "handling l i ?s1" by (rule handling_on_vty [OF handling_put_obuf [OF h]]) simp_all
    obtain s2 where s2: "vty_prompt tbl ?s1 = Cont s2 \<or> vty_prompt tbl ?s1 = Ret s2" "l' = keep (on_vty ?ev s2)"
      using f True by (auto simp: vty_flush_def flush_started_def after_Cont Let_def)
    have q: "quiet ?s1 s2" using quiet_prompt [of tbl ?s1] s2(1) by (auto simp: yields_def)
    have "handling l i (on_vty ?ev s2)"
      by (rule handling_on_vty [OF handling_evolves [OF h1 quiet_evolves [OF q]]]) (simp_all add: Let_def)
    moreover have "served (s_vty (on_vty ?ev s2))"
      using sv view_same [of "s_vty s2" "s_vty ?s1"] q by (auto simp: quiet_def served_def Let_def put_obuf_def)
    moreover have "flushed v (s_vty (on_vty ?ev s2))"
      using sv True view_same [of "s_vty s2" "s_vty ?s1"] q
      by (auto simp: quiet_def flushed_def served_def Let_def put_obuf_def)
    ultimately show ?thesis unfolding s2(2) by (rule ends_keep)
  next
    case False
    obtain s1 where s1: "s1 = put_obuf (flush_page (s_vty ?s)) ?s" by simp
    have h1: "handling l i s1" unfolding s1 by (rule handling_put_obuf [OF h])
    have fl: "vt_lines (s_vty s1) = vt_lines v" "vt_t_read (s_vty s1) = (vt_lines v \<noteq> 0 \<and> vt_t_read v)"
      "vt_v_timeout (s_vty s1) = vt_v_timeout v" "vt_t_timeout (s_vty s1) = vt_t_timeout v" "\<not> vt_t_write (s_vty s1)"
      by (simp_all add: s1 put_obuf_def)
    have "l' = flush_normal ?s" using f False by (simp add: vty_flush_def)
    then have l': "l' = (if buffer_empty (vt_obuf (s_vty s1)) then
        (if vt_status (s_vty s1) = VTY_CLOSE then vty_close s1 else keep (on_vty flush_done s1))
        else keep (on_vty flush_more s1))"
      unfolding flush_normal_def Let_def s1 .
    have d: "ends l i (flushed v) (keep (on_vty flush_done s1))" if "buffer_empty (vt_obuf (s_vty s1))"
      by (rule ends_keep [OF handling_on_vty [OF h1]])
        (use sv fl False that in \<open>auto simp: served_def flushed_def flush_done_def Let_def\<close>)
    have m: "ends l i (flushed v) (keep (on_vty flush_more s1))" if "\<not> buffer_empty (vt_obuf (s_vty s1))"
      by (rule ends_keep [OF handling_on_vty [OF h1]])
        (use sv fl False that in \<open>auto simp: served_def flushed_def flush_more_def Let_def\<close>)
    show ?thesis unfolding l' using d m ends_close [OF h1] by simp
  qed
qed

lemma timeout_ends:
  assumes "sys_inv l" "session_of i l = Some v"
  shows "ends l i (\<lambda>v. False) (vty_timeout \<lparr>s_lib = l, s_vty = v\<rparr>)"
  unfolding vty_timeout_def
  by (rule ends_close [OF handling_on_vty [OF handling_start [OF assms]]]) (simp_all add: Let_def out_fields)

context command_set
begin

lemma read_ends:
  assumes inv: "sys_inv l" and se: "session_of i l = Some v" and r: "vty_read tbl run bs \<lparr>s_lib = l, s_vty = v\<rparr> = Cont l'"
  shows "ends l i (\<lambda>v. vt_t_read v \<and> vt_t_write v) l'"
proof -
  let ?s = "on_vty (\<lambda>v. v\<lparr>vt_t_read := False, vt_status := (if bs = [] then VTY_CLOSE else vt_status v)\<rparr>) \<lparr>s_lib = l, s_vty = v\<rparr>"
  have h: "handling l i ?s" by (rule handling_on_vty [OF handling_start [OF inv se]]) simp_all
  obtain s1 where s1: "read_loop tbl run bs ?s = Cont s1 \<or> read_loop tbl run bs ?s = Ret s1"
    "l' = (if vt_status (s_vty s1) = VTY_CLOSE then vty_close s1 else keep (on_vty (vty_event EV_READ \<circ> vty_event EV_WRITE) s1))"
    using r by (auto simp: vty_read_def Let_def after_Cont)
  have e: "evolves ?s s1" using read_evolves [of bs ?s] s1(1) by (auto simp: yields_def)
  have h1: "handling l i s1" by (rule handling_evolves [OF h e])
  have "same_threads (s_vty ?s) (s_vty s1)" using e by (simp add: evolves_def)
  then have "served (s_vty (on_vty (vty_event EV_READ \<circ> vty_event EV_WRITE) s1))"
    using inv_session(2) [OF inv se] by (auto simp: served_def same_threads_def)
  then have "ends l i (\<lambda>v. vt_t_read v \<and> vt_t_write v) (keep (on_vty (vty_event EV_READ \<circ> vty_event EV_WRITE) s1))"
    by (intro ends_keep [OF handling_on_vty [OF h1]]) (simp_all add: event_fields)
  then show ?thesis using s1(2) ends_close [OF h1] by simp
qed

lemma handle_inv:
  assumes inv: "sys_inv l" and en: "enabled e l" and h: "handle tbl run e l = Cont l'"
  shows "sys_inv l'"
proof (cases e)
  case (Expired i)
  then show ?thesis using ends_inv [OF inv timeout_ends [OF inv]] en h by auto
next
  case (Accept i addr)
  then show ?thesis using ends_inv [OF inv create_ends [OF inv]] en h by auto
next
  case (Input i bs)
  then show ?thesis using ends_inv [OF inv read_ends [OF inv]] en h by auto
next
  case (Writable i)
  then show ?thesis using ends_inv [OF inv flush_ends [OF inv]] en h by auto
qed

lemma reachable_inv: "reachable tbl run l0 l \<Longrightarrow> sys_start l0 \<Longrightarrow> sys_inv l"
proof (induction rule: reachable.induct)
  case reach_start
  then show ?case by (simp add: sys_start_def sys_inv_def)
next
  case (reach_step l e l')
  then show ?case using handle_inv by blast
qed

end

end
