(* ===== verification/NetmtTable.thy ===== *)
theory NetmtTable
  imports NetmtCommands VtySystem
begin

text \<open>
  The command table of the program: the nodes, the commands that \<open>cmd_init\<close>, \<open>vty_init\<close> and
  \<open>netmt_servercmd_init\<close> install in them, and the sorting at the end. The lemmas give the contents
  of the finished table node by node; on them rest the safety of execution in the program's own
  table and the instance of the interface \<open>command_set\<close>.
\<close>

section \<open>Nodes and installation\<close>

definition make_node :: "node_type \<Rightarrow> string \<Rightarrow> int \<Rightarrow> func cmd_node" where
  "make_node n prompt vtysh =
     \<lparr>cn_node = n, cn_prompt = prompt, cn_vtysh = vtysh, cn_func = None, cn_vector = vector_init 1\<rparr>"

definition auth_node :: "func cmd_node" where "auth_node = make_node AUTH_NODE ''Password: '' 0"
definition view_node :: "func cmd_node" where "view_node = make_node VIEW_NODE ''%s> '' 0"
definition auth_enable_node :: "func cmd_node" where "auth_enable_node = make_node AUTH_ENABLE_NODE ''Password: '' 0"
definition enable_node :: "func cmd_node" where "enable_node = make_node ENABLE_NODE ''%s# '' 0"
definition config_node :: "func cmd_node" where "config_node = make_node CONFIG_NODE ''%s(config)# '' 1"
definition vty_node :: "func cmd_node" where "vty_node = make_node VTY_NODE ''%s(config-line)# '' 0"
definition netmt_cmd_node :: "func cmd_node" where "netmt_cmd_node = make_node VTY_NODE ''%s(CONFIG-LINE)# '' 0"

fun installs :: "(node_type \<times> 'f cmd_element) list \<Rightarrow> 'f cmd_node vec \<Rightarrow> 'f cmd_node vec outcome" where
  "installs [] v = Cont v"
| "installs ((n, c) # cs) v = bind_out (install_element n c v) (installs cs) id"

definition install_default :: "node_type \<Rightarrow> (node_type \<times> func cmd_element) list" where
  "install_default n = map (Pair n)
     [config_exit_cmd, config_quit_cmd, config_end_cmd, config_help_cmd, config_list_cmd,
      config_write_terminal_cmd, config_write_file_cmd, config_write_memory_cmd, config_write_cmd,
      show_running_config_cmd]"

text \<open>The commands in the order of their installation, first those of \<open>cmd_init\<close>.\<close>

definition view_cmds :: "bool \<Rightarrow> (node_type \<times> func cmd_element) list" where
  "view_cmds terminal = map (Pair VIEW_NODE) ([show_version_cmd] @
     (if terminal then [config_list_cmd, config_exit_cmd, config_quit_cmd, config_help_cmd, config_enable_cmd,
        config_terminal_length_cmd, config_terminal_no_length_cmd] else []))"

definition enable_cmds :: "bool \<Rightarrow> (node_type \<times> func cmd_element) list" where
  "enable_cmds terminal =
     (if terminal then install_default ENABLE_NODE @ map (Pair ENABLE_NODE)
        [config_disable_cmd, config_terminal_cmd, copy_runningconfig_startupconfig_cmd] else []) @
     map (Pair ENABLE_NODE) [show_startup_config_cmd, show_version_cmd, config_terminal_length_cmd,
       config_terminal_no_length_cmd]"

definition config_cmds :: "bool \<Rightarrow> (node_type \<times> func cmd_element) list" where
  "config_cmds terminal =
     (if terminal then install_default CONFIG_NODE else []) @
     map (Pair CONFIG_NODE) ([hostname_cmd, no_hostname_cmd, password_cmd, password_text_cmd, enable_password_cmd,
       enable_password_text_cmd, no_enable_password_cmd] @
     (if terminal then [config_log_stdout_cmd, no_config_log_stdout_cmd, config_log_file_cmd, no_config_log_file_cmd,
       config_log_syslog_cmd, config_log_syslog_facility_cmd, no_config_log_syslog_cmd,
       no_config_log_syslog_facility_cmd, config_log_trap_cmd, no_config_log_trap_cmd,
       config_log_record_priority_cmd, no_config_log_record_priority_cmd, service_password_encrypt_cmd,
       no_service_password_encrypt_cmd, banner_motd_default_cmd, no_banner_motd_cmd, service_terminal_length_cmd,
       no_service_terminal_length_cmd] else []))"

text \<open>The table after \<open>cmd_init\<close>, and the host settings it starts from (the others are zero).\<close>

definition cmd_init :: "bool \<Rightarrow> func cmd_node vec outcome" where
  "cmd_init terminal =
     installs (view_cmds terminal @ enable_cmds terminal @ config_cmds terminal)
       (install_node config_node (Some Config_write_host) (install_node auth_enable_node None
         (install_node auth_node None (install_node enable_node None (install_node view_node None (vector_init 1))))))"

definition cmd_init_host :: "host \<Rightarrow> host" where
  "cmd_init_host h = h\<lparr>h_name := None, h_password := None, h_enable := None, h_logfile := None, h_config := None,
     h_lines := -1, h_motd := Some default_motd\<rparr>"

definition line_cmds :: "(node_type \<times> func cmd_element) list" where
  "line_cmds =
     [(VIEW_NODE, config_who_cmd), (VIEW_NODE, show_history_cmd), (ENABLE_NODE, config_who_cmd),
      (CONFIG_NODE, line_vty_cmd), (CONFIG_NODE, service_advanced_vty_cmd), (CONFIG_NODE, no_service_advanced_vty_cmd),
      (CONFIG_NODE, show_history_cmd), (ENABLE_NODE, terminal_monitor_cmd), (ENABLE_NODE, terminal_no_monitor_cmd),
      (ENABLE_NODE, show_history_cmd)]"

definition vty_node_cmds :: "(node_type \<times> func cmd_element) list" where
  "vty_node_cmds = install_default VTY_NODE @ map (Pair VTY_NODE)
     [exec_timeout_min_cmd, exec_timeout_sec_cmd, no_exec_timeout_cmd, vty_access_class_cmd, no_vty_access_class_cmd,
      vty_login_cmd, no_vty_login_cmd, vty_ipv6_access_class_cmd, no_vty_ipv6_access_class_cmd]"

definition vty_init :: "func cmd_node vec \<Rightarrow> func cmd_node vec outcome" where
  "vty_init v = installs (line_cmds @ vty_node_cmds) (install_node vty_node (Some Vty_config_write) v)"

definition netmt_cmds :: "(node_type \<times> func cmd_element) list" where
  "netmt_cmds =
     [(VIEW_NODE, ping_netmt_cmd), (VIEW_NODE, exec_shell_remote_cmd), (VIEW_NODE, show_status_netmt_cmd),
      (CONFIG_NODE, show_status_netmt_cmd), (ENABLE_NODE, show_status_netmt_cmd), (VIEW_NODE, show_netmt_help_cmd),
      (VIEW_NODE, show_netmt_version_cmd), (VIEW_NODE, send_netmt_cmd), (ENABLE_NODE, send_netmt_cmd),
      (VIEW_NODE, get_netmt_cmd), (ENABLE_NODE, get_netmt_cmd), (VIEW_NODE, register_netmt_cmd),
      (VIEW_NODE, show_netmt_client_addr_cmd)]"

definition netmt_servercmd_init :: "func cmd_node vec \<Rightarrow> func cmd_node vec outcome" where
  "netmt_servercmd_init v = installs netmt_cmds (install_node netmt_cmd_node (Some Config_write_show_netmt_cmd) v)"

text \<open>The part of \<open>cmd_main\<close> that builds the table.\<close>

definition build_table :: "func cmd_node vec outcome" where
  "build_table =
     bind_out (cmd_init True) (\<lambda>v. bind_out (vty_init v) (\<lambda>v. bind_out (netmt_servercmd_init v)
       (\<lambda>v. case sort_node v of None \<Rightarrow> Fault Overread | Some t \<Rightarrow> Cont t) id) id) id"

section \<open>What a table holds\<close>

text \<open>An element after its installation, and what the specification of a command must be.\<close>

definition compiled :: "'f cmd_element \<Rightarrow> 'f cmd_element" where
  "compiled c = (let sv = the (cmd_make_descvec (Some (ce_string c)) (ce_doc c))
     in c\<lparr>ce_strvec := sv, ce_cmdsize := cmd_cmdsize sv\<rparr>)"

definition well_specified :: "'f cmd_element \<Rightarrow> bool" where
  "well_specified c \<longleftrightarrow> cmd_make_descvec (Some (ce_string c)) (ce_doc c) \<noteq> None
     \<and> ce_strvec (compiled c) \<noteq> [] \<and> elem_args_ok (compiled c)"

type_synonym 'f table_spec = "node_type \<Rightarrow> ('f cmd_node \<times> 'f cmd_element list) option"

definition slot_is :: "'f cmd_node option \<Rightarrow> ('f cmd_node \<times> 'f cmd_element list) option \<Rightarrow> bool" where
  "slot_is x y \<longleftrightarrow> (case y of None \<Rightarrow> x = None
     | Some (c, els) \<Rightarrow> \<exists>v. x = Some (c\<lparr>cn_vector := v\<rparr>) \<and> vec_ok v \<and> slots v = map Some els)"

definition table_is :: "'f cmd_node vec \<Rightarrow> 'f table_spec \<Rightarrow> bool" where
  "table_is tbl T \<longleftrightarrow> table_ok tbl \<and> length (slots tbl) \<le> length all_nodes \<and> (\<forall>n. slot_is (vector_lookup tbl (node_num n)) (T n))"

lemma table_is_empty: "table_is (vector_init k) Map.empty"
  by (simp add: table_is_def table_ok_def slots_ok_def vector_lookup_slots slot_is_def)

lemma node_num_less: "node_num n < length all_nodes"
  by (cases n) (simp_all add: node_num_def all_nodes_def)

lemma node_of_num: "i < length all_nodes \<Longrightarrow> node_num (all_nodes ! i) = i"
proof -
  have "list_all (\<lambda>i. node_num (all_nodes ! i) = i) [0..<length all_nodes]" by code_simp
  then show "i < length all_nodes \<Longrightarrow> node_num (all_nodes ! i) = i" by (simp add: list_all_iff)
qed

lemma table_is_node:
  assumes "table_is tbl T"
  shows "table_is (install_node nd f tbl) (T(cn_node nd \<mapsto> (nd\<lparr>cn_func := f\<rparr>, [])))"
proof -
  have ok: "vec_ok tbl" using assms by (simp add: table_is_def table_ok_def)
  have l: "vector_lookup (install_node nd f tbl) (node_num n) =
      (if n = cn_node nd then Some (nd\<lparr>cn_func := f, cn_vector := vector_init 1\<rparr>) else vector_lookup tbl (node_num n))" for n
    by (simp add: install_node_def vec.lookup_put [OF ok] node_num_inject)
  have "slot_is (Some (nd\<lparr>cn_func := f, cn_vector := vector_init 1\<rparr>)) (Some (nd\<lparr>cn_func := f\<rparr>, []))"
    unfolding slot_is_def by (simp, intro exI [where x = "vector_init 1"]) simp
  moreover have "length (slots (install_node nd f tbl)) \<le> length all_nodes"
    using assms ok Suc_leI [OF node_num_less [of "cn_node nd"]] by (simp add: install_node_def table_is_def vector_set_index_ok put_slot_def del: length_slots)
  ultimately show ?thesis using assms install_node_ok by (auto simp: table_is_def l)
qed

lemma set_slot_full: "set_slot x (map Some xs) = map Some xs @ [x]"
  by (induction xs) auto

lemma table_is_element:
  assumes "table_is tbl T" "T n = Some (c, els)" "well_specified cmd"
  shows "\<exists>tbl'. install_element n cmd tbl = Cont tbl' \<and> table_is tbl' (T(n \<mapsto> (c, els @ [compiled cmd])))"
proof -
  have "slot_is (vector_lookup tbl (node_num n)) (Some (c, els))" using assms(1,2) unfolding table_is_def by metis
  then obtain v where v: "vector_lookup tbl (node_num n) = Some (c\<lparr>cn_vector := v\<rparr>)" "vec_ok v" "slots v = map Some els"
    by (auto simp: slot_is_def)
  have ok: "vec_ok tbl" "table_ok tbl" using assms(1) by (simp_all add: table_is_def table_ok_def)
  let ?i = "node_num n"
  have i: "?i < v_max tbl" "v_index tbl ! ?i = Some (c\<lparr>cn_vector := v\<rparr>)" "v_max tbl \<le> length (v_index tbl)" "v_alloced tbl = length (v_index tbl)"
    using v(1) ok(1) by (auto simp: vector_lookup_def vec_ok_def split: if_splits)
  obtain sv where sv: "cmd_make_descvec (Some (ce_string cmd)) (ce_doc cmd) = Some sv"
    using assms(3) by (auto simp: well_specified_def)
  let ?c = "c\<lparr>cn_vector := vector_set (Some (compiled cmd)) v\<rparr>"
  let ?tbl = "tbl\<lparr>v_index := (v_index tbl)[?i := Some ?c]\<rparr>"
  have e: "install_element n cmd tbl = Cont ?tbl"
    using i sv by (simp add: install_element_def vector_slot_def compiled_def)
  have l: "vector_lookup ?tbl (node_num m) = (if m = n then Some ?c else vector_lookup tbl (node_num m))" for m
    using i by (auto simp: vector_lookup_def nth_list_update node_num_inject)
  have "slots (vector_set (Some (compiled cmd)) v) = map Some (els @ [compiled cmd])" "vec_ok (vector_set (Some (compiled cmd)) v)"
    using v(2,3) by (simp_all add: vector_set_ok set_slot_full)
  then have "slot_is (Some ?c) (Some (c, els @ [compiled cmd]))" unfolding slot_is_def by auto
  then show ?thesis
    using assms(1) e install_element_ok [OF ok(2) e] l i(3) by (simp add: table_is_def slots_def)
qed

text \<open>The effect of a list of installations on the nodes.\<close>

definition add_cmds :: "(node_type \<times> 'f cmd_element) list \<Rightarrow> 'f table_spec \<Rightarrow> 'f table_spec" where
  "add_cmds cs T n = map_option (\<lambda>(c, els). (c, els @ map (compiled \<circ> snd) (filter (\<lambda>x. fst x = n) cs))) (T n)"

lemma table_is_installs:
  "table_is tbl T \<Longrightarrow> list_all (\<lambda>(n, c). T n \<noteq> None \<and> well_specified c) cs \<Longrightarrow>
     \<exists>tbl'. installs cs tbl = Cont tbl' \<and> table_is tbl' (add_cmds cs T)"
proof (induction cs arbitrary: tbl T)
  case Nil
  have "add_cmds [] T = T" by (auto simp: add_cmds_def fun_eq_iff split: option.splits intro: option.map_ident_strong)
  then show ?case using Nil by simp
next
  case (Cons x cs)
  obtain n cmd where x: "x = (n, cmd)" by (cases x)
  obtain c els where T: "T n = Some (c, els)" using Cons.prems(2) x by auto
  obtain tbl' where t: "install_element n cmd tbl = Cont tbl'" "table_is tbl' (T(n \<mapsto> (c, els @ [compiled cmd])))"
    using table_is_element [OF Cons.prems(1) T] Cons.prems(2) x by auto
  have "list_all (\<lambda>(m, c'). (T(n \<mapsto> (c, els @ [compiled cmd]))) m \<noteq> None \<and> well_specified c') cs"
    using Cons.prems(2) by (auto simp: list_all_iff)
  then obtain tbl'' where "installs cs tbl' = Cont tbl''" "table_is tbl'' (add_cmds cs (T(n \<mapsto> (c, els @ [compiled cmd]))))"
    using Cons.IH [OF t(2)] by blast
  moreover have "add_cmds cs (T(n \<mapsto> (c, els @ [compiled cmd]))) = add_cmds (x # cs) T"
    using T x by (auto simp: add_cmds_def fun_eq_iff)
  ultimately show ?case using t(1) x by simp
qed

section \<open>Sorting\<close>

definition sorted_els :: "'f cmd_element list \<Rightarrow> 'f cmd_element list" where
  "sorted_els els = map (the \<circ> sort_last) (c_qsort cmp_node els)"

lemma map_opt_all: "(\<And>x. x \<in> set xs \<Longrightarrow> f x \<noteq> None) \<Longrightarrow> map_opt f xs = Some (map (the \<circ> f) xs)"
  by (induction xs) (auto split: option.splits)

lemma sort_cmd_vector_is:
  assumes "vec_ok v" "slots v = map Some els" "\<forall>el \<in> set els. ce_strvec el \<noteq> []"
  shows "\<exists>v'. sort_cmd_vector v = Some v' \<and> vec_ok v' \<and> slots v' = map Some (sorted_els els)"
proof -
  have "sort_elements els = Some (sorted_els els)"
    using assms(3) sort_last_same unfolding sort_elements_def sorted_els_def by (intro map_opt_all) force
  moreover have "length (sorted_els els) = v_max v"
    using length_slots [OF assms(1)] assms(2) by (simp add: sorted_els_def)
  ultimately show ?thesis
    using assms(1,2) by (auto simp: sort_cmd_vector_def vec_ok_def slots_def nth_append)
qed

lemma sort_node_slots_is:
  "(\<And>c. Some c \<in> set ns \<Longrightarrow> sort_cmd_vector (cn_vector c) = Some (g c)) \<Longrightarrow>
     sort_node_slots ns = Some (map (map_option (\<lambda>c. c\<lparr>cn_vector := g c\<rparr>)) ns)"
  by (induction ns rule: sort_node_slots.induct) auto


lemma cmdsize_last: "length dv \<noteq> 1 \<and> length dv' \<noteq> 1 \<or> dv = dv' \<Longrightarrow> cmd_cmdsize (r @ [dv]) = cmd_cmdsize (r @ [dv'])"
proof (induction r rule: cmd_cmdsize.induct)
  case 1
  then show ?case by (cases dv; cases dv'; cases "tl dv"; cases "tl dv'") auto
qed auto

lemma sort_last_ok:
  assumes "elem_ok el" "sort_last el = Some el'"
  shows "elem_ok el'"
proof -
  obtain r dv where r: "ce_strvec el = r @ [dv]" "el' = el\<lparr>ce_strvec := r @ [c_qsort cmp_desc dv]\<rparr>"
    using assms(2) by (auto simp: sort_last_def split: list.splits)
  have "c_qsort cmp_desc dv = dv \<or> length dv \<noteq> 1" by (cases dv) (auto simp: c_qsort_def)
  moreover have "c_qsort cmp_desc dv \<noteq> []" using assms(1) r(1) by (metis elem_ok_def in_set_conv_decomp length_0_conv length_c_qsort)
  ultimately show ?thesis
    using assms(1) r cmdsize_last [of dv "c_qsort cmp_desc dv" r] by (auto simp: elem_ok_def)
qed

definition sort_spec :: "'f table_spec \<Rightarrow> 'f table_spec" where
  "sort_spec T n = map_option (\<lambda>(c, els). (c, sorted_els els)) (T n)"

lemma table_is_sort:
  fixes tbl :: "'f cmd_node vec"
  assumes "table_is tbl T" "\<And>n c els. T n = Some (c, els) \<Longrightarrow> \<forall>el \<in> set els. ce_strvec el \<noteq> []"
  shows "\<exists>tbl'. sort_node tbl = Some tbl' \<and> table_is tbl' (sort_spec T)"
proof -
  have ok: "vec_ok tbl" "table_ok tbl" "length (slots tbl) \<le> length all_nodes"
    and T: "slot_is (vector_lookup tbl (node_num n)) (T n)" for n
    using assms(1) by (simp_all add: table_is_def table_ok_def del: length_slots)
  define g where "g c = the (sort_cmd_vector (cn_vector c))" for c :: "'f cmd_node"
  have node: "sort_cmd_vector (cn_vector c) = Some (g c) \<and> (\<exists>c0 els. T n = Some (c0, els)
      \<and> c = c0\<lparr>cn_vector := cn_vector c\<rparr> \<and> vec_ok (g c) \<and> slots (g c) = map Some (sorted_els els))"
    if lc: "vector_lookup tbl (node_num n) = Some c" for n c
  proof -
    obtain c0 els v where x: "T n = Some (c0, els)" "c = c0\<lparr>cn_vector := v\<rparr>" "vec_ok v" "slots v = map Some els"
      using T [of n] lc by (auto simp: slot_is_def split: option.splits)
    then show ?thesis using sort_cmd_vector_is [OF x(3,4) assms(2) [OF x(1)]] by (auto simp: g_def)
  qed
  have mem: "\<exists>n. vector_lookup tbl (node_num n) = Some c" if sc: "Some c \<in> set (slots tbl)" for c
  proof -
    obtain i where i: "i < length (slots tbl)" "slots tbl ! i = Some c" using sc by (auto simp: in_set_conv_nth)
    then have "node_num (all_nodes ! i) = i" using ok(3) by (intro node_of_num) simp
    then show ?thesis using i by (intro exI [where x = "all_nodes ! i"]) (simp add: vector_lookup_slots [OF ok(1)])
  qed
  let ?ns = "map (map_option (\<lambda>c. c\<lparr>cn_vector := g c\<rparr>)) (slots tbl)"
  let ?tbl = "tbl\<lparr>v_index := ?ns @ drop (v_max tbl) (v_index tbl)\<rparr>"
  have "sort_cmd_vector (cn_vector c) = Some (g c)" if "Some c \<in> set (slots tbl)" for c
    using mem [OF that] node by blast
  then have s: "sort_node tbl = Some ?tbl" by (simp add: sort_node_def sort_node_slots_is [of "slots tbl" g])
  have len: "length (slots tbl) = v_max tbl" using ok(1) by simp
  have sl: "slots ?tbl = ?ns" using len by (simp add: slots_def)
  have vok: "vec_ok ?tbl" using ok(1) len by (auto simp: vec_ok_def nth_append)
  have lk: "vector_lookup ?tbl i = map_option (\<lambda>c. c\<lparr>cn_vector := g c\<rparr>) (vector_lookup tbl i)" for i
    using len by (auto simp: vector_lookup_slots [OF ok(1)] vector_lookup_slots [OF vok] sl simp del: length_slots)
  have "slot_is (vector_lookup ?tbl (node_num n)) (sort_spec T n)" for n
  proof (cases "vector_lookup tbl (node_num n)")
    case None
    then show ?thesis using T [of n] by (auto simp: lk slot_is_def sort_spec_def split: option.splits)
  next
    case (Some c)
    then show ?thesis using node [OF Some] by (auto simp: lk slot_is_def sort_spec_def)
      (metis (no_types, lifting) cmd_node.surjective cmd_node.update_convs(5))
  qed
  moreover have "table_ok ?tbl"
    unfolding table_ok_def slots_ok_def
  proof (intro conjI allI impI)
    fix c'
    assume "Some c' \<in> set (slots ?tbl)"
    then obtain c where c: "Some c \<in> set (slots tbl)" "c' = c\<lparr>cn_vector := g c\<rparr>" by (auto simp: sl map_option_case split: option.splits)
    then obtain n where n: "vector_lookup tbl (node_num n) = Some c" using mem by blast
    obtain c0 els where x: "T n = Some (c0, els)" "c = c0\<lparr>cn_vector := cn_vector c\<rparr>" "vec_ok (g c)"
      "slots (g c) = map Some (sorted_els els)" using node [OF n] by blast
    have "slots (cn_vector c) = map Some els" using T [of n] n x(1) by (auto simp: slot_is_def)
    moreover have "node_ok c" using ok(2) c(1) by (auto simp: table_ok_def slots_ok_def)
    ultimately have e: "\<forall>el \<in> set els. elem_ok el" by (auto simp: node_ok_def slots_ok_def)
    have "elem_ok el'" if m: "el' \<in> set (sorted_els els)" for el'
    proof -
      obtain el where el: "el \<in> set els" "el' = the (sort_last el)" using m by (auto simp: sorted_els_def)
      then obtain el2 where "sort_last el = Some el2" using sort_last_same assms(2) [OF x(1)] by blast
      then show ?thesis using sort_last_ok [of el el2] e el by simp
    qed
    then show "node_ok c'" using x(3,4) c(2) by (auto simp: node_ok_def slots_ok_def)
  qed (rule vok)
  ultimately show ?thesis using s ok(3) by (auto simp: table_is_def sl simp del: length_slots)
qed


section \<open>The table of the program\<close>

definition cmds_at :: "node_type \<Rightarrow> func cmd_element list" where
  "cmds_at n =
     (if n = VTY_NODE then []
      else map snd (filter (\<lambda>x. fst x = n) (view_cmds True @ enable_cmds True @ config_cmds True @ line_cmds @ netmt_cmds)))"

definition node_at :: "node_type \<Rightarrow> func cmd_node option" where
  "node_at n =
     (if n = VIEW_NODE then Some view_node else if n = ENABLE_NODE then Some enable_node
      else if n = AUTH_NODE then Some auth_node else if n = AUTH_ENABLE_NODE then Some auth_enable_node
      else if n = CONFIG_NODE then Some (config_node\<lparr>cn_func := Some Config_write_host\<rparr>)
      else if n = VTY_NODE then Some (netmt_cmd_node\<lparr>cn_func := Some Config_write_show_netmt_cmd\<rparr>) else None)"

definition netmt_spec :: "func table_spec" where
  "netmt_spec n = map_option (\<lambda>c. (c, sorted_els (map compiled (cmds_at n)))) (node_at n)"

definition program_cmds :: "func cmd_element list" where
  "program_cmds =
    [config_terminal_cmd, config_enable_cmd, config_disable_cmd, config_exit_cmd, config_quit_cmd,
     config_end_cmd, show_version_cmd, config_help_cmd, config_list_cmd, config_write_file_cmd,
     config_write_cmd, config_write_memory_cmd, copy_runningconfig_startupconfig_cmd,
     config_write_terminal_cmd, show_running_config_cmd, show_startup_config_cmd, hostname_cmd,
     no_hostname_cmd, password_cmd, password_text_cmd, enable_password_cmd, enable_password_text_cmd,
     no_enable_password_cmd, service_password_encrypt_cmd, no_service_password_encrypt_cmd,
     config_terminal_length_cmd, config_terminal_no_length_cmd, service_terminal_length_cmd,
     no_service_terminal_length_cmd, config_log_stdout_cmd, no_config_log_stdout_cmd, config_log_file_cmd,
     no_config_log_file_cmd, config_log_syslog_cmd, config_log_syslog_facility_cmd,
     no_config_log_syslog_cmd, no_config_log_syslog_facility_cmd, config_log_trap_cmd,
     no_config_log_trap_cmd, config_log_record_priority_cmd, no_config_log_record_priority_cmd,
     banner_motd_default_cmd, no_banner_motd_cmd, config_who_cmd, line_vty_cmd, exec_timeout_min_cmd,
     exec_timeout_sec_cmd, no_exec_timeout_cmd, vty_access_class_cmd, no_vty_access_class_cmd,
     vty_ipv6_access_class_cmd, no_vty_ipv6_access_class_cmd, vty_login_cmd, no_vty_login_cmd,
     service_advanced_vty_cmd, no_service_advanced_vty_cmd, terminal_monitor_cmd, terminal_no_monitor_cmd,
     show_history_cmd, show_netmt_help_cmd, show_netmt_version_cmd, show_status_netmt_cmd,
     show_netmt_client_addr_cmd, send_netmt_cmd, get_netmt_cmd, register_netmt_cmd, ping_netmt_cmd,
     exec_shell_remote_cmd]"

lemma installed_program_cmds:
  "snd ` set (view_cmds True @ enable_cmds True @ config_cmds True @ line_cmds @ vty_node_cmds @ netmt_cmds)
     \<subseteq> set program_cmds"
  by (simp add: view_cmds_def enable_cmds_def config_cmds_def line_cmds_def vty_node_cmds_def netmt_cmds_def
      install_default_def program_cmds_def)

definition netmt_table :: "func cmd_node vec" where
  "netmt_table = (case build_table of Cont t \<Rightarrow> t | _ \<Rightarrow> vector_init 1)"

definition specified :: "'f cmd_element \<Rightarrow> bool" where
  "specified c = (case cmd_make_descvec (Some (ce_string c)) (ce_doc c) of None \<Rightarrow> False | Some sv \<Rightarrow> sv \<noteq> []
     \<and> list_all (\<lambda>dv. length dv \<noteq> 1 \<longrightarrow> list_all (\<lambda>d. \<not> CMD_VARARG (d_cmd d)) dv) sv)"

lemma program_cmds_specified: "list_all specified program_cmds"
  by code_simp


lemma well_specified_iff: "well_specified c = specified c"
  by (auto simp: well_specified_def specified_def compiled_def elem_args_ok_def list_all_iff split: option.splits)

lemma program_cmds_ok: "c \<in> set program_cmds \<Longrightarrow> well_specified c"
  using program_cmds_specified by (simp add: list_all_iff well_specified_iff)

lemma installed_ok: "x \<in> set (view_cmds True @ enable_cmds True @ config_cmds True @ line_cmds @ vty_node_cmds @ netmt_cmds) \<Longrightarrow> well_specified (snd x)"
  using installed_program_cmds program_cmds_ok by blast

lemma nodes_of_cmds:
  "x \<in> set (view_cmds True @ enable_cmds True @ config_cmds True) \<Longrightarrow> fst x \<in> {VIEW_NODE, ENABLE_NODE, CONFIG_NODE}"
  "x \<in> set (line_cmds @ vty_node_cmds) \<Longrightarrow> fst x \<in> {VIEW_NODE, ENABLE_NODE, CONFIG_NODE, VTY_NODE}"
  "x \<in> set netmt_cmds \<Longrightarrow> fst x \<in> {VIEW_NODE, ENABLE_NODE, CONFIG_NODE}"
  by (auto simp: view_cmds_def enable_cmds_def config_cmds_def line_cmds_def vty_node_cmds_def netmt_cmds_def
      install_default_def)

lemma table_is_installs_ok:
  assumes "table_is tbl T" "\<And>x. x \<in> set cs \<Longrightarrow> T (fst x) \<noteq> None" "\<And>x. x \<in> set cs \<Longrightarrow> well_specified (snd x)"
  shows "\<exists>tbl'. installs cs tbl = Cont tbl' \<and> table_is tbl' (add_cmds cs T)"
  using assms by (intro table_is_installs) (auto simp: list_all_iff)

lemma add_cmds_none [simp]: "(add_cmds cs T n = None) = (T n = None)"
  by (simp add: add_cmds_def)

lemma build_table_is: "\<exists>tbl. build_table = Cont tbl \<and> table_is tbl netmt_spec"
proof -
  note ok = installed_ok nodes_of_cmds
  let ?c1 = "view_cmds True @ enable_cmds True @ config_cmds True"
  define T1 where "T1 = (Map.empty(VIEW_NODE \<mapsto> (view_node, []), ENABLE_NODE \<mapsto> (enable_node, []),
    AUTH_NODE \<mapsto> (auth_node, []), AUTH_ENABLE_NODE \<mapsto> (auth_enable_node, []),
    CONFIG_NODE \<mapsto> (config_node\<lparr>cn_func := Some Config_write_host\<rparr>, [])) :: func table_spec)"
  have f: "view_node\<lparr>cn_func := None\<rparr> = view_node" "enable_node\<lparr>cn_func := None\<rparr> = enable_node"
    "auth_node\<lparr>cn_func := None\<rparr> = auth_node" "auth_enable_node\<lparr>cn_func := None\<rparr> = auth_enable_node"
    "cn_node view_node = VIEW_NODE" "cn_node enable_node = ENABLE_NODE" "cn_node auth_node = AUTH_NODE"
    "cn_node auth_enable_node = AUTH_ENABLE_NODE" "cn_node config_node = CONFIG_NODE" "cn_node vty_node = VTY_NODE"
    "cn_node netmt_cmd_node = VTY_NODE"
    by (simp_all add: view_node_def enable_node_def auth_node_def auth_enable_node_def config_node_def vty_node_def
        netmt_cmd_node_def make_node_def)
  have 1: "table_is (install_node config_node (Some Config_write_host) (install_node auth_enable_node None
         (install_node auth_node None (install_node enable_node None (install_node view_node None (vector_init 1)))))) T1"
    using table_is_node [OF table_is_node [OF table_is_node [OF table_is_node [OF table_is_node [OF table_is_empty [of 1],
      of view_node None], of enable_node None], of auth_node None], of auth_enable_node None],
      of config_node "Some Config_write_host"]
    by (simp add: f T1_def)
  have n1: "T1 (fst x) \<noteq> None" if "x \<in> set ?c1" for x using nodes_of_cmds(1) [OF that] by (auto simp: T1_def)
  have w1: "well_specified (snd x)" if "x \<in> set ?c1" for x using that by (intro installed_ok) auto
  obtain t2 where t2: "cmd_init True = Cont t2" "table_is t2 (add_cmds ?c1 T1)"
    using table_is_installs_ok [OF 1 n1 w1] unfolding cmd_init_def by blast
  let ?T2 = "(add_cmds ?c1 T1)(VTY_NODE \<mapsto> (vty_node\<lparr>cn_func := Some Vty_config_write\<rparr>, []))"
  have 2: "table_is (install_node vty_node (Some Vty_config_write) t2) ?T2"
    using table_is_node [OF t2(2), of vty_node] by (simp add: f)
  have n2: "?T2 (fst x) \<noteq> None" if "x \<in> set (line_cmds @ vty_node_cmds)" for x
    using nodes_of_cmds(2) [OF that] by (auto simp: T1_def simp del: not_None_eq)
  have w2: "well_specified (snd x)" if "x \<in> set (line_cmds @ vty_node_cmds)" for x using that by (intro installed_ok) auto
  obtain t3 where t3: "vty_init t2 = Cont t3" "table_is t3 (add_cmds (line_cmds @ vty_node_cmds) ?T2)"
    using table_is_installs_ok [OF 2 n2 w2] unfolding vty_init_def by blast
  let ?T3 = "(add_cmds (line_cmds @ vty_node_cmds) ?T2)(VTY_NODE \<mapsto> (netmt_cmd_node\<lparr>cn_func := Some Config_write_show_netmt_cmd\<rparr>, []))"
  have 3: "table_is (install_node netmt_cmd_node (Some Config_write_show_netmt_cmd) t3) ?T3"
    using table_is_node [OF t3(2), of netmt_cmd_node] by (simp add: f)
  have n3: "?T3 (fst x) \<noteq> None" if "x \<in> set netmt_cmds" for x
    using nodes_of_cmds(3) [OF that] by (auto simp: T1_def simp del: not_None_eq)
  have w3: "well_specified (snd x)" if "x \<in> set netmt_cmds" for x using that by (intro installed_ok) auto
  obtain t4 where t4: "netmt_servercmd_init t3 = Cont t4" "table_is t4 (add_cmds netmt_cmds ?T3)"
    using table_is_installs_ok [OF 3 n3 w3] unfolding netmt_servercmd_init_def by blast
  have "filter (\<lambda>x. fst x = VTY_NODE) netmt_cmds = []" by (auto simp: filter_empty_conv dest: nodes_of_cmds(3))
  moreover have "filter (\<lambda>x. fst x = n) vty_node_cmds = []" if "n \<noteq> VTY_NODE" for n
    using that by (auto simp: filter_empty_conv vty_node_cmds_def install_default_def)
  ultimately have "filter (\<lambda>x. fst x = VTY_NODE) netmt_cmds = []" "n \<noteq> VTY_NODE \<Longrightarrow> filter (\<lambda>x. fst x = n) vty_node_cmds = []" for n
    by blast+
  note fl = this(1) this(2) [of VIEW_NODE] this(2) [of ENABLE_NODE] this(2) [of CONFIG_NODE] this(2) [of AUTH_NODE]
    this(2) [of AUTH_ENABLE_NODE]
  have e: "add_cmds netmt_cmds ?T3 n = map_option (\<lambda>c. (c, map compiled (cmds_at n))) (node_at n)" for n
    using fl by (cases n) (simp_all add: add_cmds_def T1_def node_at_def cmds_at_def)
  have sv: "\<forall>el \<in> set els. ce_strvec el \<noteq> []" if te: "add_cmds netmt_cmds ?T3 n = Some (c, els)" for n c els
  proof -
    have "els = map compiled (cmds_at n)" using te unfolding e by auto
    moreover have "well_specified c" if "c \<in> set (cmds_at n)" for c
      using that installed_ok by (auto simp: cmds_at_def split: if_splits)
    ultimately show ?thesis by (auto simp: well_specified_def)
  qed
  have "\<exists>t5. sort_node t4 = Some t5 \<and> table_is t5 (sort_spec (add_cmds netmt_cmds ?T3))"
    by (rule table_is_sort [OF t4(2)]) (rule sv)
  then obtain t5 where "sort_node t4 = Some t5" "table_is t5 (sort_spec (add_cmds netmt_cmds ?T3))" by blast
  moreover have "sort_spec (add_cmds netmt_cmds ?T3) = netmt_spec"
    unfolding sort_spec_def [abs_def] e netmt_spec_def [abs_def] by (simp add: option.map_comp comp_def)
  ultimately show ?thesis using t2(1) t3(1) t4(1) by (simp add: build_table_def)
qed

lemma netmt_table_is: "build_table = Cont netmt_table" "table_is netmt_table netmt_spec"
proof -
  obtain t where t: "build_table = Cont t" "table_is t netmt_spec" using build_table_is by blast
  have "netmt_table = t" unfolding netmt_table_def t(1) by simp
  then show "build_table = Cont netmt_table" "table_is netmt_table netmt_spec" using t by simp_all
qed


text \<open>What the table holds at a node.\<close>

lemma node_slot:
  assumes "vector_slot netmt_table (node_num n) = Some (Some c)"
  shows "\<exists>c0 v. node_at n = Some c0 \<and> c = c0\<lparr>cn_vector := v\<rparr> \<and> vec_ok v
    \<and> slots v = map Some (sorted_els (map compiled (cmds_at n)))"
proof -
  have "vec_ok netmt_table" using netmt_table_is(2) by (simp add: table_is_def table_ok_def)
  then have "vector_lookup netmt_table (node_num n) = Some c"
    using slot_some_in_use [OF _ assms] by (simp add: vector_lookup_slots)
  then have "slot_is (Some c) (netmt_spec n)" using netmt_table_is(2) unfolding table_is_def by metis
  then show ?thesis by (auto simp: slot_is_def netmt_spec_def split: option.splits)
qed

lemma node_vector:
  assumes "node_at n = Some c0"
  shows "\<exists>v. vector_slot netmt_table (node_num n) = Some (Some (c0\<lparr>cn_vector := v\<rparr>)) \<and> vec_ok v
    \<and> slots v = map Some (sorted_els (map compiled (cmds_at n)))"
proof -
  have ok: "vec_ok netmt_table" using netmt_table_is(2) by (simp add: table_is_def table_ok_def)
  have "slot_is (vector_lookup netmt_table (node_num n)) (netmt_spec n)" using netmt_table_is(2) unfolding table_is_def by metis
  then obtain v where v: "vector_lookup netmt_table (node_num n) = Some (c0\<lparr>cn_vector := v\<rparr>)" "vec_ok v"
    "slots v = map Some (sorted_els (map compiled (cmds_at n)))"
    using assms by (auto simp: slot_is_def netmt_spec_def)
  then have "node_num n < length (slots netmt_table)" "slots netmt_table ! node_num n = Some (c0\<lparr>cn_vector := v\<rparr>)"
    by (auto simp: vector_lookup_slots [OF ok] split: if_splits)
  then have "vector_slot netmt_table (node_num n) = Some (Some (c0\<lparr>cn_vector := v\<rparr>))"
    using ok by (auto simp: vector_slot_def slots_def vec_ok_def)
  then show ?thesis using v by blast
qed

lemma cmds_at_ok: "c \<in> set (cmds_at n) \<Longrightarrow> well_specified c"
  using installed_ok by (auto simp: cmds_at_def split: if_splits)

lemma sorted_compiled:
  assumes "el \<in> set (sorted_els (map compiled (cmds_at n)))"
  shows "\<exists>c \<in> set (cmds_at n). sort_last (compiled c) = Some el \<and> same_command (compiled c) el"
proof -
  obtain c where c: "c \<in> set (cmds_at n)" "el = the (sort_last (compiled c))" using assms by (auto simp: sorted_els_def)
  then have "ce_strvec (compiled c) \<noteq> []" using cmds_at_ok by (simp add: well_specified_def)
  then show ?thesis using sort_last_same c by fastforce
qed

lemma installed_netmt:
  assumes "installed netmt_table n el"
  shows "\<exists>c \<in> set (cmds_at n). sort_last (compiled c) = Some el \<and> same_command (compiled c) el"
proof -
  obtain v where v: "cmd_node_vector netmt_table n = Cont v" "Some el \<in> set (slots (vector_copy v))"
    using assms by (auto simp: installed_def)
  then obtain c where "vector_slot netmt_table (node_num n) = Some (Some c)" "cn_vector c = v"
    by (auto simp: cmd_node_vector_def split: option.splits)
  then have "el \<in> set (sorted_els (map compiled (cmds_at n)))" using node_slot [of n c] v(2) by auto
  then show ?thesis by (rule sorted_compiled)
qed

lemma installed_line_vty:
  assumes "installed netmt_table n el" "ce_func el = Line Line_vty"
  shows "n = CONFIG_NODE"
proof -
  have all: "list_all (\<lambda>(n, c). ce_func c = Line Line_vty \<longrightarrow> n = CONFIG_NODE)
      (view_cmds True @ enable_cmds True @ config_cmds True @ line_cmds @ netmt_cmds)"
    by code_simp
  obtain c where c: "c \<in> set (cmds_at n)" "same_command (compiled c) el" using installed_netmt [OF assms(1)] by blast
  then have "ce_func c = Line Line_vty" using assms(2) by (simp add: same_command_def compiled_def Let_def)
  then show ?thesis using all c(1) by (auto simp: cmds_at_def list_all_iff split: if_splits)
qed

end
