(* ===== verification/NetmtLines.thy ===== *)
theory NetmtLines
  imports NetmtTable
begin

text \<open>
  What a line means to the program: executing a line in a node of \<open>netmt_table\<close> depends only on the
  words of the installed specifications, which are listed here node by node (\<open>view_shapes\<close>,
  \<open>enable_shapes\<close>, \<open>config_shapes\<close>) and proved to be what the program's own parser and sorting make
  of its declarations. The properties of the finished table follow by evaluation of the lists.
\<close>

section \<open>What execution needs of a command\<close>

text \<open>The specification of a command without its texts.\<close>

definition plain :: "'f \<times> string list list \<times> nat \<Rightarrow> 'f cmd_element" where
  "plain x = (case x of (f, ws, n) \<Rightarrow> \<lparr>ce_string = [], ce_func = f, ce_doc = None, ce_daemon = 0,
     ce_strvec = map (map (\<lambda>w. \<lparr>d_cmd = w, d_str = None\<rparr>)) ws, ce_cmdsize = n\<rparr>)"

definition shape :: "'f cmd_element \<Rightarrow> 'f \<times> string list list \<times> nat" where
  "shape el = (ce_func el, map (map d_cmd) (ce_strvec el), ce_cmdsize el)"

definition erase :: "'f cmd_element \<Rightarrow> 'f cmd_element" where
  "erase el = (plain (shape el))\<lparr>ce_daemon := ce_daemon el\<rparr>"

lemma erase_fields [simp]:
  "ce_func (erase el) = ce_func el" "ce_cmdsize (erase el) = ce_cmdsize el" "ce_daemon (erase el) = ce_daemon el"
  "ce_strvec (erase el) = map (map (\<lambda>d. \<lparr>d_cmd = d_cmd d, d_str = None\<rparr>)) (ce_strvec el)"
  by (simp_all add: erase_def plain_def shape_def)

fun erase_result :: "'f exec_result \<Rightarrow> 'f exec_result" where
  "erase_result (Call el argv) = Call (erase el) argv"
| "erase_result r = r"

lemma carry_out_erase: "carry_out run (erase_result r) s = carry_out run r s"
  by (cases r) (simp_all add: carry_out_def)

abbreviation bare :: "desc \<Rightarrow> desc" where
  "bare d \<equiv> \<lparr>d_cmd = d_cmd d, d_str = None\<rparr>"

lemma match_descs_bare [simp]: "match_descs f (map bare ds) mt = match_descs f ds mt"
  by (induction f ds mt rule: match_descs.induct) (auto split: option.splits)

lemma amb_descs_bare [simp]: "amb_descs w t (map bare ds) m = amb_descs w t ds m"
  by (induction w t ds m rule: amb_descs.induct) (auto split: sum.splits prod.splits)

lemma filter_slots_erase:
  "filter_slots f i (map (map_option erase) v) mt = map_prod id (map (map_option erase)) (filter_slots f i v mt)"
  by (induction f i v mt rule: filter_slots.induct) (auto split: prod.splits)

lemma amb_slots_erase:
  assumes "\<And>el. Some el \<in> set v \<Longrightarrow> i < length (ce_strvec el)"
  shows "amb_slots w t i (map (map_option erase) v) m = map_sum id (map (map_option erase)) (amb_slots w t i v m)"
  using assms
proof (induction w t i v m rule: amb_slots.induct)
  case (2 w t i v m)
  then show ?case by (cases "amb_slots w t i v m") simp_all
next
  case (3 w t i el v m)
  then have "i < length (ce_strvec el)" by simp
  then have e: "amb_descs w t (ce_strvec (erase el) ! i) m = amb_descs w t (ce_strvec el ! i) m" by simp
  show ?case
  proof (cases "amb_descs w t (ce_strvec el ! i) m")
    case (Inr x)
    then obtain m' hit where x: "amb_descs w t (ce_strvec el ! i) m = Inr (m', hit)" by (cases x) simp
    show ?thesis using 3(1) [OF x refl] 3(2) e x by (cases "amb_slots w t i v m'") auto
  qed (use e in simp)
qed simp

lemma cmd_args_bare [simp]: "cmd_args ws (map (map bare) sv) vf argv = cmd_args ws sv vf argv"
proof (induction ws sv vf argv rule: cmd_args.induct)
  case (2 w ws sv vf argv)
  then show ?case
    by (cases sv; cases "hd sv"; cases "tl (hd sv)") (auto simp: map_tl split: outcome.splits prod.splits if_splits)
qed simp


context word_filter
begin

lemma match_loop_erase:
  "match_loop flt ws i (map (map_option erase) v) mt
     = map_sum id (map_prod id (map_prod id (map (map_option erase)))) (match_loop flt ws i v mt)"
proof (induction ws arbitrary: i v mt)
  case (Cons w ws)
  obtain mt1 v1 where fl: "flt w v i = (mt1, v1)" by fastforce
  then have fe: "flt w (map (map_option erase) v) i = (mt1, map (map_option erase) v1)"
    by (simp add: flt_filter filter_slots_erase)
  have "i < length (ce_strvec el)" if "Some el \<in> set v1" for el
    using filter_slots_keeps [of el "f w" i v no_match] that fl by (simp add: flt_filter)
  then have "is_cmd_ambiguous w (map (map_option erase) v1) i mt1 = map_sum id (map (map_option erase)) (is_cmd_ambiguous w v1 i mt1)"
    unfolding is_cmd_ambiguous_def by (rule amb_slots_erase)
  then show ?case using Cons.IH by (cases "is_cmd_ambiguous w v1 i mt1") (simp_all add: fl fe)
qed simp

lemma exec_with_erase: "exec_with flt ws (map (map_option erase) v) = erase_result (exec_with flt ws v)"
proof (cases "match_loop flt ws 0 v no_match")
  case (Inl c)
  then show ?thesis by (simp add: exec_with_def match_loop_erase)
next
  case (Inr r)
  obtain mt i v' where r: "r = (mt, i, v')" by (cases r)
  have "filter (\<lambda>x. x \<noteq> None) (map (map_option erase) v') = map (map_option erase) (filter (\<lambda>x. x \<noteq> None) v')"
    by (simp add: filter_map comp_def)
  moreover have "map the (map (map_option erase) (filter (\<lambda>x. x \<noteq> None) v')) = map erase (map the (filter (\<lambda>x. x \<noteq> None) v'))"
    by (auto simp: option.map_sel)
  ultimately have e: "map the (filter (\<lambda>x. x \<noteq> None) (map (map_option erase) v')) = map erase (map the (filter (\<lambda>x. x \<noteq> None) v'))"
    by simp
  define els where "els = map the (filter (\<lambda>x. x \<noteq> None) v')"
  define hits where "hits = filter (\<lambda>el. mt = vararg_match \<or> i \<ge> ce_cmdsize el) els"
  have h: "filter (\<lambda>el. mt = vararg_match \<or> i \<ge> ce_cmdsize el) (map erase els) = map erase hits"
    by (simp add: filter_map comp_def hits_def)
  have 1: "exec_with flt ws v = result els hits" and 2: "exec_with flt ws (map (map_option erase) v) = result (map erase els) (map erase hits)"
    if "result = (\<lambda>els hits. case hits of
        [] \<Rightarrow> Code (if els \<noteq> [] then CMD_ERR_INCOMPLETE else CMD_ERR_NO_MATCH)
      | _ # _ # _ \<Rightarrow> Code CMD_ERR_AMBIGUOUS
      | [el] \<Rightarrow> (case cmd_args ws (ce_strvec el) False [] of
                 Fault e \<Rightarrow> Crash e | Ret _ \<Rightarrow> Code CMD_ERR_EXEED_ARGC_MAX
               | Cont argv \<Rightarrow> if ce_daemon el \<noteq> 0 then Code CMD_SUCCESS_DAEMON else Call el argv))" for result
    unfolding that exec_with_def match_loop_erase Inr r
    by (simp_all only: sum.case map_sum.simps map_prod_simp prod.case id_apply Let_def e h els_def [symmetric] hits_def [symmetric])
  show ?thesis
    unfolding 1 [OF refl] 2 [OF refl]
    by (cases hits; cases "tl hits") (auto split: outcome.splits)
qed

end


section \<open>The shapes of a sorted table\<close>

lemma qsort_map: "(\<And>a b. cmp (f a) (f b) = cmp' a b) \<Longrightarrow> c_qsort cmp (map f xs) = map f (c_qsort cmp' xs)"
proof -
  assume c: "\<And>a b. cmp (f a) (f b) = cmp' a b"
  have "insort_cmp cmp (f x) (map f ys) = map f (insort_cmp cmp' x ys)" for x ys by (induction ys) (simp_all add: c)
  then show ?thesis by (induction xs) (simp_all add: c_qsort_def)
qed

definition by_key :: "string \<times> 'b \<Rightarrow> string \<times> 'b \<Rightarrow> int" where
  "by_key a b = strcmp (fst a) (fst b)"

definition keyed :: "'f cmd_element \<Rightarrow> string \<times> 'f \<times> string list list \<times> nat" where
  "keyed c = (ce_string c, shape c)"

definition sort_words :: "string list list \<Rightarrow> string list list" where
  "sort_words ws = butlast ws @ [c_qsort strcmp (last ws)]"

lemma shape_sort_last:
  "ce_strvec el \<noteq> [] \<Longrightarrow> shape (the (sort_last el)) = (ce_func el, sort_words (map (map d_cmd) (ce_strvec el)), ce_cmdsize el)"
  by (cases "ce_strvec el" rule: rev_cases)
    (simp_all add: sort_last_def shape_def sort_words_def qsort_map [symmetric, of strcmp d_cmd cmp_desc] cmp_desc_def)

lemma shape_sorted:
  assumes "\<forall>el \<in> set els. ce_strvec el \<noteq> []" "map keyed els = ks"
  shows "map shape (sorted_els els) = map (\<lambda>(k, f, ws, n). (f, sort_words ws, n)) (c_qsort by_key ks)"
proof -
  have "c_qsort by_key (map keyed els) = map keyed (c_qsort cmp_node els)"
    by (rule qsort_map) (simp add: by_key_def keyed_def cmp_node_def)
  moreover have "shape (the (sort_last x)) = (case keyed x of (k, f, ws, n) \<Rightarrow> (f, sort_words ws, n))" if "x \<in> set els" for x
    using shape_sort_last [of x] assms(1) that by (simp add: keyed_def shape_def [of x])
  ultimately show ?thesis using assms(2) by (auto simp: sorted_els_def)
qed


abbreviation words_of :: "desc list list \<Rightarrow> string list list" where
  "words_of \<equiv> map (map d_cmd)"

lemma descvec_words:
  "words_of v = words_of v' \<Longrightarrow>
     map_option words_of (descvec_loop m cp dp v) = map_option words_of (descvec_loop m cp None v')"
proof (induction m cp dp v arbitrary: v' rule: descvec_loop.induct)
  case (1 m cp dp v)
  note e = descvec_loop.simps [of m cp]
  show ?case
  proof (cases "desc_head m cp")
    case None
    then show ?thesis by (simp add: e)
  next
    case (Some x)
    obtain m1 c where x: "x = (m1, c)" by (cases x)
    obtain str dp' where dp: "cmd_desc_str dp = (str, dp')" by (cases "cmd_desc_str dp")
    have n: "cmd_desc_str None = (None, None)" by (simp add: cmd_desc_str_def)
    let ?d = "\<lambda>str. \<lparr>d_cmd = takeWhile (\<lambda>c. \<not> desc_stop c) c, d_str = str\<rparr>"
    have l: "length v = length v'" using 1(4) by (metis length_map)
    have a: "words_of (append_last v (?d str)) = words_of (append_last v' (?d None))"
      using 1(4) l by (cases v rule: rev_cases; cases v' rule: rev_cases) (auto simp: append_last_def)
    show ?thesis
      using 1(1) [OF Some x [symmetric] _ refl refl refl dp [symmetric] refl _ a]
        1(2) [OF Some x [symmetric] _ refl refl refl dp [symmetric] refl _ _, of "v' @ [[?d None]]"]
        1(3) [OF Some x [symmetric] _ refl refl refl dp [symmetric] refl _ _, of "v' @ [[?d None]]"] 1(4)
      by (simp add: e [of dp] e [of None] Some x dp n Let_def)
  qed
qed

definition spec_words :: "string \<Rightarrow> string list list" where
  "spec_words s = words_of (the (cmd_make_descvec (Some s) None))"

definition bare_words :: "string list list \<Rightarrow> desc list list" where
  "bare_words = map (map (\<lambda>w. \<lparr>d_cmd = w, d_str = None\<rparr>))"

lemma cmdsize_bare: "cmd_cmdsize sv = cmd_cmdsize (bare_words (words_of sv))"
  by (induction sv rule: cmd_cmdsize.induct) (auto simp: bare_words_def split: list.splits)

definition spec_key :: "'f cmd_element \<Rightarrow> string \<times> 'f \<times> string list list \<times> nat" where
  "spec_key c = (let ws = spec_words (ce_string c) in (ce_string c, ce_func c, ws, cmd_cmdsize (bare_words ws)))"

lemma keyed_compiled:
  assumes "well_specified c"
  shows "keyed (compiled c) = spec_key c"
proof -
  obtain sv where sv: "cmd_make_descvec (Some (ce_string c)) (ce_doc c) = Some sv"
    using assms by (auto simp: well_specified_def)
  then have "spec_words (ce_string c) = words_of sv"
    using descvec_words [OF refl, of 0 "ce_string c" "ce_doc c" "[]"]
    by (cases "descvec_loop 0 (ce_string c) None []") (simp_all add: spec_words_def cmd_make_descvec_def)
  then show ?thesis using sv by (simp add: keyed_def compiled_def shape_def spec_key_def Let_def cmdsize_bare [symmetric])
qed

lemma shapes_are:
  assumes "map spec_key (cmds_at n) = ks"
  shows "map shape (sorted_els (map compiled (cmds_at n))) = map (\<lambda>(k, f, ws, n). (f, sort_words ws, n)) (c_qsort by_key ks)"
proof (rule shape_sorted)
  show "\<forall>el \<in> set (map compiled (cmds_at n)). ce_strvec el \<noteq> []" using cmds_at_ok by (auto simp: well_specified_def)
  show "map keyed (map compiled (cmds_at n)) = ks" using keyed_compiled [OF cmds_at_ok] by (auto simp: assms [symmetric])
qed

section \<open>The commands of the program, node by node\<close>

definition view_shapes :: "(func \<times> string list list \<times> nat) list" where
  "view_shapes =
    [(Base Enable, [[''enable'']], 1),
     (Netmt Exec_shell_remote, [[''exec''], [''shell''], [''remote''], [''all'', ''group'', ''single''],
       [''[WORD]''], [''[WORD]''], [''[WORD]''], [''[WORD]''], [''[WORD]'']], 4),
     (Base Config_exit, [[''exit'']], 1),
     (Netmt Get_netmt, [[''get''], [''FILENAME''], [''from''], [''remote''], [''CLIENT''], [''FILENAME'']], 6),
     (Base Config_help, [[''help'']], 1),
     (Base Config_list, [[''list'']], 1),
     (Netmt Show_netmt_help, [[''netmt''], [''help'']], 2),
     (Netmt Ping_netmt, [[''ping''], [''IP'']], 2),
     (Base Config_exit, [[''quit'']], 1),
     (Netmt Register_netmt, [[''register'']], 1),
     (Netmt Send_netmt, [[''send''], [''[FILENAME]''], [''to''], [''remote''], [''all'', ''group'',
       ''type'', ''single''], [''[CLIENT]''], [''[FILENAME]'']], 1),
     (Netmt Show_netmt_client_addr, [[''show''], [''client''], [''addr'']], 3),
     (Line Show_history, [[''show''], [''history'']], 2),
     (Netmt Show_status_netmt, [[''show''], [''netmt''], [''client'']], 3),
     (Netmt Show_netmt_version, [[''show''], [''netmt''], [''version'']], 3),
     (Base Show_version, [[''show''], [''version'']], 2),
     (Host Config_terminal_length, [[''terminal''], [''length''], [''<0-512>'']], 3),
     (Host Config_terminal_no_length, [[''terminal''], [''no''], [''length'']], 3),
     (Line Config_who, [[''who'']], 1)]"

definition enable_shapes :: "(func \<times> string list list \<times> nat) list" where
  "enable_shapes =
    [(Base Config_terminal, [[''configure''], [''terminal'']], 2),
     (Base Config_write_file, [[''copy''], [''running-config''], [''startup-config'']], 3),
     (Base Disable, [[''disable'']], 1),
     (Base Config_end, [[''end'']], 1),
     (Base Config_exit, [[''exit'']], 1),
     (Netmt Get_netmt, [[''get''], [''FILENAME''], [''from''], [''remote''], [''CLIENT''], [''FILENAME'']], 6),
     (Base Config_help, [[''help'']], 1),
     (Base Config_list, [[''list'']], 1),
     (Base Config_exit, [[''quit'']], 1),
     (Netmt Send_netmt, [[''send''], [''[FILENAME]''], [''to''], [''remote''], [''all'', ''group'',
       ''type'', ''single''], [''[CLIENT]''], [''[FILENAME]'']], 1),
     (Line Show_history, [[''show''], [''history'']], 2),
     (Netmt Show_status_netmt, [[''show''], [''netmt''], [''client'']], 3),
     (Base Config_write_terminal, [[''show''], [''running-config'']], 2),
     (Base Show_startup_config, [[''show''], [''startup-config'']], 2),
     (Base Show_version, [[''show''], [''version'']], 2),
     (Host Config_terminal_length, [[''terminal''], [''length''], [''<0-512>'']], 3),
     (Line Terminal_monitor, [[''terminal''], [''monitor'']], 2),
     (Host Config_terminal_no_length, [[''terminal''], [''no''], [''length'']], 3),
     (Line Terminal_no_monitor, [[''terminal''], [''no''], [''monitor'']], 3),
     (Line Config_who, [[''who'']], 1),
     (Base Config_write_file, [[''write'']], 1),
     (Base Config_write_file, [[''write''], [''file'']], 2),
     (Base Config_write_file, [[''write''], [''memory'']], 2),
     (Base Config_write_terminal, [[''write''], [''terminal'']], 2)]"

definition config_shapes :: "(func \<times> string list list \<times> nat) list" where
  "config_shapes =
    [(Host Banner_motd_default, [[''banner''], [''motd''], [''default'']], 3),
     (Host Config_enable_password, [[''enable''], [''password''], [''8'', []], [''WORD'']], 4),
     (Host Config_enable_password, [[''enable''], [''password''], [''LINE'']], 3),
     (Base Config_end, [[''end'']], 1),
     (Base Config_exit, [[''exit'']], 1),
     (Base Config_help, [[''help'']], 1),
     (Host Config_hostname, [[''hostname''], [''WORD'']], 2),
     (Line Line_vty, [[''line''], [''vty'']], 2),
     (Base Config_list, [[''list'']], 1),
     (Log Config_log_file, [[''log''], [''file''], [''FILENAME'']], 3),
     (Log Config_log_record_priority, [[''log''], [''record-priority'']], 2),
     (Log Config_log_stdout, [[''log''], [''stdout'']], 2),
     (Log Config_log_syslog, [[''log''], [''syslog'']], 2),
     (Log Config_log_syslog_facility, [[''log''], [''syslog''], [''facility''], [''auth'', ''cron'',
       ''daemon'', ''kern'', ''local0'', ''local1'', ''local2'', ''local3'', ''local4'', ''local5'',
       ''local6'', ''local7'', ''lpr'', ''mail'', ''news'', ''syslog'', ''user'', ''uucp'']], 4),
     (Log Config_log_trap, [[''log''], [''trap''], [''alerts'', ''critical'', ''debugging'',
       ''emergencies'', ''errors'', ''informational'', ''notifications'', ''warnings'']], 3),
     (Host No_banner_motd, [[''no''], [''banner''], [''motd'']], 3),
     (Host No_config_enable_password, [[''no''], [''enable''], [''password'']], 3),
     (Host Config_no_hostname, [[''no''], [''hostname''], [''[HOSTNAME]'']], 2),
     (Log No_config_log_file, [[''no''], [''log''], [''file''], [''[FILENAME]'']], 3),
     (Log No_config_log_record_priority, [[''no''], [''log''], [''record-priority'']], 3),
     (Log No_config_log_stdout, [[''no''], [''log''], [''stdout'']], 3),
     (Log No_config_log_syslog, [[''no''], [''log''], [''syslog'']], 3),
     (Log No_config_log_syslog, [[''no''], [''log''], [''syslog''], [''facility''], [''auth'', ''cron'',
       ''daemon'', ''kern'', ''local0'', ''local1'', ''local2'', ''local3'', ''local4'', ''local5'',
       ''local6'', ''local7'', ''lpr'', ''mail'', ''news'', ''syslog'', ''user'', ''uucp'']], 5),
     (Log No_config_log_trap, [[''no''], [''log''], [''trap'']], 3),
     (Line No_service_advanced_vty, [[''no''], [''service''], [''advanced-vty'']], 3),
     (Host No_service_password_encrypt, [[''no''], [''service''], [''password-encryption'']], 3),
     (Host No_service_terminal_length, [[''no''], [''service''], [''terminal-length''], [''[<0-512>]'']], 3),
     (Host Config_password, [[''password''], [''8'', []], [''WORD'']], 3),
     (Host Config_password, [[''password''], [''LINE'']], 2),
     (Base Config_exit, [[''quit'']], 1),
     (Line Service_advanced_vty, [[''service''], [''advanced-vty'']], 2),
     (Host Service_password_encrypt, [[''service''], [''password-encryption'']], 2),
     (Host Service_terminal_length, [[''service''], [''terminal-length''], [''<0-512>'']], 3),
     (Line Show_history, [[''show''], [''history'']], 2),
     (Netmt Show_status_netmt, [[''show''], [''netmt''], [''client'']], 3),
     (Base Config_write_terminal, [[''show''], [''running-config'']], 2),
     (Base Config_write_file, [[''write'']], 1),
     (Base Config_write_file, [[''write''], [''file'']], 2),
     (Base Config_write_file, [[''write''], [''memory'']], 2),
     (Base Config_write_terminal, [[''write''], [''terminal'']], 2)]"


definition shapes :: "node_type \<Rightarrow> (func \<times> string list list \<times> nat) list" where
  "shapes n = (if n = VIEW_NODE then view_shapes else if n = ENABLE_NODE then enable_shapes
     else if n = CONFIG_NODE then config_shapes else [])"

lemma shapes_at_view: "map shape (sorted_els (map compiled (cmds_at VIEW_NODE))) = view_shapes"
proof -
  define ks where "ks = map spec_key (cmds_at VIEW_NODE)"
  have "map (\<lambda>(k, f, ws, n). (f, sort_words ws, n)) (c_qsort by_key (map spec_key (cmds_at VIEW_NODE))) = view_shapes"
    by code_simp
  then show ?thesis by (simp add: shapes_are)
qed

lemma shapes_at_enable: "map shape (sorted_els (map compiled (cmds_at ENABLE_NODE))) = enable_shapes"
proof -
  have "map (\<lambda>(k, f, ws, n). (f, sort_words ws, n)) (c_qsort by_key (map spec_key (cmds_at ENABLE_NODE))) = enable_shapes"
    by code_simp
  then show ?thesis by (simp add: shapes_are)
qed

lemma shapes_at_config: "map shape (sorted_els (map compiled (cmds_at CONFIG_NODE))) = config_shapes"
proof -
  have "map (\<lambda>(k, f, ws, n). (f, sort_words ws, n)) (c_qsort by_key (map spec_key (cmds_at CONFIG_NODE))) = config_shapes"
    by code_simp
  then show ?thesis by (simp add: shapes_are)
qed

lemma no_daemon: "c \<in> set (cmds_at n) \<Longrightarrow> ce_daemon c = 0"
proof -
  have "list_all (\<lambda>(n, c). ce_daemon c = 0) (view_cmds True @ enable_cmds True @ config_cmds True @ line_cmds @ netmt_cmds)"
    by code_simp
  then show "c \<in> set (cmds_at n) \<Longrightarrow> ce_daemon c = 0" by (auto simp: cmds_at_def list_all_iff split: if_splits)
qed

lemma shapes_of: "map shape (sorted_els (map compiled (cmds_at n))) = shapes n"
proof -
  have "cmds_at n = []" if "n \<notin> {VIEW_NODE, ENABLE_NODE, CONFIG_NODE}"
    using that nodes_of_cmds by (cases "n = VTY_NODE") (fastforce simp: cmds_at_def filter_empty_conv)+
  then show ?thesis
    using shapes_at_view shapes_at_enable shapes_at_config
    by (cases "n \<in> {VIEW_NODE, ENABLE_NODE, CONFIG_NODE}") (auto simp: shapes_def sorted_els_def c_qsort_def)
qed

definition line_meaning :: "(func word_filter) \<Rightarrow> node_type \<Rightarrow> string list \<Rightarrow> func exec_result" where
  "line_meaning flt n ws = exec_with flt ws (map (Some \<circ> plain) (shapes n))"

lemma erase_sorted:
  assumes "el \<in> set (sorted_els (map compiled (cmds_at n)))"
  shows "erase el = plain (shape el)"
proof -
  obtain c where "c \<in> set (cmds_at n)" "same_command (compiled c) el" using sorted_compiled [OF assms] by blast
  then have "ce_daemon el = 0" using no_daemon by (simp add: same_command_def compiled_def Let_def)
  then show ?thesis by (simp add: erase_def plain_def split: prod.splits)
qed

lemma netmt_slots:
  assumes "node_at n \<noteq> None"
  shows "\<exists>v. cmd_node_vector netmt_table n = Cont v
    \<and> map (map_option erase) (slots (vector_copy v)) = map (Some \<circ> plain) (shapes n)"
proof -
  obtain c0 where "node_at n = Some c0" using assms by blast
  then obtain v where v: "vector_slot netmt_table (node_num n) = Some (Some (c0\<lparr>cn_vector := v\<rparr>))" "vec_ok v"
    "slots v = map Some (sorted_els (map compiled (cmds_at n)))" using node_vector by blast
  have "map (map_option erase) (slots (vector_copy v)) = map (Some \<circ> plain) (map shape (sorted_els (map compiled (cmds_at n))))"
    using v(2,3) erase_sorted by auto
  then show ?thesis using v(1) by (intro exI [where x = v]) (simp add: cmd_node_vector_def shapes_of)
qed

lemma netmt_executes:
  assumes "node_at n \<noteq> None"
  shows "erase_result (cmd_execute_command netmt_table n ws) = line_meaning cmd_filter_by_completion n ws"
    "erase_result (cmd_execute_command_strict netmt_table n ws) = line_meaning cmd_filter_by_string n ws"
proof -
  obtain v where v: "cmd_node_vector netmt_table n = Cont v"
    "map (map_option erase) (slots (vector_copy v)) = map (Some \<circ> plain) (shapes n)" using netmt_slots [OF assms] by blast
  show "erase_result (cmd_execute_command netmt_table n ws) = line_meaning cmd_filter_by_completion n ws"
    "erase_result (cmd_execute_command_strict netmt_table n ws) = line_meaning cmd_filter_by_string n ws"
    using v(1) completion.exec_with_erase [of ws "slots (vector_copy v)"] strict.exec_with_erase [of ws "slots (vector_copy v)"]
    by (simp_all add: cmd_execute_command_def cmd_execute_command_strict_def exec_node_def line_meaning_def v(2))
qed

lemma netmt_carry_out:
  assumes "node_at n \<noteq> None"
  shows "carry_out run (cmd_execute_command netmt_table n ws) s = carry_out run (line_meaning cmd_filter_by_completion n ws) s"
    "carry_out run (cmd_execute_command_strict netmt_table n ws) s = carry_out run (line_meaning cmd_filter_by_string n ws) s"
  using carry_out_erase netmt_executes [OF assms] by metis+

end
