(* ===== verification/LineEval.thy ===== *)
theory LineEval
  imports NetmtLines
begin

text \<open>
  Evaluating the execution of a line step by step: the first words of a line are literal and are
  looked up in the tables of \<open>NetmtLines\<close> once; what is left is a command or two, and the last word
  may be any string.
\<close>

section \<open>Following a line\<close>

definition live :: "'a option list \<Rightarrow> 'a option list" where
  "live v = filter (\<lambda>x. x \<noteq> None) v"

text \<open>The rest of an execution, from the word \<open>i\<close> of the line on.\<close>

definition exec_from ::
  "'f word_filter \<Rightarrow> string list \<Rightarrow> string list \<Rightarrow> nat \<Rightarrow> match_type \<Rightarrow> 'f cmd_element option list \<Rightarrow> 'f exec_result" where
  "exec_from flt vline ws i mt v =
     (case match_loop flt ws i v mt of
        Inl c \<Rightarrow> Code c
      | Inr (mt', index, v') \<Rightarrow>
        (let els = map the (live v');
             hits = filter (\<lambda>el. mt' = vararg_match \<or> index \<ge> ce_cmdsize el) els
         in case hits of
              [] \<Rightarrow> Code (if els \<noteq> [] then CMD_ERR_INCOMPLETE else CMD_ERR_NO_MATCH)
            | _ # _ # _ \<Rightarrow> Code CMD_ERR_AMBIGUOUS
            | [el] \<Rightarrow>
              (case cmd_args vline (ce_strvec el) False [] of
                 Fault e \<Rightarrow> Crash e
               | Ret _ \<Rightarrow> Code CMD_ERR_EXEED_ARGC_MAX
               | Cont argv \<Rightarrow> if ce_daemon el \<noteq> 0 then Code CMD_SUCCESS_DAEMON else Call el argv)))"

lemma exec_with_from: "exec_with flt ws v = exec_from flt ws ws 0 no_match v"
  unfolding exec_with_def exec_from_def live_def ..

lemma live_simps [simp]: "live [] = []" "live (None # v) = live v" "live (Some x # v) = Some x # live v"
  "live (map Some xs) = map Some xs" "live (live v) = live v"
  by (simp_all add: live_def filter_map comp_def)

lemma filter_slots_live:
  "filter_slots f i (live v) mt = (fst (filter_slots f i v mt), snd (filter_slots f i (live v) mt))"
  "live (snd (filter_slots f i (live v) mt)) = live (snd (filter_slots f i v mt))"
  by (induction f i v mt rule: filter_slots.induct) (auto split: prod.splits) 

lemma amb_slots_live:
  "map_sum id live (amb_slots w t i (live v) m) = map_sum id live (amb_slots w t i v m)"
proof (induction w t i v m rule: amb_slots.induct)
  case (2 w t i v m)
  then show ?case by (cases "amb_slots w t i v m"; cases "amb_slots w t i (live v) m") auto
next
  case (3 w t i el v m)
  have "map_sum id live (amb_slots w t i (live v) m') = map_sum id live (amb_slots w t i v m')"
    if "amb_descs w t (ce_strvec el ! i) m = Inr (m', h)" for m' h using 3 [OF that refl] .
  then have "map_sum id (h \<circ> live) (amb_slots w t i (live v) m') = map_sum id (h \<circ> live) (amb_slots w t i v m')"
    if "amb_descs w t (ce_strvec el ! i) m = Inr (m', b)" for m' b and h :: "'a cmd_element option list \<Rightarrow> 'a cmd_element option list"
    using that by (metis (no_types, lifting) comp_id sum.map_comp)
  note e = this
  show ?case
  proof (cases "amb_descs w t (ce_strvec el ! i) m")
    case (Inr x)
    obtain m' b where x: "x = (m', b)" by (cases x)
    show ?thesis
      using e [OF Inr [unfolded x], of "(#) (Some el)"] e [OF Inr [unfolded x], of id] Inr x
      by (simp add: sum.map_comp comp_def id_def)
  qed simp
qed simp


context word_filter
begin

lemma match_loop_live:
  "map_sum id (map_prod id (map_prod id live)) (match_loop flt ws i (live v) mt)
     = map_sum id (map_prod id (map_prod id live)) (match_loop flt ws i v mt)"
proof (induction ws arbitrary: i v mt)
  case (Cons w ws)
  obtain mt1 v1 v1' where fl: "flt w v i = (mt1, v1)" "flt w (live v) i = (mt1, v1')" and l: "live v1' = live v1"
    using filter_slots_live [of "f w" i v no_match] by (metis flt_filter prod.collapse snd_conv)
  have a: "map_sum id live (is_cmd_ambiguous w v1' i mt1) = map_sum id live (is_cmd_ambiguous w v1 i mt1)"
    unfolding is_cmd_ambiguous_def using amb_slots_live [of w mt1 i v1' None] amb_slots_live [of w mt1 i v1 None] l by simp
  have r: "map_sum id (map_prod id (map_prod id live)) (match_loop flt ws j x mt1)
      = map_sum id (map_prod id (map_prod id live)) (match_loop flt ws j y mt1)" if "live x = live y" for x y j
    using Cons.IH [of j x mt1] Cons.IH [of j y mt1] that by metis
  show ?case
  proof (cases "is_cmd_ambiguous w v1 i mt1")
    case (Inl n)
    then have "is_cmd_ambiguous w v1' i mt1 = Inl n" using a by (cases "is_cmd_ambiguous w v1' i mt1") simp_all
    then show ?thesis using Inl l by (simp add: fl)
  next
    case (Inr v2)
    then obtain v2' where "is_cmd_ambiguous w v1' i mt1 = Inr v2'" "live v2' = live v2"
      using a by (cases "is_cmd_ambiguous w v1' i mt1") simp_all
    then show ?thesis using Inr l r [of v2' v2 "Suc i"] by (simp add: fl id_def)
  qed
qed simp

lemma exec_from_live: "exec_from flt vline ws i mt (live v) = exec_from flt vline ws i mt v"
  using match_loop_live [of ws i v mt]
  by (cases "match_loop flt ws i v mt"; cases "match_loop flt ws i (live v) mt")
    (auto simp: exec_from_def Let_def split: prod.splits)

lemma exec_from_word:
  assumes "flt w v i = (mt1, v1)" "mt1 \<noteq> vararg_match" "is_cmd_ambiguous w v1 i mt1 = Inr v2"
  shows "exec_from flt vline (w # ws) i mt v = exec_from flt vline ws (i + 1) mt1 (live v2)"
  unfolding exec_from_live using assms by (simp add: exec_from_def)

end


lemma match_loop_append:
  "match_loop flt us i v mt = Inr (mt', j, v') \<Longrightarrow> mt' \<noteq> vararg_match \<Longrightarrow> match_loop flt (us @ ws) i v mt = match_loop flt ws j v' mt'"
  by (induction us arbitrary: i v mt) (auto simp: Let_def split: prod.splits sum.splits if_splits)

lemma match_descs_none: "\<forall>d \<in> set ds. f (d_cmd d) = None \<Longrightarrow> match_descs f ds mt = (mt, 0)"
  by (induction ds) simp_all

text \<open>The end of an execution, when one command is left.\<close>

definition finish :: "string list \<Rightarrow> 'f cmd_element \<Rightarrow> 'f exec_result" where
  "finish vline el =
     (case cmd_args vline (ce_strvec el) False [] of
        Fault e \<Rightarrow> Crash e
      | Ret _ \<Rightarrow> Code CMD_ERR_EXEED_ARGC_MAX
      | Cont argv \<Rightarrow> if ce_daemon el \<noteq> 0 then Code CMD_SUCCESS_DAEMON else Call el argv)"

lemma exec_from_end:
  "ce_cmdsize el \<le> i \<Longrightarrow> exec_from flt vline [] i mt [Some el] = finish vline el"
  by (simp add: exec_from_def finish_def)

context word_filter
begin

lemma exec_from_words:
  assumes "map_sum id (map_prod id (map_prod id live)) (match_loop flt us 0 v no_match) = Inr (mt, i, v')" "mt \<noteq> vararg_match"
  shows "exec_with flt (us @ ws) v = exec_from flt (us @ ws) ws i mt v'"
proof -
  obtain v2 where v2: "match_loop flt us 0 v no_match = Inr (mt, i, v2)" "v' = live v2"
    using assms(1) by (cases "match_loop flt us 0 v no_match") auto
  then show ?thesis
    unfolding v2(2) exec_from_live exec_with_from
    using match_loop_append [OF v2(1) assms(2), of ws] by (simp add: exec_from_def)
qed

lemma exec_from_drop:
  assumes "\<forall>d \<in> set (ce_strvec a ! i). f w (d_cmd d) = None" "i < length (ce_strvec a)"
  shows "exec_from flt vline (w # ws) i mt (Some a # v) = exec_from flt vline (w # ws) i mt v"
proof -
  have "filter_slots (f w) i (Some a # v) no_match = (fst (filter_slots (f w) i v no_match), None # snd (filter_slots (f w) i v no_match))"
    using match_descs_none [OF assms(1)] assms(2) by (simp add: case_prod_beta)
  then have "match_loop flt (w # ws) i (Some a # v) mt = match_loop flt (w # ws) i (None # v) mt"
    by (simp add: flt_filter case_prod_beta)
  then have "exec_from flt vline (w # ws) i mt (Some a # v) = exec_from flt vline (w # ws) i mt (None # v)"
    by (simp add: exec_from_def)
  then show ?thesis using exec_from_live [of vline "w # ws" i mt "None # v"] exec_from_live [of vline "w # ws" i mt v] by simp
qed

lemma exec_from_variable:
  assumes "ce_strvec el ! i = [d]" "i < length (ce_strvec el)" "f w (d_cmd d) = Some extend_match"
    "CMD_OPTION (d_cmd d) \<or> CMD_VARIABLE (d_cmd d)" "ce_cmdsize el \<le> i + 1"
  shows "exec_from flt vline [w] i mt [Some el] = finish vline el"
proof -
  have "flt w [Some el] i = (extend_match, [Some el])" using assms(1-3) by (simp add: flt_filter)
  moreover have "is_cmd_ambiguous w [Some el] i extend_match = Inr [Some el]"
    using assms(1,4) by (simp add: is_cmd_ambiguous_def amb_desc_def)
  ultimately show ?thesis using exec_from_word [of w "[Some el]" i] exec_from_end [OF assms(5)] by simp
qed

lemma exec_from_range:
  assumes "ce_strvec el ! i = [d]" "i < length (ce_strvec el)" "ce_cmdsize el \<le> i + 1"
    "f w (d_cmd d) = (if cmd_range_match (d_cmd d) (Some w) then Some range_match else None)"
  shows "exec_from flt vline [w] i mt [Some el] =
    (if cmd_range_match (d_cmd d) (Some w) then finish vline el else Code CMD_ERR_NO_MATCH)"
proof (cases "cmd_range_match (d_cmd d) (Some w)")
  case True
  then have "flt w [Some el] i = (range_match, [Some el])" using assms by (simp add: flt_filter)
  moreover have "is_cmd_ambiguous w [Some el] i range_match = Inr [Some el]"
    using assms(1) True by (simp add: is_cmd_ambiguous_def amb_desc_def)
  ultimately show ?thesis using True exec_from_word [of w "[Some el]" i] exec_from_end [OF assms(3)] by simp
next
  case False
  then have "flt w [Some el] i = (no_match, [None])" using assms by (simp add: flt_filter)
  then show ?thesis using False by (simp add: exec_from_def is_cmd_ambiguous_def)
qed

end

text \<open>A word of a specification that stands for any word.\<close>

definition any_word :: "string \<Rightarrow> bool" where
  "any_word str \<longleftrightarrow> \<not> CMD_VARARG str \<and> \<not> CMD_RANGE str \<and> \<not> CMD_IPV6 str \<and> \<not> CMD_IPV6_PREFIX str
     \<and> \<not> CMD_IPV4 str \<and> \<not> CMD_IPV4_PREFIX str \<and> (CMD_OPTION str \<or> CMD_VARIABLE str)"

lemma match_any_word: "any_word str \<Longrightarrow> match_completion w str = Some extend_match \<and> match_string w str = Some extend_match"
  by (auto simp: any_word_def match_completion_def match_string_def)

definition after_words ::
  "'f word_filter \<Rightarrow> string list \<Rightarrow> ('f \<times> string list list \<times> nat) list \<Rightarrow> int + match_type \<times> nat \<times> 'f cmd_element option list" where
  "after_words flt us els = map_sum id (map_prod id (map_prod id live)) (match_loop flt us 0 (map (Some \<circ> plain) els) no_match)"

lemma after_words_strict:
  assumes "after_words cmd_filter_by_string us (shapes n) = Inr (mt, i, v)" "mt \<noteq> vararg_match"
  shows "line_meaning cmd_filter_by_string n (us @ ws) = exec_from cmd_filter_by_string (us @ ws) ws i mt v"
  using strict.exec_from_words [OF assms [unfolded after_words_def]] by (simp add: line_meaning_def)

lemma after_words_completion:
  assumes "after_words cmd_filter_by_completion us (shapes n) = Inr (mt, i, v)" "mt \<noteq> vararg_match"
  shows "line_meaning cmd_filter_by_completion n (us @ ws) = exec_from cmd_filter_by_completion (us @ ws) ws i mt v"
  using completion.exec_from_words [OF assms [unfolded after_words_def]] by (simp add: line_meaning_def)

end
