(* ===== verification/LineStrict.thy ===== *)
theory LineStrict
  imports LineEval
begin

text \<open>
  Lines whose words match exactly, as those of a saved configuration do: the literal words narrow the
  commands down one after the other, and the last word may be any string.
\<close>

section \<open>Lines of literal words\<close>

definition literal :: "string \<Rightarrow> bool" where
  "literal str \<longleftrightarrow> \<not> CMD_VARARG str \<and> \<not> CMD_RANGE str \<and> \<not> CMD_IPV6 str \<and> \<not> CMD_IPV6_PREFIX str
     \<and> \<not> CMD_IPV4 str \<and> \<not> CMD_IPV4_PREFIX str \<and> \<not> CMD_OPTION str \<and> \<not> CMD_VARIABLE str"

text \<open>The commands that have the word at its position.\<close>

definition keep_exact :: "string \<Rightarrow> nat \<Rightarrow> ('f \<times> string list list \<times> nat) list \<Rightarrow> ('f \<times> string list list \<times> nat) list" where
  "keep_exact w i els = filter (\<lambda>(f, p, n). i < length p \<and> w \<in> set (p ! i)) els"

fun narrow :: "string list \<Rightarrow> nat \<Rightarrow> ('f \<times> string list list \<times> nat) list \<Rightarrow> ('f \<times> string list list \<times> nat) list option" where
  "narrow [] i els = Some els"
| "narrow (w # ws) i els = (if literal w \<and> keep_exact w i els \<noteq> [] then narrow ws (i + 1) (keep_exact w i els) else None)"

lemma exact_max: "mt \<le> exact_match"
  by (cases mt) (simp_all add: match_order)

lemma match_string_literal: "literal w \<Longrightarrow> match_string w w = Some exact_match"
  by (simp add: literal_def match_string_def strcmp_eq_0)

lemma max_exact: "max mt exact_match = exact_match" "max exact_match mt = exact_match"
  using exact_max by (simp_all add: max_def antisym)

lemma match_descs_exact:
  assumes "f w = Some exact_match" "mt = exact_match \<or> (\<exists>d \<in> set ds. d_cmd d = w)"
  shows "fst (match_descs f ds mt) = exact_match"
  using assms(2)
proof (induction ds arbitrary: mt)
  case (Cons d ds)
  show ?case
  proof (cases "f (d_cmd d)")
    case None
    then show ?thesis using Cons assms(1) by auto
  next
    case (Some t)
    then have "max mt t = exact_match \<or> (\<exists>d \<in> set ds. d_cmd d = w)"
      using Cons.prems assms(1) max_exact by auto
    then show ?thesis using Cons.IH [of "max mt t"] Some by (simp add: case_prod_beta Let_def)
  qed
qed simp

lemma filter_slots_exact:
  assumes "f w = Some exact_match"
    "mt = exact_match \<or> (\<exists>el. Some el \<in> set v \<and> i < length (ce_strvec el) \<and> (\<exists>d \<in> set (ce_strvec el ! i). d_cmd d = w))"
  shows "fst (filter_slots f i v mt) = exact_match"
  using assms(2)
proof (induction v arbitrary: mt)
  case (Cons x v)
  show ?case
  proof (cases x)
    case None
    then show ?thesis using Cons by (simp add: case_prod_beta Let_def)
  next
    case (Some el)
    define mt1 where "mt1 = (if i < length (ce_strvec el) then fst (match_descs f (ce_strvec el ! i) mt) else mt)"
    have "mt1 = exact_match \<or> (\<exists>el. Some el \<in> set v \<and> i < length (ce_strvec el) \<and> (\<exists>d \<in> set (ce_strvec el ! i). d_cmd d = w))"
      using Cons.prems Some match_descs_exact [of f w mt "ce_strvec el ! i", OF assms(1)] by (auto simp: mt1_def)
    then show ?thesis using Cons.IH [of mt1] Some by (simp add: filter_slots_Some mt1_def [symmetric] Let_def del: filter_slots.simps)
  qed
qed simp

definition has_word :: "string \<Rightarrow> nat \<Rightarrow> 'f cmd_element \<Rightarrow> bool" where
  "has_word w i el \<longleftrightarrow> (\<exists>d \<in> set (ce_strvec el ! i). \<not> (CMD_OPTION (d_cmd d) \<or> CMD_VARIABLE (d_cmd d)) \<and> d_cmd d = w)"

text \<open>With the best kind of match, only the commands that have exactly this word stay.\<close>

lemma amb_descs_exact:
  "amb_descs w exact_match ds m = Inr (m, \<exists>d \<in> set ds. \<not> (CMD_OPTION (d_cmd d) \<or> CMD_VARIABLE (d_cmd d)) \<and> d_cmd d = w)"
  by (induction ds) (auto simp: amb_desc_def strcmp_eq_0)

lemma amb_descs_el: "amb_descs w exact_match (ce_strvec el ! i) m = Inr (m, has_word w i el)"
  by (simp add: amb_descs_exact has_word_def)

lemma amb_slots_exact:
  "amb_slots w exact_match i v m = Inr (map (\<lambda>x. case x of None \<Rightarrow> None | Some el \<Rightarrow>
     if has_word w i el then Some el else None) v)"
proof (induction v)
  case (Cons x v)
  then show ?case by (cases x) (simp_all add: amb_descs_el)
qed simp

lemma live_filter: "live (map (\<lambda>x. case x of None \<Rightarrow> None | Some el \<Rightarrow> if P el then Some el else None) v)
    = filter (\<lambda>x. \<exists>el. x = Some el \<and> P el) v"
  by (induction v) (auto split: option.splits simp: live_def)

lemma exact_kept:
  assumes "f w \<noteq> None"
  shows "filter (\<lambda>x. \<exists>el. x = Some el \<and> has_word w i el) (snd (filter_slots f i v m))
    = filter (\<lambda>x. \<exists>el. x = Some el \<and> has_word w i el \<and> i < length (ce_strvec el)) v"
proof (induction v arbitrary: m)
  case (Cons x v)
  show ?case
  proof (cases x)
    case None
    then show ?thesis using Cons.IH by (simp add: case_prod_beta Let_def)
  next
    case (Some el)
    define hits where "hits \<longleftrightarrow> i < length (ce_strvec el) \<and> (\<exists>d \<in> set (ce_strvec el ! i). f (d_cmd d) \<noteq> None)"
    define mt1 where "mt1 = (if i < length (ce_strvec el) then fst (match_descs f (ce_strvec el ! i) m) else m)"
    have s: "snd (filter_slots f i (Some el # v) m) = (if hits then Some el else None) # snd (filter_slots f i v mt1)"
      unfolding filter_slots_Some hits_def mt1_def Let_def by simp
    have "hits" if "has_word w i el" "i < length (ce_strvec el)" using that assms unfolding has_word_def hits_def by blast
    moreover have "i < length (ce_strvec el)" if hits using that by (simp add: hits_def)
    ultimately have h: "(hits \<and> has_word w i el) = (has_word w i el \<and> i < length (ce_strvec el))" by blast
    show ?thesis
    proof (cases "hits \<and> has_word w i el")
      case True
      then show ?thesis unfolding Some s using Cons.IH [of mt1] h by simp
    next
      case False
      then have "filter (\<lambda>x. \<exists>el. x = Some el \<and> has_word w i el) ((if hits then Some el else None) # vs)
        = filter (\<lambda>x. \<exists>el. x = Some el \<and> has_word w i el) vs" for vs by (cases hits) simp_all
      then show ?thesis unfolding Some s using Cons.IH [of mt1] h False by simp
    qed
  qed
qed simp

lemma kept_shapes:
  assumes "literal w"
  shows "filter (\<lambda>x. \<exists>el. x = Some el \<and> has_word w i el \<and> i < length (ce_strvec el)) (map (Some \<circ> plain) els)
    = map (Some \<circ> plain) (keep_exact w i els)"
proof -
  have "(has_word w i (plain x) \<and> i < length (ce_strvec (plain x))) = (case x of (f, p, n) \<Rightarrow> i < length p \<and> w \<in> set (p ! i))" for x :: "'a \<times> string list list \<times> nat"
    using assms by (auto simp: plain_def literal_def has_word_def split: prod.splits)
  then show ?thesis by (simp add: keep_exact_def filter_map comp_def)
qed

lemma strict_exact:
  assumes "literal w" "keep_exact w i els \<noteq> []"
  shows "exec_from cmd_filter_by_string vline (w # ws) i mt (map (Some \<circ> plain) els)
    = exec_from cmd_filter_by_string vline ws (i + 1) exact_match (map (Some \<circ> plain) (keep_exact w i els))"
proof -
  let ?v = "map (Some \<circ> plain) els"
  define v1 where "v1 = snd (cmd_filter_by_string w ?v i)"
  have k: "filter (\<lambda>x. \<exists>el. x = Some el \<and> has_word w i el) v1 = map (Some \<circ> plain) (keep_exact w i els)"
    using exact_kept [of "match_string w" w i ?v no_match] kept_shapes [OF assms(1)] match_string_literal [OF assms(1)]
    by (simp add: v1_def cmd_filter_by_string_def)
  have "map (Some \<circ> plain) (keep_exact w i els) \<noteq> []" using assms(2) by simp
  then have "filter (\<lambda>x. \<exists>el. x = Some el \<and> has_word w i el \<and> i < length (ce_strvec el)) ?v \<noteq> []"
    unfolding kept_shapes [OF assms(1)] .
  then obtain el where "Some el \<in> set ?v" "has_word w i el" "i < length (ce_strvec el)" by (auto simp: filter_empty_conv)
  then have "fst (cmd_filter_by_string w ?v i) = exact_match"
    unfolding cmd_filter_by_string_def has_word_def
    using filter_slots_exact [of "match_string w" w no_match ?v i, OF match_string_literal [OF assms(1)]] by blast
  then have f: "cmd_filter_by_string w ?v i = (exact_match, v1)" by (simp add: v1_def prod_eq_iff)
  show ?thesis
    using strict.exec_from_word [OF f _ amb_slots_exact [of w i v1 None, folded is_cmd_ambiguous_def], of vline ws mt]
    by (simp add: live_filter k del: map_map)
qed

lemma strict_narrow:
  assumes "narrow us i els = Some els'" "mt \<noteq> vararg_match"
  shows "\<exists>mt'. mt' \<noteq> vararg_match \<and> exec_from cmd_filter_by_string vline (us @ ws) i mt (map (Some \<circ> plain) els)
    = exec_from cmd_filter_by_string vline ws (i + length us) mt' (map (Some \<circ> plain) els')"
  using assms
proof (induction us arbitrary: i els mt)
  case Nil
  then show ?case by auto
next
  case (Cons u us)
  then have u: "literal u" "keep_exact u i els \<noteq> []" "narrow us (i + 1) (keep_exact u i els) = Some els'"
    by (auto split: if_splits)
  obtain mt' where "mt' \<noteq> vararg_match" "exec_from cmd_filter_by_string vline (us @ ws) (i + 1) exact_match (map (Some \<circ> plain) (keep_exact u i els))
      = exec_from cmd_filter_by_string vline ws (i + 1 + length us) mt' (map (Some \<circ> plain) els')"
    using Cons.IH [OF u(3), of exact_match] by blast
  then show ?case using strict_exact [OF u(1,2), of vline "us @ ws" mt] by (intro exI [where x = mt']) (simp del: map_map add: comp_def)
qed

lemma exec_from_done:
  assumes "filter (\<lambda>(f, p, n). n \<le> i) els = [x]" "mt \<noteq> vararg_match"
  shows "exec_from flt vline [] i mt (map (Some \<circ> plain) els) = finish vline (plain x)"
proof -
  have "filter (\<lambda>el. ce_cmdsize el \<le> i) (map plain els) = map plain (filter (\<lambda>(f, p, n). n \<le> i) els)"
    by (simp add: filter_map comp_def plain_def split_def)
  moreover have "map the (live (map (Some \<circ> plain) els)) = map plain els" by (simp add: live_def filter_map comp_def)
  ultimately show ?thesis using assms by (simp add: exec_from_def finish_def del: map_map)
qed


lemma strict_line:
  assumes "narrow ws 0 (shapes n) = Some els" "filter (\<lambda>(f, p, n). n \<le> length ws) els = [x]"
  shows "line_meaning cmd_filter_by_string n ws = finish ws (plain x)"
proof -
  obtain mt where mt: "mt \<noteq> vararg_match" "exec_from cmd_filter_by_string ws ws 0 no_match (map (Some \<circ> plain) (shapes n))
      = exec_from cmd_filter_by_string ws [] (length ws) mt (map (Some \<circ> plain) els)"
    using strict_narrow [OF assms(1), of no_match ws "[]"] by auto
  then show ?thesis using exec_from_done [OF assms(2) mt(1)] by (simp add: line_meaning_def exec_with_from)
qed

lemma strict_last:
  assumes "narrow us 0 (shapes n) = Some [x]" "x = (f, ps @ [[p]], k)" "length ps = length us" "k \<le> Suc (length us)" "any_word p"
  shows "line_meaning cmd_filter_by_string n (us @ [w]) = finish (us @ [w]) (plain x)"
proof -
  let ?d = "\<lparr>d_cmd = p, d_str = None\<rparr>"
  obtain mt where mt: "exec_from cmd_filter_by_string (us @ [w]) (us @ [w]) 0 no_match (map (Some \<circ> plain) (shapes n))
      = exec_from cmd_filter_by_string (us @ [w]) [w] (length us) mt [Some (plain x)]"
    using strict_narrow [OF assms(1), of no_match "us @ [w]" "[w]"] by auto
  have "ce_strvec (plain x) ! length us = [?d]" "length us < length (ce_strvec (plain x))" "ce_cmdsize (plain x) \<le> length us + 1"
    using assms(2-4) by (simp_all add: plain_def nth_append)
  then show ?thesis
    using strict.exec_from_variable [of "plain x" "length us" ?d w "us @ [w]" mt] assms(5) mt
    by (simp add: line_meaning_def exec_with_from match_any_word) (simp add: any_word_def)
qed

text \<open>A word in front of which a choice of words was possible that it is not one of.\<close>

lemma strict_last_second:
  assumes "narrow us 0 (shapes n) = Some [y, x]" "x = (f, ps @ [[p]], k)" "length ps = length us" "k \<le> Suc (length us)" "any_word p"
    "y = (g, qs, j)" "length us < length qs" "\<forall>q \<in> set (qs ! length us). match_string w q = None"
  shows "line_meaning cmd_filter_by_string n (us @ [w]) = finish (us @ [w]) (plain x)"
proof -
  let ?d = "\<lparr>d_cmd = p, d_str = None\<rparr>"
  obtain mt where mt: "exec_from cmd_filter_by_string (us @ [w]) (us @ [w]) 0 no_match (map (Some \<circ> plain) (shapes n))
      = exec_from cmd_filter_by_string (us @ [w]) [w] (length us) mt [Some (plain y), Some (plain x)]"
    using strict_narrow [OF assms(1), of no_match "us @ [w]" "[w]"] by auto
  have "exec_from cmd_filter_by_string (us @ [w]) [w] (length us) mt [Some (plain y), Some (plain x)]
      = exec_from cmd_filter_by_string (us @ [w]) [w] (length us) mt [Some (plain x)]"
    using assms(6-8) by (intro strict.exec_from_drop) (auto simp: plain_def)
  moreover have "ce_strvec (plain x) ! length us = [?d]" "length us < length (ce_strvec (plain x))" "ce_cmdsize (plain x) \<le> length us + 1"
    using assms(2-4) by (simp_all add: plain_def nth_append)
  ultimately show ?thesis
    using strict.exec_from_variable [of "plain x" "length us" ?d w "us @ [w]" mt] assms(5) mt
    by (simp add: line_meaning_def exec_with_from match_any_word) (simp add: any_word_def)
qed


end
