(* ===== verification/NetmtSystem.thy ===== *)
theory NetmtSystem
  imports NetmtTable FileTransfer
begin

text \<open>
  The whole terminal program: every command of the program's own table respects the sessions and the
  configuration lock (lemmas \<open>steps\<close>, one per command), so the table with its command functions is an
  instance of the interface \<open>command_set\<close>; from that, what holds in every state that the program can
  reach from its start, where it reads its configuration file.
\<close>

section \<open>Every command keeps the lock\<close>

named_theorems ev_intros \<open>a command lets the session evolve\<close>

definition steps :: "'x session \<Rightarrow> (int \<times> 'x session) outcome \<Rightarrow> bool" where
  "steps s m \<longleftrightarrow> yields m (\<lambda>(r, s'). evolves s s')"

lemma evolves_out [ev_intros]: "evolves s x \<Longrightarrow> (\<And>v. view (f v) = view v) \<Longrightarrow> evolves s (on_vty f x)"
  by (rule evolves_then)

lemma lock_same:
  assumes "vt_config (s_vty x) = vt_config (s_vty y)" "l_vty_config (s_lib x) = l_vty_config (s_lib y)"
    "vt_node (s_vty x) = vt_node (s_vty y)"
  shows "lock_kept b x = lock_kept b y" "lock_only b x = lock_only b y"
  using assms by (simp_all add: lock_kept_def lock_only_def)

lemma evolves_same:
  assumes "evolves s x" "vt_config (s_vty y) = vt_config (s_vty x)" "l_vty_config (s_lib y) = l_vty_config (s_lib x)"
    "vt_node (s_vty y) = vt_node (s_vty x)" "vt_fd (s_vty y) = vt_fd (s_vty x)" "same_vector (l_vtyvec (s_lib x)) (l_vtyvec (s_lib y))"
    "same_threads (s_vty x) (s_vty y)"
  shows "evolves s y"
  using assms(1,5,6) lock_same [OF assms(2-4)] same_threads_trans [OF _ assms(7), of "s_vty s"]
  by (simp add: evolves_def keeps_def same_vector_def)

lemma evolves_lib:
  assumes "evolves s x" "\<And>l. l_vty_config (f l) = l_vty_config l" "\<And>l. l_vtyvec (f l) = l_vtyvec l"
  shows "evolves s (on_lib f x)"
  using evolves_same [OF assms(1), of "on_lib f x"] assms(2,3) by (simp add: same_vector_def on_lib_def)

lemma evolves_host [ev_intros]: "evolves s x \<Longrightarrow> evolves s (on_host f x)"
  using evolves_lib [of s x "\<lambda>l. l\<lparr>l_host := f (l_host l)\<rparr>"] by (simp add: on_lib_def on_host_def)

lemma evolves_zlog [ev_intros]: "evolves s x \<Longrightarrow> evolves s (on_zlog f x)"
  by (simp add: on_zlog_def evolves_lib)

lemma evolves_fields:
  assumes "evolves s x" "\<And>v. vt_fd (f v) = vt_fd v" "\<And>v. vt_config (f v) = vt_config v" "\<And>v. vt_node (f v) = vt_node v"
    "\<And>v. same_threads v (f v)"
  shows "evolves s (on_vty f x)"
  using evolves_same [OF assms(1), of "on_vty f x"] assms(2-5) by (simp add: same_vector_def on_vty_def)

lemma steps_ok [ev_intros]: "evolves s x \<Longrightarrow> steps s (cmd_ok x)"
  by (simp add: steps_def cmd_ok_def)

lemma steps_warn [ev_intros]: "evolves s x \<Longrightarrow> steps s (cmd_warn str x)"
  by (simp add: steps_def cmd_warn_def evolves_out view_simps)

lemma steps_Cont [ev_intros]: "evolves s x \<Longrightarrow> steps s (Cont (r, x))"
  by (simp add: steps_def)

lemma steps_Fault [simp]: "steps s (Fault e)"
  by (simp add: steps_def)

lemma steps_arg [ev_intros]: "(\<And>w. steps s (f w)) \<Longrightarrow> steps s (with_arg argv i f)"
  by (simp add: with_arg_def)

lemma steps_if [ev_intros]: "steps s a \<Longrightarrow> steps s b \<Longrightarrow> steps s (if c then a else b)"
  by simp

lemma steps_dup [ev_intros]: "steps s (dup_encrypted p f)"
  by (simp add: dup_encrypted_def zencrypt_def)

lemma steps_after: "yields m (evolves s) \<Longrightarrow> (\<And>x. evolves s x \<Longrightarrow> steps s (f x)) \<Longrightarrow> steps s (after m f)"
  unfolding steps_def by (rule yields_after)

lemma evolves_refl' [ev_intros]: "evolves s s"
  by simp

lemma view_list_slots [view_simps]: "view (list_slots els v) = view v"
  by (induction els v rule: list_slots.induct) (simp_all add: view_simps)

lemma view_who_lines [view_simps]: "view (who_lines i vs v) = view v"
  by (induction i vs v rule: who_lines.induct) (simp_all add: view_simps)

lemma view_show_lines [view_simps]: "view (show_lines str v) = view v"
  by (induction str v rule: show_lines.induct) (subst show_lines.simps, auto simp: view_simps Let_def split: prod.splits)

lemma view_lines [view_simps]:
  "view (opt_line p x v) = view v" "view (flag_line b str v) = view v" "view (password_line p a e v) = view v"
  "view (syslog_line f v) = view v"
  by (simp_all add: opt_line_def flag_line_def password_line_def syslog_line_def view_simps split: option.splits)

lemma view_fold_id: "(\<And>f v. f \<in> set fs \<Longrightarrow> view (f v) = view v) \<Longrightarrow> view (fold id fs v) = view v"
  by (induction fs arbitrary: v) auto

lemma view_write_config [view_simps]: "view (snd (write_config w l v)) = view v"
  by (cases w) (auto simp: config_write_host_def vty_config_write_def config_write_show_netmt_cmd_def Let_def
      password_lines_def log_lines_def service_lines_def view_simps intro!: view_fold_id split: if_splits)

lemma view_write_nodes [view_simps]: "view (write_nodes P l ns v) = view v"
proof (induction P l ns v rule: write_nodes.induct)
  case (3 P l n ns v)
  have "view (write_nodes P l ns (if r \<noteq> 0 then vty_line ''!'' w else w)) = view v"
    if "cn_func n = Some x" "P n" "write_config x l v = (r, w)" for x r w
    using "3.IH"(2) [OF that(1,2) that(3) [symmetric] refl] view_write_config [of x l v] that(3) by (simp add: view_simps)
  then show ?case using "3.IH"(1,3) by (auto simp: Let_def split: option.splits prod.splits)
qed simp_all


lemma free_fd_free:
  assumes "vec_ok (l_vtyvec l)"
  shows "vector_lookup (l_vtyvec l) (free_fd l) = None"
proof -
  let ?a = "fs_first (l_fs l)" and ?b = "max (fs_first (l_fs l)) (v_max (l_vtyvec l))"
  let ?xs = "filter (\<lambda>i. vector_lookup (l_vtyvec l) i = None) [?a..<?b + 1]"
  have "vector_lookup (l_vtyvec l) ?b = None" using assms by (simp add: vector_lookup_slots)
  then have "?b \<in> set ?xs" by auto
  then have "hd ?xs \<in> set ?xs" by (intro hd_in_set) auto
  then show ?thesis by (auto simp: free_fd_def Let_def)
qed

lemma view_file_vty: "view (file_vty tbl l) = view (vty_new\<lparr>vt_fd := free_fd l, vt_type := VTY_FILE\<rparr>)"
  by (simp add: file_vty_def file_header_def view_simps)

lemma evolves_save:
  "evolves s (s\<lparr>s_lib := (vty_close \<lparr>s_lib = s_lib s, s_vty = file_vty tbl (s_lib s)\<rparr>)\<lparr>l_fs := fs\<rparr>\<rparr>)"
proof -
  have f: "vt_config (file_vty tbl (s_lib s)) = False" "vt_fd (file_vty tbl (s_lib s)) = free_fd (s_lib s)"
    using view_same [OF view_file_vty [of tbl "s_lib s"]] by (simp_all add: vty_new_def)
  have "same_vector (l_vtyvec (s_lib s)) (vector_unset (free_fd (s_lib s)) (l_vtyvec (s_lib s)))"
    by (simp add: same_vector_def lookup_unset vector_unset_ok(1) free_fd_free)
  then show ?thesis
    by (intro evolves_same [OF evolves_refl]) (simp_all add: vty_close_def Let_def f vty_config_unlock_def write_fd_def)
qed

lemma steps_write_file: "steps s (config_write_file tbl s)"
  by (auto simp: config_write_file_def Let_def split: option.splits prod.splits
      intro!: steps_warn steps_ok evolves_out evolves_save view_simps)

lemma steps_base: "steps s (run_base tbl f argv s)"
proof (cases f)
  case Config_exit
  then show ?thesis using evolves_exit [of s] by (simp add: steps_def)
next
  case Config_list
  then show ?thesis
    by (auto simp: config_list_def steps_def cmd_ok_def intro!: yields_after' evolves_out view_simps)
qed (use evolves_config_terminal [of s] evolves_levels [of s] steps_write_file [of s tbl] in
  \<open>auto simp: steps_def [where m = "Cont _"] show_version_def config_help_def config_write_terminal_def Let_def
     show_startup_config_def view_simps split: option.splits prod.splits intro!: steps_ok steps_warn evolves_out evolves_refl\<close>)

lemma steps_set_password: "steps s (set_password put argv s)"
  by (auto simp: set_password_def split: list.splits intro!: ev_intros)

lemma steps_lines: "(\<And>n. evolves s (f n s)) \<Longrightarrow> steps s (with_lines argv f s)"
  by (auto simp: with_lines_def Let_def split: prod.splits intro!: ev_intros)

lemma steps_host: "steps s (run_host f argv s)"
proof (cases f)
  case Service_password_encrypt
  then show ?thesis
    by (auto simp: service_password_encrypt_def Let_def dup_encrypted_def zencrypt_def steps_def cmd_ok_def
        split: option.splits intro!: evolves_host)
qed (auto simp: config_hostname_def config_no_hostname_def config_password_def config_enable_password_def
    no_config_enable_password_def no_service_password_encrypt_def config_terminal_length_def config_terminal_no_length_def
    service_terminal_length_def no_service_terminal_length_def banner_motd_default_def no_banner_motd_def same_threads_def
    intro!: steps_set_password steps_lines steps_arg steps_if steps_ok steps_warn evolves_host evolves_fields evolves_refl)

lemma steps_log: "steps s (run_log f argv s)"
  by (cases f)
    (auto simp: config_log_stdout_def no_config_log_stdout_def config_log_file_def no_config_log_file_def config_log_syslog_def
      config_log_syslog_facility_def no_config_log_syslog_def config_log_trap_def no_config_log_trap_def
      config_log_record_priority_def no_config_log_record_priority_def Let_def
      split: option.splits prod.splits intro!: ev_intros view_simps)

lemma view_history_loop: "view (show_history_loop n i v) = view v"
  by (induction n i v rule: show_history_loop.induct) (auto simp: view_simps split: option.splits)

lemma view_show_history [view_simps]: "view (show_history v) = view v"
  by (simp add: show_history_def view_history_loop del: show_history_loop.simps)

lemma steps_line:
  assumes "f = Line_vty \<Longrightarrow> vt_node (s_vty s) \<in> config_nodes"
  shows "steps s (run_line f argv s)"
proof (cases f)
  case Line_vty
  then show ?thesis using evolves_node [of VTY_NODE s] assms by (simp add: line_vty_def steps_ok)
next
  case Config_who
  then show ?thesis by (auto simp: config_who_def view_simps intro!: steps_ok evolves_out)
next
  case Show_history
  then show ?thesis by (auto simp: view_show_history intro!: steps_ok evolves_out)
qed (auto simp: exec_timeout_min_def exec_timeout_sec_def no_exec_timeout_def exec_timeout_def Let_def
    vty_access_class_def no_vty_access_class_def vty_ipv6_access_class_def no_vty_ipv6_access_class_def vty_login_def
    no_vty_login_def service_advanced_vty_def no_service_advanced_vty_def terminal_monitor_def terminal_no_monitor_def
    same_threads_def intro!: steps_arg steps_if steps_ok steps_warn evolves_host evolves_lib evolves_fields evolves_refl)

lemma steps_app: "steps s (on_app f s)"
  by (auto simp: on_app_def steps_def intro!: yields_after' evolves_out view_simps evolves_lib split: prod.splits)

lemma steps_netmt: "steps s (run_netmt e f argv s)"
  by (cases f) (auto simp: show_help_def printf_help_def netmt_show_version_def view_simps intro!: steps_app steps_Cont evolves_out)

lemma steps_run:
  assumes "f = Line Line_vty \<Longrightarrow> vt_node (s_vty s) \<in> config_nodes"
  shows "steps s (run_command e tbl f argv s)"
proof (cases f)
  case (Line g)
  then show ?thesis using assms by (simp add: steps_line)
qed (simp_all add: steps_base steps_host steps_log steps_netmt)


section \<open>The interface on the program's commands\<close>

interpretation netmt: command_set netmt_table "run_command e netmt_table" for e
proof
  fix el argv and s :: "operator session"
  assume i: "installed netmt_table (vt_node (s_vty s)) el"
  have "steps s (run_command e netmt_table (ce_func el) argv s)"
    using installed_line_vty [OF i] by (intro steps_run) (auto simp: config_nodes_def)
  then show "yields (run_command e netmt_table (ce_func el) argv s) (\<lambda>(r, s'). evolves s s')"
    by (simp add: steps_def)
qed

section \<open>Starting\<close>

lemma keeps_refl: "keeps s s"
  by (simp add: keeps_def same_vector_def)

lemma keeps_trans: "keeps s1 s2 \<Longrightarrow> keeps s2 s3 \<Longrightarrow> keeps s1 s3"
  by (auto simp: keeps_def same_vector_def)

lemma lock_kept_set_node: "lock_kept b (set_node n x) = lock_kept b x"
  by (simp add: lock_kept_def set_node_def on_vty_def)

lemma keeps_set_node: "keeps s x \<Longrightarrow> keeps s (set_node n x)"
  by (simp add: keeps_def lock_kept_set_node) (simp add: set_node_def on_vty_def)

lemma keeps_read_into: "keeps s (on_vty (read_into l) s)"
  by (simp add: keeps_def lock_kept_def read_into_def on_vty_def same_vector_def)

abbreviation goes :: "'x session \<Rightarrow> (int \<times> 'x session) outcome \<Rightarrow> bool" where
  "goes s m \<equiv> yields m (\<lambda>(r, s'). keeps s s')"

lemma goes_after:
  assumes "goes s m" "\<And>r x. keeps s x \<Longrightarrow> goes s (f (r, x))"
  shows "goes s (after m f)"
  using assms by (intro yields_after [OF assms(1)]) auto

lemma after_ContE: "after m f = Cont t \<Longrightarrow> (\<And>s. m = Cont s \<or> m = Ret s \<Longrightarrow> f s = Cont t \<Longrightarrow> P) \<Longrightarrow> P"
  by (auto simp: after_Cont)

lemma after_not_Ret: "(\<And>y. f y \<noteq> Ret x) \<Longrightarrow> after m f \<noteq> Ret x"
  by (cases m) auto

context command_set
begin

lemma strict_goes: "keeps s x \<Longrightarrow> goes s (exec_strict tbl run vline x)"
proof (cases "cmd_execute_command_strict tbl (vt_node (s_vty x)) vline")
  case (Call el argv)
  assume "keeps s x"
  then show ?thesis
    using yields_mono [OF run_evolves [OF execute_installed(2) [OF Call], of argv], of "\<lambda>(r, s'). keeps s s'"] Call
    by (auto simp: exec_strict_def carry_out_def evolves_def intro: keeps_trans)
qed (simp_all add: exec_strict_def carry_out_def)

lemma line_goes: "keeps s x \<Longrightarrow> goes s (config_line tbl run vline x)"
  unfolding config_line_def
  by (rule goes_after, rule strict_goes, assumption)
    (auto simp: or_retry_def intro!: strict_goes keeps_set_node goes_after)

lemma file_goes: "keeps s x \<Longrightarrow> goes s (config_from_file tbl run str x)"
proof (induction "length str" arbitrary: str x rule: less_induct)
  case less
  show ?case
  proof (cases "str = []")
    case True
    then show ?thesis using less.prems by (subst config_from_file.simps) simp
  next
    case False
    obtain l r where f: "fgets VTY_BUFSIZ str = (l, r)" by (cases "fgets VTY_BUFSIZ str")
    have r: "length r < length str" by (rule fgets_shrinks [OF _ False f [symmetric]]) (simp add: VTY_BUFSIZ_def)
    have k: "keeps s (on_vty (read_into l) x)" by (rule keeps_trans [OF less.prems keeps_read_into])
    have "goes s (after (config_line tbl run vline (on_vty (read_into l) x)) (\<lambda>(ret, s1).
            if ret \<noteq> CMD_SUCCESS \<and> ret \<noteq> CMD_WARNING then Cont (ret, s1) else config_from_file tbl run r s1))" for vline
      by (rule goes_after [OF line_goes [OF k]]) (simp add: less.hyps [OF r])
    then show ?thesis
      using False f less.hyps [OF r k] by (subst config_from_file.simps) (auto simp: Let_def split: option.splits)
  qed
qed

lemma read_file_start:
  assumes "vty_read_file tbl run str l = Cont l'" "sys_start l"
  shows "sys_start l'"
proof -
  let ?s = "\<lparr>s_lib = l, s_vty = vty_new\<lparr>vt_fd := 0, vt_type := VTY_TERM, vt_node := CONFIG_NODE\<rparr>\<rparr>"
  obtain r s where s: "config_from_file tbl run str ?s = Cont (r, s) \<or> config_from_file tbl run str ?s = Ret (r, s)"
    "l' = vty_close s"
    using assms(1) by (auto simp: vty_read_file_def after_Cont split: if_splits)
  have k: "keeps ?s s" using file_goes [OF keeps_refl [of ?s], of str] s(1) by (auto simp: yields_def)
  have "lock_kept False ?s" using assms(2) by (simp add: lock_kept_def sys_start_def vty_new_def)
  then have lk: "lock_kept False s" using k by (simp add: keeps_def)
  have v: "vec_ok (l_vtyvec (s_lib s))" "\<And>i. session_of i (s_lib s) = None"
    using k assms(2) by (auto simp: keeps_def same_vector_def sys_start_def session_of_def)
  have c: "vt_config (s_vty s) \<longrightarrow> l_vty_config (s_lib s)" using lk by (simp add: lock_kept_def)
  show ?thesis
    using close_state [OF v(1) c] v lk by (auto simp: s(2) sys_start_def lock_kept_def)
qed

lemma read_config_start:
  assumes "vty_read_config tbl run cfg cur dflt l = Cont l'" "sys_start l"
  shows "sys_start l'"
proof -
  let ?read = "\<lambda>fs str. vty_read_file tbl run str (l\<lparr>l_fs := fs\<rparr>)"
  have ret: "?read fs str \<noteq> Ret x" for fs str x
    unfolding vty_read_file_def by (rule after_not_Ret) (simp add: case_prod_beta)
  obtain x where x: "(case x of (c, p, fs) \<Rightarrow> case c of None \<Rightarrow> Fault ProcExit
      | Some str \<Rightarrow> after (?read fs str) (\<lambda>l1. Cont (host_config_set p l1))) = Cont l'"
    by (rule after_ContE [OF assms(1) [unfolded vty_read_config_def]])
  obtain c p fs where c: "x = (c, p, fs)" by (cases x)
  obtain str where "after (?read fs str) (\<lambda>l1. Cont (host_config_set p l1)) = Cont l'"
    using x c by (cases c) simp_all
  then obtain l1 where "?read fs str = Cont l1 \<or> ?read fs str = Ret l1" and l1: "l' = host_config_set p l1"
    by (rule after_ContE) simp
  then have "?read fs str = Cont l1" using ret by blast
  then have "sys_start l1" by (rule read_file_start) (use assms(2) in \<open>simp add: sys_start_def session_of_def\<close>)
  then show ?thesis using l1 by (simp add: sys_start_def session_of_def host_config_set_def)
qed

end


section \<open>The program from its start\<close>

text \<open>A state of the program: the configuration file has been read, and then events came in.\<close>

definition program_reaches :: "cmd_env \<Rightarrow> string \<Rightarrow> operator lib \<Rightarrow> operator lib \<Rightarrow> bool" where
  "program_reaches e cfg l l' \<longleftrightarrow> (\<exists>l0. vty_read_config netmt_table (run_command e netmt_table) (Some cfg) (Some '' '') '' '' l = Cont l0
     \<and> reachable netmt_table (run_command e netmt_table) l0 l')"

lemma program_inv: "program_reaches e cfg l l' \<Longrightarrow> sys_start l \<Longrightarrow> sys_inv l'"
  using netmt.read_config_start netmt.reachable_inv by (auto simp: program_reaches_def)

text \<open>C3. The configuration lock, in the whole program: its own command table and command functions,
  whatever its configuration file holds, whatever bytes arrive on whatever connections in whatever
  order, with time-outs and closed connections in between. At most one session is the one that may
  configure; a session is in a configuration node only while it is that one; and the lock is taken
  exactly while there is one, so no way of leaving (\<open>exit\<close>, \<open>end\<close>, control-Z, control-C, a time-out, a
  lost connection) leaves it behind.\<close>

theorem config_lock_exclusive:
  assumes "program_reaches e cfg l l'" "sys_start l"
  shows "(\<forall>i j v w. session_of i l' = Some v \<and> session_of j l' = Some w \<and> vt_config v \<and> vt_config w \<longrightarrow> i = j)
    \<and> (\<forall>i v. session_of i l' = Some v \<and> vt_node v \<in> config_nodes \<longrightarrow> vt_config v)
    \<and> (l_vty_config l' \<longleftrightarrow> (\<exists>i v. session_of i l' = Some v \<and> vt_config v))"
  using program_inv [OF assms] unfolding sys_inv_def by blast


text \<open>A start, for the examples: the configuration file is empty, and one connection comes in.\<close>

definition ex_start :: "operator lib" where
  "ex_start = \<lparr>l_host = \<lparr>h_name = Some ''r'', h_password = Some ''pw'', h_password_encrypt = None, h_enable = None,
       h_enable_encrypt = None, h_lines = -1, h_logfile = None, h_log_stdout = False, h_log_syslog = False,
       h_config = None, h_advanced = False, h_encrypt = False, h_motd = None\<rparr>,
     l_zlog = \<lparr>z_facility = ''daemon'', z_maskpri = 7, z_record_priority = False, z_stdout = True,
       z_syslog = False, z_file = None\<rparr>,
     l_vty_config = False, l_no_password_check = True, l_timeout_val = 600, l_access = None, l_access6 = None,
     l_nodename = ''n'', l_heap = (\<lambda>n. []), l_cwd = ''/'', l_open = (\<lambda>f. True),
     l_fs = \<lparr>fs_files = [''/c'' \<mapsto> []], fs_mkstemp = (\<lambda>t. None), fs_may_open = (\<lambda>f. True), fs_may_link = (\<lambda>f. True),
       fs_may_unlink = (\<lambda>f. True), fs_time = [], fs_first = 8\<rparr>, l_vtyvec = vector_init 1,
     l_written = [], l_uninit = 0,
     l_app = \<lparr>o_server = \<lparr>clients = [], s_commonid = 0, s_ping = None, s_fp = StreamNull, s_fsize = 0,
       s_files = Map.empty, s_mutex = False, s_sent = []\<rparr>, o_out = [], o_filebytes = 0, o_udp = []\<rparr>\<rparr>"

definition ex_start_env :: cmd_env where
  "ex_start_env = env.extend \<lparr>e_fopen = (\<lambda>p. True), e_fwrite = (\<lambda>p n. n), e_now = 5000\<rparr>
     \<lparr>e_cwd = [], e_ini = ([], 1234), e_wait = id\<rparr>"

lemma session_init: "session_of i ex_start = None"
  by (simp add: ex_start_def session_of_def vector_lookup_slots)

lemma ex_start_ok: "sys_start ex_start"
  using session_init by (simp add: sys_start_def) (simp add: ex_start_def)

lemma read_empty_config:
  assumes "fs_open (full_path (l_cwd l) cfg) (l_fs l) = Some []" "\<not> l_vty_config l"
  shows "\<exists>l0. vty_read_config tbl run (Some cfg) x y l = Cont l0 \<and> l_timeout_val l0 = l_timeout_val l
    \<and> l_no_password_check l0 = l_no_password_check l \<and> h_advanced (l_host l0) = h_advanced (l_host l)"
  using assms
  by (simp add: vty_read_config_def find_config_def open_or_backup_def vty_read_file_def config_from_file.simps
      host_config_set_def vty_close_def Let_def vty_config_unlock_def set_lock_def vty_new_def write_fd_def)

lemma ex_start_accepts:
  "\<exists>l0 l1 v. vty_read_config netmt_table (run_command ex_start_env netmt_table) (Some ''/c'') (Some '' '') '' '' ex_start = Cont l0
    \<and> handle netmt_table (run_command ex_start_env netmt_table) (Accept 8 ''a'') l0 = Cont l1
    \<and> session_of 8 l1 = Some v \<and> vt_v_timeout v = 600"
proof -
  let ?run = "run_command ex_start_env netmt_table"
  have "fs_open (full_path (l_cwd ex_start) ''/c'') (l_fs ex_start) = Some []" "\<not> l_vty_config ex_start"
    "l_timeout_val ex_start = 600" "l_no_password_check ex_start" "\<not> h_advanced (l_host ex_start)"
    by (simp_all add: ex_start_def full_path_def fs_open_def first_byte_def)
  then obtain l0 where l0: "vty_read_config netmt_table ?run (Some ''/c'') (Some '' '') '' '' ex_start = Cont l0"
    "l_timeout_val l0 = 600" "l_no_password_check l0" "\<not> h_advanced (l_host l0)"
    using read_empty_config by metis
  have st: "sys_start l0" by (rule netmt.read_config_start [OF l0(1) ex_start_ok])
  define v where "v = new_session 8 ''a'' l0"
  obtain c where "vector_slot netmt_table (node_num VIEW_NODE) = Some (Some c)"
    using node_vector [of VIEW_NODE] by (auto simp: node_at_def)
  then have p: "cmd_prompt netmt_table VIEW_NODE = Cont (cn_prompt c)" by (simp add: cmd_prompt_def)
  let ?s = "\<lparr>s_lib = l0\<lparr>l_vtyvec := vector_set_index 8 (Some v) (l_vtyvec l0)\<rparr>, s_vty = v\<rparr>"
  have q: "quiet ?s (greet ?s)" by (rule quiet_greet)
  have vt: "vt_node v = VIEW_NODE" "vt_type v = VTY_TERM" "vt_fd v = 8" "vt_v_timeout v = 600"
    using l0(2-4) by (simp_all add: v_def new_session_def first_node_def vty_new_def)
  define s1 where "s1 = on_vty (vty_out (fmt_s (cn_prompt c) (hostname (greet ?s)))) (greet ?s)"
  have "vty_prompt netmt_table (greet ?s) = Cont s1"
    using view_same [of "s_vty (greet ?s)" v] q vt p by (simp add: vty_prompt_def s1_def quiet_def)
  then have cr: "vty_create netmt_table 8 ''a'' l0 = Cont (keep (on_vty (vty_event EV_READ \<circ> vty_event EV_WRITE) s1))"
    using l0(3) by (simp add: vty_create_def Let_def v_def)
  have s1: "quiet ?s s1" using q by (simp add: s1_def quiet_def view_simps)
  have "session_of 8 (keep (on_vty (vty_event EV_READ \<circ> vty_event EV_WRITE) s1))
      = Some (s_vty (on_vty (vty_event EV_READ \<circ> vty_event EV_WRITE) s1))"
    using session_keep [of "on_vty (vty_event EV_READ \<circ> vty_event EV_WRITE) s1"] s1 view_same [of "s_vty s1" v] vt st
    by (simp add: quiet_def sys_start_def vector_set_index_ok)
  then obtain l1 v1 where l1: "handle netmt_table ?run (Accept 8 ''a'') l0 = Cont l1" "session_of 8 l1 = Some v1" "vt_v_timeout v1 = 600"
    using cr s1 view_same [of "s_vty s1" v] vt by (simp add: quiet_def)
  then show ?thesis using l0(1) by blast
qed

lemma ex_start_runs:
  "\<exists>l v. program_reaches ex_start_env ''/c'' ex_start l \<and> session_of 8 l = Some v \<and> vt_v_timeout v = 600"
proof -
  let ?run = "run_command ex_start_env netmt_table"
  obtain l0 l1 v where l: "vty_read_config netmt_table ?run (Some ''/c'') (Some '' '') '' '' ex_start = Cont l0"
    "handle netmt_table ?run (Accept 8 ''a'') l0 = Cont l1" "session_of 8 l1 = Some v" "vt_v_timeout v = 600"
    using ex_start_accepts by blast
  have "enabled (Accept 8 ''a'') l0" using netmt.read_config_start [OF l(1) ex_start_ok] by (simp add: sys_start_def)
  then have "reachable netmt_table ?run l0 l1" using l(2) reach_start reach_step by metis
  then show ?thesis using l(1,3,4) unfolding program_reaches_def by blast
qed

lemma config_lock_exclusive_witness:
  "\<exists>l i v. program_reaches ex_start_env ''/c'' ex_start l \<and> session_of i l = Some v
     \<and> (vt_node v \<in> config_nodes \<longrightarrow> vt_config v)
     \<and> (l_vty_config l \<longleftrightarrow> (\<exists>i v. session_of i l = Some v \<and> vt_config v))"
  using ex_start_runs config_lock_exclusive [OF _ ex_start_ok, of ex_start_env "''/c''"] by metis

text \<open>C4. No session is ever forgotten: in every state that the program can reach, every open session is
  waiting for input, or it prints without pausing and its output is under way; so there is always an
  event of the session that the thread loop can deliver. A session with a time limit has its timer
  running.\<close>

theorem sessions_stay_served:
  assumes "program_reaches e cfg l l'" "sys_start l" "session_of i l' = Some v"
  shows "(enabled (Input i bs) l' \<or> vt_lines v = 0 \<and> enabled (Writable i) l')
    \<and> (vt_v_timeout v \<noteq> 0 \<longrightarrow> enabled (Expired i) l')"
proof -
  have "served v" using program_inv [OF assms(1,2)] assms(3) unfolding sys_inv_def by blast
  then show ?thesis using assms(3) by (auto simp: served_def)
qed

lemma sessions_stay_served_witness:
  "\<exists>l v. program_reaches ex_start_env ''/c'' ex_start l \<and> session_of 8 l = Some v \<and> enabled (Expired 8) l
     \<and> (enabled (Input 8 ''q'') l \<or> vt_lines v = 0 \<and> enabled (Writable 8) l)"
proof -
  obtain l v where l: "program_reaches ex_start_env ''/c'' ex_start l" "session_of 8 l = Some v" "vt_v_timeout v = 600"
    using ex_start_runs by blast
  show ?thesis using sessions_stay_served [OF l(1) ex_start_ok l(2), of "''q''"] l by auto
qed

end
