(* ===== verification/NetmtUse.thy ===== *)
theory NetmtUse
  imports LineEval NetmtSystem
begin

text \<open>
  Properties of the finished program: its command table is well-formed and every line is executed
  safely in it, the bounds of a command's argument end to end, and the lines that fail although the
  parser accepts them.
\<close>

definition ex_view :: "operator session" where
  "ex_view = \<lparr>s_lib = ex_start, s_vty = new_session 5 ''a'' ex_start\<rparr>"

lemma ex_view_node: "vt_node (s_vty ex_view) = VIEW_NODE"
  by (simp add: ex_view_def new_session_def first_node_def ex_start_def)

section \<open>Bounds of an argument\<close>

lemma after_terminal_length:
  "after_words cmd_filter_by_completion [''terminal'', ''length''] (shapes VIEW_NODE) = Inr (exact_match, 2,
     [Some (plain (Host Config_terminal_length, [[''terminal''], [''length''], [''<0-512>'']], 3))])"
  "after_words cmd_filter_by_completion [''terminal'', ''length''] (shapes ENABLE_NODE) = Inr (exact_match, 2,
     [Some (plain (Host Config_terminal_length, [[''terminal''], [''length''], [''<0-512>'']], 3))])"
  by code_simp+

lemma terminal_length_meaning:
  assumes "n = VIEW_NODE \<or> n = ENABLE_NODE"
  shows "line_meaning cmd_filter_by_completion n [''terminal'', ''length'', w] =
    (if cmd_range_match ''<0-512>'' (Some w)
     then Call (plain (Host Config_terminal_length, [[''terminal''], [''length''], [''<0-512>'']], 3)) [w]
     else Code CMD_ERR_NO_MATCH)"
proof -
  let ?el = "plain (Host Config_terminal_length, [[''terminal''], [''length''], [''<0-512>'']], 3)"
  have "finish [''terminal'', ''length'', w] ?el = Call ?el [w]"
    by (simp add: finish_def plain_def cmd_kind_defs push_arg_def CMD_ARGC_MAX_def)
  moreover have "match_completion w ''<0-512>'' = (if cmd_range_match ''<0-512>'' (Some w) then Some range_match else None)"
    by (simp add: match_completion_def cmd_kind_defs)
  ultimately show ?thesis
    using assms after_words_completion [OF after_terminal_length(1), of "[w]"] after_words_completion [OF after_terminal_length(2), of "[w]"]
      completion.exec_from_range [of ?el 2 "\<lparr>d_cmd = ''<0-512>'', d_str = None\<rparr>" w "[''terminal'', ''length'', w]" exact_match]
    by (auto simp: plain_def)
qed


lemma range_0_512: "cmd_range_match ''<0-512>'' (Some w) = (snd (strtoul w) = [] \<and> fst (strtoul w) \<le> 512)"
proof -
  have 1: "upto_char CHR ''-'' (tl ''<0-512>'') = Some (''0'', ''512>'')" by code_simp
  have 2: "upto_char CHR ''>'' ''512>'' = Some (''512'', [])" by code_simp
  have 3: "strtoul ''0'' = (0, [])" by (simp add: strtoul_digits c_isdigit_def dec_val_def digit_val_def)
  have 4: "strtoul ''512'' = (512, [])" by (simp add: strtoul_digits c_isdigit_def dec_val_def digit_val_def)
  show ?thesis by (cases "strtoul w") (simp only: cmd_range_match_def option.case 1 prod.case 2 3 4 Let_def fst_conv snd_conv, auto)
qed

lemma range_lines:
  assumes "snd (strtoul w) = []" "fst (strtoul w) \<le> 512"
  shows "snd (strtol w) = [] \<and> sint (word_of_int (fst (strtol w)) :: 32 word) \<in> {0..512}"
proof -
  obtain neg t where t: "sign_split (dropWhile c_isspace w) = (neg, t)" by fastforce
  define ds where "ds = takeWhile c_isdigit t"
  define v where "v = dec_val ds"
  define B where "B = (18446744073709551616 :: nat)"
  define H where "H = (9223372036854775808 :: int)"
  have BH: "512 < H" "int B = 2 * H" by (simp_all add: B_def H_def)
  have u: "strtoul w = (if ds = [] then (0, w) else ((if B \<le> v then B - 1 else if neg then (B - v) mod B else v), dropWhile c_isdigit t))"
    by (simp add: strtoul_def t ds_def v_def Let_def B_def)
  have l: "strtol w = (if ds = [] then (0, w) else (max (- H) (min (H - 1) (if neg then - int v else int v)), dropWhile c_isdigit t))"
    by (simp add: strtol_def t ds_def v_def Let_def H_def)
  show ?thesis
  proof (cases "ds = []")
    case True
    then have "w = []" using assms(1) unfolding u by simp
    moreover have "strtol w = (0, w)" unfolding l using True by simp
    ultimately show ?thesis by simp
  next
    case False
    have r: "dropWhile c_isdigit t = []" and x: "(if B \<le> v then B - 1 else if neg then (B - v) mod B else v) \<le> 512"
      using assms u False by simp_all
    have cs: "fst (strtol w) = int v \<and> v \<le> 512 \<or> fst (strtol w) = 0 \<or> fst (strtol w) = - H"
    proof (cases neg)
      case True
      then have v: "v < B" "(B - v) mod B \<le> 512" using x BH by (auto split: if_splits simp: B_def)
      then have "v = 0 \<or> B - v \<le> 512" by (cases "v = 0") simp_all
      then have "- int v = 0 \<or> - int v \<le> - H" using v(1) BH by linarith
      moreover have "min (H - 1) (- int v) = - int v" using BH by linarith
      ultimately show ?thesis using l False True by (auto simp: max_def)
    next
      case nn: False
      then have "v \<le> 512" using x BH by (auto split: if_splits simp: B_def)
      then have "max (- H) (min (H - 1) (int v)) = int v" using BH by linarith
      then show ?thesis using l False nn \<open>v \<le> 512\<close> by simp
    qed
    have 1: "sint (word_of_int (int v) :: 32 word) = int v" if "v \<le> 512"
      by (rule sint_small32) (use that in simp_all)
    have 2: "sint (word_of_int (- H) :: 32 word) = 0" by (simp add: H_def)
    have "sint (word_of_int (fst (strtol w)) :: 32 word) \<in> {0..512}"
      using cs
    proof (elim disjE conjE)
      assume v: "fst (strtol w) = int v" "v \<le> 512"
      show ?thesis unfolding v(1) 1 [OF v(2)] using v(2) by simp
    next
      assume v: "fst (strtol w) = 0"
      show ?thesis unfolding v by simp
    next
      assume v: "fst (strtol w) = - H"
      show ?thesis unfolding v 2 by simp
    qed
    moreover have "snd (strtol w) = []" unfolding l using False r by simp
    ultimately show ?thesis by (rule conjI [rotated])
  qed
qed

text \<open>C39. Whatever is typed as the argument of \<open>terminal length\<close>, signs, huge numbers and rubbish
  included, the line is either refused without any effect, or it sets the number of lines to a value
  between 0 and 512; for a decimal number it does the one exactly when its value is at most 512, and then
  sets that value. The message of the command about a malformed length is never printed.\<close>

theorem terminal_length_bounds:
  assumes "vt_node (s_vty s) = VIEW_NODE \<or> vt_node (s_vty s) = ENABLE_NODE"
    and "r = carry_out (run_command e netmt_table) (cmd_execute_command netmt_table (vt_node (s_vty s)) [''terminal'', ''length'', w]) s"
  shows "(r = Cont (CMD_ERR_NO_MATCH, s) \<or> (\<exists>k \<in> {0..512}. r = Cont (CMD_SUCCESS, on_vty (\<lambda>v. v\<lparr>vt_lines := k\<rparr>) s)))
    \<and> (list_all c_isdigit w \<longrightarrow> r = (if dec_val w \<le> 512 then Cont (CMD_SUCCESS, on_vty (\<lambda>v. v\<lparr>vt_lines := int (dec_val w)\<rparr>) s)
         else Cont (CMD_ERR_NO_MATCH, s)))"
proof -
  have n: "node_at (vt_node (s_vty s)) \<noteq> None" using assms(1) by (auto simp: node_at_def)
  let ?k = "sint (word_of_int (fst (strtol w)) :: 32 word)"
  have r: "r = (if snd (strtoul w) = [] \<and> fst (strtoul w) \<le> 512 then Cont (CMD_SUCCESS, on_vty (\<lambda>v. v\<lparr>vt_lines := ?k\<rparr>) s)
      else Cont (CMD_ERR_NO_MATCH, s))"
  proof (cases "snd (strtoul w) = [] \<and> fst (strtoul w) \<le> 512")
    case True
    then have "with_lines [w] f s = cmd_ok (f ?k s)" for f
      using range_lines [of w] by (simp add: with_lines_def with_arg_def case_prod_beta Let_def)
    then show ?thesis
      unfolding assms(2) netmt_carry_out(1) [OF n] terminal_length_meaning [OF assms(1)] range_0_512
      using True by (simp add: carry_out_def plain_def config_terminal_length_def cmd_ok_def)
  next
    case False
    then show ?thesis
      unfolding assms(2) netmt_carry_out(1) [OF n] terminal_length_meaning [OF assms(1)] range_0_512
      by (simp only: if_False) (simp add: carry_out_def)
  qed
  have d: "?k = int (dec_val w)" if "list_all c_isdigit w" "dec_val w \<le> 512"
    using that sint_small32 [of "int (dec_val w)"] by (simp add: strtol_digits)
  have k: "?k \<in> {0..512}" if "snd (strtoul w) = [] \<and> fst (strtoul w) \<le> 512" using range_lines that by blast
  have 1: "r = Cont (CMD_ERR_NO_MATCH, s) \<or> (\<exists>k \<in> {0..512}. r = Cont (CMD_SUCCESS, on_vty (\<lambda>v. v\<lparr>vt_lines := k\<rparr>) s))"
    proof (cases "snd (strtoul w) = [] \<and> fst (strtoul w) \<le> 512")
    case True
    then show ?thesis using r k by (intro disjI2 bexI [of _ ?k]) auto
  qed (use r in argo)
  have "(snd (strtoul w) = [] \<and> fst (strtoul w) \<le> 512) = (dec_val w \<le> 512)" if "list_all c_isdigit w"
    using that by (simp add: strtoul_digits)
  then have "r = (if dec_val w \<le> 512 then Cont (CMD_SUCCESS, on_vty (\<lambda>v. v\<lparr>vt_lines := int (dec_val w)\<rparr>) s) else Cont (CMD_ERR_NO_MATCH, s))"
    if "list_all c_isdigit w" using r d that by (cases "dec_val w \<le> 512") auto
  then show ?thesis using 1 by blast
qed


lemma terminal_length_bounds_witness:
  "carry_out (run_command ex_start_env netmt_table)
     (cmd_execute_command netmt_table VIEW_NODE [''terminal'', ''length'', ''24'']) ex_view
   = Cont (CMD_SUCCESS, on_vty (\<lambda>v. v\<lparr>vt_lines := 24\<rparr>) ex_view)"
  using terminal_length_bounds [of ex_view _ ex_start_env "''24''", OF _ refl] ex_view_node
  by (simp add: c_isdigit_def dec_val_def digit_val_def)

section \<open>Lines that fail\<close>

definition send_shape :: "func \<times> string list list \<times> nat" where
  "send_shape = (Netmt Send_netmt, [[''send''], [''[FILENAME]''], [''to''], [''remote''],
     [''all'', ''group'', ''type'', ''single''], [''[CLIENT]''], [''[FILENAME]'']], 1)"

lemma after_send:
  "after_words cmd_filter_by_completion [''send''] (shapes VIEW_NODE) = Inr (exact_match, 1, [Some (plain send_shape)])"
  "after_words cmd_filter_by_completion [''send''] (shapes ENABLE_NODE) = Inr (exact_match, 1, [Some (plain send_shape)])"
  by code_simp+

lemma send_meaning:
  assumes "n = VIEW_NODE \<or> n = ENABLE_NODE"
  shows "line_meaning cmd_filter_by_completion n [''send'', w] = Call (plain send_shape) [w]"
proof -
  let ?d = "\<lparr>d_cmd = ''[FILENAME]'', d_str = None\<rparr>"
  have "finish [''send'', w] (plain send_shape) = Call (plain send_shape) [w]"
    by (simp add: finish_def plain_def send_shape_def cmd_kind_defs push_arg_def CMD_ARGC_MAX_def)
  moreover have "any_word ''[FILENAME]''" by code_simp
  then have "match_completion w ''[FILENAME]'' = Some extend_match" "CMD_OPTION ''[FILENAME]'' \<or> CMD_VARIABLE ''[FILENAME]''"
    by (simp_all add: match_any_word) (simp add: any_word_def)
  ultimately show ?thesis
    using assms after_words_completion [OF after_send(1), of "[w]"] after_words_completion [OF after_send(2), of "[w]"]
      completion.exec_from_variable [of "plain send_shape" 1 ?d w "[''send'', w]" exact_match]
    by (auto simp: plain_def send_shape_def)
qed

text \<open>The specification of \<open>send\<close> marks its file name as optional, so the parser takes any single
  word after it for a complete command, although the function needs three. In the nodes that have
  the command, \<open>send x\<close> therefore makes the function read an argument that was never set.\<close>

theorem send_reads_missing_arguments:
  assumes "vt_node (s_vty s) = VIEW_NODE \<or> vt_node (s_vty s) = ENABLE_NODE" "token w"
  shows "vty_command netmt_table (run_command e netmt_table) (''send '' @ w) s = Fault Overread"
proof -
  have n: "node_at (vt_node (s_vty s)) \<noteq> None" using assms(1) by (auto simp: node_at_def)
  have "spaced [(''send'', '' ''), (w, [])]" using assms(2) by (simp add: token_def c_isspace_def)
  then have "cmd_make_strvec (Some (''send '' @ w)) = Some [''send'', w]"
    using make_strvec_line [of "[(''send'', '' ''), (w, [])]" "[]"] by simp
  moreover have "send_netmt e [a] u = Fault Overread" for a u by (simp add: send_netmt_def arg_def)
  ultimately show ?thesis
    by (simp add: vty_command_def netmt_carry_out(1) [OF n] send_meaning [OF assms(1)])
      (simp add: carry_out_def plain_def send_shape_def on_app_def)
qed

lemma send_reads_missing_arguments_witness:
  "vty_command netmt_table (run_command ex_start_env netmt_table) ''send x'' ex_view = Fault Overread"
  using send_reads_missing_arguments [of ex_view "''x''" ex_start_env] ex_view_node
  by (simp add: token_def c_isspace_def)

lemma no_commands:
  assumes "flt = cmd_filter_by_completion \<or> flt = cmd_filter_by_string" "shapes n = []"
  shows "line_meaning flt n ws = Code CMD_ERR_NO_MATCH"
proof -
  have "\<exists>mt' j. match_loop flt ws i [] mt = Inr (mt', j, [])" for i mt
    using assms(1) by (induction ws arbitrary: i mt)
      (auto simp: cmd_filter_by_completion_def cmd_filter_by_string_def is_cmd_ambiguous_def)
  then obtain mt' j where "match_loop flt ws 0 [] no_match = Inr (mt', j, [])" by blast
  then show ?thesis by (simp add: line_meaning_def assms(2) exec_with_def)
qed

text \<open>C40. The program's own initialisation installs its node over the one for the settings of the
  terminal lines, which \<open>vty_init\<close> had filled before. The node that \<open>line vty\<close> leads to is
  therefore empty: every line in it fails, \<open>exit\<close> and \<open>end\<close> included, whether it is typed or read
  from a file, and the session stays as it is; and the settings are never saved, because the node's
  configuration is written by a function that writes nothing.\<close>

theorem line_node_is_dead:
  "carry_out run (cmd_execute_command netmt_table VTY_NODE ws) s = Cont (CMD_ERR_NO_MATCH, s)
    \<and> carry_out run (cmd_execute_command_strict netmt_table VTY_NODE ws) s = Cont (CMD_ERR_NO_MATCH, s)
    \<and> (\<exists>c. vector_lookup netmt_table (node_num VTY_NODE) = Some c \<and> slots (cn_vector c) = []
         \<and> cn_func c = Some Config_write_show_netmt_cmd)
    \<and> write_config Config_write_show_netmt_cmd l v = (CMD_SUCCESS, v)"
proof -
  have n: "node_at VTY_NODE = Some (netmt_cmd_node\<lparr>cn_func := Some Config_write_show_netmt_cmd\<rparr>)" by (simp add: node_at_def)
  then have "node_at VTY_NODE \<noteq> None" by simp
  note c = netmt_carry_out [OF this]
  have "slot_is (vector_lookup netmt_table (node_num VTY_NODE)) (netmt_spec VTY_NODE)"
    using netmt_table_is(2) unfolding table_is_def by metis
  then have "\<exists>c. vector_lookup netmt_table (node_num VTY_NODE) = Some c \<and> slots (cn_vector c) = []
         \<and> cn_func c = Some Config_write_show_netmt_cmd"
    by (auto simp: slot_is_def netmt_spec_def n cmds_at_def sorted_els_def c_qsort_def)
  then show ?thesis
    unfolding c using no_commands [of cmd_filter_by_completion VTY_NODE ws] no_commands [of cmd_filter_by_string VTY_NODE ws]
    by (simp add: shapes_def carry_out_def config_write_show_netmt_cmd_def)
qed

lemma elem_args_same:
  assumes "elem_args_ok a" "same_command a b" "ce_strvec a \<noteq> []"
  shows "elem_args_ok b"
proof (cases "ce_strvec b = []")
  case False
  have l: "length (last (ce_strvec b)) = length (last (ce_strvec a))" "set (last (ce_strvec b)) = set (last (ce_strvec a))"
    using assms(2) by (auto simp: same_command_def dest: mset_eq_length mset_eq_setD)
  have "\<exists>dv' \<in> set (ce_strvec a). length dv' = length dv \<and> set dv' = set dv" if "dv \<in> set (ce_strvec b)" for dv
  proof -
    have "dv \<in> set (butlast (ce_strvec b)) \<or> dv = last (ce_strvec b)"
      using that False by (metis append_butlast_last_id in_set_conv_decomp rotate1.simps(2) set_ConsD set_rotate1)
    then show ?thesis using l assms(2,3) by (auto simp: same_command_def dest: in_set_butlastD)
  qed
  then show ?thesis using assms(1) unfolding elem_args_ok_def by metis
qed (simp add: elem_args_ok_def)

text \<open>C37. Executing a line is safe in the whole program: in each of its six nodes, for both ways of
  matching and any words, no description is read outside a specification and no argument is
  written outside \<open>argv\<close>. The result is an error code, or the call of a command that was declared
  for this node, that the line means, with exactly the words at its variable positions.\<close>

theorem program_lines_are_safe:
  assumes "node_at n \<noteq> None"
  shows "\<exists>els. exec_result_ok (meant match_completion ws) (map Some els) ws (cmd_execute_command netmt_table n ws)
    \<and> exec_result_ok (meant match_string ws) (map Some els) ws (cmd_execute_command_strict netmt_table n ws)
    \<and> (\<forall>el \<in> set els. \<exists>c \<in> set (cmds_at n). same_command (compiled c) el)"
proof -
  obtain c0 where "node_at n = Some c0" using assms by blast
  then obtain v where v: "vector_slot netmt_table (node_num n) = Some (Some (c0\<lparr>cn_vector := v\<rparr>))" "vec_ok v"
    "slots v = map Some (sorted_els (map compiled (cmds_at n)))" using node_vector by blast
  have "elem_args_ok el" if "el \<in> set (sorted_els (map compiled (cmds_at n)))" for el
    using sorted_compiled [OF that] cmds_at_ok by (auto simp: well_specified_def intro: elem_args_same)
  then have ok: "slots_ok elem_args_ok (slots v)" by (auto simp: v(3) slots_ok_def)
  show ?thesis
    using completion.exec_good [OF ok, of ws] strict.exec_good [OF ok, of ws] v sorted_compiled
    by (intro exI [where x = "sorted_els (map compiled (cmds_at n))"])
      (simp add: cmd_execute_command_def cmd_execute_command_strict_def exec_node_def cmd_node_vector_def, blast)
qed

lemma program_lines_are_safe_witness:
  "\<exists>els. exec_result_ok (meant match_completion [''hostname'', ''a'']) (map Some els) [''hostname'', ''a'']
      (cmd_execute_command netmt_table CONFIG_NODE [''hostname'', ''a''])
    \<and> (\<forall>el \<in> set els. \<exists>c \<in> set (cmds_at CONFIG_NODE). same_command (compiled c) el)"
proof -
  have "node_at CONFIG_NODE \<noteq> None" by (simp add: node_at_def)
  from program_lines_are_safe [OF this, of "[''hostname'', ''a'']"] show ?thesis by blast
qed

text \<open>C38. The program builds its table without an error: no specification fails to parse, no node is
  missing when a command is installed. What it gets is well-formed, every vector consistent, every
  command with its compiled words and its size, and holds at each node exactly the commands declared
  for it, sorted.\<close>

theorem build_table_well_formed:
  "build_table = Cont netmt_table \<and> table_ok netmt_table
    \<and> (\<forall>n. slot_is (vector_lookup netmt_table (node_num n)) (netmt_spec n))
    \<and> (\<forall>n. map shape (sorted_els (map compiled (cmds_at n))) = shapes n)"
  using netmt_table_is shapes_of by (auto simp: table_is_def)

end
