(* ===== verification/SavedText.thy ===== *)
theory SavedText
  imports NetmtUse
begin

text \<open>
  The text that \<open>write file\<close> puts into the configuration file: a list of lines that depends on the
  settings alone. What the functions that write print into the session of the file is followed
  through the output buffer.
\<close>

section \<open>The text that is saved\<close>

definition lines_text :: "string list \<Rightarrow> string" where
  "lines_text ls = concat (map (\<lambda>l. l @ [LF]) ls)"

lemma lines_text_simps [simp]: "lines_text [] = []" "lines_text (l # ls) = l @ LF # lines_text ls"
  "lines_text (xs @ ys) = lines_text xs @ lines_text ys"
  by (simp_all add: lines_text_def)

definition opt_text :: "string \<Rightarrow> string option \<Rightarrow> string list" where
  "opt_text p x = (case x of None \<Rightarrow> [] | Some w \<Rightarrow> [p @ w])"

definition flag_text :: "bool \<Rightarrow> string \<Rightarrow> string list" where
  "flag_text b str = (if b then [str] else [])"

definition password_text :: "string \<Rightarrow> string option \<Rightarrow> string option \<Rightarrow> string list" where
  "password_text p clear enc = (case clear of Some w \<Rightarrow> [p @ w] | None \<Rightarrow> opt_text (p @ ''8 '') enc)"

definition syslog_text :: "bool \<Rightarrow> string \<Rightarrow> string list" where
  "syslog_text b f = flag_text b (''log syslog'' @ (if f \<noteq> ''daemon'' then '' facility '' @ syslog_facility_print f else []))"

definition host_text :: "host \<Rightarrow> zlog \<Rightarrow> string list" where
  "host_text h z =
     opt_text ''hostname '' (h_name h)
     @ (if h_encrypt h then opt_text ''password 8 '' (h_password_encrypt h) @ opt_text ''enable password 8 '' (h_enable_encrypt h)
        else password_text ''password '' (h_password h) (h_password_encrypt h)
           @ password_text ''enable password '' (h_enable h) (h_enable_encrypt h))
     @ opt_text ''log file '' (h_logfile h) @ flag_text (h_log_stdout h) ''log stdout''
     @ syslog_text (h_log_syslog h) (z_facility z)
     @ flag_text (z_maskpri z \<noteq> LOG_DEBUG) (''log trap '' @ zlog_priority ! z_maskpri z)
     @ flag_text (z_record_priority z) ''log record-priority''
     @ flag_text (h_advanced h) ''service advanced-vty'' @ flag_text (h_encrypt h) ''service password-encryption''
     @ flag_text (h_lines h \<ge> 0) (''service terminal-length '' @ show_int (h_lines h))
     @ flag_text (h_motd h = None) ''no banner motd''"

text \<open>What a function prints into a session that writes to a file.\<close>

definition file_ok :: "vty \<Rightarrow> bool" where
  "file_ok v \<longleftrightarrow> vt_type v = VTY_FILE \<and> buf_ok (vt_obuf v)"

definition prints :: "(vty \<Rightarrow> vty) \<Rightarrow> string \<Rightarrow> bool" where
  "prints f t \<longleftrightarrow> (\<forall>v. file_ok v \<longrightarrow> file_ok (f v) \<and> content (vt_obuf (f v)) = content (vt_obuf v) @ t)"

named_theorems prints_intros

lemma prints_out: "prints (vty_out t) t"
  by (auto simp: prints_def file_ok_def vty_out_def vty_shell_def vty_shell_serv_def content_write buf_ok_write)

lemma prints_id [prints_intros]: "prints id []" "prints (\<lambda>v. v) []"
  by (simp_all add: prints_def)

lemma prints_comp: "prints f t \<Longrightarrow> prints g u \<Longrightarrow> prints (\<lambda>v. g (f v)) (t @ u)"
  by (simp add: prints_def)

lemma prints_line [prints_intros]: "prints (vty_line l) (lines_text [l])"
  using prints_out [of "l @ [LF]"] by (simp add: prints_def vty_line_def VTY_NEWLINE_def file_ok_def LF_def)

lemma prints_opt [prints_intros]: "prints (opt_line p x) (lines_text (opt_text p x))"
  using prints_line [of "p @ the x"] prints_id(2) by (cases x) (simp_all add: opt_line_def [abs_def] opt_text_def)

lemma prints_flag [prints_intros]: "prints (flag_line b l) (lines_text (flag_text b l))"
  using prints_line prints_id(2) by (cases b) (simp_all add: flag_line_def [abs_def] flag_text_def)

lemma prints_password [prints_intros]: "prints (password_line p c e) (lines_text (password_text p c e))"
  using prints_line [of "p @ the c"] prints_opt by (cases c) (simp_all add: password_line_def [abs_def] password_text_def)

lemma prints_syslog [prints_intros]: "prints (if b then syslog_line f else id) (lines_text (syslog_text b f))"
proof -
  have "prints (\<lambda>v. vty_line [] (vty_out ('' facility '' @ syslog_facility_print f) (vty_out ''log syslog'' v)))
      ((''log syslog'' @ '' facility '' @ syslog_facility_print f) @ lines_text [[]])"
    by (rule prints_comp [OF prints_comp [OF prints_out prints_out] prints_line])
  moreover have "prints (\<lambda>v. vty_line [] (vty_out ''log syslog'' v)) (''log syslog'' @ lines_text [[]])"
    by (rule prints_comp [OF prints_out prints_line])
  ultimately show ?thesis
    using prints_id(1) by (auto simp: syslog_line_def [abs_def] syslog_text_def flag_text_def)
qed

lemma prints_fold: "list_all2 (\<lambda>f t. prints f (lines_text t)) fs ts \<Longrightarrow> prints (fold id fs) (lines_text (concat ts))"
proof (induction rule: list_all2_induct)
  case Nil
  then show ?case by (simp add: prints_def)
next
  case (Cons f fs t ts)
  then show ?case using prints_comp [OF Cons(1) Cons(3)] by (simp add: comp_def)
qed

lemma host_printed: "prints (snd \<circ> config_write_host l) (lines_text (host_text (l_host l) (l_zlog l)))"
proof -
  let ?h = "l_host l" and ?z = "l_zlog l"
  define fs where "fs = [opt_line ''hostname '' (h_name ?h)] @ password_lines ?h @ log_lines ?h ?z @ service_lines ?h"
  define ts where "ts = [opt_text ''hostname '' (h_name ?h)]
     @ (if h_encrypt ?h then [opt_text ''password 8 '' (h_password_encrypt ?h), opt_text ''enable password 8 '' (h_enable_encrypt ?h)]
        else [password_text ''password '' (h_password ?h) (h_password_encrypt ?h),
           password_text ''enable password '' (h_enable ?h) (h_enable_encrypt ?h)])
     @ [opt_text ''log file '' (h_logfile ?h), flag_text (h_log_stdout ?h) ''log stdout'',
     syslog_text (h_log_syslog ?h) (z_facility ?z),
     flag_text (z_maskpri ?z \<noteq> LOG_DEBUG) (''log trap '' @ zlog_priority ! z_maskpri ?z),
     flag_text (z_record_priority ?z) ''log record-priority'']
     @ [flag_text (h_advanced ?h) ''service advanced-vty'', flag_text (h_encrypt ?h) ''service password-encryption'',
     flag_text (h_lines ?h \<ge> 0) (''service terminal-length '' @ show_int (h_lines ?h)),
     flag_text (h_motd ?h = None) ''no banner motd'']"
  have "list_all2 (\<lambda>f t. prints f (lines_text t)) fs ts"
    unfolding fs_def ts_def password_lines_def log_lines_def service_lines_def
    by (intro list_all2_appendI list.rel_intros prints_intros) (auto intro!: list_all2_appendI list.rel_intros prints_intros)
  then have "prints (fold id fs) (lines_text (concat ts))" by (rule prints_fold)
  moreover have "concat ts = host_text ?h ?z" by (simp add: ts_def host_text_def)
  moreover have "snd \<circ> config_write_host l = fold id fs" by (auto simp: config_write_host_def fs_def Let_def)
  ultimately show ?thesis by simp
qed


text \<open>Only two nodes of the program have a function that writes, and one of these writes nothing.\<close>

fun write_all :: "'x lib \<Rightarrow> config_writer option list \<Rightarrow> vty \<Rightarrow> vty" where
  "write_all l [] v = v"
| "write_all l (None # ws) v = write_all l ws v"
| "write_all l (Some w # ws) v =
     (let (r, v1) = write_config w l v in write_all l ws (if r \<noteq> 0 then vty_line ''!'' v1 else v1))"

lemma write_nodes_all: "write_nodes (\<lambda>n. True) l ns v = write_all l (map (\<lambda>x. Option.bind x cn_func) ns) v"
proof (induction "\<lambda>n :: 'a cmd_node. True" l ns v rule: write_nodes.induct)
  case (3 l n ns v)
  then show ?case by (cases "cn_func n") (auto simp: Let_def split: prod.splits)
qed auto

lemma netmt_table_slots: "slots netmt_table = map (\<lambda>n. vector_lookup netmt_table (node_num n)) all_nodes"
proof -
  have ok: "vec_ok netmt_table" using netmt_table_is(2) by (simp add: table_is_def table_ok_def)
  have "slot_is (vector_lookup netmt_table (node_num VTY_NODE)) (netmt_spec VTY_NODE)"
    using netmt_table_is(2) unfolding table_is_def by metis
  then have "vector_lookup netmt_table (node_num VTY_NODE) \<noteq> None" by (auto simp: slot_is_def netmt_spec_def node_at_def)
  then have "node_num VTY_NODE < length (slots netmt_table)" by (simp add: vector_lookup_slots [OF ok] split: if_splits)
  moreover have "Suc (node_num VTY_NODE) = length all_nodes" by code_simp
  ultimately have len: "length (slots netmt_table) = length all_nodes"
    using netmt_table_is(2) by (simp add: table_is_def del: length_slots)
  show ?thesis
    using len by (intro nth_equalityI) (simp_all add: node_of_num vector_lookup_slots [OF ok] del: length_slots)
qed

lemma netmt_writers: "map (\<lambda>x. Option.bind x cn_func) (slots netmt_table) = map (\<lambda>n. Option.bind (node_at n) cn_func) all_nodes"
proof -
  have "Option.bind (vector_lookup netmt_table (node_num n)) cn_func = Option.bind (node_at n) cn_func" for n
  proof -
    have "slot_is (vector_lookup netmt_table (node_num n)) (netmt_spec n)"
      using netmt_table_is(2) unfolding table_is_def by metis
    then show ?thesis by (cases "node_at n") (auto simp: slot_is_def netmt_spec_def)
  qed
  then show ?thesis by (simp add: netmt_table_slots)
qed

lemma nodes_printed: "write_nodes (\<lambda>n. True) l (slots netmt_table) v = vty_line ''!'' (snd (config_write_host l v))"
proof -
  have "map (\<lambda>n. Option.bind (node_at n) cn_func) all_nodes
    = replicate (node_num CONFIG_NODE) None @ [Some Config_write_host]
      @ replicate (node_num VTY_NODE - node_num CONFIG_NODE - 1) None @ [Some Config_write_show_netmt_cmd]"
    by code_simp
  moreover have "write_all l (replicate k None @ ws) v = write_all l ws v" for k ws v by (induction k) simp_all
  moreover have "fst (config_write_host l v) \<noteq> 0" by (simp add: config_write_host_def Let_def)
  ultimately show ?thesis
    by (simp add: write_nodes_all netmt_writers config_write_show_netmt_cmd_def CMD_SUCCESS_def case_prod_beta)
qed

definition saved_lines :: "'x lib \<Rightarrow> string list" where
  "saved_lines l = [''!'', ''! Zebra configuration saved from vty'']
     @ (if fs_time (l_fs l) = [] then [''!   !''] else [''!   '' @ fs_time (l_fs l), ''!''])
     @ host_text (l_host l) (l_zlog l) @ [''!'']"

lemma config_text_is: "config_text netmt_table l = lines_text (saved_lines l)"
proof -
  let ?v = "vty_new\<lparr>vt_fd := free_fd l, vt_type := VTY_FILE\<rparr>" and ?t = "fs_time (l_fs l)"
  have v: "file_ok ?v" "content (vt_obuf ?v) = []" by (simp_all add: file_ok_def vty_new_def buf_ok_new)
  have p: "prints (if ?t = [] then id else vty_out (?t @ [LF])) (if ?t = [] then [] else ?t @ [LF])"
    using prints_out prints_id(1) by simp
  have h: "prints (file_header ?t) (((''!'' @ [LF] @ ''! Zebra configuration saved from vty'' @ [LF] @ ''!   '')
      @ (if ?t = [] then [] else ?t @ [LF])) @ ''!'' @ [LF])"
    unfolding file_header_def [abs_def] by (rule prints_comp [OF prints_comp [OF prints_out p] prints_out])
  have "prints (\<lambda>v. vty_line ''!'' ((snd \<circ> config_write_host l) (file_header ?t v)))
     (((((''!'' @ [LF] @ ''! Zebra configuration saved from vty'' @ [LF] @ ''!   '')
      @ (if ?t = [] then [] else ?t @ [LF])) @ ''!'' @ [LF]) @ lines_text (host_text (l_host l) (l_zlog l))) @ lines_text [''!''])"
    by (rule prints_comp [OF prints_comp [OF h host_printed] prints_line])
  then have "prints (\<lambda>v. write_nodes (\<lambda>n. True) l (slots netmt_table) (file_header ?t v)) (lines_text (saved_lines l))"
    by (simp add: nodes_printed saved_lines_def comp_def split: if_splits)
  then have "file_ok (file_vty netmt_table l)" "content (vt_obuf (file_vty netmt_table l)) = lines_text (saved_lines l)"
    using v by (simp_all add: prints_def file_vty_def)
  then show ?thesis
    using buffer_empty_iff [of "vt_obuf (file_vty netmt_table l)"]
    by (auto simp: config_text_def buffer_flush_all_def content_def file_ok_def)
qed

end
