(* ===== verification/ConfigLines.thy ===== *)
theory ConfigLines
  imports LineStrict SavedText
begin

text \<open>
  The lines of a saved configuration, read back: each kind of line that \<open>config_write_host\<close> prints is
  looked up in the table of the program, by the strict match that reads a configuration file, and calls
  the command that makes the setting.
\<close>

section \<open>The commands that the lines call\<close>

lemma narrow_config:
  "narrow [''hostname''] 0 config_shapes = Some [(Host Config_hostname, [[''hostname''], [''WORD'']], 2)]"
  "narrow [''password''] 0 config_shapes = Some [(Host Config_password, [[''password''], [''8'', []], [''WORD'']], 3),
     (Host Config_password, [[''password''], [''LINE'']], 2)]"
  "narrow [''enable'', ''password''] 0 config_shapes = Some
     [(Host Config_enable_password, [[''enable''], [''password''], [''8'', []], [''WORD'']], 4),
      (Host Config_enable_password, [[''enable''], [''password''], [''LINE'']], 3)]"
  "narrow [''password'', ''8''] 0 config_shapes = Some [(Host Config_password, [[''password''], [''8'', []], [''WORD'']], 3)]"
  "narrow [''enable'', ''password'', ''8''] 0 config_shapes = Some
     [(Host Config_enable_password, [[''enable''], [''password''], [''8'', []], [''WORD'']], 4)]"
  "narrow [''log'', ''file''] 0 config_shapes = Some [(Log Config_log_file, [[''log''], [''file''], [''FILENAME'']], 3)]"
  "narrow [''service'', ''terminal-length''] 0 config_shapes = Some
     [(Host Service_terminal_length, [[''service''], [''terminal-length''], [''<0-512>'']], 3)]"
  by code_simp+

fun calls :: "'f exec_result \<Rightarrow> ('f \<times> string list) option" where
  "calls (Call el argv) = Some (ce_func el, argv)"
| "calls r = None"

lemma narrow_plain:
  "list_all (\<lambda>(ws, f). case narrow ws 0 config_shapes of None \<Rightarrow> False
     | Some els \<Rightarrow> map (\<lambda>x. calls (finish ws (plain x))) (filter (\<lambda>(f, p, n). n \<le> length ws) els) = [Some (f, [])])
     [([''log'', ''stdout''], Log Config_log_stdout), ([''log'', ''syslog''], Log Config_log_syslog),
      ([''log'', ''record-priority''], Log Config_log_record_priority),
      ([''service'', ''advanced-vty''], Line Service_advanced_vty),
      ([''service'', ''password-encryption''], Host Service_password_encrypt),
      ([''no'', ''banner'', ''motd''], Host No_banner_motd)]"
  by code_simp

lemma narrow_facility:
  "list_all (\<lambda>w. (case narrow [''log'', ''syslog'', ''facility'', w] 0 config_shapes of None \<Rightarrow> False
     | Some els \<Rightarrow> map (\<lambda>x. calls (finish [''log'', ''syslog'', ''facility'', w] (plain x))) (filter (\<lambda>(f, p, n). n \<le> 4) els) = [Some (Log Config_log_syslog_facility, [w])])
     \<and> facility_of facility_tests w = w) facility_names"
  by code_simp

section \<open>Reading lines\<close>

abbreviation netmt_run :: "cmd_env \<Rightarrow> (func, operator) runner" where
  "netmt_run e \<equiv> run_command e netmt_table"

text \<open>Reading these lines in the configuration node leads from one state of the library to another, and
  changes nothing in the session but its buffer.\<close>

definition reads_to :: "cmd_env \<Rightarrow> operator lib \<Rightarrow> string list \<Rightarrow> operator lib \<Rightarrow> bool" where
  "reads_to e l ls l' \<longleftrightarrow> (\<forall>rest v. vt_node v = CONFIG_NODE \<longrightarrow>
     (\<exists>b. config_from_file netmt_table (netmt_run e) (lines_text ls @ rest) \<lparr>s_lib = l, s_vty = v\<rparr>
        = config_from_file netmt_table (netmt_run e) rest \<lparr>s_lib = l', s_vty = v\<lparr>vt_buf := b\<rparr>\<rparr>))"

lemma readsD:
  assumes "reads_to e l ls l'" "vt_node v = CONFIG_NODE"
  shows "\<exists>b. config_from_file netmt_table (netmt_run e) (lines_text ls @ rest) \<lparr>s_lib = l, s_vty = v\<rparr>
        = config_from_file netmt_table (netmt_run e) rest \<lparr>s_lib = l', s_vty = v\<lparr>vt_buf := b\<rparr>\<rparr>"
  using assms unfolding reads_to_def by blast

lemma reads_nil: "reads_to e l [] l"
  unfolding reads_to_def
proof (intro allI impI)
  fix rest and v :: vty
  show "\<exists>b. config_from_file netmt_table (netmt_run e) (lines_text [] @ rest) \<lparr>s_lib = l, s_vty = v\<rparr>
        = config_from_file netmt_table (netmt_run e) rest \<lparr>s_lib = l, s_vty = v\<lparr>vt_buf := b\<rparr>\<rparr>"
    by (rule exI [where x = "vt_buf v"]) simp
qed

lemma reads_append:
  assumes "reads_to e l ls l1" "reads_to e l1 ms l2"
  shows "reads_to e l (ls @ ms) l2"
  unfolding reads_to_def
proof (intro allI impI)
  fix rest and v :: vty
  assume v: "vt_node v = CONFIG_NODE"
  obtain b where b: "config_from_file netmt_table (netmt_run e) (lines_text ls @ lines_text ms @ rest) \<lparr>s_lib = l, s_vty = v\<rparr>
      = config_from_file netmt_table (netmt_run e) (lines_text ms @ rest) \<lparr>s_lib = l1, s_vty = v\<lparr>vt_buf := b\<rparr>\<rparr>"
    using readsD [OF assms(1) v] by blast
  obtain c where "config_from_file netmt_table (netmt_run e) (lines_text ms @ rest) \<lparr>s_lib = l1, s_vty = v\<lparr>vt_buf := b\<rparr>\<rparr>
      = config_from_file netmt_table (netmt_run e) rest \<lparr>s_lib = l2, s_vty = v\<lparr>vt_buf := c\<rparr>\<rparr>"
    using readsD [OF assms(2), of "v\<lparr>vt_buf := b\<rparr>" rest] v by auto
  then show "\<exists>b. config_from_file netmt_table (netmt_run e) (lines_text (ls @ ms) @ rest) \<lparr>s_lib = l, s_vty = v\<rparr>
        = config_from_file netmt_table (netmt_run e) rest \<lparr>s_lib = l2, s_vty = v\<lparr>vt_buf := b\<rparr>\<rparr>"
    using b by auto
qed

definition line_ok :: "string \<Rightarrow> bool" where
  "line_ok l \<longleftrightarrow> LF \<notin> set l \<and> CHR 0x00 \<notin> set l \<and> length l < 511"

lemma fgets_line: "line_ok l \<Longrightarrow> fgets VTY_BUFSIZ (l @ LF # rest) = (l @ [LF], rest)"
proof -
  assume l: "line_ok l"
  then have "takeWhile (\<lambda>c. c \<noteq> LF) (l @ LF # rest) = l" by (subst takeWhile_append2) (auto simp: line_ok_def)
  then show ?thesis using l by (simp add: fgets_def Let_def VTY_BUFSIZ_def line_ok_def)
qed

lemma c_string_line: "line_ok l \<Longrightarrow> c_string (l @ [LF]) = l @ [LF]"
  unfolding c_string_def by (intro takeWhile_eq_all_conv [THEN iffD2]) (auto simp: line_ok_def LF_def)

lemma read_line:
  assumes "line_ok l"
  shows "config_from_file tbl run (lines_text [l] @ rest) s =
    (case cmd_make_strvec (Some (l @ [LF])) of
       None \<Rightarrow> config_from_file tbl run rest (on_vty (read_into (l @ [LF])) s)
     | Some ws \<Rightarrow> after (config_line tbl run ws (on_vty (read_into (l @ [LF])) s)) (\<lambda>(ret, s1).
         if ret \<noteq> CMD_SUCCESS \<and> ret \<noteq> CMD_WARNING then Cont (ret, s1) else config_from_file tbl run rest s1))"
  using fgets_line [OF assms] c_string_line [OF assms] by (subst config_from_file.simps) (simp add: Let_def)

lemma reads_comment:
  assumes "line_ok (CHR ''!'' # str)"
  shows "reads_to e l [CHR ''!'' # str] l"
proof -
  have "cmd_make_strvec (Some ((CHR ''!'' # str) @ [LF])) = None" by (simp add: cmd_make_strvec_def c_isspace_def)
  then have "config_from_file netmt_table (netmt_run e) (lines_text [CHR ''!'' # str] @ rest) s
      = config_from_file netmt_table (netmt_run e) rest (on_vty (read_into ((CHR ''!'' # str) @ [LF])) s)" for rest s
    unfolding read_line [OF assms] by simp
  then show ?thesis unfolding reads_to_def by (auto simp: on_vty_def read_into_def)
qed

fun unwords :: "string list \<Rightarrow> string" where
  "unwords [] = []"
| "unwords [w] = w"
| "unwords (w # ws) = w @ '' '' @ unwords ws"

definition word_ok :: "string \<Rightarrow> bool" where
  "word_ok w \<longleftrightarrow> token w \<and> CHR 0x00 \<notin> set w"

lemma unwords_strvec:
  assumes "ws \<noteq> []" "\<forall>w \<in> set ws. token w" "hd (hd ws) \<notin> {CHR ''!'', CHR ''#''}"
  shows "cmd_make_strvec (Some (unwords ws @ [LF])) = Some ws"
proof -
  have "\<exists>ps. spaced ps \<and> map fst ps = ws \<and> CmdParse.line_of ps = unwords ws @ [LF]"
    using assms(1,2)
  proof (induction ws rule: unwords.induct)
    case (2 w)
    then show ?case by (intro exI [where x = "[(w, [LF])]"]) (simp add: LF_def c_isspace_def)
  next
    case (3 w v vs)
    then obtain ps where "spaced ps" "map fst ps = v # vs" "CmdParse.line_of ps = unwords (v # vs) @ [LF]" by auto
    then show ?case using 3(3)
      by (intro exI [where x = "(w, '' '') # ps"]) (cases ps, auto simp: c_isspace_def)
  qed simp
  then obtain ps where ps: "spaced ps" "map fst ps = ws" "CmdParse.line_of ps = unwords ws @ [LF]" by blast
  moreover have "hd (unwords ws @ [LF]) = hd (hd ws)" using assms(1,2) by (cases ws rule: unwords.cases) (auto elim!: tokenE)
  ultimately show ?thesis using make_strvec_line [OF ps(1), of "[]"] assms by auto
qed

lemma unwords_ok:
  assumes "\<forall>w \<in> set ws. word_ok w" "length (unwords ws) < 511"
  shows "line_ok (unwords ws)"
proof -
  have "set (unwords ws) \<subseteq> \<Union> (set ` set ws) \<union> {CHR '' ''}" by (induction ws rule: unwords.induct) auto
  moreover have "LF \<notin> set w" if "w \<in> set ws" for w
    using that assms(1) by (fastforce simp: word_ok_def token_def list_all_iff LF_def c_isspace_def)
  ultimately show ?thesis using assms by (auto simp: line_ok_def word_ok_def LF_def)
qed

lemma reads_words:
  assumes "ws \<noteq> []" "\<forall>w \<in> set ws. word_ok w" "length (unwords ws) < 511" "hd (hd ws) \<notin> {CHR ''!'', CHR ''#''}"
    and "\<And>v. carry_out (netmt_run e) (line_meaning cmd_filter_by_string CONFIG_NODE ws) \<lparr>s_lib = l, s_vty = v\<rparr>
      = cmd_ok \<lparr>s_lib = l', s_vty = v\<rparr>"
  shows "reads_to e l [unwords ws] l'"
proof -
  note line = unwords_ok [OF assms(2,3)]
  have sv: "cmd_make_strvec (Some (unwords ws @ [LF])) = Some ws"
    using unwords_strvec [OF assms(1) _ assms(4)] assms(2) by (simp add: word_ok_def)
  have n: "node_at CONFIG_NODE \<noteq> None" by (simp add: node_at_def)
  have "config_line netmt_table (netmt_run e) ws \<lparr>s_lib = l, s_vty = v\<rparr> = Cont (CMD_SUCCESS, \<lparr>s_lib = l', s_vty = v\<rparr>)"
    if "vt_node v = CONFIG_NODE" for v
  proof -
    have "exec_strict netmt_table (netmt_run e) ws \<lparr>s_lib = l, s_vty = v\<rparr> = cmd_ok \<lparr>s_lib = l', s_vty = v\<rparr>"
      unfolding exec_strict_def session.simps that netmt_carry_out(2) [OF n] by (rule assms(5))
    then show ?thesis by (simp add: config_line_def cmd_ok_def or_retry_def)
  qed
  then have "config_from_file netmt_table (netmt_run e) (lines_text [unwords ws] @ rest) \<lparr>s_lib = l, s_vty = v\<rparr>
      = config_from_file netmt_table (netmt_run e) rest \<lparr>s_lib = l', s_vty = read_into (unwords ws @ [LF]) v\<rparr>"
    if "vt_node v = CONFIG_NODE" for rest v
    using that unfolding read_line [OF line] sv by (simp add: on_vty_def read_into_def)
  then show ?thesis unfolding reads_to_def by (auto simp: read_into_def)
qed

lemma carry_calls: "calls r = Some (f, argv) \<Longrightarrow> carry_out run r s = run f argv s"
  by (cases r) (simp_all add: carry_out_def)

lemma narrow_trap:
  "list_all (\<lambda>w. (case narrow [''log'', ''trap'', w] 0 config_shapes of None \<Rightarrow> False
     | Some els \<Rightarrow> map (\<lambda>x. calls (finish [''log'', ''trap'', w] (plain x))) (filter (\<lambda>(f, p, n). n \<le> 3) els) = [Some (Log Config_log_trap, [w])])
     \<and> map (\<lambda>n. level_of 0 zlog_priority (zlog_priority ! n)) [0..<8] = map Some [0..<8]) zlog_priority"
  by code_simp

lemma shapes_config: "shapes CONFIG_NODE = config_shapes"
  by (simp add: shapes_def)

lemma narrow_calls:
  assumes "case narrow ws 0 config_shapes of None \<Rightarrow> False
     | Some els \<Rightarrow> map (\<lambda>x. calls (finish ws (plain x))) (filter (\<lambda>(f, p, n). n \<le> length ws) els) = [Some (f, argv)]"
  shows "calls (line_meaning cmd_filter_by_string CONFIG_NODE ws) = Some (f, argv)"
proof -
  obtain els where "narrow ws 0 config_shapes = Some els"
    "map (\<lambda>x. calls (finish ws (plain x))) (filter (\<lambda>(f, p, n). n \<le> length ws) els) = [Some (f, argv)]"
    using assms by (cases "narrow ws 0 config_shapes") simp_all
  then obtain x where "filter (\<lambda>(f, p, n). n \<le> length ws) els = [x]" "narrow ws 0 (shapes CONFIG_NODE) = Some els"
    "calls (finish ws (plain x)) = Some (f, argv)"
    unfolding shapes_config map_eq_Cons_conv by blast
  then show ?thesis by (simp add: strict_line)
qed

lemma last_calls:
  assumes "narrow us 0 config_shapes = Some [(f, ps @ [[p]], k)]" "length ps = length us" "k \<le> Suc (length us)" "any_word p"
    "calls (finish (us @ [w]) (plain (f, ps @ [[p]], k))) = Some (f, argv)"
  shows "calls (line_meaning cmd_filter_by_string CONFIG_NODE (us @ [w])) = Some (f, argv)"
  using strict_last [OF assms(1) [folded shapes_config] refl assms(2-4), of w] assms(5) by simp

lemma last_word:
  "calls (line_meaning cmd_filter_by_string CONFIG_NODE [''hostname'', w]) = Some (Host Config_hostname, [w])"
  "calls (line_meaning cmd_filter_by_string CONFIG_NODE [''password'', ''8'', w]) = Some (Host Config_password, [''8'', w])"
  "calls (line_meaning cmd_filter_by_string CONFIG_NODE [''enable'', ''password'', ''8'', w]) = Some (Host Config_enable_password, [''8'', w])"
  "calls (line_meaning cmd_filter_by_string CONFIG_NODE [''log'', ''file'', w]) = Some (Log Config_log_file, [w])"
proof -
  show "calls (line_meaning cmd_filter_by_string CONFIG_NODE [''hostname'', w]) = Some (Host Config_hostname, [w])"
    by (rule last_calls [of "[''hostname'']" _ "[[''hostname'']]" "''WORD''" 2 w, simplified append.simps])
      (subst narrow_config, simp, simp, simp, code_simp, code_simp)
  show "calls (line_meaning cmd_filter_by_string CONFIG_NODE [''password'', ''8'', w]) = Some (Host Config_password, [''8'', w])"
    by (rule last_calls [of "[''password'', ''8'']" _ "[[''password''], [''8'', []]]" "''WORD''" 3 w, simplified append.simps])
      (subst narrow_config, simp, simp, simp, code_simp, code_simp)
  show "calls (line_meaning cmd_filter_by_string CONFIG_NODE [''enable'', ''password'', ''8'', w]) = Some (Host Config_enable_password, [''8'', w])"
    by (rule last_calls [of "[''enable'', ''password'', ''8'']" _ "[[''enable''], [''password''], [''8'', []]]" "''WORD''" 4 w, simplified append.simps])
      (subst narrow_config, simp, simp, simp, code_simp, code_simp)
  show "calls (line_meaning cmd_filter_by_string CONFIG_NODE [''log'', ''file'', w]) = Some (Log Config_log_file, [w])"
    by (rule last_calls [of "[''log'', ''file'']" _ "[[''log''], [''file'']]" "''FILENAME''" 3 w, simplified append.simps])
      (subst narrow_config, simp, simp, simp, code_simp, code_simp)
qed

lemma second_calls:
  assumes "narrow us 0 config_shapes = Some [(g, qs, j), (f, ps @ [[p]], k)]" "length ps = length us" "k \<le> Suc (length us)" "any_word p"
    "calls (finish (us @ [w]) (plain (f, ps @ [[p]], k))) = Some (f, argv)" "length us < length qs" "\<forall>q \<in> set (qs ! length us). match_string w q = None"
  shows "calls (line_meaning cmd_filter_by_string CONFIG_NODE (us @ [w])) = Some (f, argv)"
  using strict_last_second [OF assms(1) [folded shapes_config] refl assms(2-4) refl assms(6,7)] assms(5) by simp

lemma password_word:
  assumes "w \<noteq> ''8''" "w \<noteq> []"
  shows "calls (line_meaning cmd_filter_by_string CONFIG_NODE [''password'', w]) = Some (Host Config_password, [w])"
    "calls (line_meaning cmd_filter_by_string CONFIG_NODE [''enable'', ''password'', w]) = Some (Host Config_enable_password, [w])"
proof -
  have l: "literal ''8''" "literal []" by code_simp+
  have m: "\<forall>q \<in> {''8'', []}. match_string w q = None"
    using assms l by (auto simp: literal_def match_string_def strcmp_eq_0)
  show "calls (line_meaning cmd_filter_by_string CONFIG_NODE [''password'', w]) = Some (Host Config_password, [w])"
    by (rule second_calls [of "[''password'']" _ "[[''password''], [''8'', []], [''WORD'']]" 3 _ "[[''password'']]" "''LINE''" 2 w, simplified append.simps])
      (subst narrow_config, simp, simp, simp, code_simp, code_simp, simp, use m in simp)
  show "calls (line_meaning cmd_filter_by_string CONFIG_NODE [''enable'', ''password'', w]) = Some (Host Config_enable_password, [w])"
    by (rule second_calls [of "[''enable'', ''password'']" _ "[[''enable''], [''password''], [''8'', []], [''WORD'']]" 4 _ "[[''enable''], [''password'']]" "''LINE''" 3 w, simplified append.simps])
      (subst narrow_config, simp, simp, simp, code_simp, code_simp, simp, use m in simp)
qed

lemma length_calls:
  assumes "snd (strtoul w) = []" "fst (strtoul w) \<le> 512"
  shows "calls (line_meaning cmd_filter_by_string CONFIG_NODE [''service'', ''terminal-length'', w]) = Some (Host Service_terminal_length, [w])"
proof -
  let ?el = "plain (Host Service_terminal_length, [[''service''], [''terminal-length''], [''<0-512>'']], 3)"
  let ?us = "[''service'', ''terminal-length'']"
  obtain mt where mt: "exec_from cmd_filter_by_string (?us @ [w]) (?us @ [w]) 0 no_match (map (Some \<circ> plain) (shapes CONFIG_NODE))
      = exec_from cmd_filter_by_string (?us @ [w]) [w] 2 mt [Some ?el]"
    using strict_narrow [OF narrow_config(7) [folded shapes_config], of no_match "?us @ [w]" "[w]"] by (auto simp: numeral_2_eq_2)
  have "match_string w ''<0-512>'' = (if cmd_range_match ''<0-512>'' (Some w) then Some range_match else None)"
    by (simp add: match_string_def cmd_kind_defs)
  then have "exec_from cmd_filter_by_string (?us @ [w]) [w] 2 mt [Some ?el] = finish (?us @ [w]) ?el"
    using strict.exec_from_range [of ?el 2 "\<lparr>d_cmd = ''<0-512>'', d_str = None\<rparr>" w "?us @ [w]" mt] assms
    by (simp add: plain_def range_0_512)
  moreover have "calls (finish (?us @ [w]) ?el) = Some (Host Service_terminal_length, [w])" by code_simp
  ultimately show ?thesis using mt by (simp add: line_meaning_def exec_with_from)
qed

lemma show_nat_length: "n < 1000 \<Longrightarrow> length (show_nat n) \<le> 3"
  by (simp add: show_nat.simps [of n] show_nat.simps [of "n div 10"] show_nat.simps [of "n div 10 div 10"])

subsection \<open>Each line\<close>

definition lib_host :: "(host \<Rightarrow> host) \<Rightarrow> 'x lib \<Rightarrow> 'x lib" where
  "lib_host f l = l\<lparr>l_host := f (l_host l)\<rparr>"

definition lib_zlog :: "(zlog \<Rightarrow> zlog) \<Rightarrow> 'x lib \<Rightarrow> 'x lib" where
  "lib_zlog f l = l\<lparr>l_zlog := f (l_zlog l)\<rparr>"

lemma lib_commute: "l\<lparr>l_host := h, l_zlog := z\<rparr> = l\<lparr>l_zlog := z, l_host := h\<rparr>"
  by (cases l) simp

lemma reads_call:
  assumes "calls (line_meaning cmd_filter_by_string CONFIG_NODE ws) = Some (f, argv)"
    "\<forall>w \<in> set ws. word_ok w" "length (unwords ws) < 511" "ws \<noteq> []" "hd (hd ws) \<notin> {CHR ''!'', CHR ''#''}"
    "\<And>v. netmt_run e f argv \<lparr>s_lib = l, s_vty = v\<rparr> = cmd_ok \<lparr>s_lib = l', s_vty = v\<rparr>"
  shows "reads_to e l [unwords ws] l'"
  by (rule reads_words [OF assms(4,2,3,5)]) (simp add: carry_calls [OF assms(1)] assms(6))

definition arg_ok :: "string \<Rightarrow> bool" where
  "arg_ok w \<longleftrightarrow> word_ok w \<and> length w \<le> 480"

lemma word_ok_code: "word_ok w = (w \<noteq> [] \<and> list_all (\<lambda>c. \<not> c_isspace c \<and> c \<noteq> CHR 0x00) w)"
  by (auto simp: word_ok_def token_def list_all_iff)

lemmas word_oks = word_ok_code c_isspace_def

lemma reads_hostname:
  assumes "arg_ok w" "c_isalpha (first_byte w)"
  shows "reads_to e l [''hostname '' @ w] (lib_host (\<lambda>h. h\<lparr>h_name := Some w\<rparr>) l)"
  using reads_call [OF last_word(1) [of w], of e l "lib_host (\<lambda>h. h\<lparr>h_name := Some w\<rparr>) l"] assms
  by (simp add: arg_ok_def word_oks config_hostname_def with_arg_def on_host_def lib_host_def)

lemma reads_password8:
  assumes "arg_ok w"
  shows "reads_to e l [''password 8 '' @ w] (lib_host (\<lambda>h. h\<lparr>h_password := None, h_password_encrypt := Some w\<rparr>) l)"
    "reads_to e l [''enable password 8 '' @ w] (lib_host (\<lambda>h. h\<lparr>h_enable := None, h_enable_encrypt := Some w\<rparr>) l)"
  using reads_call [OF last_word(2) [of w], of e l "lib_host (\<lambda>h. h\<lparr>h_password := None, h_password_encrypt := Some w\<rparr>) l"]
    reads_call [OF last_word(3) [of w], of e l "lib_host (\<lambda>h. h\<lparr>h_enable := None, h_enable_encrypt := Some w\<rparr>) l"] assms
  by (simp_all add: arg_ok_def word_oks config_password_def config_enable_password_def set_password_def first_byte_def
      on_host_def lib_host_def)

lemma reads_password:
  assumes "arg_ok w" "c_isalnum (first_byte w)" "w \<noteq> ''8''" "\<not> h_encrypt (l_host l)"
  shows "reads_to e l [''password '' @ w] (lib_host (\<lambda>h. h\<lparr>h_password := Some w, h_password_encrypt := None\<rparr>) l)"
    "reads_to e l [''enable password '' @ w] (lib_host (\<lambda>h. h\<lparr>h_enable := Some w, h_enable_encrypt := None\<rparr>) l)"
proof -
  have n: "w \<noteq> []" using assms(1) by (auto simp: arg_ok_def word_ok_code)
  show "reads_to e l [''password '' @ w] (lib_host (\<lambda>h. h\<lparr>h_password := Some w, h_password_encrypt := None\<rparr>) l)"
    using reads_call [OF password_word(1) [OF assms(3) n], of e l "lib_host (\<lambda>h. h\<lparr>h_password := Some w, h_password_encrypt := None\<rparr>) l"] assms
    by (simp add: arg_ok_def word_oks config_password_def set_password_def on_host_def s_host_def lib_host_def)
  show "reads_to e l [''enable password '' @ w] (lib_host (\<lambda>h. h\<lparr>h_enable := Some w, h_enable_encrypt := None\<rparr>) l)"
    using reads_call [OF password_word(2) [OF assms(3) n], of e l "lib_host (\<lambda>h. h\<lparr>h_enable := Some w, h_enable_encrypt := None\<rparr>) l"] assms
    by (simp add: arg_ok_def word_oks config_enable_password_def set_password_def on_host_def s_host_def lib_host_def)
qed

lemma reads_log_file:
  assumes "arg_ok w" "l_open l (full_path (l_cwd l) w)"
  shows "reads_to e l [''log file '' @ w] (lib_host (\<lambda>h. h\<lparr>h_logfile := Some w\<rparr>)
    (lib_zlog (\<lambda>z. z\<lparr>z_file := Some (full_path (l_cwd l) w)\<rparr>) l))"
  using reads_call [OF last_word(4) [of w], of e l "lib_host (\<lambda>h. h\<lparr>h_logfile := Some w\<rparr>)
    (lib_zlog (\<lambda>z. z\<lparr>z_file := Some (full_path (l_cwd l) w)\<rparr>) l)"] assms
  by (simp add: arg_ok_def word_oks config_log_file_def with_arg_def on_host_def on_zlog_def on_lib_def
      lib_host_def lib_zlog_def lib_commute zlog_set_file_def zlog_reset_file_def)

lemma reads_length:
  assumes "0 \<le> k" "k \<le> 512"
  shows "reads_to e l [''service terminal-length '' @ show_int k] (lib_host (\<lambda>h. h\<lparr>h_lines := k\<rparr>) l)"
proof -
  define w where "w = show_nat (nat k)"
  have d: "list_all c_isdigit w" "dec_val w = nat k" by (simp_all add: w_def cstring_simps)
  have ne: "w \<noteq> []" by (simp add: w_def show_nat.simps [of "nat k"])
  have u: "snd (strtoul w) = []" "fst (strtoul w) \<le> 512" "strtol w = (k, [])"
    using d assms nat_le_iff [of k 512] by (simp_all add: strtoul_digits strtol_digits)
  have "length w \<le> 3" using show_nat_length [of "nat k"] assms by (simp add: w_def)
  moreover have "word_ok w" using d(1) ne by (auto simp: word_ok_code list_all_iff c_isdigit_def c_isspace_def)
  moreover have "sint (word_of_int k :: 32 word) = k" by (rule sint_small32) (use assms in simp_all)
  ultimately show ?thesis
    using reads_call [OF length_calls [OF u(1,2)], of e l "lib_host (\<lambda>h. h\<lparr>h_lines := k\<rparr>) l"] assms u(3)
    by (simp add: word_oks service_terminal_length_def with_lines_def with_arg_def on_host_def lib_host_def show_int_def
        w_def [symmetric])
qed

lemma reads_fixed:
  assumes "calls (line_meaning cmd_filter_by_string CONFIG_NODE ws) = Some (f, argv)"
    "list_all (\<lambda>w. word_ok w) ws \<and> length (unwords ws) < 511 \<and> ws \<noteq> [] \<and> hd (hd ws) \<notin> {CHR ''!'', CHR ''#''}"
    "\<And>v. netmt_run e f argv \<lparr>s_lib = l, s_vty = v\<rparr> = cmd_ok \<lparr>s_lib = l', s_vty = v\<rparr>"
  shows "reads_to e l [unwords ws] l'"
  using reads_call [OF assms(1) _ _ _ _ assms(3)] assms(2) by (simp add: list_all_iff)

lemma flag_calls:
  assumes "(ws, f) \<in> set [([''log'', ''stdout''], Log Config_log_stdout), ([''log'', ''syslog''], Log Config_log_syslog),
      ([''log'', ''record-priority''], Log Config_log_record_priority),
      ([''service'', ''advanced-vty''], Line Service_advanced_vty),
      ([''service'', ''password-encryption''], Host Service_password_encrypt),
      ([''no'', ''banner'', ''motd''], Host No_banner_motd)]"
  shows "calls (line_meaning cmd_filter_by_string CONFIG_NODE ws) = Some (f, [])"
  by (rule narrow_calls) (use narrow_plain assms in \<open>unfold list_all_iff, blast\<close>)

lemmas runs_simps = config_log_stdout_def config_log_syslog_def config_log_record_priority_def service_advanced_vty_def
  service_password_encrypt_def no_banner_motd_def zlog_set_stdout_def zlog_set_syslog_def on_host_def on_zlog_def on_lib_def
  s_host_def lib_host_def lib_zlog_def lib_commute

lemma reads_flags:
  "reads_to e l [''log stdout''] (lib_host (\<lambda>h. h\<lparr>h_log_stdout := True\<rparr>) (lib_zlog (\<lambda>z. z\<lparr>z_stdout := True\<rparr>) l))"
  "reads_to e l [''log syslog''] (lib_host (\<lambda>h. h\<lparr>h_log_syslog := True\<rparr>) (lib_zlog (\<lambda>z. z\<lparr>z_syslog := True, z_facility := ''daemon''\<rparr>) l))"
  "reads_to e l [''log record-priority''] (lib_zlog (\<lambda>z. z\<lparr>z_record_priority := True\<rparr>) l)"
  "reads_to e l [''service advanced-vty''] (lib_host (\<lambda>h. h\<lparr>h_advanced := True\<rparr>) l)"
  "reads_to e l [''no banner motd''] (lib_host (\<lambda>h. h\<lparr>h_motd := None\<rparr>) l)"
  using reads_fixed [OF flag_calls [of "[''log'', ''stdout'']" "Log Config_log_stdout"], of e l]
    reads_fixed [OF flag_calls [of "[''log'', ''syslog'']" "Log Config_log_syslog"], of e l]
    reads_fixed [OF flag_calls [of "[''log'', ''record-priority'']" "Log Config_log_record_priority"], of e l]
    reads_fixed [OF flag_calls [of "[''service'', ''advanced-vty'']" "Line Service_advanced_vty"], of e l]
    reads_fixed [OF flag_calls [of "[''no'', ''banner'', ''motd'']" "Host No_banner_motd"], of e l]
  by (simp_all add: word_oks runs_simps)

lemma reads_encrypt:
  assumes "\<not> h_encrypt (l_host l)" "h_password (l_host l) = None" "h_enable (l_host l) = None"
  shows "reads_to e l [''service password-encryption''] (lib_host (\<lambda>h. h\<lparr>h_encrypt := True\<rparr>) l)"
  using reads_fixed [OF flag_calls [of "[''service'', ''password-encryption'']" "Host Service_password_encrypt"],
      of e l "lib_host (\<lambda>h. h\<lparr>h_encrypt := True\<rparr>) l"] assms
  by (simp add: word_oks runs_simps)

lemma reads_facility:
  assumes "f \<in> set facility_names"
  shows "reads_to e l [''log syslog facility '' @ f]
    (lib_host (\<lambda>h. h\<lparr>h_log_syslog := True\<rparr>) (lib_zlog (\<lambda>z. z\<lparr>z_syslog := True, z_facility := f\<rparr>) l))"
proof -
  let ?ws = "[''log'', ''syslog'', ''facility'', f]"
  have f: "case narrow ?ws 0 config_shapes of None \<Rightarrow> False
     | Some els \<Rightarrow> map (\<lambda>x. calls (finish ?ws (plain x))) (filter (\<lambda>(f, p, n). n \<le> 4) els) = [Some (Log Config_log_syslog_facility, [f])]"
    "facility_of facility_tests f = f"
    using narrow_facility assms unfolding list_all_iff by blast+
  have 4: "length ?ws = 4" by simp
  note c = narrow_calls [of ?ws, unfolded 4, OF f(1)]
  have "\<forall>f \<in> set facility_names. arg_ok f" by (simp add: facility_names_def arg_ok_def word_oks)
  then have "arg_ok f" using assms by blast
  then show ?thesis
    using reads_call [OF c, of e l "lib_host (\<lambda>h. h\<lparr>h_log_syslog := True\<rparr>) (lib_zlog (\<lambda>z. z\<lparr>z_syslog := True, z_facility := f\<rparr>) l)"] f(2)
    by (simp add: arg_ok_def word_oks config_log_syslog_facility_def with_arg_def runs_simps)
qed

lemma reads_trap:
  assumes "n < 8"
  shows "reads_to e l [''log trap '' @ zlog_priority ! n] (lib_zlog (\<lambda>z. z\<lparr>z_maskpri := n\<rparr>) l)"
proof -
  let ?w = "zlog_priority ! n"
  let ?ws = "[''log'', ''trap'', ?w]"
  have len: "length zlog_priority = 8" by (simp add: zlog_priority_def)
  have w: "?w \<in> set zlog_priority" using assms len by simp
  have f: "case narrow ?ws 0 config_shapes of None \<Rightarrow> False
     | Some els \<Rightarrow> map (\<lambda>x. calls (finish ?ws (plain x))) (filter (\<lambda>(f, p, n). n \<le> 3) els) = [Some (Log Config_log_trap, [?w])]"
    "map (\<lambda>n. level_of 0 zlog_priority (zlog_priority ! n)) [0..<8] = map Some [0..<8]"
    using narrow_trap w unfolding list_all_iff by blast+
  have 3: "length ?ws = 3" by simp
  note c = narrow_calls [of ?ws, unfolded 3, OF f(1)]
  have "map (\<lambda>n. level_of 0 zlog_priority (zlog_priority ! n)) [0..<8] ! n = map Some [0..<8] ! n" unfolding f(2) ..
  then have lv: "level_of 0 zlog_priority ?w = Some n" using assms by simp
  have "\<forall>w \<in> set zlog_priority. arg_ok w" by (simp add: zlog_priority_def arg_ok_def word_oks)
  then have "arg_ok ?w" using w by blast
  then show ?thesis
    using reads_call [OF c, of e l "lib_zlog (\<lambda>z. z\<lparr>z_maskpri := n\<rparr>) l"] lv
    by (simp add: arg_ok_def word_oks config_log_trap_def with_arg_def runs_simps)
qed

end
