(* ===== verification/ConfigRestore.thy ===== *)
theory ConfigRestore
  imports ConfigLines
begin

text \<open>
  The configuration is restored: saving it with \<open>write file\<close> and reading it at the next start of the
  program are inverse to each other, for all settings that the commands can make.
\<close>

section \<open>Settings\<close>

definition password_ok :: "string option \<Rightarrow> string option \<Rightarrow> bool" where
  "password_ok clear enc =
     (case clear of
        Some w \<Rightarrow> enc = None \<and> arg_ok w \<and> c_isalnum (first_byte w) \<and> w \<noteq> ''8''
      | None \<Rightarrow> (case enc of None \<Rightarrow> True | Some w \<Rightarrow> arg_ok w))"

definition settings_ok :: "host \<Rightarrow> zlog \<Rightarrow> bool" where
  "settings_ok h z \<longleftrightarrow>
     (case h_name h of None \<Rightarrow> True | Some w \<Rightarrow> arg_ok w \<and> c_isalpha (first_byte w))
     \<and> password_ok (h_password h) (h_password_encrypt h) \<and> password_ok (h_enable h) (h_enable_encrypt h)
     \<and> (h_encrypt h \<longrightarrow> h_password h = None \<and> h_enable h = None)
     \<and> (case h_logfile h of None \<Rightarrow> True | Some w \<Rightarrow> arg_ok w)
     \<and> -1 \<le> h_lines h \<and> h_lines h \<le> 512 \<and> h_motd h \<in> {None, Some default_motd}
     \<and> z_facility z \<in> set facility_names \<and> (\<not> h_log_syslog h \<longrightarrow> z_facility z = ''daemon'') \<and> z_maskpri z < 8"

text \<open>What the settings are before the configuration is read.\<close>

definition host_static :: host where
  "host_static = \<lparr>h_name = None, h_password = None, h_password_encrypt = None, h_enable = None, h_enable_encrypt = None,
     h_lines = 0, h_logfile = None, h_log_stdout = False, h_log_syslog = False, h_config = None, h_advanced = False,
     h_encrypt = False, h_motd = None\<rparr>"

definition openzlog :: "bool \<Rightarrow> string \<Rightarrow> zlog" where
  "openzlog stdout syslog_facility = \<lparr>z_facility = syslog_facility, z_maskpri = LOG_DEBUG, z_record_priority = False,
     z_stdout = stdout, z_syslog = False, z_file = None\<rparr>"

definition with_settings :: "host \<Rightarrow> zlog \<Rightarrow> 'x lib \<Rightarrow> 'x lib" where
  "with_settings h z l = l\<lparr>l_host := h, l_zlog := z\<rparr>"

lemma settings_upd [simp]:
  "lib_host f (with_settings h z l) = with_settings (f h) z l" "lib_zlog g (with_settings h z l) = with_settings h (g z) l"
  by (simp_all add: lib_host_def lib_zlog_def with_settings_def)

lemma settings_sel [simp]: "l_host (with_settings h z l) = h" "l_zlog (with_settings h z l) = z"
  "l_open (with_settings h z l) = l_open l" "l_cwd (with_settings h z l) = l_cwd l"
  by (simp_all add: with_settings_def)

lemma reads_opt:
  assumes "\<And>w. x = Some w \<Longrightarrow> reads_to e l [p @ w] (f (Some w))" "f None = l"
  shows "reads_to e l (opt_text p x) (f x)"
  using assms reads_nil by (cases x) (simp_all add: opt_text_def)

lemma reads_flag:
  assumes "b \<Longrightarrow> reads_to e l [str] l'" "\<not> b \<Longrightarrow> l' = l"
  shows "reads_to e l (flag_text b str) l'"
  using assms reads_nil by (cases b) (simp_all add: flag_text_def)

text \<open>Each part of the text sets its part of the settings, from the value that it has at the start.\<close>

lemma reads_name_part:
  assumes "case x of None \<Rightarrow> True | Some w \<Rightarrow> arg_ok w \<and> c_isalpha (first_byte w)" "h_name h = None"
  shows "reads_to e (with_settings h z l) (opt_text ''hostname '' x) (with_settings (h\<lparr>h_name := x\<rparr>) z l)"
  by (rule reads_opt) (use assms reads_hostname [of _ e "with_settings h z l"] in \<open>cases h; simp\<close>)+

lemma reads_password_part:
  assumes "password_ok clear enc" "\<not> h_encrypt h" "h_password h = None" "h_password_encrypt h = None"
  shows "reads_to e (with_settings h z l) (password_text ''password '' clear enc)
    (with_settings (h\<lparr>h_password := clear, h_password_encrypt := enc\<rparr>) z l)"
proof (cases clear)
  case None
  have "reads_to e (with_settings h z l) (opt_text ''password 8 '' enc) (with_settings (h\<lparr>h_password := None, h_password_encrypt := enc\<rparr>) z l)"
    by (rule reads_opt) (use None assms reads_password8(1) [of _ e "with_settings h z l"] in \<open>cases h; simp add: password_ok_def\<close>)+
  then show ?thesis using None by (simp add: password_text_def)
next
  case (Some w)
  then show ?thesis using assms reads_password(1) [of w "with_settings h z l" e] by (simp add: password_text_def password_ok_def)
qed

lemma reads_enable_part:
  assumes "password_ok clear enc" "\<not> h_encrypt h" "h_enable h = None" "h_enable_encrypt h = None"
  shows "reads_to e (with_settings h z l) (password_text ''enable password '' clear enc)
    (with_settings (h\<lparr>h_enable := clear, h_enable_encrypt := enc\<rparr>) z l)"
proof (cases clear)
  case None
  have "reads_to e (with_settings h z l) (opt_text ''enable password 8 '' enc) (with_settings (h\<lparr>h_enable := None, h_enable_encrypt := enc\<rparr>) z l)"
    by (rule reads_opt) (use None assms reads_password8(2) [of _ e "with_settings h z l"] in \<open>cases h; simp add: password_ok_def\<close>)+
  then show ?thesis using None by (simp add: password_text_def)
next
  case (Some w)
  then show ?thesis using assms reads_password(2) [of w "with_settings h z l" e] by (simp add: password_text_def password_ok_def)
qed

lemma reads_file_part:
  assumes "case x of None \<Rightarrow> True | Some w \<Rightarrow> arg_ok w \<and> l_open l (full_path (l_cwd l) w)" "h_logfile h = None" "z_file z = None"
  shows "reads_to e (with_settings h z l) (opt_text ''log file '' x)
    (with_settings (h\<lparr>h_logfile := x\<rparr>) (z\<lparr>z_file := map_option (full_path (l_cwd l)) x\<rparr>) l)"
  by (rule reads_opt) (use assms reads_log_file [of _ "with_settings h z l" e] in \<open>cases h; cases z; simp\<close>)+

lemma reads_syslog_part:
  assumes "f \<in> set facility_names" "\<not> b \<longrightarrow> f = ''daemon''" "\<not> h_log_syslog h" "z_facility z = ''daemon''" "\<not> z_syslog z"
  shows "reads_to e (with_settings h z l) (syslog_text b f)
    (with_settings (h\<lparr>h_log_syslog := b\<rparr>) (z\<lparr>z_syslog := b, z_facility := f\<rparr>) l)"
  unfolding syslog_text_def
  by (rule reads_flag)
    (use assms reads_flags(2) [of e "with_settings h z l"] reads_facility [of f e "with_settings h z l"]
      in \<open>cases h; cases z; simp add: syslog_facility_print_def\<close>)+

lemma reads_stdout_part:
  assumes "\<not> h_log_stdout h" "z_stdout z"
  shows "reads_to e (with_settings h z l) (flag_text b ''log stdout'') (with_settings (h\<lparr>h_log_stdout := b\<rparr>) z l)"
  by (rule reads_flag) (use assms reads_flags(1) [of e "with_settings h z l"] in \<open>cases h; cases z; simp\<close>)+

lemma reads_trap_part:
  assumes "n < 8" "z_maskpri z = LOG_DEBUG"
  shows "reads_to e (with_settings h z l) (flag_text (n \<noteq> LOG_DEBUG) (''log trap '' @ zlog_priority ! n)) (with_settings h (z\<lparr>z_maskpri := n\<rparr>) l)"
  by (rule reads_flag) (use assms reads_trap [of n e "with_settings h z l"] in \<open>cases z; simp\<close>)+

lemma reads_record_part:
  assumes "\<not> z_record_priority z"
  shows "reads_to e (with_settings h z l) (flag_text b ''log record-priority'') (with_settings h (z\<lparr>z_record_priority := b\<rparr>) l)"
  by (rule reads_flag) (use assms reads_flags(3) [of e "with_settings h z l"] in \<open>cases z; simp\<close>)+

lemma reads_advanced_part:
  assumes "\<not> h_advanced h"
  shows "reads_to e (with_settings h z l) (flag_text b ''service advanced-vty'') (with_settings (h\<lparr>h_advanced := b\<rparr>) z l)"
  by (rule reads_flag) (use assms reads_flags(4) [of e "with_settings h z l"] in \<open>cases h; simp\<close>)+

lemma reads_encrypt_part:
  assumes "\<not> h_encrypt h" "b \<longrightarrow> h_password h = None \<and> h_enable h = None"
  shows "reads_to e (with_settings h z l) (flag_text b ''service password-encryption'') (with_settings (h\<lparr>h_encrypt := b\<rparr>) z l)"
  by (rule reads_flag) (use assms reads_encrypt [of "with_settings h z l" e] in \<open>cases h; simp\<close>)+

lemma reads_length_part:
  assumes "-1 \<le> k" "k \<le> 512" "h_lines h = -1"
  shows "reads_to e (with_settings h z l) (flag_text (k \<ge> 0) (''service terminal-length '' @ show_int k)) (with_settings (h\<lparr>h_lines := k\<rparr>) z l)"
proof (rule reads_flag)
  show "k \<ge> 0 \<Longrightarrow> reads_to e (with_settings h z l) [''service terminal-length '' @ show_int k] (with_settings (h\<lparr>h_lines := k\<rparr>) z l)"
    using assms reads_length [of k e "with_settings h z l"] by simp
  assume "\<not> k \<ge> 0"
  then have "k = -1" using assms by simp
  then show "with_settings (h\<lparr>h_lines := k\<rparr>) z l = with_settings h z l" using assms by (cases h) simp
qed

lemma reads_motd_part:
  assumes "x \<in> {None, Some default_motd}" "h_motd h = Some default_motd"
  shows "reads_to e (with_settings h z l) (flag_text (x = None) ''no banner motd'') (with_settings (h\<lparr>h_motd := x\<rparr>) z l)"
  by (rule reads_flag) (use assms reads_flags(5) [of e "with_settings h z l"] in \<open>cases h; auto\<close>)+

definition start_host :: host where
  "start_host = cmd_init_host host_static"

lemma start_host_sel [simp]: "h_name start_host = None" "h_password start_host = None" "h_password_encrypt start_host = None"
  "h_enable start_host = None" "h_enable_encrypt start_host = None" "h_lines start_host = -1" "h_logfile start_host = None"
  "\<not> h_log_stdout start_host" "\<not> h_log_syslog start_host" "\<not> h_advanced start_host" "\<not> h_encrypt start_host"
  "h_motd start_host = Some default_motd"
  by (simp_all add: start_host_def cmd_init_host_def host_static_def)

lemma start_zlog_sel [simp]: "z_facility (openzlog b f) = f" "z_maskpri (openzlog b f) = LOG_DEBUG"
  "\<not> z_record_priority (openzlog b f)" "z_stdout (openzlog b f) = b" "\<not> z_syslog (openzlog b f)" "z_file (openzlog b f) = None"
  by (simp_all add: openzlog_def)

definition zlog_for :: "string \<Rightarrow> host \<Rightarrow> zlog \<Rightarrow> zlog" where
  "zlog_for cwd h z = \<lparr>z_facility = z_facility z, z_maskpri = z_maskpri z, z_record_priority = z_record_priority z,
     z_stdout = True, z_syslog = h_log_syslog h, z_file = map_option (full_path cwd) (h_logfile h)\<rparr>"

lemma reads_host:
  assumes "settings_ok h z" "case h_logfile h of None \<Rightarrow> True | Some w \<Rightarrow> l_open l (full_path (l_cwd l) w)"
  shows "reads_to e (with_settings start_host (openzlog True ''daemon'') l) (host_text h z)
    (with_settings (h\<lparr>h_config := None\<rparr>) (zlog_for (l_cwd l) h z) l)"
proof -
  define h1 where "h1 = start_host\<lparr>h_name := h_name h\<rparr>"
  define h2 where "h2 = h1\<lparr>h_password := h_password h, h_password_encrypt := h_password_encrypt h\<rparr>"
  define h3 where "h3 = h2\<lparr>h_enable := h_enable h, h_enable_encrypt := h_enable_encrypt h\<rparr>"
  define h4 where "h4 = h3\<lparr>h_logfile := h_logfile h\<rparr>"
  define h5 where "h5 = h4\<lparr>h_log_stdout := h_log_stdout h\<rparr>"
  define h6 where "h6 = h5\<lparr>h_log_syslog := h_log_syslog h\<rparr>"
  define h7 where "h7 = h6\<lparr>h_advanced := h_advanced h\<rparr>"
  define h8 where "h8 = h7\<lparr>h_encrypt := h_encrypt h\<rparr>"
  define h9 where "h9 = h8\<lparr>h_lines := h_lines h\<rparr>"
  define h10 where "h10 = h9\<lparr>h_motd := h_motd h\<rparr>"
  define z0 where "z0 = openzlog True ''daemon''"
  define z1 where "z1 = z0\<lparr>z_file := map_option (full_path (l_cwd l)) (h_logfile h)\<rparr>"
  define z2 where "z2 = z1\<lparr>z_syslog := h_log_syslog h, z_facility := z_facility z\<rparr>"
  define z3 where "z3 = z2\<lparr>z_maskpri := z_maskpri z\<rparr>"
  define z4 where "z4 = z3\<lparr>z_record_priority := z_record_priority z\<rparr>"
  note defs = h1_def h2_def h3_def h4_def h5_def h6_def h7_def h8_def h9_def z0_def z1_def z2_def z3_def
  note ok = assms(1) [unfolded settings_ok_def]
  have 1: "reads_to e (with_settings start_host z0 l) (opt_text ''hostname '' (h_name h)) (with_settings h1 z0 l)"
    unfolding h1_def by (rule reads_name_part) (use ok in simp_all)
  have 2: "reads_to e (with_settings h1 z0 l) (password_text ''password '' (h_password h) (h_password_encrypt h)) (with_settings h2 z0 l)"
    unfolding h2_def by (rule reads_password_part) (use ok in \<open>simp_all add: defs\<close>)
  have 3: "reads_to e (with_settings h2 z0 l) (password_text ''enable password '' (h_enable h) (h_enable_encrypt h)) (with_settings h3 z0 l)"
    unfolding h3_def by (rule reads_enable_part) (use ok in \<open>simp_all add: defs\<close>)
  have 4: "reads_to e (with_settings h3 z0 l) (opt_text ''log file '' (h_logfile h)) (with_settings h4 z1 l)"
    unfolding h4_def z1_def by (rule reads_file_part) (use ok assms(2) in \<open>simp_all add: defs split: option.splits\<close>)
  have 5: "reads_to e (with_settings h4 z1 l) (flag_text (h_log_stdout h) ''log stdout'') (with_settings h5 z1 l)"
    unfolding h5_def by (rule reads_stdout_part) (simp_all add: defs)
  have 6: "reads_to e (with_settings h5 z1 l) (syslog_text (h_log_syslog h) (z_facility z)) (with_settings h6 z2 l)"
    unfolding h6_def z2_def by (rule reads_syslog_part) (use ok in \<open>simp_all add: defs\<close>)
  have 7: "reads_to e (with_settings h6 z2 l) (flag_text (z_maskpri z \<noteq> LOG_DEBUG) (''log trap '' @ zlog_priority ! z_maskpri z)) (with_settings h6 z3 l)"
    unfolding z3_def by (rule reads_trap_part) (use ok in \<open>simp_all add: defs\<close>)
  have 8: "reads_to e (with_settings h6 z3 l) (flag_text (z_record_priority z) ''log record-priority'') (with_settings h6 z4 l)"
    unfolding z4_def by (rule reads_record_part) (simp add: defs)
  have 9: "reads_to e (with_settings h6 z4 l) (flag_text (h_advanced h) ''service advanced-vty'') (with_settings h7 z4 l)"
    unfolding h7_def by (rule reads_advanced_part) (simp add: defs)
  have 10: "reads_to e (with_settings h7 z4 l) (flag_text (h_encrypt h) ''service password-encryption'') (with_settings h8 z4 l)"
    unfolding h8_def by (rule reads_encrypt_part) (use ok in \<open>simp_all add: defs\<close>)
  have 11: "reads_to e (with_settings h8 z4 l) (flag_text (h_lines h \<ge> 0) (''service terminal-length '' @ show_int (h_lines h))) (with_settings h9 z4 l)"
    unfolding h9_def by (rule reads_length_part) (use ok in \<open>simp_all add: defs\<close>)
  have 12: "reads_to e (with_settings h9 z4 l) (flag_text (h_motd h = None) ''no banner motd'') (with_settings h10 z4 l)"
    unfolding h10_def by (rule reads_motd_part) (use ok in \<open>simp_all add: defs\<close>)
  have t: "host_text h z = opt_text ''hostname '' (h_name h)
     @ password_text ''password '' (h_password h) (h_password_encrypt h)
     @ password_text ''enable password '' (h_enable h) (h_enable_encrypt h)
     @ opt_text ''log file '' (h_logfile h) @ flag_text (h_log_stdout h) ''log stdout''
     @ syslog_text (h_log_syslog h) (z_facility z)
     @ flag_text (z_maskpri z \<noteq> LOG_DEBUG) (''log trap '' @ zlog_priority ! z_maskpri z)
     @ flag_text (z_record_priority z) ''log record-priority''
     @ flag_text (h_advanced h) ''service advanced-vty'' @ flag_text (h_encrypt h) ''service password-encryption''
     @ flag_text (h_lines h \<ge> 0) (''service terminal-length '' @ show_int (h_lines h))
     @ flag_text (h_motd h = None) ''no banner motd''"
    using ok by (simp add: host_text_def password_text_def)
  have "reads_to e (with_settings start_host z0 l) (host_text h z) (with_settings h10 z4 l)"
    unfolding t
    by (rule reads_append [OF 1 reads_append [OF 2 reads_append [OF 3 reads_append [OF 4 reads_append [OF 5
          reads_append [OF 6 reads_append [OF 7 reads_append [OF 8 reads_append [OF 9 reads_append [OF 10
          reads_append [OF 11 12]]]]]]]]]]])
  moreover have "h10 = h\<lparr>h_config := None\<rparr>"
    by (cases h) (simp add: h10_def defs start_host_def cmd_init_host_def host_static_def)
  moreover have "z4 = zlog_for (l_cwd l) h z"
    by (simp add: z4_def defs zlog_for_def openzlog_def)
  ultimately show ?thesis by (simp add: z0_def)
qed

section \<open>The file\<close>

lemma replaced_config:
  assumes "replace_config cf sav tmp fs = (None, fs')" "fs_files fs tmp = Some str" "distinct [cf, sav, tmp]"
  shows "fs_files fs' cf = Some str \<and> fs_files fs' sav = fs_files fs cf \<and> fs_may_open fs' = fs_may_open fs"
  using assms
  by (auto simp: replace_config_def fs_unlink_def fs_link_def put_file_def Let_def split: if_splits option.splits)

lemma closed_lib: "l_host (vty_close s) = l_host (s_lib s)" "l_zlog (vty_close s) = l_zlog (s_lib s)" "l_fs (vty_close s) = l_fs (s_lib s)"
  by (auto simp: vty_close_def Let_def vty_config_unlock_def set_lock_def write_fd_def)

lemma written_file:
  assumes "config_write_file netmt_table s = Cont (r, s')" "r = CMD_SUCCESS" "h_config (l_host (s_lib s)) = Some cf"
    "\<And>f. fs_mkstemp (l_fs (s_lib s)) (cf @ ''.XXXXXX'') = Some f \<Longrightarrow> \<exists>x. f = cf @ ''.'' @ x \<and> length x = 6"
  shows "fs_files (l_fs (s_lib s')) cf = Some (lines_text (saved_lines (s_lib s)))
    \<and> fs_files (l_fs (s_lib s')) (cf @ ''.sav'') = fs_files (l_fs (s_lib s)) cf
    \<and> fs_may_open (l_fs (s_lib s')) = fs_may_open (l_fs (s_lib s))"
proof -
  have "h_config (s_host s) = Some cf" using assms(3) by (simp add: s_host_def)
  moreover have "CMD_WARNING \<noteq> CMD_SUCCESS" by (simp add: CMD_WARNING_def CMD_SUCCESS_def)
  ultimately obtain tmp where tmp: "fs_mkstemp (l_fs (s_lib s)) (cf @ ''.XXXXXX'') = Some tmp"
    using assms(1,2) by (cases "fs_mkstemp (l_fs (s_lib s)) (cf @ ''.XXXXXX'')") (auto simp: config_write_file_def cmd_warn_def)
  obtain x where x: "tmp = cf @ ''.'' @ x" "length x = 6" using assms(4) [OF tmp] by blast
  have d: "distinct [cf, cf @ ''.sav'', tmp]" using x by auto
  define l1 where "l1 = vty_close \<lparr>s_lib = s_lib s, s_vty = file_vty netmt_table (s_lib s)\<rparr>"
  define fs0 where "fs0 = put_file tmp (Some (config_text netmt_table (s_lib s))) (l_fs l1)"
  obtain err fs where fs: "replace_config cf (cf @ ''.sav'') tmp fs0 = (err, fs)" by fastforce
  have "err = None" "s_lib s' = l1\<lparr>l_fs := fs\<rparr>"
    using assms(1) tmp fs \<open>h_config (s_host s) = Some cf\<close>
    by (auto simp: config_write_file_def l1_def [symmetric] fs0_def [symmetric] Let_def cmd_ok_def on_vty_def split: option.splits)
  then show ?thesis
    using replaced_config [OF fs [unfolded \<open>err = None\<close>], of "config_text netmt_table (s_lib s)"] d
    by (auto simp: fs0_def put_file_def l1_def closed_lib config_text_is)
qed

lemma reads_comments:
  assumes "list_all (\<lambda>c. line_ok c \<and> (\<exists>str. c = CHR ''!'' # str)) ls"
  shows "reads_to e l ls l"
  using assms
proof (induction ls)
  case (Cons c ls)
  then have "reads_to e l [c] l" "reads_to e l ls l" using reads_comment by auto
  then show ?case using reads_append by fastforce
qed (rule reads_nil)

lemma reads_saved:
  assumes "settings_ok (l_host l) (l_zlog l)" "line_ok (''!   '' @ fs_time (l_fs l))"
    "case h_logfile (l_host l) of None \<Rightarrow> True | Some w \<Rightarrow> l_open l0 (full_path (l_cwd l0) w)"
  shows "reads_to e (with_settings start_host (openzlog True ''daemon'') l0) (saved_lines l)
    (with_settings ((l_host l)\<lparr>h_config := None\<rparr>) (zlog_for (l_cwd l0) (l_host l) (l_zlog l)) l0)"
proof -
  let ?head = "[''!'', ''! Zebra configuration saved from vty'']"
    and ?time = "if fs_time (l_fs l) = [] then [''!   !''] else [''!   '' @ fs_time (l_fs l), ''!'']"
    and ?l1 = "with_settings start_host (openzlog True ''daemon'') l0"
    and ?l2 = "with_settings ((l_host l)\<lparr>h_config := None\<rparr>) (zlog_for (l_cwd l0) (l_host l) (l_zlog l)) l0"
  have 1: "reads_to e ?l1 ?head ?l1" by (rule reads_comments) (simp add: line_ok_def LF_def)
  have 2: "reads_to e ?l1 ?time ?l1" by (rule reads_comments) (use assms(2) in \<open>simp add: line_ok_def LF_def\<close>)
  have 3: "reads_to e ?l2 [''!''] ?l2" by (rule reads_comments) (simp add: line_ok_def LF_def)
  show ?thesis
    unfolding saved_lines_def
    by (rule reads_append [OF 1 reads_append [OF 2 reads_append [OF reads_host [OF assms(1,3)] 3]]])
qed

lemma read_saved_file:
  assumes "reads_to e l (ls) l'"
  shows "\<exists>l1. vty_read_file netmt_table (netmt_run e) (lines_text ls) l = Cont l1 \<and> l_host l1 = l_host l' \<and> l_zlog l1 = l_zlog l'"
proof -
  let ?v = "vty_new\<lparr>vt_fd := 0, vt_type := VTY_TERM, vt_node := CONFIG_NODE\<rparr>"
  obtain b where "config_from_file netmt_table (netmt_run e) (lines_text ls @ []) \<lparr>s_lib = l, s_vty = ?v\<rparr>
      = config_from_file netmt_table (netmt_run e) [] \<lparr>s_lib = l', s_vty = ?v\<lparr>vt_buf := b\<rparr>\<rparr>"
    using readsD [OF assms, of ?v "[]"] by auto
  then have "config_from_file netmt_table (netmt_run e) (lines_text ls) \<lparr>s_lib = l, s_vty = ?v\<rparr>
      = Cont (CMD_SUCCESS, \<lparr>s_lib = l', s_vty = ?v\<lparr>vt_buf := b\<rparr>\<rparr>)"
    by (simp add: config_from_file.simps [of _ _ "[]"])
  then show ?thesis by (simp add: vty_read_file_def closed_lib)
qed

section \<open>The round trip\<close>


text \<open>An example: a host with settings of every kind is saved and restored.\<close>

definition ex_settings :: host where
  "ex_settings = \<lparr>h_name = Some ''r1'', h_password = Some ''pw'', h_password_encrypt = None, h_enable = None,
     h_enable_encrypt = Some ''Xy.z'', h_lines = 24, h_logfile = Some ''log'', h_log_stdout = False, h_log_syslog = True,
     h_config = Some ''/c'', h_advanced = True, h_encrypt = False, h_motd = None\<rparr>"

definition ex_zlog :: zlog where
  "ex_zlog = \<lparr>z_facility = ''local3'', z_maskpri = 4, z_record_priority = True, z_stdout = False, z_syslog = True,
     z_file = Some ''/log''\<rparr>"

definition ex_fs :: fsys where
  "ex_fs = (l_fs ex_start)\<lparr>fs_mkstemp := \<lambda>t. if t = ''/c.XXXXXX'' then Some ''/c.a1b2c3'' else None\<rparr>"

definition ex_saver :: "operator session" where
  "ex_saver = \<lparr>s_lib = ex_start\<lparr>l_host := ex_settings, l_zlog := ex_zlog, l_fs := ex_fs\<rparr>, s_vty = vty_new\<rparr>"

lemma config_write_succeeds:
  assumes "h_config (l_host (s_lib s)) = Some cf" "fs_mkstemp (l_fs (s_lib s)) (cf @ ''.XXXXXX'') = Some tmp"
    "distinct [cf, cf @ ''.sav'', tmp]" "fs_files (l_fs (s_lib s)) cf \<noteq> None"
    "fs_may_link (l_fs (s_lib s)) = (\<lambda>f. True)" "fs_may_unlink (l_fs (s_lib s)) = (\<lambda>f. True)"
  shows "\<exists>s'. config_write_file netmt_table s = Cont (CMD_SUCCESS, s')"
proof -
  let ?fs = "put_file tmp (Some (config_text netmt_table (s_lib s))) (l_fs (s_lib s))"
  have "\<exists>fs. replace_config cf (cf @ ''.sav'') tmp ?fs = (None, fs)"
    using assms(3-6) by (auto simp: replace_config_def fs_unlink_def fs_link_def put_file_def Let_def)
  then obtain fs where "replace_config cf (cf @ ''.sav'') tmp ?fs = (None, fs)" ..
  then show ?thesis using assms(1,2) by (simp add: config_write_file_def s_host_def closed_lib cmd_ok_def Let_def)
qed


end
