(* ===== verification/SaveCrash.thy ===== *)
theory SaveCrash
  imports CmdConfig
begin

text \<open>
  Saving the configuration, one system call after the other: the file systems that exist on the way,
  and what a start of the program would find if the process ended at any of them.
\<close>

section \<open>The calls\<close>

text \<open>Each call with the results after which the function goes on.\<close>

definition replace_calls :: "string \<Rightarrow> string \<Rightarrow> string \<Rightarrow> ((fsys \<Rightarrow> sys_result \<times> fsys) \<times> (sys_result \<Rightarrow> bool)) list" where
  "replace_calls cf sav tmp =
     [(fs_unlink sav, \<lambda>r. r \<noteq> Failed), (fs_link cf sav, \<lambda>r. r = Done), (fs_unlink cf, \<lambda>r. r = Done),
      (fs_link tmp cf, \<lambda>r. r = Done), (fs_unlink tmp, \<lambda>r. True)]"

fun call_trace :: "((fsys \<Rightarrow> sys_result \<times> fsys) \<times> (sys_result \<Rightarrow> bool)) list \<Rightarrow> fsys \<Rightarrow> fsys list" where
  "call_trace [] fs = [fs]"
| "call_trace ((c, go) # cs) fs = fs # (let (r, fs1) = c fs in if go r then call_trace cs fs1 else [fs1])"

lemma call_trace_nonempty [simp]: "call_trace cs fs \<noteq> []"
  by (cases cs) auto

lemma replace_config_trace: "snd (replace_config cf sav tmp fs) = last (call_trace (replace_calls cf sav tmp) fs)"
  by (simp add: replace_config_def replace_calls_def Let_def split_def)

text \<open>The file systems on the way: before the temporary file, while it is written, and after each call.\<close>

definition saving_states :: "string \<Rightarrow> string \<Rightarrow> string \<Rightarrow> string \<Rightarrow> fsys \<Rightarrow> fsys set" where
  "saving_states cf sav tmp str fs =
     insert fs (range (\<lambda>part. put_file tmp (Some part) fs)
       \<union> set (call_trace (replace_calls cf sav tmp) (put_file tmp (Some str) fs)))"

text \<open>Each of them has the old file under its own name, or under the name of the backup, or the new one.\<close>

definition recoverable :: "string \<Rightarrow> string \<Rightarrow> string \<Rightarrow> string \<Rightarrow> fsys \<Rightarrow> bool" where
  "recoverable cf sav old str fs \<longleftrightarrow>
     fs_files fs cf = Some old \<or> fs_files fs cf = None \<and> fs_files fs sav = Some old \<or> fs_files fs cf = Some str"

definition same_system :: "fsys \<Rightarrow> fsys \<Rightarrow> bool" where
  "same_system fs fs1 \<longleftrightarrow> fs_may_open fs1 = fs_may_open fs \<and> fs_may_link fs1 = fs_may_link fs"

lemma call_states:
  assumes "distinct [cf, sav, tmp]" "fs_files fs cf = Some old" "fs_files fs tmp = Some str"
    "fs1 \<in> set (call_trace (replace_calls cf sav tmp) fs)"
  shows "recoverable cf sav old str fs1 \<and> same_system fs fs1"
proof -
  define a1 where "a1 = fs_unlink sav fs"
  define a2 where "a2 = fs_link cf sav (snd a1)"
  define a3 where "a3 = fs_unlink cf (snd a2)"
  define a4 where "a4 = fs_link tmp cf (snd a3)"
  define a5 where "a5 = fs_unlink tmp (snd a4)"
  have 1: "fs_files (snd a1) cf = Some old" "fs_files (snd a1) tmp = Some str" "same_system fs (snd a1)"
    using assms(1-3) by (auto simp: a1_def fs_unlink_def put_file_def same_system_def)
  have 2: "fs_files (snd a2) cf = Some old" "fs_files (snd a2) tmp = Some str" "same_system fs (snd a2)"
    "fst a2 = Done \<longrightarrow> fs_files (snd a2) sav = Some old"
    using assms(1) 1 by (auto simp: a2_def fs_link_def put_file_def same_system_def)
  have 3: "recoverable cf sav old str (snd a3)" "same_system fs (snd a3)" "fs_files (snd a3) tmp = Some str"
    "fst a2 = Done \<and> fst a3 = Done \<longrightarrow> fs_files (snd a3) cf = None \<and> fs_files (snd a3) sav = Some old"
    if "fst a2 = Done" using assms(1) 2 that by (auto simp: a3_def fs_unlink_def put_file_def same_system_def recoverable_def)
  have 4: "recoverable cf sav old str (snd a4)" "same_system fs (snd a4)" "fst a4 = Done \<longrightarrow> fs_files (snd a4) cf = Some str"
    if "fst a2 = Done" "fst a3 = Done"
    using assms(1) 3 that by (auto simp: a4_def fs_link_def put_file_def same_system_def recoverable_def)
  have 5: "recoverable cf sav old str (snd a5)" "same_system fs (snd a5)" if "fst a2 = Done" "fst a3 = Done" "fst a4 = Done"
    using assms(1) 4 that by (auto simp: a5_def fs_unlink_def put_file_def same_system_def recoverable_def)
  have 0: "recoverable cf sav old str fs" "same_system fs fs" using assms(2) by (simp_all add: recoverable_def same_system_def)
  have "fs1 \<in> {fs, snd a1, snd a2} \<or> fst a2 = Done \<and> fs1 = snd a3 \<or> fst a2 = Done \<and> fst a3 = Done \<and> fs1 = snd a4
      \<or> fst a2 = Done \<and> fst a3 = Done \<and> fst a4 = Done \<and> fs1 = snd a5"
    using assms(4) unfolding replace_calls_def a1_def a2_def a3_def a4_def a5_def
    by (auto simp: split_def Let_def split: if_splits)
  moreover have "recoverable cf sav old str (snd a1)" "recoverable cf sav old str (snd a2)"
    using 1 2 by (simp_all add: recoverable_def)
  ultimately show ?thesis using 0 1 2 3 4 5 by blast
qed

lemma saving_recoverable:
  assumes "distinct [cf, sav, tmp]" "fs_files fs cf = Some old" "fs1 \<in> saving_states cf sav tmp str fs"
  shows "recoverable cf sav old str fs1 \<and> same_system fs fs1"
proof -
  let ?w = "put_file tmp (Some str) fs"
  have w: "fs_files ?w cf = Some old" "fs_files ?w tmp = Some str" "same_system fs ?w"
    using assms(1,2) by (simp_all add: put_file_def same_system_def)
  consider "fs1 = fs" | part where "fs1 = put_file tmp (Some part) fs" | "fs1 \<in> set (call_trace (replace_calls cf sav tmp) ?w)"
    using assms(3) by (auto simp: saving_states_def)
  then show ?thesis
  proof cases
    case 3
    then show ?thesis using call_states [OF assms(1) w(1,2)] w(3) by (auto simp: same_system_def)
  qed (use assms(1,2) in \<open>auto simp: recoverable_def same_system_def put_file_def\<close>)
qed

section \<open>The next start\<close>


text \<open>An example: the third call fails, and the process is gone.\<close>

definition ex_files :: fsys where
  "ex_files = \<lparr>fs_files = [''c'' \<mapsto> ''old'', ''c.sav'' \<mapsto> ''older''], fs_mkstemp = (\<lambda>t. None), fs_may_open = (\<lambda>f. True),
     fs_may_link = (\<lambda>f. True), fs_may_unlink = (\<lambda>f. True), fs_time = [], fs_first = 8\<rparr>"


end
