(* ===== verification/Scheduler.thy ===== *)
theory Scheduler
  imports Prelude
begin

text \<open>
  The scheduler of \<open>thread.c\<close>, whose loop runs the terminal library: six doubly linked lists of
  threads (pending calls), the descriptor sets, and \<open>thread_fetch\<close>, which chooses the next call. A
  thread is a record at an address; addresses are numbered in the order of allocation, and a thread is
  never freed, only moved to the list of unused ones.
  A function whose result is \<open>None\<close> does not return: an assertion fails, or a loop never ends.
\<close>

section \<open>Times\<close>

record timeval =
  tv_sec :: int
  tv_usec :: int

definition TIMER_SECOND_MICRO :: int where "TIMER_SECOND_MICRO = 1000000"

function carry_usec :: "timeval \<Rightarrow> timeval" where
  "carry_usec a = (if tv_usec a \<ge> TIMER_SECOND_MICRO
     then carry_usec \<lparr>tv_sec = tv_sec a + 1, tv_usec = tv_usec a - TIMER_SECOND_MICRO\<rparr> else a)"
  by pat_completeness auto
termination by (relation "measure (\<lambda>a. nat (tv_usec a))") (auto simp: TIMER_SECOND_MICRO_def)

function borrow_usec :: "timeval \<Rightarrow> timeval" where
  "borrow_usec a = (if tv_usec a < 0
     then borrow_usec \<lparr>tv_sec = tv_sec a - 1, tv_usec = tv_usec a + TIMER_SECOND_MICRO\<rparr> else a)"
  by pat_completeness auto
termination by (relation "measure (\<lambda>a. nat (- tv_usec a))") (auto simp: TIMER_SECOND_MICRO_def)

declare carry_usec.simps [simp del] borrow_usec.simps [simp del]

definition timeval_adjust :: "timeval \<Rightarrow> timeval" where
  "timeval_adjust a =
     (let b = borrow_usec (carry_usec a);
          c = (if tv_sec b < 0 then \<lparr>tv_sec = 0, tv_usec = 10\<rparr> else b)
      in if tv_sec c > TIMER_SECOND_MICRO then c\<lparr>tv_sec := TIMER_SECOND_MICRO\<rparr> else c)"

definition timeval_subtract :: "timeval \<Rightarrow> timeval \<Rightarrow> timeval" where
  "timeval_subtract a b = timeval_adjust \<lparr>tv_sec = tv_sec a - tv_sec b, tv_usec = tv_usec a - tv_usec b\<rparr>"

text \<open>The difference is a \<open>long\<close>, the result an \<open>int\<close>.\<close>

definition timeval_cmp :: "timeval \<Rightarrow> timeval \<Rightarrow> int" where
  "timeval_cmp a b = sint (word_of_int
     (if tv_sec a = tv_sec b then tv_usec a - tv_usec b else tv_sec a - tv_sec b) :: 32 word)"

section \<open>Threads and their lists\<close>

datatype thread_type = THREAD_READ | THREAD_WRITE | THREAD_TIMER | THREAD_EVENT | THREAD_READY | THREAD_UNUSED

datatype thread_u = Val (u_val: int) | Fd (u_fd: nat) | Sands (u_sands: timeval)

type_synonym addr = nat

record ('f, 'a) thread =
  t_type :: thread_type
  t_next :: "addr option"
  t_prev :: "addr option"
  t_func :: 'f
  t_arg :: 'a
  t_u :: thread_u

record thread_list =
  tl_head :: "addr option"
  tl_tail :: "addr option"
  tl_count :: int

type_synonym ('f, 'a) heap = "addr \<Rightarrow> ('f, 'a) thread"

text \<open>The lists of the master are indexed by the type of the threads that they hold.\<close>

record ('f, 'a) master =
  m_list :: "thread_type \<Rightarrow> thread_list"
  m_thread :: "('f, 'a) heap"
  m_readfd :: "nat set"
  m_writefd :: "nat set"
  m_alloc :: nat

definition set_next :: "addr \<Rightarrow> addr option \<Rightarrow> ('f, 'a) heap \<Rightarrow> ('f, 'a) heap" where
  "set_next t x h = h(t := (h t)\<lparr>t_next := x\<rparr>)"

definition set_prev :: "addr \<Rightarrow> addr option \<Rightarrow> ('f, 'a) heap \<Rightarrow> ('f, 'a) heap" where
  "set_prev t x h = h(t := (h t)\<lparr>t_prev := x\<rparr>)"

definition thread_list_add :: "addr \<Rightarrow> ('f, 'a) heap \<times> thread_list \<Rightarrow> ('f, 'a) heap \<times> thread_list" where
  "thread_list_add t = (\<lambda>(h, l).
     let h1 = set_prev t (tl_tail l) (set_next t None h);
         (h2, l2) = (case tl_tail l of
            Some z \<Rightarrow> (set_next z (Some t) h1, l)
          | None \<Rightarrow> (h1, l\<lparr>tl_head := Some t\<rparr>))
     in (h2, l2\<lparr>tl_tail := Some t, tl_count := tl_count l2 + 1\<rparr>))"

definition thread_list_add_before :: "addr \<Rightarrow> addr \<Rightarrow> ('f, 'a) heap \<times> thread_list \<Rightarrow> ('f, 'a) heap \<times> thread_list" where
  "thread_list_add_before point t = (\<lambda>(h, l).
     let h1 = set_prev t (t_prev (h point)) (set_next t (Some point) h);
         (h2, l2) = (case t_prev (h1 point) of
            Some p \<Rightarrow> (set_next p (Some t) h1, l)
          | None \<Rightarrow> (h1, l\<lparr>tl_head := Some t\<rparr>))
     in (set_prev point (Some t) h2, l2\<lparr>tl_count := tl_count l2 + 1\<rparr>))"

definition thread_list_delete :: "addr \<Rightarrow> ('f, 'a) heap \<times> thread_list \<Rightarrow> ('f, 'a) heap \<times> thread_list" where
  "thread_list_delete t = (\<lambda>(h, l).
     let (h1, l1) = (case t_next (h t) of
            Some n \<Rightarrow> (set_prev n (t_prev (h t)) h, l)
          | None \<Rightarrow> (h, l\<lparr>tl_tail := t_prev (h t)\<rparr>));
         (h2, l2) = (case t_prev (h1 t) of
            Some p \<Rightarrow> (set_next p (t_next (h1 t)) h1, l1)
          | None \<Rightarrow> (h1, l1\<lparr>tl_head := t_next (h1 t)\<rparr>))
     in (set_next t None (set_prev t None h2), l2\<lparr>tl_count := tl_count l2 - 1\<rparr>))"

section \<open>The scheduler\<close>

definition thread_master_create :: "('f, 'a) heap \<Rightarrow> ('f, 'a) master" where
  "thread_master_create h =
     \<lparr>m_list = (\<lambda>k. \<lparr>tl_head = None, tl_tail = None, tl_count = 0\<rparr>), m_thread = h, m_readfd = {}, m_writefd = {}, m_alloc = 0\<rparr>"

definition on_list ::
  "thread_type \<Rightarrow> (('f, 'a) heap \<times> thread_list \<Rightarrow> ('f, 'a) heap \<times> thread_list) \<Rightarrow> ('f, 'a) master \<Rightarrow> ('f, 'a) master" where
  "on_list k f m =
     (let (h, l) = f (m_thread m, m_list m k) in m\<lparr>m_thread := h, m_list := (m_list m)(k := l)\<rparr>)"

definition on_thread :: "addr \<Rightarrow> (('f, 'a) thread \<Rightarrow> ('f, 'a) thread) \<Rightarrow> ('f, 'a) master \<Rightarrow> ('f, 'a) master" where
  "on_thread t f m = m\<lparr>m_thread := (m_thread m)(t := f (m_thread m t))\<rparr>"

definition thread_add_unuse :: "addr \<Rightarrow> ('f, 'a) master \<Rightarrow> ('f, 'a) master option" where
  "thread_add_unuse t m =
     (if t_next (m_thread m t) \<noteq> None \<or> t_prev (m_thread m t) \<noteq> None \<or> t_type (m_thread m t) \<noteq> THREAD_UNUSED then None
      else Some (on_list THREAD_UNUSED (thread_list_add t) m))"

definition thread_trim_head :: "thread_type \<Rightarrow> ('f, 'a) master \<Rightarrow> addr option \<times> ('f, 'a) master" where
  "thread_trim_head k m =
     (case tl_head (m_list m k) of
        None \<Rightarrow> (None, m)
      | Some t \<Rightarrow> (Some t, on_list k (thread_list_delete t) m))"

definition thread_get :: "thread_type \<Rightarrow> 'f \<Rightarrow> 'a \<Rightarrow> ('f, 'a) master \<Rightarrow> addr \<times> ('f, 'a) master" where
  "thread_get ty f a m =
     (let (t, m1) = (case thread_trim_head THREAD_UNUSED m of
            (Some t, m1) \<Rightarrow> (t, m1)
          | (None, m1) \<Rightarrow> (m_alloc m1, on_thread (m_alloc m1) (\<lambda>x. x\<lparr>t_next := None, t_prev := None\<rparr>) (m1\<lparr>m_alloc := m_alloc m1 + 1\<rparr>)))
      in (t, on_thread t (\<lambda>x. x\<lparr>t_type := ty, t_func := f, t_arg := a\<rparr>) m1))"

definition thread_add_read :: "'f \<Rightarrow> 'a \<Rightarrow> nat \<Rightarrow> ('f, 'a) master \<Rightarrow> addr option \<times> ('f, 'a) master" where
  "thread_add_read f a fd m =
     (if fd \<in> m_readfd m then (None, m)
      else let (t, m1) = thread_get THREAD_READ f a m;
               m2 = on_thread t (\<lambda>x. x\<lparr>t_u := Fd fd\<rparr>) (m1\<lparr>m_readfd := insert fd (m_readfd m1)\<rparr>)
           in (Some t, on_list THREAD_READ (thread_list_add t) m2))"

definition thread_add_write :: "'f \<Rightarrow> 'a \<Rightarrow> nat \<Rightarrow> ('f, 'a) master \<Rightarrow> addr option \<times> ('f, 'a) master" where
  "thread_add_write f a fd m =
     (if fd \<in> m_writefd m then (None, m)
      else let (t, m1) = thread_get THREAD_WRITE f a m;
               m2 = on_thread t (\<lambda>x. x\<lparr>t_u := Fd fd\<rparr>) (m1\<lparr>m_writefd := insert fd (m_writefd m1)\<rparr>)
           in (Some t, on_list THREAD_WRITE (thread_list_add t) m2))"

text \<open>The first timer that is not earlier.\<close>

partial_function (option) timer_point :: "('f, 'a) heap \<Rightarrow> timeval \<Rightarrow> addr option \<Rightarrow> addr option option" where
  "timer_point h x p =
     (case p of
        None \<Rightarrow> Some None
      | Some t \<Rightarrow> if timeval_cmp x (u_sands (t_u (h t))) \<le> 0 then Some (Some t) else timer_point h x (t_next (h t)))"

definition thread_add_timer :: "timeval \<Rightarrow> 'f \<Rightarrow> 'a \<Rightarrow> int \<Rightarrow> ('f, 'a) master \<Rightarrow> (addr \<times> ('f, 'a) master) option" where
  "thread_add_timer now f a timer m =
     (let (t, m1) = thread_get THREAD_TIMER f a m;
          x = now\<lparr>tv_sec := tv_sec now + timer\<rparr>;
          m2 = on_thread t (\<lambda>y. y\<lparr>t_u := Sands x\<rparr>) m1
      in map_option (\<lambda>p. (t, on_list THREAD_TIMER (case p of
             Some tt \<Rightarrow> thread_list_add_before tt t
           | None \<Rightarrow> thread_list_add t) m2))
         (timer_point (m_thread m2) x (tl_head (m_list m2 THREAD_TIMER))))"

definition thread_add_event :: "'f \<Rightarrow> 'a \<Rightarrow> int \<Rightarrow> ('f, 'a) master \<Rightarrow> addr \<times> ('f, 'a) master" where
  "thread_add_event f a v m =
     (let (t, m1) = thread_get THREAD_EVENT f a m
      in (t, on_list THREAD_EVENT (thread_list_add t) (on_thread t (\<lambda>x. x\<lparr>t_u := Val v\<rparr>) m1)))"

definition unuse :: "addr \<Rightarrow> ('f, 'a) master \<Rightarrow> ('f, 'a) master option" where
  "unuse t m = thread_add_unuse t (on_thread t (\<lambda>x. x\<lparr>t_type := THREAD_UNUSED\<rparr>) m)"

definition thread_cancel :: "addr \<Rightarrow> ('f, 'a) master \<Rightarrow> ('f, 'a) master option" where
  "thread_cancel t m =
     (let x = m_thread m t; delete = (\<lambda>k. on_list k (thread_list_delete t)) in
      Option.bind
        (case t_type x of
           THREAD_READ \<Rightarrow> if u_fd (t_u x) \<notin> m_readfd m then None
             else Some (delete THREAD_READ (m\<lparr>m_readfd := m_readfd m - {u_fd (t_u x)}\<rparr>))
         | THREAD_WRITE \<Rightarrow> if u_fd (t_u x) \<notin> m_writefd m then None
             else Some (delete THREAD_WRITE (m\<lparr>m_writefd := m_writefd m - {u_fd (t_u x)}\<rparr>))
         | THREAD_TIMER \<Rightarrow> Some (delete THREAD_TIMER m)
         | THREAD_EVENT \<Rightarrow> Some (delete THREAD_EVENT m)
         | THREAD_READY \<Rightarrow> Some (delete THREAD_READY m)
         | THREAD_UNUSED \<Rightarrow> Some m)
        (unuse t))"

partial_function (option) cancel_event_loop :: "'a \<Rightarrow> addr option \<Rightarrow> ('f, 'a) master \<Rightarrow> ('f, 'a) master option" where
  "cancel_event_loop a p m =
     (case p of
        None \<Rightarrow> Some m
      | Some t \<Rightarrow>
        (let n = t_next (m_thread m t) in
         if t_arg (m_thread m t) = a
         then Option.bind (unuse t (on_list THREAD_EVENT (thread_list_delete t) m)) (cancel_event_loop a n)
         else cancel_event_loop a n m))"

definition thread_cancel_event :: "'a \<Rightarrow> ('f, 'a) master \<Rightarrow> ('f, 'a) master option" where
  "thread_cancel_event a m = cancel_event_loop a (tl_head (m_list m THREAD_EVENT)) m"

definition thread_timer_wait :: "timeval \<Rightarrow> ('f, 'a) master \<Rightarrow> timeval option" where
  "thread_timer_wait now m =
     (case tl_head (m_list m THREAD_TIMER) of
        None \<Rightarrow> None
      | Some t \<Rightarrow>
        (let d = timeval_subtract (u_sands (t_u (m_thread m t))) now
         in Some (if tv_sec d < 0 then \<lparr>tv_sec = 0, tv_usec = 10\<rparr> else d)))"

text \<open>The thread is copied and put away before it is called.\<close>

definition thread_run :: "addr \<Rightarrow> ('f, 'a) master \<Rightarrow> (('f, 'a) thread \<times> ('f, 'a) master) option" where
  "thread_run t m = map_option (\<lambda>m1. (m_thread m t, m1)) (unuse t m)"

definition fds_of :: "thread_type \<Rightarrow> ('f, 'a) master \<Rightarrow> nat set" where
  "fds_of k m = (if k = THREAD_READ then m_readfd m else m_writefd m)"

definition clear_fd :: "thread_type \<Rightarrow> nat \<Rightarrow> ('f, 'a) master \<Rightarrow> ('f, 'a) master" where
  "clear_fd k fd m = (if k = THREAD_READ then m\<lparr>m_readfd := m_readfd m - {fd}\<rparr> else m\<lparr>m_writefd := m_writefd m - {fd}\<rparr>)"

partial_function (option) process_fd_loop ::
  "thread_type \<Rightarrow> nat set \<Rightarrow> addr option \<Rightarrow> ('f, 'a) master \<Rightarrow> ('f, 'a) master option" where
  "process_fd_loop k fdset p m =
     (case p of
        None \<Rightarrow> Some m
      | Some t \<Rightarrow>
        (let n = t_next (m_thread m t); fd = u_fd (t_u (m_thread m t)) in
         if fd \<in> fdset
         then if fd \<notin> fds_of k m then None
              else process_fd_loop k fdset n (on_thread t (\<lambda>x. x\<lparr>t_type := THREAD_READY\<rparr>)
                (on_list THREAD_READY (thread_list_add t) (on_list k (thread_list_delete t) (clear_fd k fd m))))
         else process_fd_loop k fdset n m))"

definition thread_process_fd :: "thread_type \<Rightarrow> nat set \<Rightarrow> ('f, 'a) master \<Rightarrow> ('f, 'a) master option" where
  "thread_process_fd k fdset m = process_fd_loop k fdset (tl_head (m_list m k)) m"

text \<open>The first timer whose time has come.\<close>

partial_function (option) expired_timer :: "('f, 'a) heap \<Rightarrow> timeval \<Rightarrow> addr option \<Rightarrow> addr option option" where
  "expired_timer h now p =
     (case p of
        None \<Rightarrow> Some None
      | Some t \<Rightarrow> if timeval_cmp now (u_sands (t_u (h t))) \<ge> 0 then Some (Some t) else expired_timer h now (t_next (h t)))"

text \<open>What the system gives to one round of the loop: the two times that are read, and what \<open>select\<close>
  answers. A list of rounds is as long as the loop is observed.\<close>

datatype select_result = Sel_none | Sel_intr | Sel_error | Sel_fds "nat set" "nat set"

record turn =
  e_now :: timeval
  e_wait :: timeval
  e_select :: "nat set \<Rightarrow> nat set \<Rightarrow> timeval option \<Rightarrow> select_result"

datatype ('f, 'a) fetched = Fetched "('f, 'a) thread" "('f, 'a) master" | No_thread "('f, 'a) master" | Waiting "('f, 'a) master"

definition run_fetched :: "addr \<Rightarrow> ('f, 'a) master \<Rightarrow> ('f, 'a) fetched option" where
  "run_fetched t m = map_option (\<lambda>(x, m1). Fetched x m1) (thread_run t m)"

fun thread_fetch :: "turn list \<Rightarrow> ('f, 'a) master \<Rightarrow> ('f, 'a) fetched option" where
  "thread_fetch [] m = Some (Waiting m)"
| "thread_fetch (e # es) m =
     (case thread_trim_head THREAD_EVENT m of
        (Some t, m1) \<Rightarrow> run_fetched t m1
      | (None, _) \<Rightarrow>
        Option.bind (expired_timer (m_thread m) (e_now e) (tl_head (m_list m THREAD_TIMER))) (\<lambda>x.
          case x of
            Some t \<Rightarrow> run_fetched t (on_list THREAD_TIMER (thread_list_delete t) m)
          | None \<Rightarrow>
            (case thread_trim_head THREAD_READY m of
               (Some t, m1) \<Rightarrow> run_fetched t m1
             | (None, _) \<Rightarrow>
               (case e_select e (m_readfd m) (m_writefd m) (thread_timer_wait (e_wait e) m) of
                  Sel_none \<Rightarrow> thread_fetch es m
                | Sel_intr \<Rightarrow> thread_fetch es m
                | Sel_error \<Rightarrow> Some (No_thread m)
                | Sel_fds r w \<Rightarrow>
                  Option.bind (thread_process_fd THREAD_READ r m) (\<lambda>m1.
                  Option.bind (thread_process_fd THREAD_WRITE w m1) (\<lambda>m2.
                    case thread_trim_head THREAD_READY m2 of
                      (Some t, m3) \<Rightarrow> run_fetched t m3
                    | (None, _) \<Rightarrow> thread_fetch es m2))))))"

end
