(* ===== verification/ThreadLists.thy ===== *)
theory ThreadLists
  imports Scheduler
begin

text \<open>
  The doubly linked lists of the scheduler as lists of addresses: what each list operation does to the
  list that is linked, and that it leaves all other links alone; and the state of the scheduler as six
  plain lists with the threads at their addresses.
\<close>

section \<open>Linked lists as lists of addresses\<close>

fun chain :: "('f, 'a) heap \<Rightarrow> addr option \<Rightarrow> addr list \<Rightarrow> addr option \<Rightarrow> bool" where
  "chain h p [] q \<longleftrightarrow> True"
| "chain h p (a # as) q \<longleftrightarrow> t_prev (h a) = p \<and> t_next (h a) = (case as of [] \<Rightarrow> q | b # _ \<Rightarrow> Some b) \<and> chain h (Some a) as q"

definition first :: "addr list \<Rightarrow> addr option" where
  "first as = (case as of [] \<Rightarrow> None | a # _ \<Rightarrow> Some a)"

definition final :: "addr list \<Rightarrow> addr option" where
  "final as = (if as = [] then None else Some (last as))"

lemma ends [simp]: "first [] = None" "first (a # as) = Some a" "final [] = None" "final (as @ [a]) = Some a"
  "final (a # as) = (if as = [] then Some a else final as)" "(first as = None) = (as = [])" "(final as = None) = (as = [])"
  "first (as @ bs) = (if as = [] then first bs else first as)" "final (as @ bs) = (if bs = [] then final as else final bs)"
  by (auto simp: first_def final_def split: list.splits)

definition dlist :: "('f, 'a) heap \<Rightarrow> thread_list \<Rightarrow> addr list \<Rightarrow> bool" where
  "dlist h l as \<longleftrightarrow> distinct as \<and> chain h None as None \<and> tl_head l = first as \<and> tl_tail l = final as \<and> tl_count l = int (length as)"

lemma chain_append:
  "chain h p (xs @ ys) q \<longleftrightarrow> chain h p xs (if ys = [] then q else first ys) \<and> chain h (if xs = [] then p else final xs) ys q"
  by (induction xs arbitrary: p) (auto simp: first_def final_def split: list.splits)

definition same_links :: "('f, 'a) heap \<Rightarrow> ('f, 'a) heap \<Rightarrow> addr set \<Rightarrow> bool" where
  "same_links h h' A \<longleftrightarrow> (\<forall>a \<in> A. t_next (h' a) = t_next (h a) \<and> t_prev (h' a) = t_prev (h a))"

lemma chain_same: "same_links h h' (set as) \<Longrightarrow> chain h' p as q = chain h p as q"
  by (induction as arbitrary: p) (auto simp: same_links_def)

lemma dlist_same: "same_links h h' (set as) \<Longrightarrow> dlist h' l as = dlist h l as"
  by (simp add: dlist_def chain_same)

lemma set_links [simp]:
  "t_next (set_next a x h b) = (if b = a then x else t_next (h b))" "t_prev (set_next a x h b) = t_prev (h b)"
  "t_prev (set_prev a x h b) = (if b = a then x else t_prev (h b))" "t_next (set_prev a x h b) = t_next (h b)"
  by (simp_all add: set_next_def set_prev_def)

text \<open>Links at both ends of a part.\<close>

lemma chain_prev:
  "xs \<noteq> [] \<Longrightarrow> chain h p xs q \<Longrightarrow> distinct xs \<Longrightarrow> chain (set_prev (hd xs) p' h) p' xs q"
  using chain_same [of h "set_prev (hd xs) p' h" "tl xs"]
  by (cases xs) (auto simp: same_links_def set_prev_def)

lemma chain_next:
  assumes "xs \<noteq> []" "chain h p xs q" "distinct xs"
  shows "chain (set_next (last xs) q' h) p xs q'"
proof (cases xs rule: rev_cases)
  case (snoc us z)
  let ?h = "set_next z q' h"
  have "same_links h ?h (set us)" using assms(3) snoc by (auto simp: same_links_def)
  moreover have "chain h p us (Some z)" "t_prev (h z) = (if us = [] then p else final us)"
    using assms(2) snoc by (auto simp: chain_append)
  ultimately show ?thesis using snoc by (simp add: chain_append chain_same)
qed (use assms in simp)

definition info :: "('f, 'a) thread \<Rightarrow> thread_type \<times> 'f \<times> 'a \<times> thread_u" where
  "info x = (t_type x, t_func x, t_arg x, t_u x)"

lemma set_info [simp]: "info (set_next a x h b) = info (h b)" "info (set_prev a x h b) = info (h b)"
  by (simp_all add: info_def set_next_def set_prev_def)

lemma list_add:
  assumes "dlist h l as" "t \<notin> set as" "thread_list_add t (h, l) = (h', l')"
  shows "dlist h' l' (as @ [t])" "same_links h h' (- insert t (set as))" "\<forall>a. info (h' a) = info (h a)"
proof -
  define h1 where "h1 = set_prev t (final as) (set_next t None h)"
  have tl: "tl_tail l = final as" using assms(1) by (simp add: dlist_def)
  have h': "h' = (if as = [] then h1 else set_next (last as) (Some t) h1)"
    using assms(3) tl by (auto simp: thread_list_add_def h1_def final_def split: if_splits)
  have c1: "chain h1 None as None" "chain h1 p [t] None = (p = final as)" for p
    using assms(1,2) chain_same [of h h1 as] by (auto simp: dlist_def same_links_def h1_def)
  have "chain h' None (as @ [t]) None"
  proof (cases "as = []")
    case False
    then have "chain h' None as (Some t)" using chain_next [of as h1 None None "Some t"] c1 assms(1) h' by (simp add: dlist_def)
    moreover have "chain h' (final as) [t] None"
      using False assms(2) by (auto simp: h' h1_def)
    ultimately show ?thesis using False by (simp add: chain_append)
  qed (use c1 h' in simp)
  moreover have "l' = l\<lparr>tl_head := first (as @ [t]), tl_tail := Some t, tl_count := tl_count l + 1\<rparr>"
    using assms(1,3) tl by (auto simp: thread_list_add_def final_def dlist_def split: if_splits)
  ultimately show "dlist h' l' (as @ [t])" using assms(1,2) by (simp add: dlist_def)
  show "same_links h h' (- insert t (set as))" "\<forall>a. info (h' a) = info (h a)"
    by (auto simp: h' h1_def same_links_def)
qed

lemma list_add_before:
  assumes "dlist h l (xs @ b # ys)" "t \<notin> set (xs @ b # ys)" "thread_list_add_before b t (h, l) = (h', l')"
  shows "dlist h' l' (xs @ t # b # ys)" "same_links h h' (- insert t (set (xs @ b # ys)))" "\<forall>a. info (h' a) = info (h a)"
proof -
  have c: "chain h None xs (Some b)" "chain h (final xs) (b # ys) None" "distinct (xs @ b # ys)"
    using assms(1) by (auto simp: dlist_def chain_append split: if_splits)
  have bp: "t_prev (h b) = final xs" "b \<noteq> t" using c(2) assms(2) by auto
  define h1 where "h1 = set_prev t (final xs) (set_next t (Some b) h)"
  define h2 where "h2 = (if xs = [] then h1 else set_next (last xs) (Some t) h1)"
  have h': "h' = set_prev b (Some t) h2"
    using assms(3) bp by (auto simp: thread_list_add_before_def h1_def h2_def Let_def final_def split: if_splits)
  have s1: "chain h1 None xs (Some b)" using c(1) assms(2) chain_same [of h h1 xs] by (auto simp: same_links_def h1_def)
  have x: "chain h' None xs (Some t)" if "xs \<noteq> []"
  proof -
    have "chain h2 None xs (Some t)" using chain_next [OF that s1, of "Some t"] c(3) that by (simp add: h2_def)
    then show ?thesis using c(3) chain_same [of h2 h' xs] by (auto simp: same_links_def h')
  qed
  have "chain h2 (final xs) (b # ys) None"
  proof -
    have "last xs \<in> set xs" if "xs \<noteq> []" using that by (rule last_in_set)
    moreover have "set xs \<inter> set (b # ys) = {}" using c(3) by auto
    ultimately have "xs \<noteq> [] \<Longrightarrow> last xs \<notin> set (b # ys)" by blast
    then have "same_links h h2 (set (b # ys))" using assms(2) by (auto simp: same_links_def h2_def h1_def)
    then show ?thesis using c(2) chain_same by blast
  qed
  then have "chain h' (Some t) (b # ys) None" using chain_prev [of "b # ys" h2 "final xs" None "Some t"] c(3) by (simp add: h')
  moreover have "t_prev (h' t) = final xs" "t_next (h' t) = Some b" using assms(2) bp(2) last_in_set [of xs] by (auto simp: h' h2_def h1_def simp del: last_in_set)
  ultimately have "chain h' None (xs @ t # b # ys) None" using x by (auto simp: chain_append)
  moreover have "l' = (if xs = [] then l\<lparr>tl_head := Some t\<rparr> else l)\<lparr>tl_count := tl_count l + 1\<rparr>"
    using assms(3) bp by (cases "xs = []") (simp_all add: thread_list_add_before_def Let_def final_def)
  then have "tl_head l' = first (xs @ t # b # ys)" "tl_tail l' = final (xs @ t # b # ys)" "tl_count l' = tl_count l + 1"
    using assms(1) by (cases xs; simp add: dlist_def)+
  ultimately show "dlist h' l' (xs @ t # b # ys)" using assms(1,2) by (auto simp: dlist_def)
  show "same_links h h' (- insert t (set (xs @ b # ys)))" "\<forall>a. info (h' a) = info (h a)"
    by (auto simp: h' h2_def h1_def same_links_def)
qed

lemma list_delete:
  assumes "dlist h l (xs @ t # ys)" "thread_list_delete t (h, l) = (h', l')"
  shows "dlist h' l' (xs @ ys)" "same_links h h' (- set (xs @ t # ys))" "\<forall>a. info (h' a) = info (h a)"
    "t_next (h' t) = None" "t_prev (h' t) = None"
proof -
  have c: "chain h None xs (Some t)" "chain h (Some t) ys None" "distinct (xs @ t # ys)"
    "t_prev (h t) = final xs" "t_next (h t) = first ys"
    using assms(1) by (auto simp: dlist_def chain_append first_def split: if_splits list.splits)
  define h1 where "h1 = (if ys = [] then h else set_prev (hd ys) (final xs) h)"
  define h2 where "h2 = (if xs = [] then h1 else set_next (last xs) (first ys) h1)"
  have h1t: "t_prev (h1 t) = final xs" "t_next (h1 t) = first ys" using c by (auto simp: h1_def)
  have lt: "tl_head l = first (xs @ t # ys)" "tl_tail l = final (xs @ t # ys)" using assms(1) by (simp_all add: dlist_def)
  define l1 where "l1 = (if ys = [] then l\<lparr>tl_tail := final xs\<rparr> else l)"
  have n: "(case t_next (h t) of Some n \<Rightarrow> (set_prev n (t_prev (h t)) h, l) | None \<Rightarrow> (h, l\<lparr>tl_tail := t_prev (h t)\<rparr>)) = (h1, l1)"
    using c(4,5) by (cases ys) (simp_all add: h1_def l1_def)
  define l2 where "l2 = (if xs = [] then l1\<lparr>tl_head := first ys\<rparr> else l1)"
  have p: "(case t_prev (h1 t) of Some p \<Rightarrow> (set_next p (t_next (h1 t)) h1, l1) | None \<Rightarrow> (h1, l1\<lparr>tl_head := t_next (h1 t)\<rparr>)) = (h2, l2)"
    using h1t by (cases xs rule: rev_cases) (simp_all add: h2_def l2_def)
  have "thread_list_delete t (h, l) = (set_next t None (set_prev t None h2), l2\<lparr>tl_count := tl_count l2 - 1\<rparr>)"
    unfolding thread_list_delete_def prod.case n Let_def p ..
  then have eq: "h' = set_next t None (set_prev t None h2)" "l' = l2\<lparr>tl_count := tl_count l2 - 1\<rparr>"
    using assms(2) by simp_all
  have l2: "tl_head l2 = first (xs @ ys)" "tl_tail l2 = final (xs @ ys)" "tl_count l2 = tl_count l"
    using lt by (cases xs; cases ys; simp add: l2_def l1_def)+
  have tx: "t \<notin> set xs" "t \<notin> set ys" "distinct xs" "distinct ys" "set xs \<inter> set ys = {}" using c(3) by auto
  have 1: "chain h' None xs (first ys)"
  proof (cases "xs = []")
    case False
    have "ys \<noteq> [] \<Longrightarrow> hd ys \<notin> set xs" using tx hd_in_set [of ys] by auto
    then have "same_links h h1 (set xs)" by (auto simp: same_links_def h1_def)
    then have "chain h1 None xs (Some t)" using c(1) chain_same by blast
    then have "chain h2 None xs (first ys)" using chain_next [OF False] tx(3) False by (simp add: h2_def)
    then show ?thesis using tx chain_same [of h2 h' xs] by (auto simp: same_links_def eq(1))
  qed simp
  have 2: "chain h' (final xs) ys None"
  proof (cases "ys = []")
    case False
    then have "chain h1 (final xs) ys None" using chain_prev [OF False c(2) tx(4), of "final xs"] by (simp add: h1_def)
    moreover have "last xs \<in> set xs" if "xs \<noteq> []" using that by (rule last_in_set)
    then have "xs \<noteq> [] \<Longrightarrow> last xs \<notin> set ys" using tx(5) by blast
    then have "same_links h1 h' (set ys)" using tx by (auto simp: same_links_def eq(1) h2_def)
    ultimately show ?thesis using chain_same by blast
  qed simp
  have "chain h' None (xs @ ys) None"
    unfolding chain_append using 1 2 by (cases "xs = []"; cases "ys = []") simp_all
  then show "dlist h' l' (xs @ ys)" using assms(1) tx l2 by (simp add: dlist_def eq(2))
  show "same_links h h' (- set (xs @ t # ys))" "\<forall>a. info (h' a) = info (h a)" "t_next (h' t) = None" "t_prev (h' t) = None"
    by (auto simp: eq(1) h2_def h1_def same_links_def)
qed

section \<open>A scheduler of plain lists\<close>

text \<open>What a thread is, without the links; the lists, the threads at their addresses, and how many there are.\<close>

record ('f, 'a) job =
  j_type :: thread_type
  j_func :: 'f
  j_arg :: 'a
  j_u :: thread_u

record ('f, 'a) queues =
  jq :: "thread_type \<Rightarrow> addr list"
  jt :: "addr \<Rightarrow> ('f, 'a) job"
  jn :: nat

definition job_of :: "('f, 'a) thread \<Rightarrow> ('f, 'a) job" where
  "job_of x = \<lparr>j_type = t_type x, j_func = t_func x, j_arg = t_arg x, j_u = t_u x\<rparr>"

definition put :: "thread_type \<Rightarrow> addr \<Rightarrow> ('f, 'a) queues \<Rightarrow> ('f, 'a) queues" where
  "put k t s = s\<lparr>jq := (jq s)(k := jq s k @ [t])\<rparr>"

definition take_out :: "thread_type \<Rightarrow> addr \<Rightarrow> ('f, 'a) queues \<Rightarrow> ('f, 'a) queues" where
  "take_out k t s = s\<lparr>jq := (jq s)(k := remove1 t (jq s k))\<rparr>"

definition set_job :: "addr \<Rightarrow> (('f, 'a) job \<Rightarrow> ('f, 'a) job) \<Rightarrow> ('f, 'a) queues \<Rightarrow> ('f, 'a) queues" where
  "set_job t f s = s\<lparr>jt := (jt s)(t := f (jt s t))\<rparr>"

definition retire :: "addr \<Rightarrow> ('f, 'a) queues \<Rightarrow> ('f, 'a) queues" where
  "retire t s = put THREAD_UNUSED t (set_job t (\<lambda>j. j\<lparr>j_type := THREAD_UNUSED\<rparr>) s)"

definition new_job :: "('f, 'a) job \<Rightarrow> ('f, 'a) queues \<Rightarrow> addr \<times> ('f, 'a) queues" where
  "new_job j s =
     (let (t, s1) = (case jq s THREAD_UNUSED of
            t # _ \<Rightarrow> (t, take_out THREAD_UNUSED t s)
          | [] \<Rightarrow> (jn s, s\<lparr>jn := jn s + 1\<rparr>))
      in (t, set_job t (\<lambda>_. j) s1))"

definition job_fd :: "('f, 'a) queues \<Rightarrow> addr \<Rightarrow> nat" where
  "job_fd s a = u_fd (j_u (jt s a))"

definition job_time :: "('f, 'a) queues \<Rightarrow> addr \<Rightarrow> timeval" where
  "job_time s a = u_sands (j_u (jt s a))"

definition queue_fds :: "('f, 'a) queues \<Rightarrow> thread_type \<Rightarrow> nat set" where
  "queue_fds s k = job_fd s ` set (jq s k)"

text \<open>The lists share no thread.\<close>

definition apart :: "('f, 'a) queues \<Rightarrow> bool" where
  "apart s \<longleftrightarrow> (\<forall>k. distinct (jq s k)) \<and> (\<forall>k k' a. a \<in> set (jq s k) \<and> a \<in> set (jq s k') \<longrightarrow> k = k')
     \<and> (\<forall>k. \<forall>a \<in> set (jq s k). a < jn s)"

lemma apartD:
  assumes "apart s"
  shows "distinct (jq s k)" "a \<in> set (jq s k) \<Longrightarrow> a \<in> set (jq s k') \<Longrightarrow> k = k'" "a \<in> set (jq s k) \<Longrightarrow> a < jn s"
  using assms unfolding apart_def by blast+

lemma apart_upd:
  assumes "apart s" "distinct as" "\<And>a. a \<in> set as \<Longrightarrow> a < jn s \<and> (a \<in> set (jq s k) \<or> (\<forall>k'. a \<notin> set (jq s k')))"
  shows "apart (s\<lparr>jq := (jq s)(k := as)\<rparr>)"
proof -
  have "k1 = k2" if "a \<in> set (((jq s)(k := as)) k1)" "a \<in> set (((jq s)(k := as)) k2)" for k1 k2 a
  proof (cases "k1 = k \<or> k2 = k")
    case True
    then show ?thesis using that assms(3) [of a] apartD(2) [OF assms(1), of a] by (auto split: if_splits)
  qed (use that apartD(2) [OF assms(1)] in auto)
  moreover have "distinct (((jq s)(k := as)) k')" for k' using assms(2) apartD(1) [OF assms(1)] by simp
  moreover have "a < jn s" if "a \<in> set (((jq s)(k := as)) k')" for a k'
    using that assms(3) apartD(3) [OF assms(1)] by (cases "k' = k") auto
  moreover have "jq (s\<lparr>jq := (jq s)(k := as)\<rparr>) = (jq s)(k := as)" "jn (s\<lparr>jq := (jq s)(k := as)\<rparr>) = jn s" by simp_all
  ultimately show ?thesis unfolding apart_def by metis
qed

definition idle :: "addr \<Rightarrow> ('f, 'a) queues \<Rightarrow> bool" where
  "idle t s \<longleftrightarrow> (\<forall>k. t \<notin> set (jq s k)) \<and> t < jn s"

section \<open>The linked lists implement it\<close>

definition links :: "('f, 'a) master \<Rightarrow> ('f, 'a) queues \<Rightarrow> bool" where
  "links m s \<longleftrightarrow> (\<forall>k. dlist (m_thread m) (m_list m k) (jq s k)) \<and> (\<forall>a < jn s. job_of (m_thread m a) = jt s a)
     \<and> m_alloc m = jn s \<and> apart s"

definition free :: "addr \<Rightarrow> ('f, 'a) master \<Rightarrow> bool" where
  "free t m \<longleftrightarrow> t_next (m_thread m t) = None \<and> t_prev (m_thread m t) = None"

lemma info_job: "info x = info y \<Longrightarrow> job_of x = job_of y"
  by (simp add: info_def job_of_def)

lemma on_list_eq:
  assumes "f (m_thread m, m_list m k) = (h, l)"
  shows "on_list k f m = m\<lparr>m_thread := h, m_list := (m_list m)(k := l)\<rparr>"
  using assms by (simp add: on_list_def)

lemma links_change:
  assumes "links m s" "f (m_thread m, m_list m k) = (h, l)" "dlist h l as" "same_links (m_thread m) h (- A)"
    "\<forall>a. info (h a) = info (m_thread m a)" "\<And>k'. k' \<noteq> k \<Longrightarrow> A \<inter> set (jq s k') = {}" "apart (s\<lparr>jq := (jq s)(k := as)\<rparr>)"
  shows "links (on_list k f m) (s\<lparr>jq := (jq s)(k := as)\<rparr>)"
proof -
  have "dlist h (m_list m k') (jq s k')" if "k' \<noteq> k" for k'
  proof -
    have "same_links (m_thread m) h (set (jq s k'))" using assms(4) assms(6) [OF that] by (auto simp: same_links_def)
    then show ?thesis using dlist_same [of "m_thread m" h "jq s k'"] assms(1) by (simp add: links_def)
  qed
  then have "dlist h (((m_list m)(k := l)) k') (((jq s)(k := as)) k')" for k' using assms(3) by simp
  moreover have "job_of (h a) = jt s a" if "a < jn s" for a
  proof -
    have "info (h a) = info (m_thread m a)" using assms(5) by blast
    then have "job_of (h a) = job_of (m_thread m a)" by (rule info_job)
    then show ?thesis using assms(1) that by (simp add: links_def)
  qed
  moreover have "m_alloc m = jn s" using assms(1) by (simp add: links_def)
  ultimately show ?thesis
    using assms(7) unfolding links_def on_list_eq [of f, OF assms(2)] by (simp del: fun_upd_apply)
qed

lemma links_disjoint:
  assumes "links m s" "k' \<noteq> k" "A \<subseteq> insert t (set (jq s k))" "t \<notin> set (jq s k')"
  shows "A \<inter> set (jq s k') = {}"
  using assms unfolding links_def apart_def by blast

lemma links_dlist: "links m s \<Longrightarrow> dlist (m_thread m) (m_list m k) (jq s k)"
  by (simp add: links_def)

lemma on_list_fds [simp]: "m_readfd (on_list k f m) = m_readfd m" "m_writefd (on_list k f m) = m_writefd m"
  "m_alloc (on_list k f m) = m_alloc m"
  by (simp_all add: on_list_def split_def Let_def)

lemma links_add:
  assumes "links m s" "idle t s"
  shows "links (on_list k (thread_list_add t) m) (put k t s)"
proof -
  obtain h l where hl: "thread_list_add t (m_thread m, m_list m k) = (h, l)" by fastforce
  have t: "t \<notin> set (jq s k')" for k' using assms(2) by (simp add: idle_def)
  note la = list_add [OF links_dlist [OF assms(1)] t hl]
  have ap: "apart s" using assms(1) by (simp add: links_def)
  have "apart (put k t s)"
    unfolding put_def using apartD(1,3) [OF ap] assms(2) by (intro apart_upd [OF ap]) (auto simp: idle_def)
  then show ?thesis
    unfolding put_def
    by (intro links_change [where f = "thread_list_add t", OF assms(1) hl la] links_disjoint [OF assms(1) _ _ t]) (auto simp: put_def)
qed

lemma links_add_before:
  assumes "links m s" "idle t s" "jq s k = xs @ b # ys"
  shows "links (on_list k (thread_list_add_before b t) m) (s\<lparr>jq := (jq s)(k := xs @ t # b # ys)\<rparr>)"
proof -
  obtain h l where hl: "thread_list_add_before b t (m_thread m, m_list m k) = (h, l)" by fastforce
  have t: "t \<notin> set (jq s k')" for k' using assms(2) by (simp add: idle_def)
  note la = list_add_before [OF links_dlist [OF assms(1), of k, unfolded assms(3)] t [of k, unfolded assms(3)] hl]
  have ap: "apart s" using assms(1) by (simp add: links_def)
  have "apart (s\<lparr>jq := (jq s)(k := xs @ t # b # ys)\<rparr>)"
  proof (rule apart_upd [OF ap])
    show "distinct (xs @ t # b # ys)" using apartD(1) [OF ap, of k] t [of k] assms(3) by auto
    fix a
    assume "a \<in> set (xs @ t # b # ys)"
    then have "a = t \<or> a \<in> set (jq s k)" using assms(3) by auto
    then show "a < jn s \<and> (a \<in> set (jq s k) \<or> (\<forall>k'. a \<notin> set (jq s k')))"
      using apartD(3) [OF ap] assms(2) by (auto simp: idle_def)
  qed
  then show ?thesis
    using links_disjoint [OF assms(1) _ _ t, of _ k "insert t (set (xs @ b # ys))"] assms(3)
    by (intro links_change [where f = "thread_list_add_before b t", OF assms(1) hl la]) simp_all
qed

lemma links_delete:
  assumes "links m s" "t \<in> set (jq s k)"
  shows "links (on_list k (thread_list_delete t) m) (take_out k t s)" "free t (on_list k (thread_list_delete t) m)"
    "idle t (take_out k t s)"
proof -
  obtain h l where hl: "thread_list_delete t (m_thread m, m_list m k) = (h, l)" by fastforce
  obtain xs ys where xy: "jq s k = xs @ t # ys" using split_list [OF assms(2)] by blast
  have d: "\<And>k. distinct (jq s k)" "\<And>k k' a. a \<in> set (jq s k) \<Longrightarrow> a \<in> set (jq s k') \<Longrightarrow> k = k'" "t < jn s"
      "\<And>a. a \<in> set (xs @ t # ys) \<Longrightarrow> a < jn s"
    using assms(1,2) unfolding xy [symmetric] links_def apart_def by blast+
  note ld = list_delete [OF links_dlist [OF assms(1), of k, unfolded xy] hl]
  have rm: "remove1 t (jq s k) = xs @ ys" using d(1) [of k] by (simp add: xy remove1_append)
  have o: "t \<notin> set (jq s k')" if "k' \<noteq> k" for k' using d(2) assms(2) that by blast
  have "set (xs @ ys) \<subseteq> set (jq s k)" "distinct (xs @ ys)" using d(1) [of k] by (auto simp: xy)
  then have "apart (s\<lparr>jq := (jq s)(k := xs @ ys)\<rparr>)"
    using assms(1) d(4) by (intro apart_upd) (auto simp: links_def xy)
  moreover have "set (xs @ t # ys) \<subseteq> insert t (set (jq s k))" using xy by auto
  ultimately show "links (on_list k (thread_list_delete t) m) (take_out k t s)"
    unfolding take_out_def rm
    by (intro links_change [where f = "thread_list_delete t", OF assms(1) hl ld(1-3)] links_disjoint [OF assms(1) _ _ o])
  show "free t (on_list k (thread_list_delete t) m)" using ld(4,5) by (simp add: free_def on_list_def hl)
  have "t \<notin> set (xs @ ys)" using d(1) [of k] by (simp add: xy)
  then show "idle t (take_out k t s)" using o d(3) rm by (simp add: idle_def take_out_def)
qed

lemma links_thread:
  assumes "links m s" "\<And>x. t_next (f x) = t_next x \<and> t_prev (f x) = t_prev x" "\<And>x. job_of (f x) = g (job_of x)"
  shows "links (on_thread t f m) (set_job t g s)"
proof -
  have "dlist (m_thread (on_thread t f m)) (m_list m k) (jq s k)" for k
  proof -
    have "same_links (m_thread m) (m_thread (on_thread t f m)) (set (jq s k))"
      using assms(2) by (simp add: same_links_def on_thread_def)
    then show ?thesis using dlist_same links_dlist [OF assms(1)] by blast
  qed
  then show ?thesis
    using assms(1,3) by (simp add: links_def on_thread_def set_job_def apart_def)
qed

lemma on_thread_fds [simp]: "m_readfd (on_thread t f m) = m_readfd m" "m_writefd (on_thread t f m) = m_writefd m"
  "m_list (on_thread t f m) = m_list m" "m_alloc (on_thread t f m) = m_alloc m"
  by (simp_all add: on_thread_def)

lemma links_fds [simp]: "links (m\<lparr>m_readfd := R\<rparr>) s = links m s" "links (m\<lparr>m_writefd := R\<rparr>) s = links m s"
  "free t (m\<lparr>m_readfd := R\<rparr>) = free t m" "free t (m\<lparr>m_writefd := R\<rparr>) = free t m"
  by (simp_all add: links_def free_def)

lemma links_trim:
  assumes "links m s"
  shows "jq s k = [] \<Longrightarrow> thread_trim_head k m = (None, m)"
    "jq s k = t # ts \<Longrightarrow> thread_trim_head k m = (Some t, on_list k (thread_list_delete t) m)"
  using links_dlist [OF assms, of k] by (simp_all add: thread_trim_head_def dlist_def)

lemma links_unuse:
  assumes "links m s" "idle t s" "free t m"
  shows "\<exists>m1. unuse t m = Some m1 \<and> links m1 (retire t s) \<and> m_readfd m1 = m_readfd m \<and> m_writefd m1 = m_writefd m"
proof -
  let ?m = "on_thread t (\<lambda>x. x\<lparr>t_type := THREAD_UNUSED\<rparr>) m" and ?s = "set_job t (\<lambda>j. j\<lparr>j_type := THREAD_UNUSED\<rparr>) s"
  have "links ?m ?s" by (rule links_thread [OF assms(1)]) (simp_all add: job_of_def)
  moreover have "idle t ?s" using assms(2) by (simp add: idle_def set_job_def)
  ultimately have "links (on_list THREAD_UNUSED (thread_list_add t) ?m) (retire t s)" using links_add by (simp add: retire_def)
  moreover have "unuse t m = Some (on_list THREAD_UNUSED (thread_list_add t) ?m)"
    using assms(3) by (simp add: unuse_def thread_add_unuse_def free_def on_thread_def)
  ultimately show ?thesis by simp
qed

lemma links_get:
  assumes "links m s" "new_job j s = (t, s1)" "j = \<lparr>j_type = ty, j_func = f, j_arg = a, j_u = u\<rparr>"
  shows "\<exists>m1. thread_get ty f a m = (t, m1) \<and> links (on_thread t (\<lambda>x. x\<lparr>t_u := u\<rparr>) m1) s1 \<and> idle t s1
    \<and> m_readfd m1 = m_readfd m \<and> m_writefd m1 = m_writefd m"
proof -
  let ?f = "\<lambda>x. x\<lparr>t_type := ty, t_func := f, t_arg := a\<rparr>"
  have fin: "links (on_thread t (\<lambda>x. x\<lparr>t_u := u\<rparr>) (on_thread t ?f m0)) (set_job t (\<lambda>_. j) s0) \<and> idle t (set_job t (\<lambda>_. j) s0)"
    if "links m0 s0" "idle t s0" for m0 s0
  proof -
    have "on_thread t (\<lambda>x. x\<lparr>t_u := u\<rparr>) (on_thread t ?f m0) = on_thread t (\<lambda>x. x\<lparr>t_type := ty, t_func := f, t_arg := a, t_u := u\<rparr>) m0"
      by (simp add: on_thread_def)
    moreover have "links (on_thread t (\<lambda>x. x\<lparr>t_type := ty, t_func := f, t_arg := a, t_u := u\<rparr>) m0) (set_job t (\<lambda>_. j) s0)"
      by (rule links_thread [OF that(1)]) (simp_all add: job_of_def assms(3))
    ultimately show ?thesis using that(2) by (simp add: idle_def set_job_def)
  qed
  show ?thesis
  proof (cases "jq s THREAD_UNUSED")
    case Nil
    let ?m = "m\<lparr>m_alloc := m_alloc m + 1\<rparr>" and ?n = "m_alloc m"
    have n: "?n = jn s" using assms(1) by (simp add: links_def)
    have t: "t = ?n" "s1 = set_job t (\<lambda>_. j) (s\<lparr>jn := jn s + 1\<rparr>)" using assms(2) Nil n by (auto simp: new_job_def)
    let ?m1 = "on_thread ?n (\<lambda>x. x\<lparr>t_next := None, t_prev := None\<rparr>) ?m"
    have lt: "\<forall>k. \<forall>a \<in> set (jq s k). a < jn s" using assms(1) by (simp add: links_def apart_def)
    have d: "dlist (m_thread ?m1) (m_list m k) (jq s k)" for k
    proof -
      have "same_links (m_thread m) (m_thread ?m1) (set (jq s k))" using lt n by (auto simp: same_links_def on_thread_def)
      then show ?thesis using dlist_same links_dlist [OF assms(1)] by blast
    qed
    define s0 where "s0 = s\<lparr>jn := jn s + 1, jt := (jt s)(jn s := job_of (m_thread m (jn s)))\<rparr>"
    have "links ?m1 s0"
      using assms(1) d n lt
      by (auto simp: links_def s0_def apart_def on_thread_def job_of_def less_Suc_eq)
    moreover have "idle t s0" using lt t n by (auto simp: idle_def s0_def)
    ultimately have "links (on_thread t (\<lambda>x. x\<lparr>t_u := u\<rparr>) (on_thread t ?f ?m1)) (set_job t (\<lambda>_. j) s0) \<and> idle t (set_job t (\<lambda>_. j) s0)"
      by (rule fin)
    moreover have "set_job t (\<lambda>_. j) s0 = s1" using t n by (simp add: s0_def set_job_def)
    ultimately show ?thesis
      using links_trim(1) [OF assms(1) Nil] t by (simp add: thread_get_def Let_def)
  next
    case (Cons t' ts)
    then have t: "t = t'" "s1 = set_job t (\<lambda>_. j) (take_out THREAD_UNUSED t s)" using assms(2) by (auto simp: new_job_def)
    have "t \<in> set (jq s THREAD_UNUSED)" using Cons t by simp
    note ld = links_delete [OF assms(1) this]
    show ?thesis
      using links_trim(2) [OF assms(1) Cons] fin [OF ld(1,3)] t by (auto simp: thread_get_def Let_def)
  qed
qed

end
