(* ===== verification/ThreadQueues.thy ===== *)
theory ThreadQueues
  imports ThreadLists
begin

text \<open>
  The scheduler on plain lists: its operations, and what they keep: a thread is on one list, its type is
  that of the list, a descriptor has one reader and one writer, the timers are in the order of time.
\<close>

section \<open>The operations on plain lists\<close>

definition usecs :: "timeval \<Rightarrow> int" where
  "usecs x = tv_sec x * TIMER_SECOND_MICRO + tv_usec x"

definition time_ok :: "timeval \<Rightarrow> bool" where
  "time_ok x \<longleftrightarrow> 0 \<le> tv_sec x \<and> tv_sec x < 2 ^ 31 \<and> 0 \<le> tv_usec x \<and> tv_usec x < TIMER_SECOND_MICRO"

lemma small_diff: "- (2 ^ 31) < (d :: int) \<Longrightarrow> d < 2 ^ 31 \<Longrightarrow> sint (word_of_int d :: 32 word) = d"
  by (simp add: signed_take_bit_int_eq_self sint_sbintrunc')

lemma timeval_cmp_usecs:
  assumes "time_ok x" "time_ok y"
  shows "timeval_cmp x y \<le> 0 \<longleftrightarrow> usecs x \<le> usecs y" "timeval_cmp x y \<ge> 0 \<longleftrightarrow> usecs y \<le> usecs x"
proof -
  let ?d = "if tv_sec x = tv_sec y then tv_usec x - tv_usec y else tv_sec x - tv_sec y"
  have "timeval_cmp x y = ?d"
    unfolding timeval_cmp_def by (rule small_diff) (use assms in \<open>auto simp: time_ok_def TIMER_SECOND_MICRO_def\<close>)
  moreover have "(?d \<le> 0) = (usecs x \<le> usecs y)" "(?d \<ge> 0) = (usecs y \<le> usecs x)"
    using assms by (auto simp: time_ok_def usecs_def TIMER_SECOND_MICRO_def)
  ultimately show "timeval_cmp x y \<le> 0 \<longleftrightarrow> usecs x \<le> usecs y" "timeval_cmp x y \<ge> 0 \<longleftrightarrow> usecs y \<le> usecs x" by simp_all
qed

text \<open>A thread goes from one list to the end of another.\<close>

definition move :: "thread_type \<Rightarrow> thread_type \<Rightarrow> addr \<Rightarrow> ('f, 'a) queues \<Rightarrow> ('f, 'a) queues" where
  "move k k' t s = put k' t (set_job t (\<lambda>j. j\<lparr>j_type := k'\<rparr>) (take_out k t s))"

definition add_job :: "('f, 'a) job \<Rightarrow> (addr list \<Rightarrow> addr list \<times> addr list) \<Rightarrow> ('f, 'a) queues \<Rightarrow> addr \<times> ('f, 'a) queues" where
  "add_job j split s =
     (let (t, s1) = new_job j s; (xs, ys) = split (jq s1 (j_type j))
      in (t, s1\<lparr>jq := (jq s1)(j_type j := xs @ t # ys)\<rparr>))"

definition at_end :: "addr list \<Rightarrow> addr list \<times> addr list" where
  "at_end as = (as, [])"

definition by_time :: "('f, 'a) queues \<Rightarrow> timeval \<Rightarrow> addr list \<Rightarrow> addr list \<times> addr list" where
  "by_time s x as = (takeWhile (\<lambda>b. usecs (job_time s b) < usecs x) as, dropWhile (\<lambda>b. usecs (job_time s b) < usecs x) as)"

datatype ('f, 'a) request =
    Read 'f 'a nat | Write 'f 'a nat | Timer timeval 'f 'a int | Event 'f 'a int
  | Cancel addr | Cancel_event 'a | Fetch "turn list"

datatype ('f, 'a) answer = Handle "addr option" | Cancelled | Got "('f, 'a) job" | Nothing | Still

definition q_run :: "thread_type \<Rightarrow> addr \<Rightarrow> ('f, 'a) queues \<Rightarrow> ('f, 'a) answer \<times> ('f, 'a) queues" where
  "q_run k t s = (Got (jt s t), move k THREAD_UNUSED t s)"

definition q_wait :: "timeval \<Rightarrow> ('f, 'a) queues \<Rightarrow> timeval option" where
  "q_wait now s =
     (case jq s THREAD_TIMER of
        [] \<Rightarrow> None
      | t # _ \<Rightarrow> let d = timeval_subtract (job_time s t) now in Some (if tv_sec d < 0 then \<lparr>tv_sec = 0, tv_usec = 10\<rparr> else d))"

definition q_ready :: "thread_type \<Rightarrow> nat set \<Rightarrow> ('f, 'a) queues \<Rightarrow> ('f, 'a) queues" where
  "q_ready k R s = fold (move k THREAD_READY) (filter (\<lambda>t. job_fd s t \<in> R) (jq s k)) s"

fun q_fetch :: "turn list \<Rightarrow> ('f, 'a) queues \<Rightarrow> (('f, 'a) answer \<times> ('f, 'a) queues) option" where
  "q_fetch [] s = Some (Still, s)"
| "q_fetch (e # es) s =
     (case jq s THREAD_EVENT of
        t # _ \<Rightarrow> Some (q_run THREAD_EVENT t s)
      | [] \<Rightarrow>
        (case filter (\<lambda>t. usecs (job_time s t) \<le> usecs (e_now e)) (jq s THREAD_TIMER) of
           t # _ \<Rightarrow> Some (q_run THREAD_TIMER t s)
         | [] \<Rightarrow>
           (case jq s THREAD_READY of
              t # _ \<Rightarrow> Some (q_run THREAD_READY t s)
            | [] \<Rightarrow>
              (case e_select e (queue_fds s THREAD_READ) (queue_fds s THREAD_WRITE) (q_wait (e_wait e) s) of
                 Sel_none \<Rightarrow> q_fetch es s
               | Sel_intr \<Rightarrow> q_fetch es s
               | Sel_error \<Rightarrow> Some (Nothing, s)
               | Sel_fds r w \<Rightarrow>
                 (let s1 = q_ready THREAD_WRITE w (q_ready THREAD_READ r s) in
                  case jq s1 THREAD_READY of
                    t # _ \<Rightarrow> Some (q_run THREAD_READY t s1)
                  | [] \<Rightarrow> q_fetch es s1)))))"

definition pending :: "('f, 'a) queues \<Rightarrow> addr set" where
  "pending s = (\<Union>k \<in> - {THREAD_UNUSED}. set (jq s k))"

text \<open>The list scheduler is defined for handles of pending threads and for times that a 32-bit count of
  seconds can hold.\<close>

fun q_perform :: "('f, 'a) request \<Rightarrow> ('f, 'a) queues \<Rightarrow> (('f, 'a) answer \<times> ('f, 'a) queues) option" where
  "q_perform (Read f a fd) s = Some
     (if fd \<in> queue_fds s THREAD_READ then (Handle None, s)
      else map_prod (Handle \<circ> Some) id (add_job \<lparr>j_type = THREAD_READ, j_func = f, j_arg = a, j_u = Fd fd\<rparr> at_end s))"
| "q_perform (Write f a fd) s = Some
     (if fd \<in> queue_fds s THREAD_WRITE then (Handle None, s)
      else map_prod (Handle \<circ> Some) id (add_job \<lparr>j_type = THREAD_WRITE, j_func = f, j_arg = a, j_u = Fd fd\<rparr> at_end s))"
| "q_perform (Timer now f a timer) s =
     (let x = now\<lparr>tv_sec := tv_sec now + timer\<rparr> in
      if time_ok x
      then Some (map_prod (Handle \<circ> Some) id (add_job \<lparr>j_type = THREAD_TIMER, j_func = f, j_arg = a, j_u = Sands x\<rparr> (by_time s x) s))
      else None)"
| "q_perform (Event f a v) s = Some
     (map_prod (Handle \<circ> Some) id (add_job \<lparr>j_type = THREAD_EVENT, j_func = f, j_arg = a, j_u = Val v\<rparr> at_end s))"
| "q_perform (Cancel t) s =
     (if t \<in> pending s then Some (Cancelled, move (j_type (jt s t)) THREAD_UNUSED t s) else None)"
| "q_perform (Cancel_event a) s = Some
     (Cancelled, fold (move THREAD_EVENT THREAD_UNUSED) (filter (\<lambda>t. j_arg (jt s t) = a) (jq s THREAD_EVENT)) s)"
| "q_perform (Fetch es) s = (if \<forall>e \<in> set es. time_ok (e_now e) then q_fetch es s else None)"

section \<open>Well-formed queues\<close>

definition times_sorted :: "('f, 'a) queues \<Rightarrow> addr list \<Rightarrow> bool" where
  "times_sorted s as \<longleftrightarrow> (\<forall>a \<in> set as. time_ok (job_time s a)) \<and> sorted (map (\<lambda>a. usecs (job_time s a)) as)"

definition jobs_ok :: "('f, 'a) queues \<Rightarrow> bool" where
  "jobs_ok s \<longleftrightarrow> apart s \<and> (\<forall>k. \<forall>a \<in> set (jq s k). j_type (jt s a) = k) \<and> (\<forall>a < jn s. \<exists>k. a \<in> set (jq s k))
     \<and> inj_on (job_fd s) (set (jq s THREAD_READ)) \<and> inj_on (job_fd s) (set (jq s THREAD_WRITE))
     \<and> times_sorted s (jq s THREAD_TIMER)"

lemma set_job_sel [simp]: "jq (set_job t f s) = jq s" "jn (set_job t f s) = jn s"
  by (simp_all add: set_job_def)

lemma move_sel:
  "jq (move k k' t s) = (let q = (jq s)(k := remove1 t (jq s k)) in q(k' := q k' @ [t]))"
  "jn (move k k' t s) = jn s" "jt (move k k' t s) a = (if a = t then (jt s t)\<lparr>j_type := k'\<rparr> else jt s a)"
  by (simp_all add: move_def put_def take_out_def set_job_def Let_def)

lemma move_job [simp]: "job_fd (move k k' t s) = job_fd s" "job_time (move k k' t s) = job_time s"
  "j_arg (jt (move k k' t s) a) = j_arg (jt s a)"
  by (auto simp: job_fd_def job_time_def move_sel fun_eq_iff)

lemma move_queue:
  assumes "k \<noteq> k'"
  shows "jq (move k k' t s) j = (if j = k' then jq s k' @ [t] else if j = k then remove1 t (jq s k) else jq s j)"
  using assms by (simp add: move_sel Let_def)

lemma move_ok:
  assumes "jobs_ok s" "t \<in> set (jq s k)" "k' = THREAD_READY \<or> k' = THREAD_UNUSED" "k \<noteq> k'"
  shows "jobs_ok (move k k' t s)"
proof -
  have ap: "apart s" and ty: "\<And>k a. a \<in> set (jq s k) \<Longrightarrow> j_type (jt s a) = k" and al: "\<And>a. a < jn s \<Longrightarrow> \<exists>k. a \<in> set (jq s k)"
    and inj: "inj_on (job_fd s) (set (jq s THREAD_READ))" "inj_on (job_fd s) (set (jq s THREAD_WRITE))"
    and tm: "times_sorted s (jq s THREAD_TIMER)"
    using assms(1) unfolding jobs_ok_def by blast+
  note q = move_queue [OF assms(4)]
  have d: "distinct (jq s j)" for j by (rule apartD(1) [OF ap])
  have rm: "set (remove1 t (jq s k)) = set (jq s k) - {t}" using d by simp
  have o: "t \<notin> set (jq s j)" if "j \<noteq> k" for j using apartD(2) [OF ap assms(2)] that by blast
  have in_q: "a \<in> set (jq (move k k' t s) j) \<longleftrightarrow> (if a = t then j = k' else a \<in> set (jq s j))" for a j
    using o [of j] assms(4) rm unfolding q by (cases "j = k'"; cases "j = k"; cases "a = t") simp_all
  have "distinct (jq (move k k' t s) j)" for j
    using d o [of k'] assms(4) unfolding q by simp
  moreover have "i = j" if "a \<in> set (jq (move k k' t s) i)" "a \<in> set (jq (move k k' t s) j)" for a i j
    using that apartD(2) [OF ap, of a] unfolding in_q by (cases "a = t") simp_all
  moreover have "a < jn s" if "a \<in> set (jq (move k k' t s) j)" for a j
    using that apartD(3) [OF ap, of a j] apartD(3) [OF ap assms(2)] unfolding in_q by (cases "a = t") simp_all
  ultimately have "apart (move k k' t s)" unfolding apart_def move_sel(2) by blast
  moreover have "j_type (jt (move k k' t s) a) = j" if "a \<in> set (jq (move k k' t s) j)" for a j
    using that ty [of a j] unfolding in_q move_sel(3) by (cases "a = t") simp_all
  moreover have "\<exists>j. a \<in> set (jq (move k k' t s) j)" if "a < jn s" for a
    using al [OF that] unfolding in_q by (cases "a = t") auto
  moreover have "set (jq (move k k' t s) j) \<subseteq> set (jq s j)" if "j \<noteq> k'" for j
    using that by (auto simp: in_q split: if_splits)
  then have "inj_on (job_fd s) (set (jq (move k k' t s) THREAD_READ))" "inj_on (job_fd s) (set (jq (move k k' t s) THREAD_WRITE))"
    using inj inj_on_subset [of "job_fd s"] assms(3) by (metis move_job(1) thread_type.distinct)+
  moreover have "times_sorted (move k k' t s) (jq (move k k' t s) THREAD_TIMER)"
  proof -
    have "jq (move k k' t s) THREAD_TIMER = jq s THREAD_TIMER \<or> jq (move k k' t s) THREAD_TIMER = remove1 t (jq s THREAD_TIMER)"
      using assms(3) unfolding q by auto
    moreover have "times_sorted s (remove1 t (jq s THREAD_TIMER))"
      using tm set_remove1_subset by (fastforce simp: times_sorted_def intro: sorted_map_remove1)
    ultimately show ?thesis using tm by (auto simp: times_sorted_def)
  qed
  ultimately show ?thesis unfolding jobs_ok_def move_sel(2) move_job by blast
qed

lemma new_job_ok:
  assumes "jobs_ok s" "new_job j s = (t, s1)"
  shows "idle t s1" "\<And>k. k \<noteq> THREAD_UNUSED \<Longrightarrow> jq s1 k = jq s k" "apart s1" "jt s1 = (jt s)(t := j)"
    "\<And>a. a < jn s1 \<Longrightarrow> a = t \<or> (\<exists>k. a \<in> set (jq s1 k))" "\<And>k. a \<in> set (jq s1 k) \<Longrightarrow> a \<in> set (jq s k)"
proof -
  have ap: "apart s" and al: "\<And>a. a < jn s \<Longrightarrow> \<exists>k. a \<in> set (jq s k)" using assms(1) unfolding jobs_ok_def by blast+
  have "idle t s1 \<and> (\<forall>k. k \<noteq> THREAD_UNUSED \<longrightarrow> jq s1 k = jq s k) \<and> apart s1 \<and> jt s1 = (jt s)(t := j)
      \<and> (\<forall>a. a < jn s1 \<longrightarrow> a = t \<or> (\<exists>k. a \<in> set (jq s1 k))) \<and> (\<forall>a k. a \<in> set (jq s1 k) \<longrightarrow> a \<in> set (jq s k))"
  proof (cases "jq s THREAD_UNUSED")
    case Nil
    then have "t = jn s" "s1 = set_job t (\<lambda>_. j) (s\<lparr>jn := jn s + 1\<rparr>)" using assms(2) by (auto simp: new_job_def)
    then show ?thesis
      using apartD [OF ap] apartD(3) [OF ap, of "jn s"] al by (auto simp: idle_def apart_def set_job_def less_Suc_eq)
  next
    case (Cons t' ts)
    then have t: "t = t'" "s1 = set_job t (\<lambda>_. j) (take_out THREAD_UNUSED t s)" using assms(2) by (auto simp: new_job_def)
    have q: "jq s1 = (jq s)(THREAD_UNUSED := ts)" "jn s1 = jn s" "jt s1 = (jt s)(t := j)"
      using Cons t by (auto simp: take_out_def set_job_def)
    have d: "distinct (t # ts)" using apartD(1) [OF ap, of THREAD_UNUSED] Cons t by simp
    have o: "t \<notin> set (jq s k)" if "k \<noteq> THREAD_UNUSED" for k using apartD(2) [OF ap, of t k THREAD_UNUSED] that Cons t by auto
    have sub: "a \<in> set (jq s1 k) \<Longrightarrow> a \<in> set (jq s k)" for a k using Cons by (auto simp: q split: if_splits)
    have "apart (s\<lparr>jq := (jq s)(THREAD_UNUSED := ts)\<rparr>)"
      using apartD(3) [OF ap, of _ THREAD_UNUSED] d Cons by (intro apart_upd [OF ap]) auto
    moreover have "apart s1 = apart (s\<lparr>jq := (jq s)(THREAD_UNUSED := ts)\<rparr>)" unfolding apart_def q by simp
    ultimately have "apart s1" by blast
    moreover have "idle t s1" using o d apartD(3) [OF ap, of t THREAD_UNUSED] Cons t(1) unfolding idle_def q by simp
    moreover have "a = t \<or> (\<exists>k. a \<in> set (jq s1 k))" if "a < jn s1" for a
    proof -
      have "a < jn s" using that q(2) by simp
      then obtain k where k: "a \<in> set (jq s k)" using al by blast
      then show ?thesis using Cons t(1) unfolding q(1) by (cases "k = THREAD_UNUSED") (auto intro: exI [of _ k])
    qed
    ultimately show ?thesis using sub by (simp add: q)
  qed
  then show "idle t s1" "\<And>k. k \<noteq> THREAD_UNUSED \<Longrightarrow> jq s1 k = jq s k" "apart s1" "jt s1 = (jt s)(t := j)"
    "\<And>a. a < jn s1 \<Longrightarrow> a = t \<or> (\<exists>k. a \<in> set (jq s1 k))" "\<And>k. a \<in> set (jq s1 k) \<Longrightarrow> a \<in> set (jq s k)"
    by blast+
qed

lemma add_ok:
  assumes "jobs_ok s" "new_job j s = (t, s1)" "j_type j = k" "k \<noteq> THREAD_UNUSED" "jq s k = xs @ ys"
    "k = THREAD_READ \<or> k = THREAD_WRITE \<Longrightarrow> u_fd (j_u j) \<notin> queue_fds s k"
    "k = THREAD_TIMER \<Longrightarrow> time_ok (u_sands (j_u j)) \<and> (\<forall>b \<in> set xs. usecs (job_time s b) \<le> usecs (u_sands (j_u j)))
       \<and> (\<forall>b \<in> set ys. usecs (u_sands (j_u j)) \<le> usecs (job_time s b))"
  shows "jobs_ok (s1\<lparr>jq := (jq s1)(k := xs @ t # ys)\<rparr>)"
proof -
  note n = new_job_ok [OF assms(1,2)]
  define s2 where "s2 = s1\<lparr>jq := (jq s1)(k := xs @ t # ys)\<rparr>"
  have ty: "\<And>k a. a \<in> set (jq s k) \<Longrightarrow> j_type (jt s a) = k"
    and inj: "inj_on (job_fd s) (set (jq s THREAD_READ))" "inj_on (job_fd s) (set (jq s THREAD_WRITE))"
    and tm: "times_sorted s (jq s THREAD_TIMER)"
    using assms(1) unfolding jobs_ok_def by blast+
  have k: "jq s1 k = xs @ ys" using n(2) [OF assms(4)] assms(5) by simp
  have t: "t \<notin> set (jq s1 k')" "t < jn s1" for k' using n(1) by (auto simp: idle_def)
  have ne: "a \<noteq> t" if "a \<in> set (jq s1 k')" for a k' using that t by auto
  have jf: "job_fd s2 a = (if a = t then u_fd (j_u j) else job_fd s a)" "job_time s2 a = (if a = t then u_sands (j_u j) else job_time s a)" for a
    by (simp_all add: job_fd_def job_time_def n(4) s2_def)
  have q: "jq s2 k' = (if k' = k then xs @ t # ys else jq s1 k')" "jn s2 = jn s1" "jt s2 = (jt s)(t := j)" for k' using n(4) by (simp_all add: s2_def)
  have s1: "set (jq s2 k') = (if k' = k then insert t (set (jq s1 k)) else set (jq s1 k'))" for k' unfolding q k by auto
  have "apart s2"
    unfolding s2_def using apartD(1) [OF n(3), of k] apartD(3) [OF n(3), of _ k] t(1) [of k] t k by (intro apart_upd [OF n(3)]) auto
  moreover have "j_type (jt s2 a) = k'" if "a \<in> set (jq s2 k')" for a k'
    using that ty [OF n(6)] ne assms(3) t(1) [of k'] unfolding s1 q(3) by (auto split: if_splits)
  moreover have "\<exists>k'. a \<in> set (jq s2 k')" if "a < jn s2" for a
  proof -
    have "a = t \<or> (\<exists>k'. a \<in> set (jq s1 k'))" using n(5) that q(2) by simp
    then show ?thesis unfolding s1 by auto
  qed
  moreover have "inj_on (job_fd s2) (set (jq s2 k'))" if k': "k' = THREAD_READ \<or> k' = THREAD_WRITE" for k'
  proof -
    have e: "jq s1 k' = jq s k'" using n(2) k' by auto
    have "inj_on (job_fd s) (set (jq s1 k'))" using inj k' e by auto
    then have i: "inj_on (job_fd s2) (set (jq s1 k'))" using ne by (auto simp: inj_on_def jf)
    show ?thesis
    proof (cases "k' = k")
      case True
      then have "u_fd (j_u j) \<notin> job_fd s ` set (jq s1 k)" using assms(6) k' e by (auto simp: queue_fds_def)
      then have "job_fd s2 t \<notin> job_fd s2 ` set (jq s1 k)" using ne [of _ k] by (auto simp: jf)
      then show ?thesis using i True t(1) unfolding s1 by (simp add: inj_on_insert)
    qed (use i in \<open>simp add: s1\<close>)
  qed
  moreover have "times_sorted s2 (jq s2 THREAD_TIMER)"
  proof -
    have e: "jq s1 THREAD_TIMER = jq s THREAD_TIMER" using n(2) by simp
    have m: "map (\<lambda>a. usecs (job_time s2 a)) as = map (\<lambda>a. usecs (job_time s a)) as"
      "(\<forall>a \<in> set as. time_ok (job_time s2 a)) = (\<forall>a \<in> set as. time_ok (job_time s a))" if "t \<notin> set as" for as
      using that by (auto simp: jf)
    show ?thesis
    proof (cases "k = THREAD_TIMER")
      case True
      have x: "t \<notin> set xs" "t \<notin> set ys" using t(1) [of k] k by auto
      have "times_sorted s (xs @ ys)" using tm assms(5) True by simp
      have "map (\<lambda>a. usecs (job_time s2 a)) (xs @ t # ys) = map (\<lambda>a. usecs (job_time s a)) xs
          @ usecs (u_sands (j_u j)) # map (\<lambda>a. usecs (job_time s a)) ys"
        using m(1) [OF x(1)] m(1) [OF x(2)] jf(2) [of t] by simp
      moreover have "\<forall>a \<in> set (xs @ t # ys). time_ok (job_time s2 a)"
        using m(2) [OF x(1)] m(2) [OF x(2)] jf(2) [of t] assms(7) [OF True] \<open>times_sorted s (xs @ ys)\<close>
        by (auto simp: times_sorted_def)
      moreover have "sorted (map (\<lambda>a. usecs (job_time s a)) xs @ usecs (u_sands (j_u j)) # map (\<lambda>a. usecs (job_time s a)) ys)"
        using assms(7) [OF True] \<open>times_sorted s (xs @ ys)\<close> by (simp add: times_sorted_def sorted_append)
      ultimately show ?thesis using True unfolding times_sorted_def q(1) by presburger
    next
      case False
      have "t \<notin> set (jq s THREAD_TIMER)" using t(1) [of THREAD_TIMER] e by simp
      note m = m [OF this]
      have i: "jq s2 THREAD_TIMER = jq s THREAD_TIMER" using False e q(1) by simp
      show ?thesis using tm unfolding times_sorted_def i m .
    qed
  qed
  ultimately show ?thesis unfolding s2_def [symmetric] jobs_ok_def by (intro conjI allI ballI impI) blast+
qed

end
