(* ===== verification/ThreadSim.thy ===== *)
theory ThreadSim
  imports ThreadQueues
begin

text \<open>
  Every function of the scheduler does on the linked lists what the operation of \<open>ThreadQueues\<close> does on
  the plain ones; so after any history of requests both agree.
\<close>

section \<open>The simulation\<close>

fun perform :: "('f, 'a) request \<Rightarrow> ('f, 'a) master \<Rightarrow> (('f, 'a) answer \<times> ('f, 'a) master) option" where
  "perform (Read f a fd) m = Some (map_prod Handle id (thread_add_read f a fd m))"
| "perform (Write f a fd) m = Some (map_prod Handle id (thread_add_write f a fd m))"
| "perform (Timer now f a timer) m = map_option (map_prod (Handle \<circ> Some) id) (thread_add_timer now f a timer m)"
| "perform (Event f a v) m = Some (map_prod (Handle \<circ> Some) id (thread_add_event f a v m))"
| "perform (Cancel t) m = map_option (\<lambda>m1. (Cancelled, m1)) (thread_cancel t m)"
| "perform (Cancel_event a) m = map_option (\<lambda>m1. (Cancelled, m1)) (thread_cancel_event a m)"
| "perform (Fetch es) m = map_option (\<lambda>r. case r of Fetched x m1 \<Rightarrow> (Got (job_of x), m1) | No_thread m1 \<Rightarrow> (Nothing, m1)
     | Waiting m1 \<Rightarrow> (Still, m1)) (thread_fetch es m)"

definition rel :: "('f, 'a) master \<Rightarrow> ('f, 'a) queues \<Rightarrow> bool" where
  "rel m s \<longleftrightarrow> links m s \<and> jobs_ok s \<and> m_readfd m = queue_fds s THREAD_READ \<and> m_writefd m = queue_fds s THREAD_WRITE"

lemma links_job:
  assumes "links m s" "t \<in> set (jq s k)"
  shows "job_of (m_thread m t) = jt s t"
  using assms unfolding links_def apart_def by blast

lemma links_u:
  assumes "links m s" "t \<in> set (jq s k)"
  shows "u_fd (t_u (m_thread m t)) = job_fd s t" "u_sands (t_u (m_thread m t)) = job_time s t"
    "t_type (m_thread m t) = j_type (jt s t)" "t_arg (m_thread m t) = j_arg (jt s t)"
  using arg_cong [OF links_job [OF assms], of j_u] arg_cong [OF links_job [OF assms], of j_type]
    arg_cong [OF links_job [OF assms], of j_arg]
  by (simp_all add: job_of_def job_fd_def job_time_def)

lemma links_next:
  assumes "links m s" "jq s k = xs @ t # as"
  shows "t_next (m_thread m t) = first as"
  using links_dlist [OF assms(1), of k] unfolding assms(2)
  by (auto simp: dlist_def chain_append first_def split: list.splits)

lemma links_head: "links m s \<Longrightarrow> tl_head (m_list m k) = first (jq s k)"
  using links_dlist [of m s k] by (simp add: dlist_def)

lemma jobs_okD:
  assumes "jobs_ok s"
  shows "apart s" "a \<in> set (jq s k) \<Longrightarrow> j_type (jt s a) = k" "inj_on (job_fd s) (set (jq s THREAD_READ))"
    "inj_on (job_fd s) (set (jq s THREAD_WRITE))" "times_sorted s (jq s THREAD_TIMER)" "distinct (jq s k)"
  using assms unfolding jobs_ok_def apart_def by blast+

lemma queue_fds_move:
  assumes "jobs_ok s" "t \<in> set (jq s k)" "k' = THREAD_READY \<or> k' = THREAD_UNUSED" "k \<noteq> k'" "j = THREAD_READ \<or> j = THREAD_WRITE"
  shows "queue_fds (move k k' t s) j = (if j = k then queue_fds s k - {job_fd s t} else queue_fds s j)"
proof -
  have j: "j \<noteq> k'" using assms(3,5) by auto
  have d: "distinct (jq s k)" by (rule jobs_okD(6) [OF assms(1)])
  show ?thesis
  proof (cases "j = k")
    case True
    then have "inj_on (job_fd s) (set (jq s k))" using assms(5) jobs_okD(3,4) [OF assms(1)] by auto
    then have "job_fd s ` (set (jq s k) - {t}) = job_fd s ` set (jq s k) - {job_fd s t}"
      using assms(2) by (auto simp: inj_on_def)
    then show ?thesis using True j d by (simp add: queue_fds_def move_queue [OF assms(4)])
  next
    case False
    then show ?thesis using j by (simp add: queue_fds_def move_queue [OF assms(4)])
  qed
qed

text \<open>Clearing the descriptor belongs to leaving the two lists that have one.\<close>

definition leave :: "thread_type \<Rightarrow> addr \<Rightarrow> ('f, 'a) master \<Rightarrow> ('f, 'a) master" where
  "leave k t m = on_list k (thread_list_delete t)
     (if k = THREAD_READ \<or> k = THREAD_WRITE then clear_fd k (u_fd (t_u (m_thread m t))) m else m)"

lemma clear_fd_sel [simp]: "links (clear_fd k fd m) s = links m s" "m_list (clear_fd k fd m) = m_list m"
  "m_thread (clear_fd k fd m) = m_thread m"
  by (simp_all add: clear_fd_def)

lemma leave_links:
  assumes "rel m s" "t \<in> set (jq s k)"
  shows "links (leave k t m) (take_out k t s)" "free t (leave k t m)" "idle t (take_out k t s)"
proof -
  have "links (if k = THREAD_READ \<or> k = THREAD_WRITE then clear_fd k (u_fd (t_u (m_thread m t))) m else m) s"
    using assms(1) by (simp add: rel_def)
  from links_delete [OF this assms(2)] show "links (leave k t m) (take_out k t s)" "free t (leave k t m)" "idle t (take_out k t s)"
    by (simp_all add: leave_def)
qed

lemma leave_fds:
  assumes "rel m s" "t \<in> set (jq s k)" "k' = THREAD_READY \<or> k' = THREAD_UNUSED" "k \<noteq> k'"
  shows "m_readfd (leave k t m) = queue_fds (move k k' t s) THREAD_READ"
    "m_writefd (leave k t m) = queue_fds (move k k' t s) THREAD_WRITE"
proof -
  have r: "links m s" "jobs_ok s" "m_readfd m = queue_fds s THREAD_READ" "m_writefd m = queue_fds s THREAD_WRITE"
    using assms(1) by (simp_all add: rel_def)
  note q = queue_fds_move [OF r(2) assms(2-4)] links_u(1) [OF r(1) assms(2)]
  show "m_readfd (leave k t m) = queue_fds (move k k' t s) THREAD_READ"
    using q r(3) by (auto simp: leave_def clear_fd_def)
  show "m_writefd (leave k t m) = queue_fds (move k k' t s) THREAD_WRITE"
    using q r(4) by (auto simp: leave_def clear_fd_def)
qed

lemma sim_unuse:
  assumes "rel m s" "t \<in> set (jq s k)" "k \<noteq> THREAD_UNUSED"
  shows "\<exists>m1. unuse t (leave k t m) = Some m1 \<and> rel m1 (move k THREAD_UNUSED t s)"
proof -
  note l = leave_links [OF assms(1,2)]
  obtain m1 where "unuse t (leave k t m) = Some m1" "links m1 (retire t (take_out k t s))"
      "m_readfd m1 = m_readfd (leave k t m)" "m_writefd m1 = m_writefd (leave k t m)"
    using links_unuse [OF l(1,3,2)] by blast
  then show ?thesis
    using leave_fds [OF assms(1,2) _ assms(3)] move_ok [OF _ assms(2) _ assms(3)] assms(1)
    by (simp add: rel_def move_def retire_def)
qed

lemma sim_ready:
  assumes "rel m s" "t \<in> set (jq s k)" "k = THREAD_READ \<or> k = THREAD_WRITE"
  shows "rel (on_thread t (\<lambda>x. x\<lparr>t_type := THREAD_READY\<rparr>) (on_list THREAD_READY (thread_list_add t) (leave k t m)))
    (move k THREAD_READY t s)"
proof -
  have k: "k \<noteq> THREAD_READY" using assms(3) by auto
  note l = leave_links [OF assms(1,2)]
  have "links (on_thread t (\<lambda>x. x\<lparr>t_type := THREAD_READY\<rparr>) (on_list THREAD_READY (thread_list_add t) (leave k t m)))
      (set_job t (\<lambda>j. j\<lparr>j_type := THREAD_READY\<rparr>) (put THREAD_READY t (take_out k t s)))"
    by (rule links_thread [OF links_add [OF l(1,3)]]) (simp_all add: job_of_def)
  moreover have "set_job t (\<lambda>j. j\<lparr>j_type := THREAD_READY\<rparr>) (put THREAD_READY t (take_out k t s)) = move k THREAD_READY t s"
    by (simp add: move_def set_job_def put_def)
  ultimately show ?thesis
    using leave_fds [OF assms(1,2) _ k] move_ok [OF _ assms(2) _ k] assms(1) by (simp add: rel_def)
qed

lemma move_rest:
  assumes "distinct (jq s k)" "jq s k = xs @ t # as" "k \<noteq> k'"
  shows "jq (move k k' t s) k = xs @ as"
  using assms by (simp add: move_queue remove1_append)

lemma sim_process_loop:
  assumes "rel m s" "k = THREAD_READ \<or> k = THREAD_WRITE" "jq s k = xs @ as"
  shows "\<exists>m1. process_fd_loop k R (first as) m = Some m1 \<and> rel m1 (fold (move k THREAD_READY) (filter (\<lambda>t. job_fd s t \<in> R) as) s)"
  using assms
proof (induction as arbitrary: xs m s)
  case Nil
  then show ?case by (simp add: process_fd_loop.simps)
next
  case (Cons t as)
  have t: "t \<in> set (jq s k)" using Cons.prems(3) by simp
  have l: "links m s" "distinct (jq s k)" using Cons.prems(1) jobs_okD(6) by (auto simp: rel_def)
  have k: "k \<noteq> THREAD_READY" using Cons.prems(2) by auto
  note n = links_next [OF l(1) Cons.prems(3)] links_u(1) [OF l(1) t]
  show ?case
  proof (cases "job_fd s t \<in> R")
    case True
    have "job_fd s t \<in> queue_fds s k" using t by (simp add: queue_fds_def)
    then have "job_fd s t \<in> fds_of k m" using Cons.prems(1,2) by (auto simp: fds_of_def rel_def)
    then have "process_fd_loop k R (first (t # as)) m = process_fd_loop k R (first as)
        (on_thread t (\<lambda>x. x\<lparr>t_type := THREAD_READY\<rparr>) (on_list THREAD_READY (thread_list_add t) (leave k t m)))"
      using True n Cons.prems(2) by (subst process_fd_loop.simps) (auto simp: leave_def Let_def)
    moreover note Cons.IH [OF sim_ready [OF Cons.prems(1) t Cons.prems(2)] Cons.prems(2) move_rest [OF l(2) Cons.prems(3) k]]
    ultimately show ?thesis using True by simp
  next
    case False
    then have "process_fd_loop k R (first (t # as)) m = process_fd_loop k R (first as) m"
      using n by (subst process_fd_loop.simps) (simp add: Let_def)
    then show ?thesis using Cons.IH [OF Cons.prems(1,2), of "xs @ [t]"] Cons.prems(3) False by simp
  qed
qed

lemma sim_process:
  assumes "rel m s" "k = THREAD_READ \<or> k = THREAD_WRITE"
  shows "\<exists>m1. thread_process_fd k R m = Some m1 \<and> rel m1 (q_ready k R s)"
  using sim_process_loop [OF assms, of "[]" "jq s k"] links_head [of m s k] assms(1)
  by (simp add: thread_process_fd_def q_ready_def rel_def)

lemma sim_cancel_loop:
  assumes "rel m s" "jq s THREAD_EVENT = xs @ as"
  shows "\<exists>m1. cancel_event_loop a (first as) m = Some m1
    \<and> rel m1 (fold (move THREAD_EVENT THREAD_UNUSED) (filter (\<lambda>t. j_arg (jt s t) = a) as) s)"
  using assms
proof (induction as arbitrary: xs m s)
  case Nil
  then show ?case by (simp add: cancel_event_loop.simps)
next
  case (Cons t as)
  have t: "t \<in> set (jq s THREAD_EVENT)" using Cons.prems(2) by simp
  have l: "links m s" "distinct (jq s THREAD_EVENT)" using Cons.prems(1) jobs_okD(6) by (auto simp: rel_def)
  note n = links_next [OF l(1) Cons.prems(2)] links_u(4) [OF l(1) t]
  show ?case
  proof (cases "j_arg (jt s t) = a")
    case True
    obtain m1 where m1: "unuse t (leave THREAD_EVENT t m) = Some m1" "rel m1 (move THREAD_EVENT THREAD_UNUSED t s)"
      using sim_unuse [OF Cons.prems(1) t] by auto
    then have "cancel_event_loop a (first (t # as)) m = cancel_event_loop a (first as) m1"
      using True n by (subst cancel_event_loop.simps) (simp add: leave_def Let_def)
    moreover note Cons.IH [OF m1(2) move_rest [OF l(2) Cons.prems(2)]]
    ultimately show ?thesis using True by simp
  next
    case False
    then have "cancel_event_loop a (first (t # as)) m = cancel_event_loop a (first as) m"
      using n by (subst cancel_event_loop.simps) (simp add: Let_def)
    then show ?thesis using Cons.IH [OF Cons.prems(1), of "xs @ [t]"] Cons.prems(2) False by simp
  qed
qed

lemma sim_expired:
  assumes "links m s" "jq s THREAD_TIMER = xs @ as" "time_ok now" "\<forall>t \<in> set as. time_ok (job_time s t)"
  shows "expired_timer (m_thread m) now (first as) = Some (first (filter (\<lambda>t. usecs (job_time s t) \<le> usecs now) as))"
  using assms(2,4)
proof (induction as arbitrary: xs)
  case Nil
  then show ?case by (simp add: expired_timer.simps)
next
  case (Cons t as)
  have t: "t \<in> set (jq s THREAD_TIMER)" using Cons.prems(1) by simp
  note n = links_next [OF assms(1) Cons.prems(1)] links_u(2) [OF assms(1) t] timeval_cmp_usecs(2) [OF assms(3), of "job_time s t"]
  show ?case
    using Cons.IH [of "xs @ [t]"] Cons.prems n by (subst expired_timer.simps) simp
qed

lemma sim_point:
  assumes "links m s" "jq s THREAD_TIMER = xs @ as" "time_ok x" "\<forall>t \<in> set as. time_ok (job_time s t)"
  shows "timer_point (m_thread m) x (first as) = Some (first (dropWhile (\<lambda>b. usecs (job_time s b) < usecs x) as))"
  using assms(2,4)
proof (induction as arbitrary: xs)
  case Nil
  then show ?case by (simp add: timer_point.simps)
next
  case (Cons t as)
  have t: "t \<in> set (jq s THREAD_TIMER)" using Cons.prems(1) by simp
  note n = links_next [OF assms(1) Cons.prems(1)] links_u(2) [OF assms(1) t] timeval_cmp_usecs(1) [OF assms(3), of "job_time s t"]
  show ?case
    using Cons.IH [of "xs @ [t]"] Cons.prems n by (subst timer_point.simps) (simp add: not_le)
qed

lemma sim_run:
  assumes "rel m s" "t \<in> set (jq s k)" "k \<noteq> THREAD_UNUSED" "k \<noteq> THREAD_READ" "k \<noteq> THREAD_WRITE"
  shows "\<exists>x m1. run_fetched t (on_list k (thread_list_delete t) m) = Some (Fetched x m1)
    \<and> job_of x = jt s t \<and> rel m1 (move k THREAD_UNUSED t s)"
proof -
  have lv: "leave k t m = on_list k (thread_list_delete t) m" using assms(4,5) by (simp add: leave_def)
  obtain m1 where "unuse t (leave k t m) = Some m1" "rel m1 (move k THREAD_UNUSED t s)"
    using sim_unuse [OF assms(1-3)] by blast
  moreover have "job_of (m_thread (leave k t m) t) = jt s t"
    using leave_links(1,3) [OF assms(1,2)] by (simp add: links_def idle_def take_out_def)
  ultimately show ?thesis by (simp add: run_fetched_def thread_run_def lv)
qed

lemma links_trim':
  assumes "links m s"
  shows "thread_trim_head k m = (case jq s k of [] \<Rightarrow> (None, m) | t # _ \<Rightarrow> (Some t, on_list k (thread_list_delete t) m))"
  using links_trim [OF assms, of k] by (cases "jq s k") simp_all

lemma sim_wait: "links m s \<Longrightarrow> thread_timer_wait now m = q_wait now s"
  using links_head [of m s THREAD_TIMER] links_u(2) [of m s _ THREAD_TIMER]
  by (simp add: thread_timer_wait_def q_wait_def split: list.splits)

lemma sim_fetch:
  assumes "rel m s" "\<forall>e \<in> set es. time_ok (e_now e)" "q_fetch es s = Some (ans, s')"
  shows "\<exists>m'. perform (Fetch es) m = Some (ans, m') \<and> rel m' s'"
  using assms
proof (induction es arbitrary: m s)
  case Nil
  then show ?case by simp
next
  case (Cons e es)
  have l: "links m s" "jobs_ok s" "m_readfd m = queue_fds s THREAD_READ" "m_writefd m = queue_fds s THREAD_WRITE"
    using Cons.prems(1) by (simp_all add: rel_def)
  have run: "\<exists>m'. map_option (\<lambda>r. case r of Fetched x m1 \<Rightarrow> (Got (job_of x), m1) | No_thread m1 \<Rightarrow> (Nothing, m1)
       | Waiting m1 \<Rightarrow> (Still, m1)) (run_fetched t (on_list k (thread_list_delete t) m1)) = Some (ans, m') \<and> rel m' s'"
    if "rel m1 s1" "t \<in> set (jq s1 k)" "k \<in> {THREAD_EVENT, THREAD_TIMER, THREAD_READY}" "q_run k t s1 = (ans, s')" for k t m1 s1
    using sim_run [OF that(1,2)] that(3,4) by (force simp: q_run_def)
  show ?case
  proof (cases "jq s THREAD_EVENT")
    case ev: (Cons t ts)
    then show ?thesis
      using run [OF Cons.prems(1), of t THREAD_EVENT] Cons.prems(3) links_trim' [OF l(1), of THREAD_EVENT] by simp
  next
    case ev: Nil
    have tm: "expired_timer (m_thread m) (e_now e) (tl_head (m_list m THREAD_TIMER))
        = Some (first (filter (\<lambda>t. usecs (job_time s t) \<le> usecs (e_now e)) (jq s THREAD_TIMER)))"
      using sim_expired [OF l(1), of "[]" "jq s THREAD_TIMER" "e_now e"] Cons.prems(2) jobs_okD(5) [OF l(2)]
      by (simp add: links_head [OF l(1)] times_sorted_def)
    show ?thesis
    proof (cases "filter (\<lambda>t. usecs (job_time s t) \<le> usecs (e_now e)) (jq s THREAD_TIMER)")
      case ti: (Cons t ts)
      then have "t \<in> set (filter (\<lambda>t. usecs (job_time s t) \<le> usecs (e_now e)) (jq s THREAD_TIMER))" by simp
      then have "t \<in> set (jq s THREAD_TIMER)" by simp
      then show ?thesis
        using run [OF Cons.prems(1), of t THREAD_TIMER] Cons.prems(3) links_trim' [OF l(1), of THREAD_EVENT] ev ti tm by simp
    next
      case ti: Nil
      show ?thesis
      proof (cases "jq s THREAD_READY")
        case re: (Cons t ts)
        then show ?thesis
          using run [OF Cons.prems(1), of t THREAD_READY] Cons.prems(3) links_trim' [OF l(1)] ev ti tm by simp
      next
        case re: Nil
        have c: "thread_fetch (e # es) m = (case e_select e (queue_fds s THREAD_READ) (queue_fds s THREAD_WRITE) (q_wait (e_wait e) s) of
                  Sel_none \<Rightarrow> thread_fetch es m
                | Sel_intr \<Rightarrow> thread_fetch es m
                | Sel_error \<Rightarrow> Some (No_thread m)
                | Sel_fds r w \<Rightarrow>
                  Option.bind (thread_process_fd THREAD_READ r m) (\<lambda>m1.
                  Option.bind (thread_process_fd THREAD_WRITE w m1) (\<lambda>m2.
                    case thread_trim_head THREAD_READY m2 of
                      (Some t, m3) \<Rightarrow> run_fetched t m3
                    | (None, _) \<Rightarrow> thread_fetch es m2)))"
          using links_trim' [OF l(1)] ev ti tm re sim_wait [OF l(1), of "e_wait e"] l(3,4) by simp
        have q: "q_fetch (e # es) s = (case e_select e (queue_fds s THREAD_READ) (queue_fds s THREAD_WRITE) (q_wait (e_wait e) s) of
                 Sel_none \<Rightarrow> q_fetch es s
               | Sel_intr \<Rightarrow> q_fetch es s
               | Sel_error \<Rightarrow> Some (Nothing, s)
               | Sel_fds r w \<Rightarrow>
                 (let s1 = q_ready THREAD_WRITE w (q_ready THREAD_READ r s) in
                  case jq s1 THREAD_READY of
                    t # _ \<Rightarrow> Some (q_run THREAD_READY t s1)
                  | [] \<Rightarrow> q_fetch es s1))"
          using ev ti re by simp
        show ?thesis
        proof (cases "e_select e (queue_fds s THREAD_READ) (queue_fds s THREAD_WRITE) (q_wait (e_wait e) s)")
          case (Sel_fds r w)
          define s2 where "s2 = q_ready THREAD_WRITE w (q_ready THREAD_READ r s)"
          obtain m1 where m1: "thread_process_fd THREAD_READ r m = Some m1" "rel m1 (q_ready THREAD_READ r s)"
            using sim_process [OF Cons.prems(1)] by blast
          obtain m2 where m2: "thread_process_fd THREAD_WRITE w m1 = Some m2" "rel m2 s2"
            using sim_process [OF m1(2), of THREAD_WRITE w] by (auto simp: s2_def)
          have l2: "links m2 s2" using m2(2) by (simp add: rel_def)
          show ?thesis
          proof (cases "jq s2 THREAD_READY")
            case r2: (Cons t ts)
            have "q_run THREAD_READY t s2 = (ans, s')"
              using Cons.prems(3) r2 by (simp only: q) (simp add: Sel_fds s2_def [symmetric])
            then show ?thesis
              using run [OF m2(2), of t THREAD_READY] links_trim' [OF l2] m1 m2 r2
              by (simp only: perform.simps c) (simp add: Sel_fds)
          next
            case r2: Nil
            then have "q_fetch es s2 = Some (ans, s')" using Cons.prems(3) by (simp only: q) (simp add: Sel_fds s2_def [symmetric])
            then have "\<exists>m'. perform (Fetch es) m2 = Some (ans, m') \<and> rel m' s'" using Cons.IH [OF m2(2)] Cons.prems(2) by simp
            then show ?thesis
              using links_trim' [OF l2] m1 m2 r2 by (simp only: perform.simps c) (simp add: Sel_fds)
          qed
        next
          case Sel_error
          then show ?thesis using Cons.prems(1,3) by (simp only: perform.simps c q) simp
        next
          case Sel_none
          then have "\<exists>m'. perform (Fetch es) m = Some (ans, m') \<and> rel m' s'"
            using Cons.IH [OF Cons.prems(1)] Cons.prems(2,3) by (simp only: q) simp
          then show ?thesis using Sel_none by (simp only: perform.simps c) simp
        next
          case Sel_intr
          then have "\<exists>m'. perform (Fetch es) m = Some (ans, m') \<and> rel m' s'"
            using Cons.IH [OF Cons.prems(1)] Cons.prems(2,3) by (simp only: q) simp
          then show ?thesis using Sel_intr by (simp only: perform.simps c) simp
        qed
      qed
    qed
  qed
qed

text \<open>A new thread in its list.\<close>

lemma sim_new:
  assumes "rel m s" "new_job j s = (t, s1)" "j = \<lparr>j_type = k, j_func = f, j_arg = a, j_u = u\<rparr>" "k \<noteq> THREAD_UNUSED"
  shows "\<exists>m1. thread_get k f a m = (t, m1) \<and> links (on_thread t (\<lambda>x. x\<lparr>t_u := u\<rparr>) m1) s1 \<and> idle t s1
    \<and> m_readfd m1 = queue_fds s THREAD_READ \<and> m_writefd m1 = queue_fds s THREAD_WRITE \<and> jq s1 k = jq s k"
proof -
  have r: "links m s" "jobs_ok s" "m_readfd m = queue_fds s THREAD_READ" "m_writefd m = queue_fds s THREAD_WRITE"
    using assms(1) by (simp_all add: rel_def)
  show ?thesis using links_get [OF r(1) assms(2,3)] new_job_ok(2) [OF r(2) assms(2,4)] r(3,4) by auto
qed

lemma new_fds:
  assumes "jobs_ok s" "new_job j s = (t, s1)" "j_type j = k" "k \<noteq> THREAD_UNUSED" "jq s k = xs @ ys" "i = THREAD_READ \<or> i = THREAD_WRITE"
  shows "queue_fds (s1\<lparr>jq := (jq s1)(k := xs @ t # ys)\<rparr>) i = (if i = k then insert (u_fd (j_u j)) (queue_fds s i) else queue_fds s i)"
proof -
  note n = new_job_ok [OF assms(1,2)]
  have i: "jq s1 i = jq s i" using n(2) assms(6) by auto
  have t: "t \<notin> set (jq s i)" using n(1) i by (metis idle_def)
  have "job_fd (s1\<lparr>jq := (jq s1)(k := xs @ t # ys)\<rparr>) b = (if b = t then u_fd (j_u j) else job_fd s b)" for b
    by (simp add: job_fd_def n(4))
  moreover have "set (xs @ t # ys) = insert t (set (jq s k))" using assms(5) by auto
  ultimately show ?thesis using t i by (auto simp: queue_fds_def image_iff)
qed

lemma sim_add:
  assumes "rel m s" "new_job j s = (t, s1)" "j = \<lparr>j_type = k, j_func = f, j_arg = a, j_u = u\<rparr>" "k \<noteq> THREAD_UNUSED"
    "jq s k = xs @ ys" "links m2 (s1\<lparr>jq := (jq s1)(k := xs @ t # ys)\<rparr>)"
    "k = THREAD_READ \<or> k = THREAD_WRITE \<Longrightarrow> u_fd u \<notin> queue_fds s k"
    "k = THREAD_TIMER \<Longrightarrow> time_ok (u_sands u) \<and> (\<forall>b \<in> set xs. usecs (job_time s b) \<le> usecs (u_sands u))
       \<and> (\<forall>b \<in> set ys. usecs (u_sands u) \<le> usecs (job_time s b))"
    "m_readfd m2 = (if k = THREAD_READ then insert (u_fd u) (queue_fds s THREAD_READ) else queue_fds s THREAD_READ)"
    "m_writefd m2 = (if k = THREAD_WRITE then insert (u_fd u) (queue_fds s THREAD_WRITE) else queue_fds s THREAD_WRITE)"
  shows "rel m2 (s1\<lparr>jq := (jq s1)(k := xs @ t # ys)\<rparr>)"
proof -
  have ok: "jobs_ok s" using assms(1) by (simp add: rel_def)
  have j: "j_type j = k" "j_u j = u" using assms(3) by simp_all
  show ?thesis
    using add_ok [OF ok assms(2) j(1) assms(4,5)] new_fds [OF ok assms(2) j(1) assms(4,5)] assms(6-10) j
    by (simp add: rel_def)
qed

lemma sim_at_end:
  assumes "rel m s" "new_job j s = (t, s1)" "j = \<lparr>j_type = k, j_func = f, j_arg = a, j_u = u\<rparr>" "k \<noteq> THREAD_UNUSED" "k \<noteq> THREAD_TIMER"
    "k = THREAD_READ \<or> k = THREAD_WRITE \<Longrightarrow> u_fd u \<notin> queue_fds s k"
    "links m1 s1" "idle t s1" "jq s1 k = jq s k"
    "m_readfd m1 = (if k = THREAD_READ then insert (u_fd u) (queue_fds s THREAD_READ) else queue_fds s THREAD_READ)"
    "m_writefd m1 = (if k = THREAD_WRITE then insert (u_fd u) (queue_fds s THREAD_WRITE) else queue_fds s THREAD_WRITE)"
  shows "fst (add_job j at_end s) = t \<and> rel (on_list k (thread_list_add t) m1) (snd (add_job j at_end s))"
proof -
  let ?s = "s1\<lparr>jq := (jq s1)(k := jq s k @ t # [])\<rparr>"
  have "links (on_list k (thread_list_add t) m1) ?s" using links_add [OF assms(7,8), of k] assms(9) by (simp add: put_def)
  then have "rel (on_list k (thread_list_add t) m1) ?s"
    by (rule sim_add [OF assms(1,2,3,4), rotated]) (use assms(5,6,10,11) in simp_all)
  then show ?thesis using assms(2,3,9) by (simp add: add_job_def at_end_def)
qed

lemma on_thread_set_fds: "on_thread t g (m\<lparr>m_readfd := R\<rparr>) = (on_thread t g m)\<lparr>m_readfd := R\<rparr>"
  "on_thread t g (m\<lparr>m_writefd := R\<rparr>) = (on_thread t g m)\<lparr>m_writefd := R\<rparr>"
  by (simp_all add: on_thread_def)

lemma sim_read:
  assumes "rel m s" "q_perform (Read f a fd) s = Some (ans, s')"
  shows "\<exists>m'. perform (Read f a fd) m = Some (ans, m') \<and> rel m' s'"
proof (cases "fd \<in> queue_fds s THREAD_READ")
  case False
  let ?j = "\<lparr>j_type = THREAD_READ, j_func = f, j_arg = a, j_u = Fd fd\<rparr>"
  obtain t s1 where n: "new_job ?j s = (t, s1)" by fastforce
  obtain m1 where m1: "thread_get THREAD_READ f a m = (t, m1)" "links (on_thread t (\<lambda>x. x\<lparr>t_u := Fd fd\<rparr>) m1) s1" "idle t s1"
    "m_readfd m1 = queue_fds s THREAD_READ" "m_writefd m1 = queue_fds s THREAD_WRITE" "jq s1 THREAD_READ = jq s THREAD_READ"
    using sim_new [OF assms(1) n refl] by auto
  let ?m = "on_thread t (\<lambda>x. x\<lparr>t_u := Fd fd\<rparr>) (m1\<lparr>m_readfd := insert fd (m_readfd m1)\<rparr>)"
  have "fst (add_job ?j at_end s) = t \<and> rel (on_list THREAD_READ (thread_list_add t) ?m) (snd (add_job ?j at_end s))"
    by (rule sim_at_end [OF assms(1) n refl]) (use False m1 in \<open>simp_all add: on_thread_set_fds\<close>)
  moreover have "perform (Read f a fd) m = Some (Handle (Some t), on_list THREAD_READ (thread_list_add t) ?m)"
    using False assms(1) m1(1) by (simp add: thread_add_read_def rel_def)
  ultimately show ?thesis using assms(2) False by (auto simp: map_prod_def split: prod.splits)
qed (use assms in \<open>simp add: thread_add_read_def rel_def\<close>)

lemma sim_write:
  assumes "rel m s" "q_perform (Write f a fd) s = Some (ans, s')"
  shows "\<exists>m'. perform (Write f a fd) m = Some (ans, m') \<and> rel m' s'"
proof (cases "fd \<in> queue_fds s THREAD_WRITE")
  case False
  let ?j = "\<lparr>j_type = THREAD_WRITE, j_func = f, j_arg = a, j_u = Fd fd\<rparr>"
  obtain t s1 where n: "new_job ?j s = (t, s1)" by fastforce
  obtain m1 where m1: "thread_get THREAD_WRITE f a m = (t, m1)" "links (on_thread t (\<lambda>x. x\<lparr>t_u := Fd fd\<rparr>) m1) s1" "idle t s1"
    "m_readfd m1 = queue_fds s THREAD_READ" "m_writefd m1 = queue_fds s THREAD_WRITE" "jq s1 THREAD_WRITE = jq s THREAD_WRITE"
    using sim_new [OF assms(1) n refl] by auto
  let ?m = "on_thread t (\<lambda>x. x\<lparr>t_u := Fd fd\<rparr>) (m1\<lparr>m_writefd := insert fd (m_writefd m1)\<rparr>)"
  have "fst (add_job ?j at_end s) = t \<and> rel (on_list THREAD_WRITE (thread_list_add t) ?m) (snd (add_job ?j at_end s))"
    by (rule sim_at_end [OF assms(1) n refl]) (use False m1 in \<open>simp_all add: on_thread_set_fds\<close>)
  moreover have "perform (Write f a fd) m = Some (Handle (Some t), on_list THREAD_WRITE (thread_list_add t) ?m)"
    using False assms(1) m1(1) by (simp add: thread_add_write_def rel_def)
  ultimately show ?thesis using assms(2) False by (auto simp: map_prod_def split: prod.splits)
qed (use assms in \<open>simp add: thread_add_write_def rel_def\<close>)

lemma sim_event:
  assumes "rel m s" "q_perform (Event f a v) s = Some (ans, s')"
  shows "\<exists>m'. perform (Event f a v) m = Some (ans, m') \<and> rel m' s'"
proof -
  let ?j = "\<lparr>j_type = THREAD_EVENT, j_func = f, j_arg = a, j_u = Val v\<rparr>"
  obtain t s1 where n: "new_job ?j s = (t, s1)" by fastforce
  obtain m1 where m1: "thread_get THREAD_EVENT f a m = (t, m1)" "links (on_thread t (\<lambda>x. x\<lparr>t_u := Val v\<rparr>) m1) s1" "idle t s1"
    "m_readfd m1 = queue_fds s THREAD_READ" "m_writefd m1 = queue_fds s THREAD_WRITE" "jq s1 THREAD_EVENT = jq s THREAD_EVENT"
    using sim_new [OF assms(1) n refl] by auto
  have "fst (add_job ?j at_end s) = t \<and> rel (on_list THREAD_EVENT (thread_list_add t) (on_thread t (\<lambda>x. x\<lparr>t_u := Val v\<rparr>) m1)) (snd (add_job ?j at_end s))"
    by (rule sim_at_end [OF assms(1) n refl]) (use m1 in simp_all)
  then show ?thesis using assms(2) m1(1) by (auto simp: thread_add_event_def map_prod_def split: prod.splits)
qed

lemma sim_timer:
  assumes "rel m s" "q_perform (Timer now f a timer) s = Some (ans, s')"
  shows "\<exists>m'. perform (Timer now f a timer) m = Some (ans, m') \<and> rel m' s'"
proof -
  define x where "x = now\<lparr>tv_sec := tv_sec now + timer\<rparr>"
  let ?j = "\<lparr>j_type = THREAD_TIMER, j_func = f, j_arg = a, j_u = Sands x\<rparr>"
  have x: "time_ok x" using assms(2) by (simp add: x_def [symmetric] Let_def split: if_splits)
  have ok: "jobs_ok s" using assms(1) by (simp add: rel_def)
  obtain t s1 where n: "new_job ?j s = (t, s1)" by fastforce
  obtain m1 where m1: "thread_get THREAD_TIMER f a m = (t, m1)" "links (on_thread t (\<lambda>y. y\<lparr>t_u := Sands x\<rparr>) m1) s1" "idle t s1"
    "m_readfd m1 = queue_fds s THREAD_READ" "m_writefd m1 = queue_fds s THREAD_WRITE" "jq s1 THREAD_TIMER = jq s THREAD_TIMER"
    using sim_new [OF assms(1) n refl] by auto
  define m2 where "m2 = on_thread t (\<lambda>y. y\<lparr>t_u := Sands x\<rparr>) m1"
  define xs where "xs = takeWhile (\<lambda>b. usecs (job_time s b) < usecs x) (jq s THREAD_TIMER)"
  define ys where "ys = dropWhile (\<lambda>b. usecs (job_time s b) < usecs x) (jq s THREAD_TIMER)"
  have q: "jq s THREAD_TIMER = xs @ ys" by (simp add: xs_def ys_def)
  have tq: "t \<notin> set (jq s THREAD_TIMER)" using m1(3,6) by (metis idle_def)
  have jt: "job_time s1 b = job_time s b" if "b \<noteq> t" for b using new_job_ok(4) [OF ok n] that by (simp add: job_time_def)
  have tm: "\<forall>b \<in> set (jq s THREAD_TIMER). time_ok (job_time s b)" "sorted (map (\<lambda>a. usecs (job_time s a)) (xs @ ys))"
    using jobs_okD(5) [OF ok] by (simp_all add: times_sorted_def q)
  have dw: "dropWhile (\<lambda>b. usecs (job_time s1 b) < usecs x) (jq s THREAD_TIMER) = ys"
    unfolding ys_def by (rule dropWhile_cong) (use jt tq in \<open>metis\<close>)+
  have "\<forall>b \<in> set (jq s THREAD_TIMER). time_ok (job_time s1 b)" using tm(1) jt tq by metis
  then have "timer_point (m_thread m2) x (first (jq s THREAD_TIMER)) = Some (first ys)"
    using sim_point [OF m1(2), of "[]" "jq s THREAD_TIMER" x] m1(6) x dw by (simp add: m2_def)
  then have pt: "timer_point (m_thread m2) x (tl_head (m_list m2 THREAD_TIMER)) = Some (first ys)"
    using links_head [OF m1(2), of THREAD_TIMER] m1(6) by (simp add: m2_def)
  define m3 where "m3 = on_list THREAD_TIMER (case first ys of Some tt \<Rightarrow> thread_list_add_before tt t | None \<Rightarrow> thread_list_add t) m2"
  have "links m3 (s1\<lparr>jq := (jq s1)(THREAD_TIMER := xs @ t # ys)\<rparr>)"
  proof (cases ys)
    case Nil
    then show ?thesis using links_add [OF m1(2,3), of THREAD_TIMER] m1(6) q by (simp add: m3_def m2_def put_def)
  next
    case (Cons b bs)
    then show ?thesis using links_add_before [OF m1(2,3), of THREAD_TIMER xs b bs] m1(6) q by (simp add: m3_def m2_def)
  qed
  moreover have "\<forall>b \<in> set xs. usecs (job_time s b) \<le> usecs x"
    unfolding xs_def by (auto dest: set_takeWhileD)
  moreover have "\<forall>b \<in> set ys. usecs x \<le> usecs (job_time s b)"
  proof (cases ys)
    case (Cons b bs)
    then have "\<not> usecs (job_time s b) < usecs x" using hd_dropWhile [of "\<lambda>b. usecs (job_time s b) < usecs x" "jq s THREAD_TIMER"] by (simp add: ys_def)
    then show ?thesis using tm(2) Cons by (auto simp: sorted_append)
  qed simp
  ultimately have "rel m3 (s1\<lparr>jq := (jq s1)(THREAD_TIMER := xs @ t # ys)\<rparr>)"
    using x m1(4,5) by (intro sim_add [OF assms(1) n refl _ q]) (simp_all add: m3_def m2_def)
  moreover have "ans = Handle (Some t)" "s' = s1\<lparr>jq := (jq s1)(THREAD_TIMER := xs @ t # ys)\<rparr>"
    using assms(2) x n m1(6) by (simp_all add: x_def [symmetric] add_job_def by_time_def xs_def ys_def)
  moreover have "perform (Timer now f a timer) m = Some (Handle (Some t), m3)"
    using m1(1) pt by (simp add: thread_add_timer_def x_def [symmetric] m2_def m3_def Let_def)
  ultimately show ?thesis by blast
qed

lemma sim_cancel:
  assumes "rel m s" "q_perform (Cancel t) s = Some (ans, s')"
  shows "\<exists>m'. perform (Cancel t) m = Some (ans, m') \<and> rel m' s'"
proof -
  have p: "t \<in> pending s" "ans = Cancelled" "s' = move (j_type (jt s t)) THREAD_UNUSED t s"
    using assms(2) by (auto split: if_splits)
  have r: "links m s" "jobs_ok s" "m_readfd m = queue_fds s THREAD_READ" "m_writefd m = queue_fds s THREAD_WRITE"
    using assms(1) by (simp_all add: rel_def)
  obtain k where k: "t \<in> set (jq s k)" "k \<noteq> THREAD_UNUSED" using p(1) by (auto simp: pending_def)
  have ty: "j_type (jt s t) = k" by (rule jobs_okD(2) [OF r(2) k(1)])
  note u = links_u [OF r(1) k(1)]
  have "job_fd s t \<in> queue_fds s k" using k(1) by (simp add: queue_fds_def)
  then have "thread_cancel t m = unuse t (leave k t m)"
    using u ty r(3,4) k(2) by (cases k) (simp_all add: thread_cancel_def leave_def clear_fd_def Let_def)
  then show ?thesis using sim_unuse [OF assms(1) k] p ty by auto
qed

lemma sim_perform:
  assumes "rel m s" "q_perform r s = Some (ans, s')"
  shows "\<exists>m'. perform r m = Some (ans, m') \<and> rel m' s'"
proof (cases r)
  case (Cancel_event a)
  have "links m s" using assms(1) by (simp add: rel_def)
  then show ?thesis
    using sim_cancel_loop [OF assms(1), of "[]" "jq s THREAD_EVENT" a] assms(2) Cancel_event links_head [of m s THREAD_EVENT]
    by (auto simp: thread_cancel_event_def)
next
  case (Fetch es)
  then have "\<forall>e \<in> set es. time_ok (e_now e)" "q_fetch es s = Some (ans, s')" using assms(2) by (simp_all split: if_splits)
  then show ?thesis using sim_fetch [OF assms(1)] Fetch by blast
next
  case (Read f a fd)
  show ?thesis unfolding Read by (rule sim_read [OF assms(1) assms(2) [unfolded Read]])
next
  case (Write f a fd)
  show ?thesis unfolding Write by (rule sim_write [OF assms(1) assms(2) [unfolded Write]])
next
  case (Timer now f a timer)
  show ?thesis unfolding Timer by (rule sim_timer [OF assms(1) assms(2) [unfolded Timer]])
next
  case (Event f a v)
  show ?thesis unfolding Event by (rule sim_event [OF assms(1) assms(2) [unfolded Event]])
next
  case (Cancel t)
  show ?thesis unfolding Cancel by (rule sim_cancel [OF assms(1) assms(2) [unfolded Cancel]])
qed

section \<open>Histories\<close>

fun history :: "('f, 'a) request list \<Rightarrow> ('f, 'a) master \<Rightarrow> (('f, 'a) answer list \<times> ('f, 'a) master) option" where
  "history [] m = Some ([], m)"
| "history (r # rs) m = Option.bind (perform r m) (\<lambda>(a, m1). map_option (\<lambda>(as, m2). (a # as, m2)) (history rs m1))"

fun q_history :: "('f, 'a) request list \<Rightarrow> ('f, 'a) queues \<Rightarrow> (('f, 'a) answer list \<times> ('f, 'a) queues) option" where
  "q_history [] s = Some ([], s)"
| "q_history (r # rs) s = Option.bind (q_perform r s) (\<lambda>(a, s1). map_option (\<lambda>(as, s2). (a # as, s2)) (q_history rs s1))"

definition no_threads :: "('f, 'a) heap \<Rightarrow> ('f, 'a) queues" where
  "no_threads h = \<lparr>jq = (\<lambda>k. []), jt = job_of \<circ> h, jn = 0\<rparr>"

lemma rel_start: "rel (thread_master_create h) (no_threads h)"
  by (simp add: rel_def links_def jobs_ok_def apart_def times_sorted_def queue_fds_def dlist_def thread_master_create_def no_threads_def)

lemma sim_history:
  assumes "rel m s" "q_history rs s = Some (as, s')"
  shows "\<exists>m'. history rs m = Some (as, m') \<and> rel m' s'"
  using assms
proof (induction rs arbitrary: m s as)
  case (Cons r rs)
  obtain a s1 as1 where s1: "q_perform r s = Some (a, s1)" "q_history rs s1 = Some (as1, s')" "as = a # as1"
    using Cons.prems(2) by (auto simp: bind_eq_Some_conv)
  obtain m1 where m1: "perform r m = Some (a, m1)" "rel m1 s1" using sim_perform [OF Cons.prems(1) s1(1)] by blast
  then show ?case using Cons.IH [OF m1(2) s1(2)] s1(3) by auto
qed simp


text \<open>An example: two timers in the wrong order, an event, and a descriptor that is ready; the event is
  fetched first, then the timer that is due, then the descriptor, and the other timer is cancelled.\<close>

definition ex_heap :: "(nat, nat) heap" where
  "ex_heap = (\<lambda>a. \<lparr>t_type = THREAD_UNUSED, t_next = None, t_prev = None, t_func = 0, t_arg = 0, t_u = Val 0\<rparr>)"

definition ex_time :: "int \<Rightarrow> timeval" where
  "ex_time n = \<lparr>tv_sec = n, tv_usec = 0\<rparr>"

definition ex_turn :: "int \<Rightarrow> turn" where
  "ex_turn n = \<lparr>e_now = ex_time n, e_wait = ex_time n, e_select = (\<lambda>r w d. Sel_fds r {})\<rparr>"

definition ex_requests :: "(nat, nat) request list" where
  "ex_requests = [Timer (ex_time 1) 1 0 60, Timer (ex_time 2) 2 0 10, Read 3 0 5, Event 4 0 7, Read 8 0 5,
     Fetch [ex_turn 12], Fetch [ex_turn 12], Fetch [ex_turn 12], Cancel 0]"



end
