(* ===== verification/ThreadOrder.thy ===== *)
theory ThreadOrder
  imports ThreadSim
begin

text \<open>
  Which thread the scheduler calls next, and how long it sleeps when there is none.
\<close>

section \<open>The order of calls\<close>

lemma move_mem:
  assumes "jobs_ok s" "t \<in> set (jq s k)" "k \<noteq> k'"
  shows "a \<in> set (jq (move k k' t s) j) \<longleftrightarrow> (if a = t then j = k' else a \<in> set (jq s j))"
proof -
  have ap: "apart s" by (rule jobs_okD(1) [OF assms(1)])
  have "set (remove1 t (jq s k)) = set (jq s k) - {t}" using apartD(1) [OF ap] by simp
  moreover have "t \<notin> set (jq s j)" if "j \<noteq> k" for j using apartD(2) [OF ap assms(2)] that by blast
  ultimately show ?thesis
    using assms(3) unfolding move_queue [OF assms(3)] by (cases "j = k'"; cases "j = k"; cases "a = t") simp_all
qed

lemma pending_mem: "a \<in> pending s \<longleftrightarrow> (\<exists>j. j \<noteq> THREAD_UNUSED \<and> a \<in> set (jq s j))"
  by (auto simp: pending_def)

lemma pending_move:
  assumes "jobs_ok s" "t \<in> set (jq s k)" "k \<noteq> k'" "k \<noteq> THREAD_UNUSED"
  shows "pending (move k k' t s) = (if k' = THREAD_UNUSED then pending s - {t} else pending s)"
proof -
  have t: "t \<in> pending s" using assms(2,4) pending_mem by blast
  have m: "a \<in> pending (move k k' t s) \<longleftrightarrow> (if a = t then k' \<noteq> THREAD_UNUSED else a \<in> pending s)" for a
    unfolding pending_mem move_mem [OF assms(1-3)] by (cases "a = t") simp_all
  show ?thesis
  proof (rule set_eqI)
    fix a
    show "a \<in> pending (move k k' t s) \<longleftrightarrow> a \<in> (if k' = THREAD_UNUSED then pending s - {t} else pending s)"
      using m [of a] t by (cases "a = t"; cases "k' = THREAD_UNUSED") simp_all
  qed
qed

text \<open>What is called stays the same while a thread is moved.\<close>

definition same_call :: "('f, 'a) job \<Rightarrow> ('f, 'a) job \<Rightarrow> bool" where
  "same_call j j' \<longleftrightarrow> j_func j = j_func j' \<and> j_arg j = j_arg j' \<and> j_u j = j_u j'"

lemma ready_fold:
  assumes "jobs_ok s" "set ts \<subseteq> set (jq s k)" "distinct ts" "k = THREAD_READ \<or> k = THREAD_WRITE"
  shows "jobs_ok (fold (move k THREAD_READY) ts s) \<and> jq (fold (move k THREAD_READY) ts s) THREAD_READY = jq s THREAD_READY @ ts
    \<and> (\<forall>j. j \<noteq> k \<and> j \<noteq> THREAD_READY \<longrightarrow> jq (fold (move k THREAD_READY) ts s) j = jq s j)
    \<and> pending (fold (move k THREAD_READY) ts s) = pending s \<and> (\<forall>a. same_call (jt (fold (move k THREAD_READY) ts s) a) (jt s a))
    \<and> job_fd (fold (move k THREAD_READY) ts s) = job_fd s"
  using assms(1-3)
proof (induction ts arbitrary: s)
  case Nil
  then show ?case by (simp add: same_call_def)
next
  case (Cons t ts)
  have k: "k \<noteq> THREAD_READY" "k \<noteq> THREAD_UNUSED" using assms(4) by auto
  have t: "t \<in> set (jq s k)" using Cons.prems(2) by simp
  let ?s = "move k THREAD_READY t s"
  have "set ts \<subseteq> set (jq ?s k)"
    using Cons.prems(2,3) move_mem [OF Cons.prems(1) t k(1), of _ k] by auto
  note IH = Cons.IH [OF move_ok [OF Cons.prems(1) t _ k(1)] this]
  have "same_call (jt ?s a) (jt s a)" for a by (simp add: same_call_def move_sel)
  moreover have "same_call (jt (fold (move k THREAD_READY) ts ?s) a) (jt ?s a)" for a using IH Cons.prems(3) by auto
  ultimately have "same_call (jt (fold (move k THREAD_READY) ts ?s) a) (jt s a)" for a unfolding same_call_def by metis
  then show ?case
    using IH Cons.prems(3) pending_move [OF Cons.prems(1) t k] k by (simp add: move_queue [OF k(1)])
qed

lemma q_ready_props:
  assumes "jobs_ok s" "k = THREAD_READ \<or> k = THREAD_WRITE"
  shows "jobs_ok (q_ready k R s)" "jq (q_ready k R s) THREAD_READY = jq s THREAD_READY @ filter (\<lambda>t. job_fd s t \<in> R) (jq s k)"
    "\<And>j. j \<noteq> k \<Longrightarrow> j \<noteq> THREAD_READY \<Longrightarrow> jq (q_ready k R s) j = jq s j" "pending (q_ready k R s) = pending s"
    "\<And>a. same_call (jt (q_ready k R s) a) (jt s a)" "job_fd (q_ready k R s) = job_fd s"
    "filter (\<lambda>t. job_fd s t \<in> R) (jq s k) = [] \<Longrightarrow> q_ready k R s = s"
  using ready_fold [OF assms(1) _ _ assms(2), of "filter (\<lambda>t. job_fd s t \<in> R) (jq s k)"] jobs_okD(6) [OF assms(1), of k]
  by (auto simp: q_ready_def)

text \<open>A thread may be fetched: it is the first event; or no event is pending and it is the earliest timer
  and due; or there is neither and it is the first that was found ready; or \<open>select\<close>, asked for exactly the
  pending descriptors, has just reported its own.\<close>

definition due_at :: "turn \<Rightarrow> ('f, 'a) queues \<Rightarrow> addr \<Rightarrow> bool" where
  "due_at e s t \<longleftrightarrow>
     t \<in> set (jq s THREAD_TIMER) \<and> usecs (job_time s t) \<le> usecs (e_now e)
       \<and> (\<forall>b \<in> set (jq s THREAD_TIMER). usecs (job_time s t) \<le> usecs (job_time s b))
     \<or> (\<forall>b \<in> set (jq s THREAD_TIMER). usecs (e_now e) < usecs (job_time s b))
       \<and> (case jq s THREAD_READY of
            t1 # _ \<Rightarrow> t = t1
          | [] \<Rightarrow> \<exists>r w. e_select e (queue_fds s THREAD_READ) (queue_fds s THREAD_WRITE) (q_wait (e_wait e) s) = Sel_fds r w
              \<and> (t \<in> set (jq s THREAD_READ) \<and> job_fd s t \<in> r \<or> t \<in> set (jq s THREAD_WRITE) \<and> job_fd s t \<in> w))"

definition due :: "turn list \<Rightarrow> ('f, 'a) queues \<Rightarrow> addr \<Rightarrow> bool" where
  "due es s t \<longleftrightarrow> (case jq s THREAD_EVENT of t1 # _ \<Rightarrow> t = t1 | [] \<Rightarrow> \<exists>e \<in> set es. due_at e s t)"

lemma due_Cons: "due es s t \<Longrightarrow> due (e # es) s t"
  by (cases "jq s THREAD_EVENT") (auto simp: due_def)

lemma run_due:
  assumes "jobs_ok s" "t \<in> set (jq s k)" "k \<noteq> THREAD_UNUSED" "q_run k t s = (Got j, s')"
  shows "same_call j (jt s t) \<and> t \<in> pending s \<and> pending s' = pending s - {t}"
  using assms(2-4) pending_move [OF assms(1,2) assms(3,3)] by (auto simp: q_run_def same_call_def pending_def)

lemma q_fetch_due:
  assumes "jobs_ok s" "q_fetch es s = Some (Got j, s')"
  shows "\<exists>t \<in> pending s. same_call j (jt s t) \<and> pending s' = pending s - {t} \<and> due es s t"
  using assms(2)
proof (induction es)
  case (Cons e es)
  show ?case
  proof (cases "jq s THREAD_EVENT")
    case ev: (Cons t ts)
    then show ?thesis using Cons.prems run_due [OF assms(1), of t THREAD_EVENT j s'] by (auto simp: due_def)
  next
    case ev: Nil
    show ?thesis
    proof (cases "filter (\<lambda>t. usecs (job_time s t) \<le> usecs (e_now e)) (jq s THREAD_TIMER)")
      case ti: (Cons t ts)
      then obtain xs ys where xy: "jq s THREAD_TIMER = xs @ t # ys" "\<forall>b \<in> set xs. \<not> usecs (job_time s b) \<le> usecs (e_now e)"
        "usecs (job_time s t) \<le> usecs (e_now e)" unfolding filter_eq_Cons_iff by blast
      have "sorted (map (\<lambda>a. usecs (job_time s a)) (xs @ t # ys))" using jobs_okD(5) [OF assms(1)] xy(1) by (simp add: times_sorted_def)
      then have "\<forall>b \<in> set (jq s THREAD_TIMER). usecs (job_time s t) \<le> usecs (job_time s b)"
        using xy by (fastforce simp: sorted_append)
      then have "due (e # es) s t" using ev xy by (auto simp: due_def due_at_def)
      then show ?thesis using Cons.prems ev ti run_due [OF assms(1), of t THREAD_TIMER j s'] xy(1) by auto
    next
      case ti: Nil
      then have late: "\<forall>b \<in> set (jq s THREAD_TIMER). usecs (e_now e) < usecs (job_time s b)" by (auto simp: filter_empty_conv)
      show ?thesis
      proof (cases "jq s THREAD_READY")
        case re: (Cons t ts)
        then have "due (e # es) s t" using ev late re by (simp add: due_def due_at_def)
        then show ?thesis using Cons.prems ev ti re run_due [OF assms(1), of t THREAD_READY j s'] by auto
      next
        case re: Nil
        have IH: "q_fetch es s = Some (Got j, s') \<Longrightarrow> ?thesis" using Cons.IH due_Cons by blast
        show ?thesis
        proof (cases "e_select e (queue_fds s THREAD_READ) (queue_fds s THREAD_WRITE) (q_wait (e_wait e) s)")
          case (Sel_fds r w)
          define s1 where "s1 = q_ready THREAD_READ r s"
          define s2 where "s2 = q_ready THREAD_WRITE w s1"
          note p1 = q_ready_props [where k = THREAD_READ and R = r, OF assms(1), folded s1_def, simplified]
          note p2 = q_ready_props [where k = THREAD_WRITE and R = w, OF p1(1), folded s2_def, simplified]
          have rd: "jq s2 THREAD_READY = filter (\<lambda>t. job_fd s t \<in> r) (jq s THREAD_READ) @ filter (\<lambda>t. job_fd s t \<in> w) (jq s THREAD_WRITE)"
            using p1(2,3,6) p2(2) re by simp
          show ?thesis
          proof (cases "jq s2 THREAD_READY")
            case r2: (Cons t ts)
            then have "t \<in> set (jq s2 THREAD_READY)" by simp
            then have "t \<in> set (jq s THREAD_READ) \<and> job_fd s t \<in> r \<or> t \<in> set (jq s THREAD_WRITE) \<and> job_fd s t \<in> w"
              unfolding rd by auto
            then have "due (e # es) s t" using ev late re Sel_fds by (auto simp: due_def due_at_def)
            moreover have "q_run THREAD_READY t s2 = (Got j, s')"
              using Cons.prems ev ti re Sel_fds r2 by (simp add: s1_def [symmetric] s2_def [symmetric])
            then have "same_call j (jt s2 t) \<and> t \<in> pending s2 \<and> pending s' = pending s2 - {t}"
              using run_due [OF p2(1), of t THREAD_READY j s'] r2 by simp
            moreover have "same_call (jt s2 t) (jt s t)" using p1(5) p2(5) unfolding same_call_def by metis
            ultimately show ?thesis using p1(4) p2(4) by (auto simp: same_call_def)
          next
            case r2: Nil
            then have "s2 = s" using rd p1(3,6,7) p2(7) by simp
            then show ?thesis
              using Cons.prems ev ti re Sel_fds r2 IH by (simp add: s1_def [symmetric] s2_def [symmetric])
          qed
        qed (use Cons.prems ev ti re IH in simp_all)
      qed
    qed
  qed
qed simp

text \<open>C9. Which thread is called next. After any history, the thread that \<open>thread_fetch\<close> returns is a pending
  one, with its function and its argument, and it is pending no longer (so no call is lost and none is
  made twice); it is the oldest event, if there is one; otherwise a timer whose time has come, and
  then the earliest of all timers; otherwise, and only if no timer is due, the first of the threads found
  ready before; and otherwise a thread whose descriptor \<open>select\<close> has just reported. All the others are
  pending as before.\<close>

theorem next_call_is_due:
  assumes "q_history rs (no_threads h) = Some (as, s)" "history rs (thread_master_create h) = Some (as, m)"
    and "\<forall>e \<in> set es. time_ok (e_now e)" "q_fetch es s = Some (Got j, s')"
  shows "\<exists>x m' t. thread_fetch es m = Some (Fetched x m') \<and> job_of x = j \<and> t \<in> pending s \<and> due es s t
    \<and> same_call j (jt s t) \<and> pending s' = pending s - {t} \<and> (\<forall>k. dlist (m_thread m') (m_list m' k) (jq s' k))"
proof -
  have r: "rel m s" using sim_history [OF rel_start assms(1)] assms(2) by auto
  then obtain m' where m': "perform (Fetch es) m = Some (Got j, m')" "rel m' s'" using sim_fetch [OF _ assms(3,4)] by blast
  then obtain f where f: "thread_fetch es m = Some f" by (cases "thread_fetch es m") auto
  then obtain x where "thread_fetch es m = Some (Fetched x m')" "job_of x = j" using m'(1) by (cases f) auto
  moreover have "jobs_ok s" using r by (simp add: rel_def)
  ultimately show ?thesis using q_fetch_due [OF _ assms(4)] links_dlist m'(2) unfolding rel_def by metis
qed

lemma next_call_is_due_witness:
  "\<exists>as m x m'. history (take 5 ex_requests) (thread_master_create ex_heap) = Some (as, m)
    \<and> thread_fetch [ex_turn 12] m = Some (Fetched x m') \<and> job_of x = \<lparr>j_type = THREAD_EVENT, j_func = 4, j_arg = 0, j_u = Val 7\<rparr>"
proof -
  note simps = ex_requests_def no_threads_def ex_time_def ex_turn_def time_ok_def TIMER_SECOND_MICRO_def add_job_def
        new_job_def at_end_def by_time_def set_job_def queue_fds_def job_fd_def job_time_def usecs_def q_run_def
        move_def put_def take_out_def Let_def eval_nat_numeral
  have "\<exists>as s s'. q_history (take 5 ex_requests) (no_threads ex_heap) = Some (as, s)
      \<and> q_fetch [ex_turn 12] s = Some (Got \<lparr>j_type = THREAD_EVENT, j_func = 4, j_arg = 0, j_u = Val 7\<rparr>, s')"
    by (simp add: simps)
  then obtain as s s' where s: "q_history (take 5 ex_requests) (no_threads ex_heap) = Some (as, s)"
    "q_fetch [ex_turn 12] s = Some (Got \<lparr>j_type = THREAD_EVENT, j_func = 4, j_arg = 0, j_u = Val 7\<rparr>, s')" by blast
  obtain m where m: "history (take 5 ex_requests) (thread_master_create ex_heap) = Some (as, m)"
    using sim_history [OF rel_start s(1)] by blast
  have "\<forall>e \<in> set [ex_turn 12]. time_ok (e_now e)" by (simp add: simps)
  then show ?thesis using next_call_is_due [OF s(1) m _ s(2)] m by blast
qed

section \<open>How long to wait\<close>

lemma carry_props: "usecs (carry_usec a) = usecs a" "tv_usec (carry_usec a) < TIMER_SECOND_MICRO"
  "0 \<le> tv_usec a \<Longrightarrow> 0 \<le> tv_usec (carry_usec a)" "tv_usec a < 0 \<Longrightarrow> carry_usec a = a"
proof (induction a rule: carry_usec.induct)
  case (1 a)
  {
    case 1
    then show ?case using "1.IH"(1) by (subst carry_usec.simps) (auto simp: usecs_def algebra_simps)
  next
    case 2
    then show ?case using "1.IH"(2) by (subst carry_usec.simps) auto
  next
    case 3
    then show ?case using "1.IH"(3) by (subst carry_usec.simps) auto
  next
    case 4
    then show ?case by (subst carry_usec.simps) (simp add: TIMER_SECOND_MICRO_def)
  }
qed

lemma borrow_props: "usecs (borrow_usec a) = usecs a" "0 \<le> tv_usec (borrow_usec a)"
  "tv_usec a < TIMER_SECOND_MICRO \<Longrightarrow> tv_usec (borrow_usec a) < TIMER_SECOND_MICRO"
proof (induction a rule: borrow_usec.induct)
  case (1 a)
  {
    case 1
    then show ?case using "1.IH"(1) by (subst borrow_usec.simps) (auto simp: usecs_def algebra_simps)
  next
    case 2
    then show ?case using "1.IH"(2) by (subst borrow_usec.simps) auto
  next
    case 3
    then show ?case using "1.IH"(3) by (subst borrow_usec.simps) (auto simp: TIMER_SECOND_MICRO_def)
  }
qed

text \<open>The difference of two times, in normal form, within its limits.\<close>

lemma adjust_bounds:
  assumes "d = timeval_adjust a"
  shows "0 \<le> tv_sec d \<and> tv_sec d \<le> 1000000 \<and> 0 \<le> tv_usec d \<and> tv_usec d < 1000000 \<and> usecs d \<le> max 10 (usecs a)"
proof -
  define b where "b = borrow_usec (carry_usec a)"
  have b: "usecs b = usecs a" "0 \<le> tv_usec b" "tv_usec b < TIMER_SECOND_MICRO"
    using borrow_props [of "carry_usec a"] carry_props(1,2) [of a] by (simp_all add: b_def)
  then show ?thesis
    using assms by (auto simp: timeval_adjust_def b_def [symmetric] Let_def usecs_def TIMER_SECOND_MICRO_def)
qed

text \<open>C11. \<open>select\<close> never sleeps past a timer. After any history, the time-out that \<open>thread_timer_wait\<close>
  computes is in the range that \<open>select\<close> takes (at most a million seconds, microseconds below a
  million, nothing negative, whatever the clock says), and it is at most the time that is left until the
  deadline of each pending timer, or ten microseconds when that has passed; without a timer there is no
  time-out.\<close>

theorem wait_ends_in_time:
  assumes "q_history rs (no_threads h) = Some (as, s)" "history rs (thread_master_create h) = Some (as, m)"
  shows "case thread_timer_wait now m of
      None \<Rightarrow> jq s THREAD_TIMER = []
    | Some d \<Rightarrow> 0 \<le> tv_sec d \<and> tv_sec d \<le> 1000000 \<and> 0 \<le> tv_usec d \<and> tv_usec d < 1000000
        \<and> (\<forall>t \<in> set (jq s THREAD_TIMER). usecs d \<le> max 10 (usecs (job_time s t) - usecs now))"
proof -
  have r: "rel m s" using sim_history [OF rel_start assms(1)] assms(2) by auto
  then have "links m s" by (simp add: rel_def)
  then have w: "thread_timer_wait now m = q_wait now s" by (rule sim_wait)
  show ?thesis
  proof (cases "jq s THREAD_TIMER")
    case Nil
    then show ?thesis by (simp add: w q_wait_def)
  next
    case (Cons t ts)
    define d where "d = timeval_subtract (job_time s t) now"
    have d: "0 \<le> tv_sec d \<and> tv_sec d \<le> 1000000 \<and> 0 \<le> tv_usec d \<and> tv_usec d < 1000000
        \<and> usecs d \<le> max 10 (usecs (job_time s t) - usecs now)"
      using adjust_bounds [OF d_def [unfolded timeval_subtract_def]] by (simp add: usecs_def algebra_simps)
    have "\<forall>b \<in> set (jq s THREAD_TIMER). usecs (job_time s t) \<le> usecs (job_time s b)"
      using jobs_okD(5) [of s] r Cons by (auto simp: rel_def times_sorted_def)
    then have "\<forall>b \<in> set (jq s THREAD_TIMER). usecs d \<le> max 10 (usecs (job_time s b) - usecs now)" using d by fastforce
    moreover have "thread_timer_wait now m = Some d" using d Cons by (simp add: w q_wait_def d_def [symmetric] Let_def)
    ultimately show ?thesis using d by simp
  qed
qed

lemma wait_ends_in_time_witness:
  "\<exists>as m d. history (take 2 ex_requests) (thread_master_create ex_heap) = Some (as, m)
    \<and> thread_timer_wait (ex_time 5) m = Some d \<and> usecs d \<le> 7000000"
proof -
  note simps = ex_requests_def no_threads_def ex_time_def time_ok_def TIMER_SECOND_MICRO_def add_job_def
        new_job_def by_time_def set_job_def job_time_def usecs_def Let_def eval_nat_numeral
  have "\<exists>as s. q_history (take 2 ex_requests) (no_threads ex_heap) = Some (as, s)
      \<and> jq s THREAD_TIMER = [1, 0] \<and> job_time s 1 = ex_time 12"
    by (simp add: simps)
  then obtain as s where s: "q_history (take 2 ex_requests) (no_threads ex_heap) = Some (as, s)"
    "jq s THREAD_TIMER = [1, 0]" "job_time s 1 = ex_time 12" by blast
  obtain m where m: "history (take 2 ex_requests) (thread_master_create ex_heap) = Some (as, m)"
    using sim_history [OF rel_start s(1)] by blast
  have "usecs (ex_time 12) - usecs (ex_time 5) = 7000000" by (simp add: usecs_def ex_time_def TIMER_SECOND_MICRO_def)
  then show ?thesis using wait_ends_in_time [OF s(1) m, of "ex_time 5"] s(2,3) m by (auto split: option.splits)
qed

end
