(* ===== verification/ThreadCalls.thy ===== *)
theory ThreadCalls
  imports ThreadOrder
begin

text \<open>
  The scheduler as its users see it: a map from handles to the calls that wait. What each function of
  \<open>thread.c\<close> does to the map, and that it succeeds.
\<close>

section \<open>The calls that wait\<close>

type_synonym ('f, 'a) calls = "addr \<rightharpoonup> 'f \<times> 'a \<times> thread_u"

definition waiting :: "('f, 'a) queues \<Rightarrow> ('f, 'a) calls" where
  "waiting s t = (if t \<in> pending s then Some (j_func (jt s t), j_arg (jt s t), j_u (jt s t)) else None)"

text \<open>Each function is for one kind of thread.\<close>

definition kinds_ok :: "('f \<Rightarrow> thread_type) \<Rightarrow> ('f, 'a) queues \<Rightarrow> bool" where
  "kinds_ok kf s \<longleftrightarrow> (\<forall>k. \<forall>t \<in> set (jq s k). k = THREAD_UNUSED \<or> k = THREAD_READY \<or> k = kf (j_func (jt s t)))"

definition keeps_calls :: "('f \<Rightarrow> thread_type) \<Rightarrow> ('f, 'a) master \<Rightarrow> ('f, 'a) calls \<Rightarrow> bool" where
  "keeps_calls kf m p \<longleftrightarrow> (\<exists>s. rel m s \<and> kinds_ok kf s \<and> waiting s = p)"

lemma holds_start: "keeps_calls kf (thread_master_create h) Map.empty"
proof -
  have "kinds_ok kf (no_threads h)" "waiting (no_threads h) = Map.empty"
    by (auto simp: kinds_ok_def no_threads_def waiting_def pending_def fun_eq_iff)
  then show ?thesis using rel_start unfolding keeps_calls_def by blast
qed

section \<open>Adding\<close>

lemma add_waits:
  assumes "jobs_ok s" "kinds_ok kf s" "add_job j split s = (t, s')" "\<And>as xs ys. split as = (xs, ys) \<Longrightarrow> xs @ ys = as"
    "j_type j = kf (j_func j)" "kf (j_func j) \<noteq> THREAD_UNUSED"
  shows "kinds_ok kf s'" "waiting s t = None" "waiting s' = (waiting s)(t \<mapsto> (j_func j, j_arg j, j_u j))"
proof -
  obtain s1 where n: "new_job j s = (t, s1)" using assms(3) by (auto simp: add_job_def split: prod.splits)
  obtain xs ys where xy: "split (jq s1 (j_type j)) = (xs, ys)" by (cases "split (jq s1 (j_type j))")
  have s': "s' = s1\<lparr>jq := (jq s1)(j_type j := xs @ t # ys)\<rparr>" using assms(3) n xy by (simp add: add_job_def)
  note nj = new_job_ok [OF assms(1) n]
  have idle: "t \<notin> set (jq s1 k)" for k using nj(1) by (simp add: idle_def)
  have old: "set (jq s1 k) = set (jq s k)" if "k \<noteq> THREAD_UNUSED" for k using nj(2) [OF that] by simp
  have mem: "set (jq s' k) = (if k = j_type j then insert t (set (jq s1 k)) else set (jq s1 k))" for k
    using arg_cong [OF assms(4) [OF xy], of set] by (auto simp: s')
  have jt: "jt s' = (jt s)(t := j)" using nj(4) by (simp add: s')
  have np: "t \<notin> pending s" using idle old by (auto simp: pending_def)
  then show "waiting s t = None" by (simp add: waiting_def)
  have "pending s' = insert t (pending s)"
    using assms(5,6) old by (auto simp: pending_def mem split: if_splits)
  then show "waiting s' = (waiting s)(t \<mapsto> (j_func j, j_arg j, j_u j))"
    using np by (auto simp: waiting_def jt fun_eq_iff)
  show "kinds_ok kf s'"
    unfolding kinds_ok_def
  proof (intro allI ballI)
    fix k a
    assume a: "a \<in> set (jq s' k)"
    show "k = THREAD_UNUSED \<or> k = THREAD_READY \<or> k = kf (j_func (jt s' a))"
    proof (cases "k = THREAD_UNUSED \<or> a = t")
      case False
      then have "a \<in> set (jq s k)" using a mem [of k] old [of k] by (auto split: if_splits)
      then show ?thesis using assms(2) False unfolding kinds_ok_def jt fun_upd_apply by auto
    next
      case True
      then show ?thesis using a mem [of k] idle [of k] assms(5) jt by (auto split: if_splits)
    qed
  qed
qed

lemma at_end_split: "at_end as = (xs, ys) \<Longrightarrow> xs @ ys = as"
  by (auto simp: at_end_def)

lemma by_time_split: "by_time s x as = (xs, ys) \<Longrightarrow> xs @ ys = as"
  by (auto simp: by_time_def)

lemma fd_waits:
  assumes "kinds_ok kf s" "fd \<in> queue_fds s k" "jobs_ok s" "k \<noteq> THREAD_UNUSED" "k \<noteq> THREAD_READY"
  shows "\<exists>t f a u. waiting s t = Some (f, a, u) \<and> kf f = k \<and> u_fd u = fd"
proof -
  obtain t where "t \<in> set (jq s k)" "job_fd s t = fd" using assms(2) by (auto simp: queue_fds_def)
  then show ?thesis using assms(1,4,5)
    by (intro exI [of _ t]) (auto simp: waiting_def pending_def kinds_ok_def job_fd_def)
qed

text \<open>\<open>free_fd\<close>: no thread of the kind waits for the descriptor.\<close>

definition unwatched :: "('f \<Rightarrow> thread_type) \<Rightarrow> thread_type \<Rightarrow> nat \<Rightarrow> ('f, 'a) calls \<Rightarrow> bool" where
  "unwatched kf k fd p \<longleftrightarrow> (\<forall>t f a u. p t = Some (f, a, u) \<and> kf f = k \<longrightarrow> u_fd u \<noteq> fd)"

lemma holds_read:
  assumes "keeps_calls kf m p" "kf f = THREAD_READ" "unwatched kf THREAD_READ fd p"
  shows "\<exists>t m'. thread_add_read f a fd m = (Some t, m') \<and> p t = None \<and> keeps_calls kf m' (p(t \<mapsto> (f, a, Fd fd)))"
proof -
  obtain s where s: "rel m s" "kinds_ok kf s" "waiting s = p" using assms(1) by (auto simp: keeps_calls_def)
  then have ok: "jobs_ok s" by (simp add: rel_def)
  have n: "fd \<notin> queue_fds s THREAD_READ" using fd_waits [OF s(2) _ ok] assms(3) s(3) unfolding unwatched_def by blast
  let ?j = "\<lparr>j_type = THREAD_READ, j_func = f, j_arg = a, j_u = Fd fd\<rparr>"
  obtain t s' where t: "add_job ?j at_end s = (t, s')" by (cases "add_job ?j at_end s")
  note w = add_waits [OF ok s(2) t at_end_split, simplified, OF assms(2) [symmetric]]
  have "q_perform (Read f a fd) s = Some (Handle (Some t), s')" using n t by simp
  then obtain m' where "perform (Read f a fd) m = Some (Handle (Some t), m')" "rel m' s'" using sim_perform [OF s(1)] by blast
  then show ?thesis using w s(3) assms(2)
    by (cases "thread_add_read f a fd m") (auto simp: keeps_calls_def intro!: exI [of _ s'])
qed

lemma holds_write:
  assumes "keeps_calls kf m p" "kf f = THREAD_WRITE" "unwatched kf THREAD_WRITE fd p"
  shows "\<exists>t m'. thread_add_write f a fd m = (Some t, m') \<and> p t = None \<and> keeps_calls kf m' (p(t \<mapsto> (f, a, Fd fd)))"
proof -
  obtain s where s: "rel m s" "kinds_ok kf s" "waiting s = p" using assms(1) by (auto simp: keeps_calls_def)
  then have ok: "jobs_ok s" by (simp add: rel_def)
  have n: "fd \<notin> queue_fds s THREAD_WRITE" using fd_waits [OF s(2) _ ok] assms(3) s(3) unfolding unwatched_def by blast
  let ?j = "\<lparr>j_type = THREAD_WRITE, j_func = f, j_arg = a, j_u = Fd fd\<rparr>"
  obtain t s' where t: "add_job ?j at_end s = (t, s')" by (cases "add_job ?j at_end s")
  note w = add_waits [OF ok s(2) t at_end_split, simplified, OF assms(2) [symmetric]]
  have "q_perform (Write f a fd) s = Some (Handle (Some t), s')" using n t by simp
  then obtain m' where "perform (Write f a fd) m = Some (Handle (Some t), m')" "rel m' s'" using sim_perform [OF s(1)] by blast
  then show ?thesis using w s(3) assms(2)
    by (cases "thread_add_write f a fd m") (auto simp: keeps_calls_def intro!: exI [of _ s'])
qed

lemma holds_timer:
  assumes "keeps_calls kf m p" "kf f = THREAD_TIMER" "time_ok (now\<lparr>tv_sec := tv_sec now + n\<rparr>)"
  shows "\<exists>t m'. thread_add_timer now f a n m = Some (t, m') \<and> p t = None
    \<and> keeps_calls kf m' (p(t \<mapsto> (f, a, Sands (now\<lparr>tv_sec := tv_sec now + n\<rparr>))))"
proof -
  obtain s where s: "rel m s" "kinds_ok kf s" "waiting s = p" using assms(1) by (auto simp: keeps_calls_def)
  then have ok: "jobs_ok s" by (simp add: rel_def)
  let ?x = "now\<lparr>tv_sec := tv_sec now + n\<rparr>"
  let ?j = "\<lparr>j_type = THREAD_TIMER, j_func = f, j_arg = a, j_u = Sands ?x\<rparr>"
  obtain t s' where t: "add_job ?j (by_time s ?x) s = (t, s')" by (cases "add_job ?j (by_time s ?x) s")
  note w = add_waits [OF ok s(2) t by_time_split [where s = s and x = ?x], simplified, OF assms(2) [symmetric]]
  have "q_perform (Timer now f a n) s = Some (Handle (Some t), s')" using assms(3) t by simp
  then obtain m' where "perform (Timer now f a n) m = Some (Handle (Some t), m')" "rel m' s'" using sim_perform [OF s(1)] by blast
  then show ?thesis using w s(3) assms(2)
    by (cases "thread_add_timer now f a n m") (auto simp: keeps_calls_def intro!: exI [of _ s'])
qed

section \<open>Taking away\<close>

lemma move_kinds:
  assumes "jobs_ok s" "kinds_ok kf s" "t \<in> set (jq s k)" "k \<noteq> k'" "k' = THREAD_READY \<or> k' = THREAD_UNUSED"
  shows "kinds_ok kf (move k k' t s)"
  unfolding kinds_ok_def
proof (intro allI ballI)
  fix j a
  assume "a \<in> set (jq (move k k' t s) j)"
  then have "if a = t then j = k' else a \<in> set (jq s j)" unfolding move_mem [OF assms(1,3,4)] .
  moreover have "j_func (jt (move k k' t s) a) = j_func (jt s a)" by (simp add: move_sel)
  ultimately show "j = THREAD_UNUSED \<or> j = THREAD_READY \<or> j = kf (j_func (jt (move k k' t s) a))"
    using assms(2,5) unfolding kinds_ok_def by (metis (full_types))
qed

lemma same_call_waiting:
  assumes "pending s' = pending s - T" "\<And>a. same_call (jt s' a) (jt s a)"
  shows "waiting s' = (waiting s) |` (- T)"
  using assms(2) unfolding same_call_def by (auto simp: waiting_def assms(1) restrict_map_def fun_eq_iff)

lemma retire_waits:
  assumes "jobs_ok s" "kinds_ok kf s" "t \<in> set (jq s k)" "k \<noteq> THREAD_UNUSED"
  shows "kinds_ok kf (move k THREAD_UNUSED t s)" "waiting (move k THREAD_UNUSED t s) = (waiting s)(t := None)"
proof -
  show "kinds_ok kf (move k THREAD_UNUSED t s)" using move_kinds [OF assms] by simp
  have "waiting (move k THREAD_UNUSED t s) = (waiting s) |` (- {t})"
    by (rule same_call_waiting) (simp_all add: pending_move [OF assms(1,3,4,4)] same_call_def move_sel)
  then show "waiting (move k THREAD_UNUSED t s) = (waiting s)(t := None)"
    by (auto simp: restrict_map_def fun_eq_iff)
qed

lemma holds_cancel:
  assumes "keeps_calls kf m p" "p t \<noteq> None"
  shows "\<exists>m'. thread_cancel t m = Some m' \<and> keeps_calls kf m' (p(t := None))"
proof -
  obtain s where s: "rel m s" "kinds_ok kf s" "waiting s = p" using assms(1) by (auto simp: keeps_calls_def)
  then have ok: "jobs_ok s" by (simp add: rel_def)
  have t: "t \<in> pending s" using assms(2) s(3) by (auto simp: waiting_def split: if_splits)
  then obtain k where k: "t \<in> set (jq s k)" "k \<noteq> THREAD_UNUSED" by (auto simp: pending_def)
  have "q_perform (Cancel t) s = Some (Cancelled, move k THREAD_UNUSED t s)" using t jobs_okD(2) [OF ok k(1)] by simp
  then obtain m' where "perform (Cancel t) m = Some (Cancelled, m')" "rel m' (move k THREAD_UNUSED t s)"
    using sim_perform [OF s(1)] by blast
  then show ?thesis using retire_waits [OF ok s(2) k] s(3) by (auto simp: keeps_calls_def)
qed

section \<open>Fetching\<close>

lemma ready_fold_kinds:
  assumes "jobs_ok s" "kinds_ok kf s" "set ts \<subseteq> set (jq s k)" "distinct ts" "k = THREAD_READ \<or> k = THREAD_WRITE"
  shows "kinds_ok kf (fold (move k THREAD_READY) ts s)"
  using assms(1-4)
proof (induction ts arbitrary: s)
  case (Cons t ts)
  have t: "t \<in> set (jq s k)" "k \<noteq> THREAD_READY" using Cons.prems(3) assms(5) by auto
  have "set ts \<subseteq> set (jq (move k THREAD_READY t s) k)" using Cons.prems(3,4) move_mem [OF Cons.prems(1) t, of _ k] by auto
  then show ?case
    using Cons.IH [OF move_ok [OF Cons.prems(1) t(1) _ t(2)] move_kinds [OF Cons.prems(1,2) t]] Cons.prems(4) by simp
qed simp

lemma q_ready_waits:
  assumes "jobs_ok s" "kinds_ok kf s" "k = THREAD_READ \<or> k = THREAD_WRITE"
  shows "jobs_ok (q_ready k R s)" "kinds_ok kf (q_ready k R s)" "waiting (q_ready k R s) = waiting s"
proof -
  note r = q_ready_props [OF assms(1,3), where R = R]
  show "jobs_ok (q_ready k R s)" by (rule r(1))
  show "kinds_ok kf (q_ready k R s)"
    unfolding q_ready_def by (rule ready_fold_kinds [OF assms(1,2) _ _ assms(3)]) (auto simp: jobs_okD(6) [OF assms(1)])
  show "waiting (q_ready k R s) = waiting s" using same_call_waiting [of "q_ready k R s" s "{}"] r(4,5) by (simp add: restrict_map_def)
qed

definition fetches :: "('f \<Rightarrow> thread_type) \<Rightarrow> ('f, 'a) calls \<Rightarrow> ('f, 'a) answer \<Rightarrow> ('f, 'a) queues \<Rightarrow> bool" where
  "fetches kf p ans s \<longleftrightarrow> jobs_ok s \<and> kinds_ok kf s \<and> (case ans of
       Got j \<Rightarrow> \<exists>t. p t = Some (j_func j, j_arg j, j_u j) \<and> waiting s = p(t := None)
     | _ \<Rightarrow> waiting s = p)"

lemma run_fetches:
  assumes "jobs_ok s" "kinds_ok kf s" "t \<in> set (jq s k)" "k \<noteq> THREAD_UNUSED"
  shows "case q_run k t s of (ans, s') \<Rightarrow> fetches kf (waiting s) ans s'"
proof -
  have "waiting s t = Some (j_func (jt s t), j_arg (jt s t), j_u (jt s t))" using assms(3,4) by (auto simp: waiting_def pending_def)
  then show ?thesis using retire_waits [OF assms] move_ok [OF assms(1,3) _ assms(4)] by (auto simp: fetches_def q_run_def)
qed

lemma q_fetch_waits:
  assumes "jobs_ok s" "kinds_ok kf s"
  shows "\<exists>ans s'. q_fetch es s = Some (ans, s') \<and> (\<exists>j. ans \<in> {Got j, Nothing, Still}) \<and> fetches kf (waiting s) ans s'"
  using assms
proof (induction es arbitrary: s)
  case Nil
  then show ?case by (auto simp: fetches_def)
next
  case (Cons e es)
  have run: "\<exists>ans s'. Some (q_run k t s) = Some (ans, s') \<and> (\<exists>j. ans \<in> {Got j, Nothing, Still}) \<and> fetches kf (waiting s) ans s'"
    if "jobs_ok s" "kinds_ok kf s" "t \<in> set (jq s k)" "k \<noteq> THREAD_UNUSED" for k t s
    using run_fetches [OF that] by (auto simp: q_run_def)
  show ?case
  proof (cases "jq s THREAD_EVENT")
    case (Cons t ts)
    then show ?thesis using run [OF Cons.prems, of t THREAD_EVENT] by simp
  next
    case ev: Nil
    show ?thesis
    proof (cases "filter (\<lambda>t. usecs (job_time s t) \<le> usecs (e_now e)) (jq s THREAD_TIMER)")
      case (Cons t ts)
      then have "t \<in> set (jq s THREAD_TIMER)" unfolding filter_eq_Cons_iff by auto
      then show ?thesis using run [OF Cons.prems, of t THREAD_TIMER] ev Cons by simp
    next
      case ti: Nil
      show ?thesis
      proof (cases "jq s THREAD_READY")
        case (Cons t ts)
        then show ?thesis using run [OF Cons.prems, of t THREAD_READY] ev ti by simp
      next
        case re: Nil
        show ?thesis
        proof (cases "e_select e (queue_fds s THREAD_READ) (queue_fds s THREAD_WRITE) (q_wait (e_wait e) s)")
          case (Sel_fds r w)
          define s1 where "s1 = q_ready THREAD_WRITE w (q_ready THREAD_READ r s)"
          note w1 = q_ready_waits [OF Cons.prems, of THREAD_READ r, simplified]
          note w2 = q_ready_waits [OF w1(1,2), of THREAD_WRITE w, simplified, folded s1_def]
          show ?thesis
          proof (cases "jq s1 THREAD_READY")
            case (Cons t ts)
            then show ?thesis using run [OF w2(1,2), of t THREAD_READY] ev ti re Sel_fds w1(3) w2(3) by (simp add: s1_def [symmetric])
          next
            case Nil
            then show ?thesis using Cons.IH [OF w2(1,2)] ev ti re Sel_fds w1(3) w2(3) by (simp add: s1_def [symmetric])
          qed
        qed (use ev ti re Cons.IH [OF Cons.prems] Cons.prems in \<open>simp_all add: fetches_def\<close>)
      qed
    qed
  qed
qed

lemma holds_fetch:
  assumes "keeps_calls kf m p" "\<forall>e \<in> set es. time_ok (e_now e)"
  shows "\<exists>r. thread_fetch es m = Some r \<and> (case r of
      Fetched x m' \<Rightarrow> \<exists>t. p t = Some (t_func x, t_arg x, t_u x) \<and> keeps_calls kf m' (p(t := None))
    | No_thread m' \<Rightarrow> keeps_calls kf m' p
    | Waiting m' \<Rightarrow> keeps_calls kf m' p)"
proof -
  obtain s where s: "rel m s" "kinds_ok kf s" "waiting s = p" using assms(1) by (auto simp: keeps_calls_def)
  then have ok: "jobs_ok s" by (simp add: rel_def)
  obtain ans s' where q: "q_fetch es s = Some (ans, s')" "\<exists>j. ans \<in> {Got j, Nothing, Still}" "fetches kf p ans s'"
    using q_fetch_waits [OF ok s(2), of es] s(3) by auto
  obtain m' where m': "perform (Fetch es) m = Some (ans, m')" "rel m' s'" using sim_fetch [OF s(1) assms(2) q(1)] by blast
  have h: "keeps_calls kf m' (waiting s')" using m'(2) q(3) by (auto simp: keeps_calls_def fetches_def)
  obtain r where r: "thread_fetch es m = Some r" using m'(1) by (cases "thread_fetch es m") auto
  then show ?thesis
  proof (cases r)
    case (Fetched x m1)
    then have "ans = Got (job_of x)" "m1 = m'" using m'(1) r by auto
    then show ?thesis using r Fetched q(3) h by (auto simp: fetches_def job_of_def)
  qed (use m'(1) r q(3) h in \<open>auto simp: fetches_def\<close>)
qed

end
