(* ===== verification/SessionThreads.thy ===== *)
theory SessionThreads
  imports NetmtSystem ThreadCalls
begin

text \<open>
  The sessions on the scheduler. \<open>VtyRead\<close> knows of the three threads of a session only whether they are
  there; here they are handles of threads of \<open>thread.c\<close>: which calls \<open>vty_event\<close> and the handlers make
  to add and cancel them, and the loop of the program, which fetches a thread and calls its function.
\<close>

section \<open>The threads of a session\<close>

text \<open>The functions that the threads call; the argument is the session, by its descriptor, or NULL.\<close>

datatype vty_call = Call_accept | Call_read | Call_flush | Call_timeout

type_synonym vty_master = "(vty_call, nat option) master"

record vty_threads =
  th_read :: "addr option"
  th_write :: "addr option"
  th_timeout :: "addr option"

type_synonym armed = "vty_threads \<times> vty_master"

definition no_handles :: vty_threads where
  "no_handles = \<lparr>th_read = None, th_write = None, th_timeout = None\<rparr>"

definition cancel_handle :: "addr option \<Rightarrow> vty_master \<Rightarrow> vty_master option" where
  "cancel_handle h m = (case h of None \<Rightarrow> Some m | Some t \<Rightarrow> thread_cancel t m)"

definition arm_timeout :: "timeval \<Rightarrow> nat \<Rightarrow> nat \<Rightarrow> armed \<Rightarrow> armed option" where
  "arm_timeout now i n = (\<lambda>(th, m).
     map_option (\<lambda>(t, m1). (th\<lparr>th_timeout := Some t\<rparr>, m1)) (thread_add_timer now Call_timeout (Some i) (int n) m))"

text \<open>\<open>vty_event\<close> for the session \<open>i\<close> with the time limit \<open>n\<close>; a write thread is added when there is none.\<close>

fun arm :: "timeval \<Rightarrow> vty_event_kind \<Rightarrow> nat \<Rightarrow> nat \<Rightarrow> armed \<Rightarrow> armed option" where
  "arm now EV_READ i n (th, m) =
     (let (r, m1) = thread_add_read Call_read (Some i) i m; th1 = th\<lparr>th_read := r\<rparr>
      in if n = 0 then Some (th1, m1)
         else Option.bind (cancel_handle (th_timeout th1) m1) (\<lambda>m2. arm_timeout now i n (th1, m2)))"
| "arm now EV_WRITE i n (th, m) =
     (if th_write th \<noteq> None then Some (th, m)
      else let (r, m1) = thread_add_write Call_flush (Some i) i m in Some (th\<lparr>th_write := r\<rparr>, m1))"
| "arm now EV_TIMEOUT_RESET i n (th, m) =
     Option.bind (cancel_handle (th_timeout th) m) (\<lambda>m1.
       let th1 = th\<lparr>th_timeout := None\<rparr> in if n = 0 then Some (th1, m1) else arm_timeout now i n (th1, m1))"

text \<open>\<open>vty_event\<close> for a listening socket.\<close>

definition listen :: "nat \<Rightarrow> addr vec \<times> vty_master \<Rightarrow> addr vec \<times> vty_master" where
  "listen sock = (\<lambda>(sv, m). let (r, m1) = thread_add_read Call_accept None sock m in (vector_set_index sock r sv, m1))"

definition close_threads :: "armed \<Rightarrow> armed option" where
  "close_threads = (\<lambda>(th, m).
     Option.bind (cancel_handle (th_read th) m) (\<lambda>m1.
     Option.bind (cancel_handle (th_write th) m1) (\<lambda>m2.
       map_option (Pair no_handles) (cancel_handle (th_timeout th) m2))))"

section \<open>What the handlers do to the threads\<close>

text \<open>The session after the handler, or \<open>None\<close> when it was closed, is an argument. The commands that a
  handler runs may set time limits, each at its time.\<close>

fun set_limits :: "(timeval \<times> nat) list \<Rightarrow> nat \<Rightarrow> armed \<Rightarrow> armed option" where
  "set_limits [] i x = Some x"
| "set_limits ((now, n) # rs) i x = Option.bind (arm now EV_TIMEOUT_RESET i n x) (set_limits rs i)"

definition go_on :: "timeval \<Rightarrow> nat \<Rightarrow> vty option \<Rightarrow> armed \<Rightarrow> armed option" where
  "go_on now i v' x =
     (case v' of
        None \<Rightarrow> close_threads x
      | Some v \<Rightarrow> Option.bind (arm now EV_WRITE i (vt_v_timeout v) x) (arm now EV_READ i (vt_v_timeout v)))"

definition read_threads :: "timeval \<Rightarrow> (timeval \<times> nat) list \<Rightarrow> nat \<Rightarrow> vty option \<Rightarrow> armed \<Rightarrow> armed option" where
  "read_threads now rs i v' = (\<lambda>(th, m).
     Option.bind (set_limits rs i (th\<lparr>th_read := None\<rparr>, m)) (go_on now i v'))"

definition flush_threads :: "timeval \<Rightarrow> nat \<Rightarrow> vty \<Rightarrow> vty option \<Rightarrow> armed \<Rightarrow> armed option" where
  "flush_threads now i v v' = (\<lambda>(th, m).
     let th1 = th\<lparr>th_write := None\<rparr> in
     Option.bind (if vt_lines v = 0 then map_option (Pair (th1\<lparr>th_read := None\<rparr>)) (cancel_handle (th_read th1) m)
       else Some (th1, m)) (\<lambda>x.
     case v' of
       None \<Rightarrow> close_threads x
     | Some v1 \<Rightarrow>
       (let ev = (\<lambda>k. arm now k i (vt_v_timeout v1)) in
        if vt_status v = VTY_START \<or> vt_status v = VTY_CONTINUE
        then Option.bind (ev EV_WRITE x) (\<lambda>y. if vt_lines v1 = 0 then ev EV_READ y else Some y)
        else if vt_lines v1 \<noteq> 0 then Some x
        else if buffer_empty (vt_obuf v1) then ev EV_READ x else ev EV_WRITE x)))"

definition timeout_threads :: "armed \<Rightarrow> armed option" where
  "timeout_threads = (\<lambda>(th, m). close_threads (th\<lparr>th_timeout := None\<rparr>, m))"

section \<open>The loop of the program\<close>

text \<open>\<open>w_serv\<close>: the vector of the listening threads.\<close>

record 'x world =
  w_lib :: "'x lib"
  w_threads :: "nat \<Rightarrow> vty_threads"
  w_serv :: "addr vec"
  w_master :: vty_master

text \<open>What the system gives to one call: a connection or none, the bytes that are read, the times.\<close>

record outside =
  o_conn :: "(nat \<times> string) option"
  o_bytes :: string
  o_limits :: "(timeval \<times> nat) list"
  o_now :: timeval

definition event_of :: "outside \<Rightarrow> (vty_call, nat option) thread \<Rightarrow> (sys_event \<times> nat) option" where
  "event_of o' x =
     (case t_func x of
        Call_accept \<Rightarrow> map_option (\<lambda>(i, addr). (Accept i addr, i)) (o_conn o')
      | Call_read \<Rightarrow> map_option (\<lambda>i. (Input i (o_bytes o'), i)) (t_arg x)
      | Call_flush \<Rightarrow> map_option (\<lambda>i. (Writable i, i)) (t_arg x)
      | Call_timeout \<Rightarrow> map_option (\<lambda>i. (Expired i, i)) (t_arg x))"

definition handler_threads ::
  "outside \<Rightarrow> vty_call \<Rightarrow> nat \<Rightarrow> vty option \<Rightarrow> vty option \<Rightarrow> armed \<Rightarrow> armed option" where
  "handler_threads o' f i v v' =
     (case f of
        Call_accept \<Rightarrow> (\<lambda>(th, m). go_on (o_now o') i v' (no_handles, m))
      | Call_read \<Rightarrow> read_threads (o_now o') (o_limits o') i v'
      | Call_flush \<Rightarrow> flush_threads (o_now o') i (the v) v'
      | Call_timeout \<Rightarrow> timeout_threads)"

text \<open>\<open>None\<close>: the handler faults, or a function of \<open>thread.c\<close> does not return, or a call of a session has no
  session.\<close>

definition thread_call ::
  "'f cmd_node vec \<Rightarrow> ('f, 'x) runner \<Rightarrow> outside \<Rightarrow> (vty_call, nat option) thread \<Rightarrow> 'x world \<Rightarrow> 'x world option" where
  "thread_call tbl run o' x w =
     (let w1 = (if t_func x = Call_accept
                then (let (sv, m) = listen (u_fd (t_u x)) (w_serv w, w_master w) in w\<lparr>w_serv := sv, w_master := m\<rparr>)
                else w)
      in case event_of o' x of
           None \<Rightarrow> if t_func x = Call_accept then Some w1 else None
         | Some (e, i) \<Rightarrow>
           (case handle tbl run e (w_lib w1) of
              Cont l \<Rightarrow> map_option (\<lambda>(th, m). w1\<lparr>w_lib := l, w_threads := (w_threads w1)(i := th), w_master := m\<rparr>)
                (handler_threads o' (t_func x) i (session_of i (w_lib w1)) (session_of i l) (w_threads w1 i, w_master w1))
            | _ \<Rightarrow> None))"

text \<open>The descriptor of a new connection is no listening one and has no session; deadlines fit the clock;
  the time limit of the session is the last one that was set.\<close>

definition clock_ok :: "timeval \<Rightarrow> nat \<Rightarrow> bool" where
  "clock_ok now n \<longleftrightarrow> n = 0 \<or> time_ok (now\<lparr>tv_sec := tv_sec now + int n\<rparr>)"

definition outside_ok ::
  "'f cmd_node vec \<Rightarrow> ('f, 'x) runner \<Rightarrow> nat set \<Rightarrow> outside \<Rightarrow> (vty_call, nat option) thread \<Rightarrow> 'x lib \<Rightarrow> bool" where
  "outside_ok tbl run socks o' x l \<longleftrightarrow>
     (\<forall>i addr. t_func x = Call_accept \<and> o_conn o' = Some (i, addr) \<longrightarrow> i \<notin> socks \<and> session_of i l = None)
     \<and> (\<forall>(now, n) \<in> set (o_limits o'). clock_ok now n)
     \<and> (\<forall>e i l' v'. event_of o' x = Some (e, i) \<and> handle tbl run e l = Cont l' \<and> session_of i l' = Some v' \<longrightarrow>
          clock_ok (o_now o') (vt_v_timeout v')
          \<and> (\<forall>v. t_func x = Call_read \<and> session_of i l = Some v \<longrightarrow>
               vt_v_timeout v' = last (vt_v_timeout v # map snd (o_limits o'))))"

definition world_start :: "(vty_call, nat option) heap \<Rightarrow> nat list \<Rightarrow> 'x lib \<Rightarrow> 'x world" where
  "world_start h socks l =
     (let (sv, m) = fold listen socks (vector_init 1, thread_master_create h)
      in \<lparr>w_lib = l, w_threads = (\<lambda>i. no_handles), w_serv = sv, w_master = m\<rparr>)"

inductive thread_loop ::
  "'f cmd_node vec \<Rightarrow> ('f, 'x) runner \<Rightarrow> nat set \<Rightarrow> 'x world \<Rightarrow> 'x world \<Rightarrow> bool"
  for tbl :: "'f cmd_node vec" and run :: "('f, 'x) runner" and socks :: "nat set" and w0 :: "'x world" where
  loop_start: "thread_loop tbl run socks w0 w0"
| loop_step: "thread_loop tbl run socks w0 w \<Longrightarrow> \<forall>e \<in> set es. time_ok (e_now e) \<Longrightarrow>
    thread_fetch es (w_master w) = Some (Fetched x m) \<Longrightarrow> outside_ok tbl run socks o' x (w_lib w) \<Longrightarrow>
    thread_call tbl run o' x (w\<lparr>w_master := m\<rparr>) = Some w' \<Longrightarrow> thread_loop tbl run socks w0 w'"

section \<open>Handles and waiting calls\<close>

fun vty_kind :: "vty_call \<Rightarrow> thread_type" where
  "vty_kind Call_accept = THREAD_READ"
| "vty_kind Call_read = THREAD_READ"
| "vty_kind Call_flush = THREAD_WRITE"
| "vty_kind Call_timeout = THREAD_TIMER"

text \<open>Where the handles are kept: of a listening socket in the vector, of a session in its fields.\<close>

definition handle_at :: "(nat \<rightharpoonup> addr) \<Rightarrow> (nat \<Rightarrow> vty_threads) \<Rightarrow> vty_call \<times> nat \<Rightarrow> addr option" where
  "handle_at acc T = (\<lambda>(f, i). case f of
       Call_accept \<Rightarrow> acc i | Call_read \<Rightarrow> th_read (T i) | Call_flush \<Rightarrow> th_write (T i) | Call_timeout \<Rightarrow> th_timeout (T i))"

text \<open>The call that belongs there.\<close>

definition belongs :: "vty_call \<times> nat \<Rightarrow> vty_call \<times> nat option \<times> thread_u \<Rightarrow> bool" where
  "belongs = (\<lambda>(f, i) (f', a, u). f' = f \<and> (case f of
       Call_accept \<Rightarrow> a = None \<and> u = Fd i
     | Call_timeout \<Rightarrow> a = Some i \<and> (\<exists>d. u = Sands d)
     | _ \<Rightarrow> a = Some i \<and> u = Fd i))"

definition matches :: "(vty_call \<times> nat \<rightharpoonup> addr) \<Rightarrow> (vty_call, nat option) calls \<Rightarrow> bool" where
  "matches H p \<longleftrightarrow> (\<forall>t c. p t = Some c \<longrightarrow> (\<exists>s. H s = Some t \<and> belongs s c)) \<and> (\<forall>s t. H s = Some t \<longrightarrow> (\<exists>c. p t = Some c \<and> belongs s c))"

end
