(* ===== verification/SessionArmed.thy ===== *)
theory SessionArmed
  imports SessionThreads
begin

text \<open>
  The handles of the sessions are exactly the waiting threads of the scheduler, whatever the handlers do;
  so no call of \<open>thread.c\<close> fails, and the events that a session takes are the threads that wait.
\<close>

section \<open>Handles stay matched\<close>

lemma belongs_unique: "belongs s c \<Longrightarrow> belongs s' c \<Longrightarrow> s = s'"
  by (cases s; cases s'; cases c) (auto simp: belongs_def split: vty_call.splits)

lemma matchesD:
  assumes "matches H p"
  shows "p t = Some c \<Longrightarrow> \<exists>s. H s = Some t \<and> belongs s c" "H s = Some t \<Longrightarrow> \<exists>c. p t = Some c \<and> belongs s c"
  using assms unfolding matches_def by blast+

lemma matches_unique: "matches H p \<Longrightarrow> H s = Some t \<Longrightarrow> H s' = Some t \<Longrightarrow> s = s'"
  unfolding matches_def using belongs_unique by (metis option.inject)

lemma matches_add:
  assumes "matches H p" "p t = None" "belongs s c" "H s = None"
  shows "matches (H(s \<mapsto> t)) (p(t \<mapsto> c))"
proof -
  have "\<exists>s'. (H(s \<mapsto> t)) s' = Some r \<and> belongs s' d" if "(p(t \<mapsto> c)) r = Some d" for r d
  proof (cases "r = t")
    case True
    then have "(H(s \<mapsto> t)) s = Some r \<and> belongs s d" using that assms(3) by simp
    then show ?thesis by blast
  next
    case False
    then have "p r = Some d" using that by simp
    then obtain s' where "H s' = Some r \<and> belongs s' d" using matchesD(1) [OF assms(1)] by blast
    moreover then have "s' \<noteq> s" using assms(4) by force
    ultimately show ?thesis by (intro exI [of _ s']) simp
  qed
  moreover have "\<exists>d. (p(t \<mapsto> c)) r = Some d \<and> belongs s' d" if "(H(s \<mapsto> t)) s' = Some r" for s' r
  proof (cases "s' = s")
    case False
    then have h: "H s' = Some r" using that by simp
    then obtain d where "p r = Some d" "belongs s' d" using assms(1) unfolding matches_def by blast
    then show ?thesis using assms(2) by (intro exI [of _ d]) auto
  qed (use that assms(3) in auto)
  ultimately show ?thesis unfolding matches_def by blast
qed

lemma matches_cut:
  assumes "matches H p" "H s = Some t"
  shows "matches (H(s := None)) (p(t := None))"
proof -
  have "\<exists>s'. (H(s := None)) s' = Some r \<and> belongs s' d" if r: "(p(t := None)) r = Some d" for r d
  proof -
    have "p r = Some d" "r \<noteq> t" using r by (auto split: if_splits)
    then obtain s' where "H s' = Some r" "belongs s' d" using assms(1) unfolding matches_def by blast
    then show ?thesis using assms(2) \<open>r \<noteq> t\<close> by (intro exI [of _ s']) auto
  qed
  moreover have "\<exists>d. (p(t := None)) r = Some d \<and> belongs s' d" if r: "(H(s := None)) s' = Some r" for s' r
  proof -
    have "H s' = Some r" "s' \<noteq> s" using r by (auto split: if_splits)
    moreover have "r \<noteq> t" using matches_unique [OF assms(1), of s' t s] calculation assms(2) by blast
    ultimately show ?thesis using matchesD(2) [OF assms(1)] by simp
  qed
  ultimately show ?thesis unfolding matches_def by blast
qed

definition linked :: "(nat \<rightharpoonup> addr) \<Rightarrow> (nat \<Rightarrow> vty_threads) \<Rightarrow> vty_master \<Rightarrow> bool" where
  "linked acc T m \<longleftrightarrow> (\<exists>p. keeps_calls vty_kind m p \<and> matches (handle_at acc T) p)"

lemma handle_at_upd:
  "handle_at acc (T(i := th\<lparr>th_read := x\<rparr>)) = (handle_at acc (T(i := th)))((Call_read, i) := x)"
  "handle_at acc (T(i := th\<lparr>th_write := x\<rparr>)) = (handle_at acc (T(i := th)))((Call_flush, i) := x)"
  "handle_at acc (T(i := th\<lparr>th_timeout := x\<rparr>)) = (handle_at acc (T(i := th)))((Call_timeout, i) := x)"
  "handle_at (acc(k := x)) T = (handle_at acc T)((Call_accept, k) := x)"
  by (auto simp: handle_at_def fun_eq_iff split: vty_call.splits)

lemma unwatched_fd:
  assumes "matches H p" "\<And>f. vty_kind f = k \<Longrightarrow> H (f, fd) = None" "k = THREAD_READ \<or> k = THREAD_WRITE"
  shows "unwatched vty_kind k fd p"
  unfolding unwatched_def
proof (intro allI impI notI)
  fix t f a u
  assume p: "p t = Some (f, a, u) \<and> vty_kind f = k" "u_fd u = fd"
  then obtain s where s: "H s = Some t" "belongs s (f, a, u)" using assms(1) unfolding matches_def by blast
  then have "s = (f, fd)" using p assms(3) by (cases s; cases f) (auto simp: belongs_def)
  then show False using s(1) p assms(2) by auto
qed

lemma link_read:
  assumes "linked acc (T(i := th)) m" "th_read th = None" "acc i = None"
  shows "\<exists>t m'. thread_add_read Call_read (Some i) i m = (Some t, m') \<and> linked acc (T(i := th\<lparr>th_read := Some t\<rparr>)) m'"
proof -
  obtain p where p: "keeps_calls vty_kind m p" "matches (handle_at acc (T(i := th))) p" using assms(1) by (auto simp: linked_def)
  have n: "handle_at acc (T(i := th)) (f, i) = None" if "vty_kind f = THREAD_READ" for f
    using that assms(2,3) by (cases f) (auto simp: handle_at_def)
  have "unwatched vty_kind THREAD_READ i p" by (rule unwatched_fd [OF p(2) n]) simp_all
  then obtain t m' where t: "thread_add_read Call_read (Some i) i m = (Some t, m')" "p t = None"
    "keeps_calls vty_kind m' (p(t \<mapsto> (Call_read, Some i, Fd i)))"
    using holds_read [OF p(1), of Call_read i "Some i"] by auto
  then have "matches (handle_at acc (T(i := th\<lparr>th_read := Some t\<rparr>))) (p(t \<mapsto> (Call_read, Some i, Fd i)))"
    unfolding handle_at_upd using n by (intro matches_add [OF p(2)]) (simp_all add: belongs_def)
  then show ?thesis using t by (auto simp: linked_def)
qed

lemma link_write:
  assumes "linked acc (T(i := th)) m" "th_write th = None"
  shows "\<exists>t m'. thread_add_write Call_flush (Some i) i m = (Some t, m') \<and> linked acc (T(i := th\<lparr>th_write := Some t\<rparr>)) m'"
proof -
  obtain p where p: "keeps_calls vty_kind m p" "matches (handle_at acc (T(i := th))) p" using assms(1) by (auto simp: linked_def)
  have n: "handle_at acc (T(i := th)) (f, i) = None" if "vty_kind f = THREAD_WRITE" for f
    using that assms(2) by (cases f) (auto simp: handle_at_def)
  have "unwatched vty_kind THREAD_WRITE i p" by (rule unwatched_fd [OF p(2) n]) simp_all
  then obtain t m' where t: "thread_add_write Call_flush (Some i) i m = (Some t, m')" "p t = None"
    "keeps_calls vty_kind m' (p(t \<mapsto> (Call_flush, Some i, Fd i)))"
    using holds_write [OF p(1), of Call_flush i "Some i"] by auto
  then have "matches (handle_at acc (T(i := th\<lparr>th_write := Some t\<rparr>))) (p(t \<mapsto> (Call_flush, Some i, Fd i)))"
    unfolding handle_at_upd using n by (intro matches_add [OF p(2)]) (simp_all add: belongs_def)
  then show ?thesis using t by (auto simp: linked_def)
qed

lemma link_accept:
  assumes "linked acc T m" "th_read (T k) = None" "acc k = None"
  shows "\<exists>t m'. thread_add_read Call_accept None k m = (Some t, m') \<and> linked (acc(k \<mapsto> t)) T m'"
proof -
  obtain p where p: "keeps_calls vty_kind m p" "matches (handle_at acc T) p" using assms(1) by (auto simp: linked_def)
  have n: "handle_at acc T (f, k) = None" if "vty_kind f = THREAD_READ" for f
    using that assms(2,3) by (cases f) (auto simp: handle_at_def)
  have "unwatched vty_kind THREAD_READ k p" by (rule unwatched_fd [OF p(2) n]) simp_all
  then obtain t m' where t: "thread_add_read Call_accept None k m = (Some t, m')" "p t = None"
    "keeps_calls vty_kind m' (p(t \<mapsto> (Call_accept, None, Fd k)))"
    using holds_read [OF p(1), of Call_accept k None] by auto
  then have "matches (handle_at (acc(k \<mapsto> t)) T) (p(t \<mapsto> (Call_accept, None, Fd k)))"
    unfolding handle_at_upd using n by (intro matches_add [OF p(2)]) (simp_all add: belongs_def)
  then show ?thesis using t by (auto simp: linked_def)
qed

lemma link_timeout:
  assumes "linked acc (T(i := th\<lparr>th_timeout := None\<rparr>)) m" "clock_ok now n" "n \<noteq> 0"
  shows "\<exists>t m'. arm_timeout now i n (th, m) = Some (th\<lparr>th_timeout := Some t\<rparr>, m')
    \<and> linked acc (T(i := th\<lparr>th_timeout := Some t\<rparr>)) m'"
proof -
  obtain p where p: "keeps_calls vty_kind m p" "matches (handle_at acc (T(i := th\<lparr>th_timeout := None\<rparr>))) p"
    using assms(1) by (auto simp: linked_def)
  let ?x = "now\<lparr>tv_sec := tv_sec now + int n\<rparr>"
  have "time_ok ?x" using assms(2,3) by (simp add: clock_ok_def)
  then obtain t m' where t: "thread_add_timer now Call_timeout (Some i) (int n) m = Some (t, m')" "p t = None"
    "keeps_calls vty_kind m' (p(t \<mapsto> (Call_timeout, Some i, Sands ?x)))"
    using holds_timer [OF p(1), of Call_timeout now "int n" "Some i"] by auto
  have "matches (handle_at acc (T(i := th\<lparr>th_timeout := None, th_timeout := Some t\<rparr>))) (p(t \<mapsto> (Call_timeout, Some i, Sands ?x)))"
    unfolding handle_at_upd(3) [where th = "th\<lparr>th_timeout := None\<rparr>"]
    by (rule matches_add [OF p(2) t(2)]) (simp_all add: belongs_def handle_at_def)
  then show ?thesis using t by (auto simp: linked_def arm_timeout_def)
qed

lemma link_cancel:
  assumes "linked acc (T(i := th)) m"
  shows "\<exists>m'. cancel_handle (th_read th) m = Some m' \<and> linked acc (T(i := th\<lparr>th_read := None\<rparr>)) m'"
    "\<exists>m'. cancel_handle (th_write th) m = Some m' \<and> linked acc (T(i := th\<lparr>th_write := None\<rparr>)) m'"
    "\<exists>m'. cancel_handle (th_timeout th) m = Some m' \<and> linked acc (T(i := th\<lparr>th_timeout := None\<rparr>)) m'"
proof -
  obtain p where p: "keeps_calls vty_kind m p" "matches (handle_at acc (T(i := th))) p" using assms(1) by (auto simp: linked_def)
  have c: "\<exists>m'. cancel_handle h m = Some m' \<and> linked acc T' m'"
    if "handle_at acc (T(i := th)) s = h" "handle_at acc T' = (handle_at acc (T(i := th)))(s := None)" for s h T'
  proof (cases h)
    case None
    then have "handle_at acc T' = handle_at acc (T(i := th))" using that by auto
    then show ?thesis using p None by (auto simp: cancel_handle_def linked_def)
  next
    case (Some t)
    then have "handle_at acc (T(i := th)) s = Some t" using that(1) by simp
    then have "p t \<noteq> None" using matchesD(2) [OF p(2)] by blast
    then obtain m' where "thread_cancel t m = Some m'" "keeps_calls vty_kind m' (p(t := None))" using holds_cancel [OF p(1)] by blast
    moreover have "matches (handle_at acc T') (p(t := None))"
      unfolding that(2) using that(1) Some by (intro matches_cut [OF p(2)]) simp
    ultimately show ?thesis using Some by (auto simp: cancel_handle_def linked_def)
  qed
  show "\<exists>m'. cancel_handle (th_read th) m = Some m' \<and> linked acc (T(i := th\<lparr>th_read := None\<rparr>)) m'"
    by (rule c [OF _ handle_at_upd(1)]) (simp add: handle_at_def)
  show "\<exists>m'. cancel_handle (th_write th) m = Some m' \<and> linked acc (T(i := th\<lparr>th_write := None\<rparr>)) m'"
    by (rule c [OF _ handle_at_upd(2)]) (simp add: handle_at_def)
  show "\<exists>m'. cancel_handle (th_timeout th) m = Some m' \<and> linked acc (T(i := th\<lparr>th_timeout := None\<rparr>)) m'"
    by (rule c [OF _ handle_at_upd(3)]) (simp add: handle_at_def)
qed

section \<open>What the handlers do\<close>

text \<open>Which threads there are.\<close>

definition set_handles :: "vty_threads \<Rightarrow> bool \<times> bool \<times> bool" where
  "set_handles th = (th_read th \<noteq> None, th_write th \<noteq> None, th_timeout th \<noteq> None)"

definition arms :: "(nat \<rightharpoonup> addr) \<Rightarrow> (nat \<Rightarrow> vty_threads) \<Rightarrow> nat \<Rightarrow> armed option \<Rightarrow> (bool \<times> bool \<times> bool) \<Rightarrow> bool" where
  "arms acc T i r b \<longleftrightarrow> (\<exists>th m. r = Some (th, m) \<and> linked acc (T(i := th)) m \<and> set_handles th = b)"

lemma armsI: "linked acc (T(i := th)) m \<Longrightarrow> set_handles th = b \<Longrightarrow> arms acc T i (Some (th, m)) b"
  by (auto simp: arms_def)

lemma arms_bind:
  assumes "arms acc T i r b" "\<And>th m. linked acc (T(i := th)) m \<Longrightarrow> set_handles th = b \<Longrightarrow> arms acc T i (f (th, m)) b'"
  shows "arms acc T i (Option.bind r f) b'"
  using assms by (auto simp: arms_def)

lemma arm_write:
  assumes "linked acc (T(i := th)) m" "set_handles th = (r, w, z)"
  shows "arms acc T i (arm now EV_WRITE i n (th, m)) (r, True, z)"
proof (cases "th_write th")
  case None
  then show ?thesis using link_write [OF assms(1)] assms(2) by (auto simp: set_handles_def intro!: armsI)
next
  case (Some t)
  then show ?thesis using assms by (auto simp: set_handles_def intro!: armsI)
qed

lemma arm_reset:
  assumes "linked acc (T(i := th)) m" "set_handles th = (r, w, z)" "clock_ok now n"
  shows "arms acc T i (arm now EV_TIMEOUT_RESET i n (th, m)) (r, w, n \<noteq> 0)"
proof -
  obtain m1 where m1: "cancel_handle (th_timeout th) m = Some m1" "linked acc (T(i := th\<lparr>th_timeout := None\<rparr>)) m1"
    using link_cancel(3) [OF assms(1)] by blast
  show ?thesis
  proof (cases "n = 0")
    case True
    then show ?thesis using m1 assms(2) by (auto simp: set_handles_def intro!: armsI)
  next
    case False
    have "linked acc (T(i := th\<lparr>th_timeout := None, th_timeout := None\<rparr>)) m1" using m1(2) by simp
    then obtain t m2 where "arm_timeout now i n (th\<lparr>th_timeout := None\<rparr>, m1) = Some (th\<lparr>th_timeout := Some t\<rparr>, m2)"
      "linked acc (T(i := th\<lparr>th_timeout := Some t\<rparr>)) m2" using link_timeout [OF _ assms(3) False] by fastforce
    then show ?thesis using m1(1) False assms(2) by (auto simp: set_handles_def intro!: armsI)
  qed
qed

lemma arm_read:
  assumes "linked acc (T(i := th)) m" "set_handles th = (False, w, z)" "clock_ok now n" "acc i = None"
  shows "arms acc T i (arm now EV_READ i n (th, m)) (True, w, n \<noteq> 0 \<or> z)"
proof -
  have "th_read th = None" using assms(2) by (simp add: set_handles_def)
  then obtain t m1 where m1: "thread_add_read Call_read (Some i) i m = (Some t, m1)" "linked acc (T(i := th\<lparr>th_read := Some t\<rparr>)) m1"
    using link_read [OF assms(1) _ assms(4)] by blast
  let ?th = "th\<lparr>th_read := Some t\<rparr>"
  obtain m2 where m2: "cancel_handle (th_timeout ?th) m1 = Some m2" "linked acc (T(i := ?th\<lparr>th_timeout := None\<rparr>)) m2"
    using link_cancel(3) [OF m1(2)] by blast
  show ?thesis
  proof (cases "n = 0")
    case True
    then show ?thesis using m1 assms(2) by (auto simp: set_handles_def intro!: armsI)
  next
    case False
    then obtain u m3 where "arm_timeout now i n (?th, m2) = Some (?th\<lparr>th_timeout := Some u\<rparr>, m3)"
      "linked acc (T(i := ?th\<lparr>th_timeout := Some u\<rparr>)) m3" using link_timeout [OF m2(2) assms(3)] by blast
    then show ?thesis using m1(1) m2(1) False assms(2) by (auto simp: set_handles_def intro!: armsI)
  qed
qed

lemma close_arms:
  assumes "linked acc (T(i := th)) m"
  shows "arms acc T i (close_threads (th, m)) (False, False, False)"
proof -
  obtain m1 where m1: "cancel_handle (th_read th) m = Some m1" "linked acc (T(i := th\<lparr>th_read := None\<rparr>)) m1"
    using link_cancel(1) [OF assms] by blast
  obtain m2 where m2: "cancel_handle (th_write th) m1 = Some m2" "linked acc (T(i := th\<lparr>th_read := None, th_write := None\<rparr>)) m2"
    using link_cancel(2) [OF m1(2)] by auto
  obtain m3 where m3: "cancel_handle (th_timeout th) m2 = Some m3"
      "linked acc (T(i := th\<lparr>th_read := None, th_write := None, th_timeout := None\<rparr>)) m3"
    using link_cancel(3) [OF m2(2)] by auto
  have "th\<lparr>th_read := None, th_write := None, th_timeout := None\<rparr> = no_handles" by (cases th) (simp add: no_handles_def)
  then have "linked acc (T(i := no_handles)) m3" using m3(2) by simp
  then show ?thesis using m1(1) m2(1) m3(1) armsI [of acc T i no_handles m3] by (simp add: close_threads_def set_handles_def no_handles_def)
qed

lemma limits_arms:
  assumes "linked acc (T(i := th)) m" "set_handles th = (r, w, k \<noteq> 0)" "\<forall>(now, n) \<in> set rs. clock_ok now n"
  shows "arms acc T i (set_limits rs i (th, m)) (r, w, last (k # map snd rs) \<noteq> 0)"
  using assms
proof (induction rs arbitrary: th m k)
  case (Cons x rs)
  obtain now n where x: "x = (now, n)" by (cases x)
  have "arms acc T i (Option.bind (arm now EV_TIMEOUT_RESET i n (th, m)) (set_limits rs i)) (r, w, last (n # map snd rs) \<noteq> 0)"
  proof (rule arms_bind [OF arm_reset [OF Cons.prems(1,2)]])
    show "clock_ok now n" using Cons.prems(3) x by simp
    show "arms acc T i (set_limits rs i (th', m')) (r, w, last (n # map snd rs) \<noteq> 0)"
      if "linked acc (T(i := th')) m'" "set_handles th' = (r, w, n \<noteq> 0)" for th' m'
      by (rule Cons.IH [OF that]) (use Cons.prems(3) in simp)
  qed
  then show ?case by (simp add: x)
qed (auto intro: armsI)

definition flags :: "vty option \<Rightarrow> bool \<times> bool \<times> bool" where
  "flags v = (case v of None \<Rightarrow> (False, False, False) | Some u \<Rightarrow> (vt_t_read u, vt_t_write u, vt_t_timeout u))"

lemma go_on_arms:
  assumes "linked acc (T(i := th)) m" "set_handles th = (False, w, z)" "acc i = None"
    "\<And>v. v' = Some v \<Longrightarrow> clock_ok now (vt_v_timeout v) \<and> flags v' = (True, True, vt_v_timeout v \<noteq> 0 \<or> z)"
  shows "arms acc T i (go_on now i v' (th, m)) (flags v')"
proof (cases v')
  case None
  then show ?thesis using close_arms [OF assms(1)] by (simp add: go_on_def flags_def)
next
  case (Some v)
  have "arms acc T i (Option.bind (arm now EV_WRITE i (vt_v_timeout v) (th, m)) (arm now EV_READ i (vt_v_timeout v)))
      (True, True, vt_v_timeout v \<noteq> 0 \<or> z)"
    by (rule arms_bind [OF arm_write [OF assms(1,2)]], rule arm_read) (use assms(3,4) Some in auto)
  then show ?thesis using Some assms(4) by (simp add: go_on_def)
qed

end
