(* ===== verification/SessionWorld.thy ===== *)
theory SessionWorld
  imports SessionArmed
begin

text \<open>
  One turn of the loop after the other: the fetched call, its handler, and the threads that the handler adds
  and cancels. The invariant \<open>world_ok\<close>: sessions, handles and the lists of the scheduler agree.
\<close>

section \<open>Every call keeps handles and threads together\<close>

lemma link_fetch:
  assumes "linked acc T m" "\<forall>e \<in> set es. time_ok (e_now e)"
  shows "\<exists>r. thread_fetch es m = Some r"
    "thread_fetch es m = Some (Fetched x m') \<Longrightarrow> \<exists>s t. handle_at acc T s = Some t \<and> belongs s (t_func x, t_arg x, t_u x)
       \<and> (\<exists>p. keeps_calls vty_kind m' p \<and> matches ((handle_at acc T)(s := None)) p)"
proof -
  obtain p where p: "keeps_calls vty_kind m p" "matches (handle_at acc T) p" using assms(1) by (auto simp: linked_def)
  obtain r where r: "thread_fetch es m = Some r" "case r of
      Fetched x m' \<Rightarrow> \<exists>t. p t = Some (t_func x, t_arg x, t_u x) \<and> keeps_calls vty_kind m' (p(t := None))
    | No_thread m' \<Rightarrow> keeps_calls vty_kind m' p | Waiting m' \<Rightarrow> keeps_calls vty_kind m' p"
    using holds_fetch [OF p(1) assms(2)] by blast
  then show "\<exists>r. thread_fetch es m = Some r" by blast
  assume "thread_fetch es m = Some (Fetched x m')"
  then obtain t where t: "p t = Some (t_func x, t_arg x, t_u x)" "keeps_calls vty_kind m' (p(t := None))" using r by auto
  obtain s where s: "handle_at acc T s = Some t" "belongs s (t_func x, t_arg x, t_u x)" using matchesD(1) [OF p(2) t(1)] by blast
  show "\<exists>s t. handle_at acc T s = Some t \<and> belongs s (t_func x, t_arg x, t_u x)
       \<and> (\<exists>p. keeps_calls vty_kind m' p \<and> matches ((handle_at acc T)(s := None)) p)"
    using s t(2) matches_cut [OF p(2) s(1)] by blast
qed

lemma fetched_handle:
  assumes "linked acc T m" "\<forall>e \<in> set es. time_ok (e_now e)" "thread_fetch es m = Some (Fetched x m')"
  shows "case t_func x of
      Call_accept \<Rightarrow> \<exists>k. t_u x = Fd k \<and> acc k \<noteq> None \<and> linked (acc(k := None)) T m'
    | Call_read \<Rightarrow> \<exists>i. t_arg x = Some i \<and> th_read (T i) \<noteq> None \<and> linked acc (T(i := (T i)\<lparr>th_read := None\<rparr>)) m'
    | Call_flush \<Rightarrow> \<exists>i. t_arg x = Some i \<and> th_write (T i) \<noteq> None \<and> linked acc (T(i := (T i)\<lparr>th_write := None\<rparr>)) m'
    | Call_timeout \<Rightarrow> \<exists>i. t_arg x = Some i \<and> th_timeout (T i) \<noteq> None \<and> linked acc (T(i := (T i)\<lparr>th_timeout := None\<rparr>)) m'"
proof -
  obtain f i t p where s: "handle_at acc T (f, i) = Some t" "belongs (f, i) (t_func x, t_arg x, t_u x)"
    "keeps_calls vty_kind m' p" "matches ((handle_at acc T)((f, i) := None)) p"
    using link_fetch(2) [OF assms] by (metis surj_pair)
  have cut: "(handle_at acc T)((Call_accept, i) := None) = handle_at (acc(i := None)) T"
    "(handle_at acc T)((Call_read, i) := None) = handle_at acc (T(i := (T i)\<lparr>th_read := None\<rparr>))"
    "(handle_at acc T)((Call_flush, i) := None) = handle_at acc (T(i := (T i)\<lparr>th_write := None\<rparr>))"
    "(handle_at acc T)((Call_timeout, i) := None) = handle_at acc (T(i := (T i)\<lparr>th_timeout := None\<rparr>))"
    by (simp_all add: handle_at_upd)
  have f: "t_func x = f" using s(2) by (simp add: belongs_def)
  show ?thesis
  proof (cases f)
    case Call_accept
    have "linked (acc(i := None)) T m'" using s(3,4) unfolding Call_accept cut linked_def by blast
    then show ?thesis using s(1,2) Call_accept f by (simp add: belongs_def handle_at_def)
  next
    case Call_read
    have "linked acc (T(i := (T i)\<lparr>th_read := None\<rparr>)) m'" using s(3,4) unfolding Call_read cut linked_def by blast
    then show ?thesis using s(1,2) Call_read f by (simp add: belongs_def handle_at_def)
  next
    case Call_flush
    have "linked acc (T(i := (T i)\<lparr>th_write := None\<rparr>)) m'" using s(3,4) unfolding Call_flush cut linked_def by blast
    then show ?thesis using s(1,2) Call_flush f by (simp add: belongs_def handle_at_def)
  next
    case Call_timeout
    have "linked acc (T(i := (T i)\<lparr>th_timeout := None\<rparr>)) m'" using s(3,4) unfolding Call_timeout cut linked_def by blast
    then show ?thesis using s(1,2) Call_timeout f by (simp add: belongs_def handle_at_def)
  qed
qed

lemma handles_none: "set_handles th = (False, False, False) \<longleftrightarrow> th = no_handles"
  by (cases th) (auto simp: set_handles_def no_handles_def)

lemma set_handles_upd [simp]:
  "set_handles (th\<lparr>th_read := x\<rparr>) = (x \<noteq> None, snd (set_handles th))"
  "set_handles (th\<lparr>th_write := x\<rparr>) = (fst (set_handles th), x \<noteq> None, snd (snd (set_handles th)))"
  "set_handles (th\<lparr>th_timeout := x\<rparr>) = (fst (set_handles th), fst (snd (set_handles th)), x \<noteq> None)"
  by (simp_all add: set_handles_def)

lemma read_arms:
  assumes "linked acc (T(i := th\<lparr>th_read := None\<rparr>)) m" "set_handles th = (r, w, k \<noteq> 0)" "acc i = None"
    "\<forall>(now, n) \<in> set rs. clock_ok now n"
    "\<And>v. v' = Some v \<Longrightarrow> clock_ok now (vt_v_timeout v) \<and> flags v' = (True, True, vt_v_timeout v \<noteq> 0)
       \<and> vt_v_timeout v = last (k # map snd rs)"
  shows "arms acc T i (read_threads now rs i v' (th, m)) (flags v')"
proof -
  have "arms acc T i (Option.bind (set_limits rs i (th\<lparr>th_read := None\<rparr>, m)) (go_on now i v')) (flags v')"
  proof (rule arms_bind [OF limits_arms [OF assms(1) _ assms(4)]])
    show "set_handles (th\<lparr>th_read := None\<rparr>) = (False, w, k \<noteq> 0)" using assms(2) by simp
    show "arms acc T i (go_on now i v' (th', m')) (flags v')"
      if "linked acc (T(i := th')) m'" "set_handles th' = (False, w, last (k # map snd rs) \<noteq> 0)" for th' m'
      by (rule go_on_arms [OF that assms(3)]) (use assms(5) in auto)
  qed
  then show ?thesis by (simp add: read_threads_def)
qed

lemma flush_arms:
  assumes "linked acc (T(i := th\<lparr>th_write := None\<rparr>)) m" "set_handles th = (vt_t_read v, w, vt_t_timeout v)" "acc i = None"
    "vt_v_timeout v \<noteq> 0 \<longleftrightarrow> vt_t_timeout v" "\<And>u. v' = Some u \<Longrightarrow> flushed v u \<and> clock_ok now (vt_v_timeout u)"
  shows "arms acc T i (flush_threads now i v v' (th, m)) (flags v')"
proof -
  let ?th = "th\<lparr>th_write := None\<rparr>"
  let ?r = "vt_lines v \<noteq> 0 \<and> vt_t_read v"
  let ?first = "if vt_lines v = 0 then map_option (Pair (?th\<lparr>th_read := None\<rparr>)) (cancel_handle (th_read ?th) m) else Some (?th, m)"
  let ?ev = "\<lambda>u k. arm now k i (vt_v_timeout u)"
  have 1: "arms acc T i ?first (?r, False, vt_t_timeout v)"
  proof (cases "vt_lines v = 0")
    case True
    then show ?thesis using link_cancel(1) [OF assms(1)] assms(2) by (auto intro!: armsI)
  qed (use assms(1,2) in \<open>auto intro!: armsI\<close>)
  have 2: "arms acc T i (case v' of None \<Rightarrow> close_threads (th', m')
      | Some u \<Rightarrow> if vt_status v = VTY_START \<or> vt_status v = VTY_CONTINUE
        then Option.bind (?ev u EV_WRITE (th', m')) (\<lambda>y. if vt_lines u = 0 then ?ev u EV_READ y else Some y)
        else if vt_lines u \<noteq> 0 then Some (th', m')
        else if buffer_empty (vt_obuf u) then ?ev u EV_READ (th', m') else ?ev u EV_WRITE (th', m')) (flags v')"
    if l: "linked acc (T(i := th')) m'" and s: "set_handles th' = (?r, False, vt_t_timeout v)" for th' m'
  proof (cases v')
    case None
    then show ?thesis using close_arms [OF l] by (simp add: flags_def)
  next
    case (Some u)
    have u: "flushed v u" "clock_ok now (vt_v_timeout u)" using assms(5) Some by auto
    have z: "vt_lines u = vt_lines v" "vt_t_timeout u = vt_t_timeout v" "(vt_v_timeout u \<noteq> 0 \<or> vt_t_timeout v) = vt_t_timeout v"
      using u(1) assms(4) by (auto simp: flushed_def)
    have w: "arms acc T i (?ev u EV_WRITE (th', m')) (?r, True, vt_t_timeout v)" by (rule arm_write [OF l s])
    have rd: "arms acc T i (?ev u EV_READ (th2, m2)) (True, b, vt_t_timeout v)"
      if "linked acc (T(i := th2)) m2" "set_handles th2 = (False, b, vt_t_timeout v)" for th2 m2 b
      using arm_read [OF that u(2) assms(3)] z(3) by simp
    show ?thesis
    proof (cases "vt_status v = VTY_START \<or> vt_status v = VTY_CONTINUE")
      case True
      have "arms acc T i (Option.bind (?ev u EV_WRITE (th', m')) (\<lambda>y. if vt_lines u = 0 then ?ev u EV_READ y else Some y))
          (vt_lines v = 0 \<or> vt_t_read v, True, vt_t_timeout v)"
        by (rule arms_bind [OF w]) (use rd z(1) in \<open>auto intro: armsI\<close>)
      then show ?thesis using True Some u(1) z by (simp add: flushed_def flags_def)
    next
      case False
      then show ?thesis
        using rd [OF l, of False] w s armsI [OF l s] z u(1) Some
        by (cases "vt_lines v = 0"; cases "buffer_empty (vt_obuf u)") (simp_all add: flushed_def flags_def del: arm.simps)
    qed
  qed
  have "arms acc T i (Option.bind ?first (\<lambda>x. case v' of None \<Rightarrow> close_threads x
      | Some u \<Rightarrow> if vt_status v = VTY_START \<or> vt_status v = VTY_CONTINUE
        then Option.bind (?ev u EV_WRITE x) (\<lambda>y. if vt_lines u = 0 then ?ev u EV_READ y else Some y)
        else if vt_lines u \<noteq> 0 then Some x
        else if buffer_empty (vt_obuf u) then ?ev u EV_READ x else ?ev u EV_WRITE x)) (flags v')"
    by (rule arms_bind [OF 1], rule 2)
  then show ?thesis unfolding flush_threads_def Let_def prod.case .
qed

section \<open>The loop\<close>

definition world_ok :: "nat set \<Rightarrow> 'x world \<Rightarrow> bool" where
  "world_ok socks w \<longleftrightarrow> sys_inv (w_lib w) \<and> vec_ok (w_serv w)
     \<and> linked (vector_lookup (w_serv w)) (w_threads w) (w_master w)
     \<and> (\<forall>i. set_handles (w_threads w i) = flags (session_of i (w_lib w)))
     \<and> (\<forall>k. vector_lookup (w_serv w) k \<noteq> None \<longleftrightarrow> k \<in> socks) \<and> (\<forall>k \<in> socks. session_of k (w_lib w) = None)"

lemma world_okD:
  assumes "world_ok socks w"
  shows "sys_inv (w_lib w)" "vec_ok (w_serv w)" "linked (vector_lookup (w_serv w)) (w_threads w) (w_master w)"
    "set_handles (w_threads w i) = flags (session_of i (w_lib w))" "vector_lookup (w_serv w) k \<noteq> None \<longleftrightarrow> k \<in> socks"
    "k \<in> socks \<Longrightarrow> session_of k (w_lib w) = None"
  using assms unfolding world_ok_def by blast+

lemma world_ok_session:
  assumes "world_ok socks w" "session_of i (w_lib w) = Some v"
  shows "i \<notin> socks" "vector_lookup (w_serv w) i = None" "set_handles (w_threads w i) = (vt_t_read v, vt_t_write v, vt_t_timeout v)"
    "vt_v_timeout v \<noteq> 0 \<longleftrightarrow> vt_t_timeout v" "set_handles (w_threads w i) = (vt_t_read v, vt_t_write v, vt_v_timeout v \<noteq> 0)"
proof -
  show s: "i \<notin> socks" using world_okD(6) [OF assms(1)] assms(2) by auto
  then show "vector_lookup (w_serv w) i = None" using world_okD(5) [OF assms(1), of i] by blast
  show z: "vt_v_timeout v \<noteq> 0 \<longleftrightarrow> vt_t_timeout v"
    using inv_session(2) [OF world_okD(1) [OF assms(1)] assms(2)] by (simp add: served_def)
  show f: "set_handles (w_threads w i) = (vt_t_read v, vt_t_write v, vt_t_timeout v)"
    using world_okD(4) [OF assms(1), of i] assms(2) by (simp add: flags_def)
  then show "set_handles (w_threads w i) = (vt_t_read v, vt_t_write v, vt_v_timeout v \<noteq> 0)" using z by simp
qed

text \<open>The end of a call: the session's handles are those that its flags say.\<close>

lemma world_end:
  assumes "arms (vector_lookup sv) T i r (flags (session_of i l'))" "leaves l i l' F" "sys_inv l'" "vec_ok sv"
    "\<forall>j. set_handles (T j) = flags (session_of j l)" "\<forall>k. vector_lookup sv k \<noteq> None \<longleftrightarrow> k \<in> socks"
    "\<forall>k \<in> socks. session_of k l = None" "i \<notin> socks"
  shows "\<exists>th m. r = Some (th, m) \<and> world_ok socks (w\<lparr>w_lib := l', w_threads := T(i := th), w_serv := sv, w_master := m\<rparr>)"
proof -
  obtain th m where r: "r = Some (th, m)" "linked (vector_lookup sv) (T(i := th)) m" "set_handles th = flags (session_of i l')"
    using assms(1) by (auto simp: arms_def)
  have "set_handles ((T(i := th)) j) = flags (session_of j l')" for j
    using r(3) assms(2,5) by (simp add: leaves_def)
  moreover have "\<forall>k \<in> socks. session_of k l' = None" using assms(2,7,8) by (auto simp: leaves_def)
  ultimately show ?thesis using r(1,2) assms(3,4,6) by (simp add: world_ok_def)
qed

text \<open>One turn of the loop: it does nothing to the sessions, or it is one of their events.\<close>

definition turn_ok ::
  "'f cmd_node vec \<Rightarrow> ('f, 'x) runner \<Rightarrow> nat set \<Rightarrow> outside \<Rightarrow> (vty_call, nat option) thread \<Rightarrow> 'x world \<Rightarrow> vty_master \<Rightarrow> bool" where
  "turn_ok tbl run socks o' x w m \<longleftrightarrow>
     (case event_of o' x of
        None \<Rightarrow> (\<exists>w'. thread_call tbl run o' x (w\<lparr>w_master := m\<rparr>) = Some w' \<and> world_ok socks w' \<and> w_lib w' = w_lib w)
      | Some (e, i) \<Rightarrow> enabled e (w_lib w) \<and> (\<forall>l'. handle tbl run e (w_lib w) = Cont l' \<longrightarrow>
          (\<exists>w'. thread_call tbl run o' x (w\<lparr>w_master := m\<rparr>) = Some w' \<and> world_ok socks w' \<and> w_lib w' = l')))"

context command_set
begin

lemma turn_accept:
  assumes ok: "world_ok socks w" and x: "t_func x = Call_accept" and k: "t_u x = Fd k" "vector_lookup (w_serv w) k \<noteq> None"
    and l: "linked ((vector_lookup (w_serv w))(k := None)) (w_threads w) m" and o: "outside_ok tbl run socks o' x (w_lib w)"
  shows "turn_ok tbl run socks o' x w m"
proof -
  note w = world_okD [OF ok]
  have ks: "k \<in> socks" using k(2) w(5) by blast
  have "set_handles (w_threads w k) = (False, False, False)" using w(4) [of k] w(6) [OF ks] by (simp add: flags_def)
  then have "th_read (w_threads w k) = None" by (simp add: handles_none no_handles_def)
  then obtain t m1 where m1: "thread_add_read Call_accept None k m = (Some t, m1)"
    "linked ((vector_lookup (w_serv w))(k \<mapsto> t)) (w_threads w) m1"
    using link_accept [OF l, of k] by auto
  define sv where "sv = vector_set_index k (Some t) (w_serv w)"
  have sv: "vec_ok sv" "vector_lookup sv = (vector_lookup (w_serv w))(k \<mapsto> t)"
    using w(2) by (auto simp: sv_def vector_set_index_ok vec.lookup_put fun_eq_iff)
  have sk: "\<forall>j. vector_lookup sv j \<noteq> None \<longleftrightarrow> j \<in> socks" using w(5) ks by (auto simp: sv(2))
  have ls: "listen (u_fd (t_u x)) (w_serv w, m) = (sv, m1)" using k(1) m1(1) by (simp add: listen_def sv_def)
  show ?thesis
  proof (cases "o_conn o'")
    case None
    have "world_ok socks (w\<lparr>w_serv := sv, w_master := m1\<rparr>)"
      using w(1,4,6) sv sk m1(2) by (simp add: world_ok_def)
    then show ?thesis using None x ls by (simp add: turn_ok_def event_of_def thread_call_def)
  next
    case (Some c)
    obtain i a where c: "c = (i, a)" by (cases c)
    have i: "i \<notin> socks" "session_of i (w_lib w) = None" using o x Some c by (simp_all add: outside_ok_def)
    have ev: "event_of o' x = Some (Accept i a, i)" using x Some c by (simp add: event_of_def)
    have "\<exists>w'. thread_call tbl run o' x (w\<lparr>w_master := m\<rparr>) = Some w' \<and> world_ok socks w' \<and> w_lib w' = l'"
      if h: "handle tbl run (Accept i a) (w_lib w) = Cont l'" for l'
    proof -
      have c: "vty_create tbl i a (w_lib w) = Cont l'" using h by simp
      have inv: "sys_inv l'" by (rule ends_inv [OF w(1) create_ends [OF w(1) i(2) c]])
      note lv = ends_leaves [OF create_ends [OF w(1) i(2) c]]
      have nh: "w_threads w i = no_handles" using w(4) [of i] i(2) by (simp add: flags_def handles_none)
      have "arms (vector_lookup sv) (w_threads w) i (go_on (o_now o') i (session_of i l') (no_handles, m1)) (flags (session_of i l'))"
      proof (rule go_on_arms)
        show "linked (vector_lookup sv) ((w_threads w)(i := no_handles)) m1" using m1(2) nh sv(2) by (metis fun_upd_triv)
        show "set_handles no_handles = (False, False, False)" by (simp add: handles_none)
        show "vector_lookup sv i = None" using sk i(1) by blast
        show "clock_ok (o_now o') (vt_v_timeout v) \<and> flags (session_of i l') = (True, True, vt_v_timeout v \<noteq> 0 \<or> False)"
          if "session_of i l' = Some v" for v
          using that lv inv_session(2) [OF inv that] o ev h by (auto simp: leaves_def flags_def served_def outside_ok_def)
      qed
      from world_end [OF this lv inv sv(1) _ sk _ i(1), of w] w(4,6)
      obtain th m2 where "go_on (o_now o') i (session_of i l') (no_handles, m1) = Some (th, m2)"
        "world_ok socks (w\<lparr>w_lib := l', w_threads := (w_threads w)(i := th), w_serv := sv, w_master := m2\<rparr>)" by auto
      then show ?thesis using x ls ev h by (simp add: thread_call_def handler_threads_def world_ok_def)
    qed
    then show ?thesis using ev i(2) by (simp add: turn_ok_def)
  qed
qed

lemma turn_session:
  assumes ok: "world_ok socks w" and s: "session_of i (w_lib w) = Some v" and ev: "event_of o' x = Some (e, i)" "t_func x \<noteq> Call_accept"
    and en: "enabled e (w_lib w)" and lv: "\<And>l'. handle tbl run e (w_lib w) = Cont l' \<Longrightarrow> leaves (w_lib w) i l' F"
    and ar: "\<And>l'. handle tbl run e (w_lib w) = Cont l' \<Longrightarrow> sys_inv l' \<Longrightarrow>
      arms (vector_lookup (w_serv w)) (w_threads w) i (handler_threads o' (t_func x) i (Some v) (session_of i l') (w_threads w i, m))
        (flags (session_of i l'))"
  shows "turn_ok tbl run socks o' x w m"
proof -
  note w = world_okD [OF ok]
  have "\<exists>w'. thread_call tbl run o' x (w\<lparr>w_master := m\<rparr>) = Some w' \<and> world_ok socks w' \<and> w_lib w' = l'"
    if h: "handle tbl run e (w_lib w) = Cont l'" for l'
  proof -
    have inv: "sys_inv l'" by (rule handle_inv [OF w(1) en h])
    from world_end [OF ar [OF h inv] lv [OF h] inv w(2), of socks w] w(4-6) world_ok_session(1) [OF ok s]
    obtain th m1 where
      "handler_threads o' (t_func x) i (Some v) (session_of i l') (w_threads w i, m) = Some (th, m1)"
      "world_ok socks (w\<lparr>w_lib := l', w_threads := (w_threads w)(i := th), w_serv := w_serv w, w_master := m1\<rparr>)" by auto
    then show ?thesis using ev h s by (simp add: thread_call_def)
  qed
  then show ?thesis using ev(1) en by (simp add: turn_ok_def)
qed

lemma turn:
  assumes ok: "world_ok socks w" and es: "\<forall>e \<in> set es. time_ok (e_now e)"
    and f: "thread_fetch es (w_master w) = Some (Fetched x m)" and o: "outside_ok tbl run socks o' x (w_lib w)"
  shows "turn_ok tbl run socks o' x w m"
proof -
  note w = world_okD [OF ok]
  note fh = fetched_handle [OF w(3) es f]
  have some: "\<exists>v. session_of i (w_lib w) = Some v" if "w_threads w i \<noteq> no_handles" for i
    using that w(4) [of i] by (auto simp: flags_def handles_none split: option.splits)
  have clock: "clock_ok (o_now o') (vt_v_timeout u)"
    if "event_of o' x = Some (e, i)" "handle tbl run e (w_lib w) = Cont l'" "session_of i l' = Some u" for e i l' u
    using o that by (auto simp: outside_ok_def)
  show ?thesis
  proof (cases "t_func x")
    case Call_accept
    then show ?thesis using fh turn_accept [OF ok Call_accept _ _ _ o] by auto
  next
    case Call_read
    obtain i where i: "t_arg x = Some i" "th_read (w_threads w i) \<noteq> None"
      "linked (vector_lookup (w_serv w)) ((w_threads w)(i := (w_threads w i)\<lparr>th_read := None\<rparr>)) m"
      using fh Call_read by auto
    obtain v where v: "session_of i (w_lib w) = Some v" using some [of i] i(2) by (cases "w_threads w i = no_handles") (auto simp: no_handles_def)
    note ws = world_ok_session [OF ok v]
    have ev: "event_of o' x = Some (Input i (o_bytes o'), i)" using Call_read i(1) by (simp add: event_of_def)
    show ?thesis
    proof (rule turn_session [OF ok v ev])
      show "enabled (Input i (o_bytes o')) (w_lib w)" using v ws(3) i(2) by (simp add: set_handles_def)
      fix l'
      assume h: "handle tbl run (Input i (o_bytes o')) (w_lib w) = Cont l'"
      then show lv: "leaves (w_lib w) i l' (\<lambda>v. vt_t_read v \<and> vt_t_write v)" using ends_leaves [OF read_ends [OF w(1) v]] v by simp
      assume inv: "sys_inv l'"
      have "arms (vector_lookup (w_serv w)) (w_threads w) i
          (read_threads (o_now o') (o_limits o') i (session_of i l') (w_threads w i, m)) (flags (session_of i l'))"
      proof (rule read_arms [OF i(3) ws(5,2)])
        show "\<forall>(now, n) \<in> set (o_limits o'). clock_ok now n" using o by (simp add: outside_ok_def)
        show "clock_ok (o_now o') (vt_v_timeout u) \<and> flags (session_of i l') = (True, True, vt_v_timeout u \<noteq> 0)
            \<and> vt_v_timeout u = last (vt_v_timeout v # map snd (o_limits o'))" if u: "session_of i l' = Some u" for u
          using lv inv_session(2) [OF inv u] clock [OF ev h u] u o ev h Call_read v
          unfolding outside_ok_def by (auto simp: leaves_def flags_def served_def)
      qed
      then show "arms (vector_lookup (w_serv w)) (w_threads w) i
          (handler_threads o' (t_func x) i (Some v) (session_of i l') (w_threads w i, m)) (flags (session_of i l'))"
        by (simp add: handler_threads_def Call_read)
    qed (simp add: Call_read)
  next
    case Call_flush
    obtain i where i: "t_arg x = Some i" "th_write (w_threads w i) \<noteq> None"
      "linked (vector_lookup (w_serv w)) ((w_threads w)(i := (w_threads w i)\<lparr>th_write := None\<rparr>)) m"
      using fh Call_flush by auto
    obtain v where v: "session_of i (w_lib w) = Some v" using some [of i] i(2) by (cases "w_threads w i = no_handles") (auto simp: no_handles_def)
    note ws = world_ok_session [OF ok v]
    have ev: "event_of o' x = Some (Writable i, i)" using Call_flush i(1) by (simp add: event_of_def)
    show ?thesis
    proof (rule turn_session [OF ok v ev])
      show "enabled (Writable i) (w_lib w)" using v ws(3) i(2) by (simp add: set_handles_def)
      fix l'
      assume h: "handle tbl run (Writable i) (w_lib w) = Cont l'"
      then show lv: "leaves (w_lib w) i l' (flushed v)" using ends_leaves [OF flush_ends [OF w(1) v]] v by simp
      have "arms (vector_lookup (w_serv w)) (w_threads w) i
          (flush_threads (o_now o') i v (session_of i l') (w_threads w i, m)) (flags (session_of i l'))"
        by (rule flush_arms [OF i(3) ws(3,2,4)]) (use lv clock [OF ev h] in \<open>auto simp: leaves_def\<close>)
      then show "arms (vector_lookup (w_serv w)) (w_threads w) i
          (handler_threads o' (t_func x) i (Some v) (session_of i l') (w_threads w i, m)) (flags (session_of i l'))"
        by (simp add: handler_threads_def Call_flush)
    qed (simp add: Call_flush)
  next
    case Call_timeout
    obtain i where i: "t_arg x = Some i" "th_timeout (w_threads w i) \<noteq> None"
      "linked (vector_lookup (w_serv w)) ((w_threads w)(i := (w_threads w i)\<lparr>th_timeout := None\<rparr>)) m"
      using fh Call_timeout by auto
    obtain v where v: "session_of i (w_lib w) = Some v" using some [of i] i(2) by (cases "w_threads w i = no_handles") (auto simp: no_handles_def)
    note ws = world_ok_session [OF ok v]
    have ev: "event_of o' x = Some (Expired i, i)" using Call_timeout i(1) by (simp add: event_of_def)
    show ?thesis
    proof (rule turn_session [OF ok v ev])
      show "enabled (Expired i) (w_lib w)" using v ws(3) i(2) by (simp add: set_handles_def)
      fix l'
      assume h: "handle tbl run (Expired i) (w_lib w) = Cont l'"
      then have l': "l' = vty_timeout \<lparr>s_lib = w_lib w, s_vty = v\<rparr>" using v by simp
      show lv: "leaves (w_lib w) i l' (\<lambda>v. False)" unfolding l' by (rule ends_leaves [OF timeout_ends [OF w(1) v]])
      have "flags (session_of i l') = (False, False, False)" using lv by (auto simp: leaves_def flags_def split: option.splits)
      then show "arms (vector_lookup (w_serv w)) (w_threads w) i
          (handler_threads o' (t_func x) i (Some v) (session_of i l') (w_threads w i, m)) (flags (session_of i l'))"
        using close_arms [OF i(3)] by (simp add: handler_threads_def Call_timeout timeout_threads_def)
    qed (simp add: Call_timeout)
  qed
qed

lemma loop_ok:
  assumes "thread_loop tbl run socks w0 w" "world_ok socks w0"
  shows "world_ok socks w \<and> reachable tbl run (w_lib w0) (w_lib w)"
  using assms
proof (induction rule: thread_loop.induct)
  case loop_start
  then show ?case by (simp add: reach_start)
next
  case (loop_step w es x m o' w')
  then have ok: "world_ok socks w" "reachable tbl run (w_lib w0) (w_lib w)" by blast+
  have t: "turn_ok tbl run socks o' x w m" by (rule turn [OF ok(1) loop_step.hyps(2-4)])
  show ?case
  proof (cases "event_of o' x")
    case None
    then show ?thesis using t ok(2) loop_step.hyps(5) by (auto simp: turn_ok_def)
  next
    case (Some ei)
    obtain e i where e: "event_of o' x = Some (e, i)" using Some by (cases ei) simp
    have en: "enabled e (w_lib w)" and all: "\<And>l'. handle tbl run e (w_lib w) = Cont l' \<Longrightarrow>
        \<exists>w'. thread_call tbl run o' x (w\<lparr>w_master := m\<rparr>) = Some w' \<and> world_ok socks w' \<and> w_lib w' = l'"
      using t e by (auto simp: turn_ok_def)
    obtain l' where l': "handle tbl run e (w_lib w) = Cont l'"
      using loop_step.hyps(5) e by (auto simp: thread_call_def Let_def case_prod_beta split: outcome.splits if_splits)
    then have "world_ok socks w' \<and> w_lib w' = l'" using all [OF l'] loop_step.hyps(5) by auto
    then show ?thesis using reach_step [OF ok(2) en] l' by blast
  qed
qed

end

section \<open>The start\<close>

lemma listen_all:
  assumes "linked (vector_lookup sv) T m" "vec_ok sv" "distinct socks" "\<forall>k \<in> set socks. vector_lookup sv k = None \<and> th_read (T k) = None"
    "fold listen socks (sv, m) = (sv', m')"
  shows "linked (vector_lookup sv') T m' \<and> vec_ok sv' \<and> (\<forall>k. vector_lookup sv' k \<noteq> None \<longleftrightarrow> k \<in> set socks \<or> vector_lookup sv k \<noteq> None)"
  using assms
proof (induction socks arbitrary: sv m)
  case (Cons k socks)
  obtain t m1 where m1: "thread_add_read Call_accept None k m = (Some t, m1)" "linked ((vector_lookup sv)(k \<mapsto> t)) T m1"
    using link_accept [OF Cons.prems(1), of k] Cons.prems(4) by auto
  let ?sv = "vector_set_index k (Some t) sv"
  have sv: "vector_lookup ?sv = (vector_lookup sv)(k \<mapsto> t)" "vec_ok ?sv"
    using Cons.prems(2) by (auto simp: vector_set_index_ok vec.lookup_put fun_eq_iff)
  have f: "fold listen socks (?sv, m1) = (sv', m')" using Cons.prems(5) m1(1) by (simp add: listen_def [of k])
  have "linked (vector_lookup ?sv) T m1" "distinct socks" "\<forall>j \<in> set socks. vector_lookup ?sv j = None \<and> th_read (T j) = None"
    using m1(2) Cons.prems(3,4) unfolding sv(1) by auto
  from Cons.IH [OF this(1) sv(2) this(2,3)] f
  have "linked (vector_lookup sv') T m' \<and> vec_ok sv'
      \<and> (\<forall>j. vector_lookup sv' j \<noteq> None \<longleftrightarrow> j \<in> set socks \<or> vector_lookup ?sv j \<noteq> None)" by blast
  then show ?case by (auto simp: sv(1))
qed simp

lemma start_ok:
  assumes "sys_start l" "distinct socks"
  shows "world_ok (set socks) (world_start h socks l)" "w_lib (world_start h socks l) = l"
proof -
  obtain sv m where f: "fold listen socks (vector_init 1, thread_master_create h) = (sv, m)"
    by (cases "fold listen socks (vector_init 1, thread_master_create h)")
  have e: "vector_lookup (vector_init n :: addr vec) k = None" for k n by (simp add: vector_lookup_slots)
  have "linked (vector_lookup (vector_init 1)) (\<lambda>i. no_handles) (thread_master_create h)"
    unfolding linked_def using holds_start
    by (intro exI [of _ Map.empty]) (auto simp: matches_def handle_at_def e no_handles_def split: vty_call.splits)
  from listen_all [OF this _ assms(2) _ f]
  have "linked (vector_lookup sv) (\<lambda>i. no_handles) m" "vec_ok sv" "\<forall>k. vector_lookup sv k \<noteq> None \<longleftrightarrow> k \<in> set socks"
    by (auto simp: e no_handles_def)
  moreover have "sys_inv l" using assms(1) by (simp add: sys_start_def sys_inv_def)
  moreover have w: "world_start h socks l = \<lparr>w_lib = l, w_threads = (\<lambda>i. no_handles), w_serv = sv, w_master = m\<rparr>"
    unfolding world_start_def f by simp
  ultimately show "world_ok (set socks) (world_start h socks l)"
    using assms(1) by (simp add: world_ok_def sys_start_def flags_def handles_none)
  show "w_lib (world_start h socks l) = l" by (simp add: w)
qed

end
