(* ===== verification/SessionLoop.thy ===== *)
theory SessionLoop
  imports SessionWorld
begin

text \<open>
  The program's loop from its start, over the scheduler with its linked lists: it is a run of the sessions
  as \<open>VtySystem\<close> has them, and it never fails.
\<close>

section \<open>Waiting threads in the linked lists\<close>

text \<open>A call waits when its thread is on one of the lists that are in use.\<close>

definition waits :: "vty_master \<Rightarrow> vty_call \<times> nat \<Rightarrow> bool" where
  "waits m s \<longleftrightarrow> (\<exists>k as. k \<noteq> THREAD_UNUSED \<and> dlist (m_thread m) (m_list m k) as
     \<and> (\<exists>t \<in> set as. belongs s (t_func (m_thread m t), t_arg (m_thread m t), t_u (m_thread m t))))"

lemma chain_unique: "chain h p as None \<Longrightarrow> chain h p bs None \<Longrightarrow> first as = first bs \<Longrightarrow> as = bs"
proof (induction as arbitrary: p bs)
  case Nil
  then show ?case by (cases bs) simp_all
next
  case (Cons a as)
  then obtain bs' where b: "bs = a # bs'" by (cases bs) auto
  have "first as = first bs'" using Cons.prems b by (auto simp: first_def split: list.splits)
  then show ?case using Cons.IH [of "Some a" bs'] Cons.prems b by simp
qed

lemma dlist_unique: "dlist h l as \<Longrightarrow> dlist h l bs \<Longrightarrow> as = bs"
  by (rule chain_unique [of h None]) (simp_all add: dlist_def)

lemma waits_iff:
  assumes "linked acc T m"
  shows "waits m s \<longleftrightarrow> handle_at acc T s \<noteq> None"
proof -
  obtain p q where p: "matches (handle_at acc T) p" "rel m q" "waiting q = p"
    using assms by (auto simp: linked_def keeps_calls_def)
  then have l: "links m q" by (simp add: rel_def)
  have w: "waiting q t = Some (t_func (m_thread m t), t_arg (m_thread m t), t_u (m_thread m t))"
    if "k \<noteq> THREAD_UNUSED" "t \<in> set (jq q k)" for k t
    using that links_job [OF l that(2), symmetric] by (auto simp: waiting_def pending_def job_of_def)
  show ?thesis
  proof
    assume "waits m s"
    then obtain k as t where k: "k \<noteq> THREAD_UNUSED" "dlist (m_thread m) (m_list m k) as" "t \<in> set as"
      "belongs s (t_func (m_thread m t), t_arg (m_thread m t), t_u (m_thread m t))" by (auto simp: waits_def)
    have "as = jq q k" by (rule dlist_unique [OF k(2) links_dlist [OF l]])
    then have "p t = Some (t_func (m_thread m t), t_arg (m_thread m t), t_u (m_thread m t))" using w k(1,3) p(3) by blast
    then obtain s' where "handle_at acc T s' = Some t" "belongs s' (t_func (m_thread m t), t_arg (m_thread m t), t_u (m_thread m t))"
      using matchesD(1) [OF p(1)] by blast
    then show "handle_at acc T s \<noteq> None" using belongs_unique [OF k(4)] by auto
  next
    assume "handle_at acc T s \<noteq> None"
    then obtain t c where t: "p t = Some c" "belongs s c" using matchesD(2) [OF p(1)] by blast
    then have "t \<in> pending q" using p(3) by (auto simp: waiting_def split: if_splits)
    then obtain k where k: "k \<noteq> THREAD_UNUSED" "t \<in> set (jq q k)" by (auto simp: pending_def)
    then show "waits m s" unfolding waits_def using w [OF k] t p(3) links_dlist [OF l] by force
  qed
qed

section \<open>The whole program on the scheduler\<close>

text \<open>The configuration is read, the sockets are opened, and then the loop runs.\<close>

definition program_loop :: "cmd_env \<Rightarrow> string \<Rightarrow> operator lib \<Rightarrow> (vty_call, nat option) heap \<Rightarrow> nat list \<Rightarrow> operator world \<Rightarrow> bool" where
  "program_loop e cfg l h socks w \<longleftrightarrow> distinct socks
     \<and> (\<exists>l0. vty_read_config netmt_table (run_command e netmt_table) (Some cfg) (Some '' '') '' '' l = Cont l0
        \<and> thread_loop netmt_table (run_command e netmt_table) (set socks) (world_start h socks l0) w)"

lemma program_loop_ok:
  assumes "program_loop e cfg l h socks w" "sys_start l"
  shows "world_ok (set socks) w" "program_reaches e cfg l (w_lib w)"
proof -
  obtain l0 where l0: "vty_read_config netmt_table (run_command e netmt_table) (Some cfg) (Some '' '') '' '' l = Cont l0"
    "thread_loop netmt_table (run_command e netmt_table) (set socks) (world_start h socks l0) w" "distinct socks"
    using assms(1) by (auto simp: program_loop_def)
  have st: "sys_start l0" by (rule netmt.read_config_start [OF l0(1) assms(2)])
  note s = start_ok [OF st l0(3), of h]
  show "world_ok (set socks) w" "program_reaches e cfg l (w_lib w)"
    using netmt.loop_ok [OF l0(2) s(1)] l0(1) s(2) by (auto simp: program_reaches_def)
qed

text \<open>An example: the program listens on one socket, and a connection comes in.\<close>

definition ex_calls :: "(vty_call, nat option) heap" where
  "ex_calls = (\<lambda>a. \<lparr>t_type = THREAD_UNUSED, t_next = None, t_prev = None, t_func = Call_timeout, t_arg = None, t_u = Val 0\<rparr>)"

definition ex_ready :: "turn" where
  "ex_ready = \<lparr>e_now = ex_time 1, e_wait = ex_time 1, e_select = (\<lambda>r w d. Sel_fds r {})\<rparr>"

definition ex_outside :: outside where
  "ex_outside = \<lparr>o_conn = Some (8, ''a''), o_bytes = [], o_limits = [], o_now = ex_time 1\<rparr>"

lemma ex_ready_ok: "\<forall>e \<in> set [ex_ready]. time_ok (e_now e)"
  by (simp add: ex_ready_def ex_time_def time_ok_def TIMER_SECOND_MICRO_def)

lemma ex_first_call:
  "\<exists>x m. thread_fetch [ex_ready] (w_master (world_start ex_calls [5] l)) = Some (Fetched x m)
    \<and> t_func x = Call_accept \<and> t_arg x = None \<and> t_u x = Fd 5"
proof -
  let ?j = "\<lparr>j_type = THREAD_READY, j_func = Call_accept, j_arg = None, j_u = Fd 5\<rparr>"
  have "\<exists>s. q_history [Read Call_accept None 5, Fetch [ex_ready]] (no_threads ex_calls) = Some ([Handle (Some 0), Got ?j], s)"
    by (simp add: ex_ready_def no_threads_def ex_time_def time_ok_def TIMER_SECOND_MICRO_def add_job_def new_job_def at_end_def
        set_job_def queue_fds_def job_fd_def job_time_def usecs_def q_run_def q_ready_def move_def put_def take_out_def Let_def)
  then obtain m where h: "history [Read Call_accept None 5, Fetch [ex_ready]] (thread_master_create ex_calls)
      = Some ([Handle (Some 0), Got ?j], m)"
    using sim_history [OF rel_start] by blast
  obtain t m0 where t: "thread_add_read Call_accept None 5 (thread_master_create ex_calls) = (t, m0)"
    by (cases "thread_add_read Call_accept None 5 (thread_master_create ex_calls)")
  then obtain f where f: "thread_fetch [ex_ready] m0 = Some f" "(case f of Fetched x m1 \<Rightarrow> (Got (job_of x), m1)
      | No_thread m1 \<Rightarrow> (Nothing, m1) | Waiting m1 \<Rightarrow> (Still, m1)) = (Got ?j, m)"
    using h by (auto simp: bind_eq_Some_conv simp del: thread_fetch.simps)
  then obtain x where "thread_fetch [ex_ready] m0 = Some (Fetched x m)" "job_of x = ?j" by (cases f) auto
  then show ?thesis using t by (auto simp: world_start_def listen_def job_of_def)
qed

lemma ex_loop_runs:
  "\<exists>w v. program_loop ex_start_env ''/c'' ex_start ex_calls [5] w \<and> session_of 8 (w_lib w) = Some v \<and> vt_v_timeout v = 600"
proof -
  let ?run = "run_command ex_start_env netmt_table"
  obtain l0 l1 v where l: "vty_read_config netmt_table ?run (Some ''/c'') (Some '' '') '' '' ex_start = Cont l0"
    "handle netmt_table ?run (Accept 8 ''a'') l0 = Cont l1" "session_of 8 l1 = Some v" "vt_v_timeout v = 600"
    using ex_start_accepts by blast
  have st: "sys_start l0" by (rule netmt.read_config_start [OF l(1) ex_start_ok])
  let ?w = "world_start ex_calls [5] l0"
  have w: "world_ok {5} ?w" "w_lib ?w = l0" using start_ok [OF st, of "[5]" ex_calls] by simp_all
  obtain x m where x: "thread_fetch [ex_ready] (w_master ?w) = Some (Fetched x m)" "t_func x = Call_accept" "t_arg x = None" "t_u x = Fd 5"
    using ex_first_call by blast
  have ev: "event_of ex_outside x = Some (Accept 8 ''a'', 8)" using x(2) by (simp add: event_of_def ex_outside_def)
  have "clock_ok (ex_time 1) 600" by (simp add: clock_ok_def ex_time_def time_ok_def TIMER_SECOND_MICRO_def)
  then have o: "outside_ok netmt_table ?run {5} ex_outside x (w_lib ?w)"
    using st ev l w(2) x(2) by (simp add: outside_ok_def sys_start_def) (simp add: ex_outside_def)
  have "turn_ok netmt_table ?run {5} ex_outside x ?w m" by (rule netmt.turn [OF w(1) ex_ready_ok x(1) o])
  then obtain w' where w': "thread_call netmt_table ?run ex_outside x (?w\<lparr>w_master := m\<rparr>) = Some w'" "w_lib w' = l1"
    using ev l(2) w(2) by (auto simp: turn_ok_def)
  have "thread_loop netmt_table ?run {5} ?w w'" by (rule loop_step [OF loop_start ex_ready_ok x(1) o w'(1)])
  then have "program_loop ex_start_env ''/c'' ex_start ex_calls [5] w'" using l(1) by (auto simp: program_loop_def)
  then show ?thesis using w'(2) l(3,4) by blast
qed

text \<open>C5. The sessions run on the scheduler as they should. In every state that the loop of the program
  reaches, from its configuration file on, through the doubly linked lists of \<open>thread.c\<close> and the handles
  in the sessions, the library is in a state that the sessions' own events reach; and the events that are
  enabled there are exactly the threads that wait: reading, writing and the time-out of a session wait
  just while the session has armed them, a closed session has none left, and each listening
  socket has its thread.\<close>

theorem waiting_threads_are_events:
  assumes "program_loop e cfg l h socks w" "sys_start l"
  shows "program_reaches e cfg l (w_lib w)
    \<and> (waits (w_master w) (Call_read, i) \<longleftrightarrow> enabled (Input i bs) (w_lib w))
    \<and> (waits (w_master w) (Call_flush, i) \<longleftrightarrow> enabled (Writable i) (w_lib w))
    \<and> (waits (w_master w) (Call_timeout, i) \<longleftrightarrow> enabled (Expired i) (w_lib w))
    \<and> (waits (w_master w) (Call_accept, i) \<longleftrightarrow> i \<in> set socks)"
proof -
  note ok = program_loop_ok [OF assms]
  note w = world_okD [OF ok(1)]
  have "set_handles (w_threads w i) = flags (session_of i (w_lib w))" by (rule w(4))
  then show ?thesis
    using ok(2) w(5) [of i] unfolding waits_iff [OF w(3)]
    by (auto simp: handle_at_def set_handles_def flags_def split: option.splits)
qed

lemma waiting_threads_are_events_witness:
  "\<exists>w. program_loop ex_start_env ''/c'' ex_start ex_calls [5] w \<and> waits (w_master w) (Call_timeout, 8)
     \<and> enabled (Expired 8) (w_lib w) \<and> waits (w_master w) (Call_accept, 5) \<and> \<not> waits (w_master w) (Call_read, 5)"
proof -
  obtain w v where w: "program_loop ex_start_env ''/c'' ex_start ex_calls [5] w" "session_of 8 (w_lib w) = Some v" "vt_v_timeout v = 600"
    using ex_loop_runs by blast
  note t = waiting_threads_are_events [OF w(1) ex_start_ok]
  have inv: "sys_inv (w_lib w)" using t program_inv ex_start_ok by blast
  have "enabled (Expired 8) (w_lib w)" using inv_session(2) [OF inv w(2)] w(2,3) by (simp add: served_def)
  moreover have "\<not> enabled (Input 5 []) (w_lib w)"
    using world_okD(6) [OF program_loop_ok(1) [OF w(1) ex_start_ok], of 5] by simp
  ultimately show ?thesis using w(1) t [where i = 8] t [where i = 5 and bs = "[]"] by auto
qed

text \<open>C6. The loop never fails. In every state it reaches, whatever \<open>select\<close> answers and however long
  it waits, fetching returns (no assertion of \<open>thread.c\<close> fails, no list runs into a cycle); and when a call is
  fetched, it is one of the sessions' enabled events, never one of a session that has been closed, or it is
  an accept without a connection; and if its handler returns, so do all calls of the scheduler it makes: every handle
  that is cancelled is that of a waiting thread, and the loop goes on with the library as the handler left it.\<close>

theorem loop_never_fails:
  assumes "program_loop e cfg l h socks w" "sys_start l" "\<forall>t \<in> set es. time_ok (e_now t)"
  shows "\<exists>r. thread_fetch es (w_master w) = Some r \<and> (case r of Fetched x m \<Rightarrow>
      (\<forall>o'. outside_ok netmt_table (run_command e netmt_table) (set socks) o' x (w_lib w) \<longrightarrow>
        (case event_of o' x of
           None \<Rightarrow> (\<exists>w'. thread_call netmt_table (run_command e netmt_table) o' x (w\<lparr>w_master := m\<rparr>) = Some w' \<and> w_lib w' = w_lib w)
         | Some (ev, i) \<Rightarrow> enabled ev (w_lib w)
             \<and> (\<forall>l'. handle netmt_table (run_command e netmt_table) ev (w_lib w) = Cont l' \<longrightarrow>
                 (\<exists>w'. thread_call netmt_table (run_command e netmt_table) o' x (w\<lparr>w_master := m\<rparr>) = Some w' \<and> w_lib w' = l'))))
      | _ \<Rightarrow> True)"
proof -
  note ok = program_loop_ok(1) [OF assms(1,2)]
  obtain r where r: "thread_fetch es (w_master w) = Some r" using link_fetch(1) [OF world_okD(3) [OF ok] assms(3)] by blast
  show ?thesis
  proof (cases r)
    case (Fetched x m)
    have "turn_ok netmt_table (run_command e netmt_table) (set socks) o' x w m"
      if "outside_ok netmt_table (run_command e netmt_table) (set socks) o' x (w_lib w)" for o'
      using netmt.turn [OF ok assms(3) _ that] r Fetched by blast
    then show ?thesis unfolding turn_ok_def using r Fetched by (fastforce split: option.splits prod.splits)
  qed (use r in auto)
qed

lemma loop_never_fails_witness:
  "\<exists>w r. program_loop ex_start_env ''/c'' ex_start ex_calls [5] w \<and> session_of 8 (w_lib w) \<noteq> None
     \<and> thread_fetch [ex_ready] (w_master w) = Some r"
proof -
  obtain w v where w: "program_loop ex_start_env ''/c'' ex_start ex_calls [5] w" "session_of 8 (w_lib w) = Some v"
    using ex_loop_runs by blast
  then show ?thesis using loop_never_fails [OF w(1) ex_start_ok ex_ready_ok] by blast
qed

end
