(* ===== verification/Spec2Isabelle.thy ===== *)
theory Spec2Isabelle
  imports Sessions ConfigRestore SaveCrash SessionLoop
begin

text \<open>
  Verification of netmt, a tool that manages a set of remote machines from one server: the server
  keeps a TCP connection to a client on every machine, and an operator at a telnet-like terminal
  lists the clients, transfers files to and from them, and runs shell commands on them. Paths below
  are relative to \<open>src/source\<close>.

  \<^bold>\<open>The parts and how they interact.\<close>
  \<^item> Server and client speak in messages of one fixed size (\<open>pubinc/netmt.h\<close>), cut out of the TCP
    stream by the same loop in both programs (\<open>tcp_recv\<close> of \<open>netmtserver/netmtserver.c\<close> and
    \<open>netmtclient/netmtclient.c\<close>).
  \<^item> The operator's commands (\<open>netmtserver/netmt_servercommand.c\<close>) write messages to the clients and
    read what the server's handlers have left in the shared server state.
  \<^item> The commands are run by a terminal library (\<open>pub3/cmd\<close>, a descendant of GNU Zebra): a session
    reads bytes, edits a line, looks it up in a command table and calls the function found there.
  \<^item> The library keeps a configuration, which it writes to a file as command lines and reads back
    by executing them. A scheduler (\<open>thread.c\<close>) chooses which of the library's pending calls runs next.

  \<^bold>\<open>Theories, in the order of the code.\<close>
  \<^item> \<open>Prelude\<close>: machine integers, C strings, the outcome of a C function (\<open>Cont\<close> for returning,
    \<open>Fault\<close> for one that goes wrong: an access outside a buffer, through a null pointer or to freed
    storage, a lock taken twice, a loop that does not end, the end of the process).
  \<^item> \<open>Wire\<close>, \<open>Framing\<close>: \<open>netmt_command_t\<close> byte by byte, and reassembly. \<open>Framing\<close> holds the locale
    \<open>message_handler\<close>, the interface that the message handlers of the two programs provide.
  \<^item> \<open>Server\<close>, \<open>Client\<close>, \<open>ServerCmd\<close>: the state and the handlers of the two programs and the
    operator's commands. Files are maps from names to bytes, system calls are fields of an
    environment record, and what is written to a connection is recorded in order.
  \<^item> \<open>FileTransfer\<close>, \<open>Sessions\<close>: the exchanges across both programs, and the reachable states.
  \<^item> \<open>Cvector\<close>, \<open>CmdParse\<close>, \<open>CmdTable\<close>, \<open>CmdSort\<close>, \<open>CmdMatch\<close>, \<open>CmdExec\<close>, \<open>CmdComplete\<close>:
    \<open>vector.c\<close> and the command engine of \<open>command.c\<close>, from splitting a line to the call.
  \<^item> \<open>Buffer\<close>, \<open>VtyState\<close>, \<open>VtyEdit\<close>, \<open>VtyCommand\<close>, \<open>VtyRead\<close>: \<open>buffer.c\<close> and the sessions of
    \<open>vty.c\<close>. \<open>VtyScreen\<close>, \<open>VtyLine\<close>, \<open>VtyView\<close>, \<open>VtyFlaws\<close>, \<open>VtySystem\<close> hold what is proved of them.
  \<^item> \<open>Commands\<close>, \<open>CmdSettings\<close>, \<open>CmdConfig\<close>, \<open>NetmtCommands\<close>, \<open>NetmtTable\<close>: the command functions,
    the configuration and its file, the \<open>DEFUN\<close> declarations, and the table that the
    initialisation builds from them. \<open>NetmtLines\<close> and \<open>LineEval\<close> evaluate what a line means in that
    table; \<open>NetmtSystem\<close> and \<open>NetmtUse\<close> hold the properties of the finished program.
  \<^item> \<open>LineStrict\<close>, \<open>SavedText\<close>, \<open>ConfigLines\<close>, \<open>ConfigRestore\<close>: the saved configuration, from the
    text that \<open>config_write_file\<close> makes to the settings that \<open>vty_read_config\<close> makes of it, one lemma
    per kind of line. \<open>SaveCrash\<close>: the same save, one system call after the other.
  \<^item> \<open>Scheduler\<close>: \<open>thread.c\<close> with its pointers: threads at addresses, linked both ways in six lists.
    \<open>ThreadLists\<close>, \<open>ThreadQueues\<close>, \<open>ThreadSim\<close>, \<open>ThreadOrder\<close>: the lists the pointers form, a
    scheduler over plain lists, the simulation between the two, and what it chooses and when.
  \<^item> \<open>ThreadCalls\<close>, \<open>SessionThreads\<close>, \<open>SessionArmed\<close>, \<open>SessionWorld\<close>, \<open>SessionLoop\<close>: the two together. What a
    user of the scheduler sees of it; the handles that a session keeps and the calls that \<open>vty_event\<close>
    and the handlers make; the loop of \<open>cmd_main\<close>, which fetches a thread and calls its function.

  \<^bold>\<open>Interfaces.\<close> Where one part relies on another through laws, these are a locale, interpreted on
  the definitions that model the code: \<open>message_handler\<close> (the receive loop over a handler) as \<open>srv\<close> and
  \<open>cli\<close>, \<open>slot_table\<close> on \<open>vector.c\<close>, \<open>byte_queue\<close> on \<open>buffer.c\<close>, \<open>cmp_order\<close> on the two comparison
  functions, \<open>word_filter\<close> on the two filters that narrow a line, and \<open>command_set\<close> (the command
  functions behind a table) as \<open>netmt\<close> on the program's own commands.

  \<^bold>\<open>What the lemmas show.\<close>
  \<^item> Across the two programs: a file that is sent or fetched arrives byte for byte for every way TCP
    cuts the stream; registration, heartbeat and shell commands reach exactly the client they name.
  \<^item> Of the command engine: lines are split into their words, specifications are parsed as they are
    printed, a line never makes the engine read or write out of bounds and calls the one command
    that it means; completion offers exactly the words that can follow; sorting permutes.
  \<^item> Of a session: the editing keys refine a line with a cursor and keep the remote screen equal to
    it; a typed line is executed as typed; nothing is executed before the password; the pager writes
    everything, one screen at a time.
  \<^item> Of the whole program: the configuration lock is exclusive, no session stops being served, every
    line is safe in every node. The configuration that a session saves is the one the next start reads,
    for all settings that can be made; ending the process at any point of a save leaves the old or
    the new file in full.
  \<^item> Of the scheduler: the linked lists behave as the plain ones, through every operation and every
    round; what is called next is due; the time waited never passes the first timer. The sessions on it:
    the threads that wait are exactly the events that the sessions are ready for, no handle is stale, and
    no call of the loop fails.
  \<^item> Inputs on which the code goes wrong are theorems too; they are listed in the manifest.

  \<^bold>\<open>Bounds and fuel.\<close> Loops are structural or have a termination proof. The receive loop, which can
  run for ever, is \<open>partial_function (option)\<close>: \<open>None\<close> is not returning, and the theorems about it
  give \<open>Some\<close>. The word keys of the line editor
  loop by \<open>while_option\<close> (\<open>loop\<close> of \<open>VtyEdit\<close>), and one of them indeed does not end on some lines: its
  value there is \<open>Fault NoReturn\<close>. \<open>thread_fetch\<close> waits in \<open>select\<close> as often as the outside makes it,
  so its rounds are given as a list, what happens in each; \<open>Waiting\<close> is the state when they are used
  up. \<open>None\<close> is a failed assertion or a list that the pointers do not close. Times in the theorems
  about the scheduler have seconds of 31 bits. Buffer
  sizes are those of the source (\<open>BUFFER_SIZE\<close>, \<open>VTY_BUFSIZ\<close>, \<open>VTY_READ_BUFSIZ\<close>, \<open>CMD_ARGC_MAX\<close>).

  \<^bold>\<open>Not modelled.\<close> \<open>main\<close> of both programs and the event loop of \<open>libhv\<close> (vendored), whose callbacks
  are the events of the model; sockets and the access lists of
  \<open>vty_accept\<close> (\<open>filter.c\<close>), which need them; the containers of the library that the command engine
  does not use (\<open>linklist.c\<close>, \<open>hash.c\<close>, \<open>pqueue.c\<close>, \<open>prefix.c\<close>, \<open>table.c\<close>); \<open>log.c\<close> beyond the settings and
  their commands; the start-up files read by
  the C++ readers in \<open>pubsrc\<close>; the parts of the terminal library that netmt links but never calls
  (route maps, distribute lists, key chains, SNMP, regular expressions, packet streams). Formatted
  output of 1024 bytes or more is printed as if \<open>vty_out\<close> formatted it once (the code formats the
  argument list twice, which the C standard leaves undefined). \<open>output_func\<close> of a node is always null in
  this program and \<open>VTYSH\<close> is not defined, so the branches for them are left out.
\<close>

section \<open>File transfer between server and clients\<close>

text \<open>C1. The operator's \<open>get\<close> command, end to end: one message goes to the client that the
  descriptor names; the client answers with a sequence of messages; and however TCP cuts that
  sequence into reads (as long as no read stops inside the four bytes of a length), the server's
  local file ends up with exactly the bytes of the client's file, and one success reply is sent.\<close>

theorem get_command_fetches_file:
  assumes argv: "argv = [a0, a1, a2]" and nul: "0 \<notin> set (e_cwd e)" "0 \<notin> set a0" "0 \<notin> set a2"
    and lf: "lf = absolute (e_cwd e) a0" "length lf < FILE_LEN"
    and rf: "rf = absolute (e_cwd e) a2" "length rf < FILE_LEN"
    and fd: "fd = word_of_int (atoi_bytes a1)" "filter (\<lambda>c. c_fd c = fd) (clients (o_server u)) = [conn]"
    and cl: "e_fopen ce rf" "k_files k rf = Some contents" "k_sendbuf k" "\<not> k_mutex k"
    and sv: "e_fopen se lf" "\<And>n. n \<le> e_fwrite se lf n" "\<not> s_mutex (o_server u)"
  shows "\<exists>u' c k' msgs. get_netmt e argv u = Cont (CMD_SUCCESS, u')
    \<and> sent_to fd (o_server u') = sent_to fd (o_server u) @ [c]
    \<and> client_handle ce c k = Cont k' \<and> k_sent k' = k_sent k @ msgs \<and> frames msgs
    \<and> (\<forall>bufs. concat bufs = wire msgs \<and> reads bufs \<and> clean_cuts 0 bufs \<longrightarrow>
        (\<exists>r s' w. recv_stream (server_handle se io) bufs rx_init (o_server u') = Some (Cont (r, s'))
          \<and> rx_holds r [] \<and> s_files s' = (s_files (o_server u))(lf \<mapsto> contents)
          \<and> s_sent s' = s_sent (o_server u') @ [w] \<and> get_reply c w))"
proof -
  define c where "c = stamp_len (get_command lf rf fd)"
  have c: "wf_command c" "m_commonid c = cmd_code NETMT_GET" "m_subcommonid c = cmd_code NETMT_CLIENT"
    "m_fd c = fd" "localfile c = lf" "remotefile c = rf" "terminated (take FILE_LEN (m_union c))"
    "terminated (take FILE_LEN (drop 256 (m_union c)))"
    using absolute_nul [OF nul(1,2)] absolute_nul [OF nul(1,3)] lf rf
    by (simp_all add: c_def stamp_len_def get_command_def wf_command_def zero_command_def
        localfile_def remotefile_def put_bytes_def cstr_path_field)
  obtain u' where g: "get_netmt e argv u = Cont (CMD_SUCCESS, u')"
    and o: "o_server u' = write_matching (\<lambda>c. c_fd c = fd) c (o_server u)"
    by (simp add: get_netmt_def argv lf rf fd c_def Let_def vty_print_def)
  have "sent_to fd (o_server u') = sent_to fd (o_server u) @ [c]"
    using fd(2) by (simp add: o sent_to_write_matching)
  moreover obtain k' where "client_handle ce c k = Cont k'"
      "k_sent k' = k_sent k @ get_messages c contents"
    using client_get_messages [of c ce k contents] c cl by auto
  moreover note get = server_gets_file [of c se "o_server u'" contents io]
  have s: "\<not> s_mutex (o_server u')" "s_files (o_server u') = s_files (o_server u)"
    "filter (\<lambda>k. c_fd k = m_fd c) (clients (o_server u')) = [conn]"
    using sv(3) fd(2) c(4) by (simp_all add: o write_matching_def)
  obtain s' out where fr: "frames (get_messages c contents)"
    and d: "accepted (server_handle se io) (server_ok se io) (get_messages c contents) (o_server u')"
      "deliver (server_handle se io) (get_messages c contents) (o_server u') = Cont s'"
    and r: "s_files s' = (s_files (o_server u))(lf \<mapsto> contents)" "s_sent s' = s_sent (o_server u') @ out"
      "\<forall>w \<in> set out. get_reply c w" "length out = 1"
    using get c sv s by auto
  moreover obtain w where "out = [w]" using r(4) by (cases out) auto
  moreover have "\<exists>r. recv_stream (server_handle se io) bufs rx_init (o_server u') = Some (Cont (r, s'))
      \<and> rx_holds r []"
    if "concat bufs = wire (get_messages c contents)" "reads bufs" "clean_cuts 0 bufs" for bufs
    using srv.stream_delivers [OF rx_holds_init _ fr that(2) _ d] that by simp
  ultimately show ?thesis using g r by (metis list.set_intros(1))
qed


lemma get_command_fetches_file_witness:
  "\<exists>u' c k' msgs r s' w. get_netmt ex_cmd_env [path_a, word_5, path_b] ex_operator = Cont (CMD_SUCCESS, u')
    \<and> sent_to 5 (o_server u') = [c] \<and> client_handle ex_client_env c ex_client = Cont k'
    \<and> k_sent k' = msgs
    \<and> recv_stream (server_handle ex_env 1) (map encode msgs) rx_init (o_server u') = Some (Cont (r, s'))
    \<and> s_files s' path_a = Some [7, 8] \<and> s_sent s' = s_sent (o_server u') @ [w] \<and> get_reply c w"
proof -
  obtain u' c k' msgs where g: "get_netmt ex_cmd_env [path_a, word_5, path_b] ex_operator = Cont (CMD_SUCCESS, u')"
    and s: "sent_to 5 (o_server u') = sent_to 5 (o_server ex_operator) @ [c]"
    "client_handle ex_client_env c ex_client = Cont k'" "k_sent k' = k_sent ex_client @ msgs" "frames msgs"
    and b: "\<forall>bufs. concat bufs = wire msgs \<and> reads bufs \<and> clean_cuts 0 bufs \<longrightarrow>
        (\<exists>r s' w. recv_stream (server_handle ex_env 1) bufs rx_init (o_server u') = Some (Cont (r, s'))
          \<and> rx_holds r [] \<and> s_files s' = (s_files (o_server ex_operator))(path_a \<mapsto> [7, 8])
          \<and> s_sent s' = s_sent (o_server u') @ [w] \<and> get_reply c w)"
    using get_command_fetches_file [OF refl ex_fields(1-3) ex_absolute(1) ex_fields(5)
        ex_absolute(2) ex_fields(6) ex_fields(18,7) ex_fields(8,13-15) ex_fields(10,11,17), of 1]
    by (elim exE conjE) (rule that; assumption)
  obtain r s' w where "recv_stream (server_handle ex_env 1) (map encode msgs) rx_init (o_server u') = Some (Cont (r, s'))"
    "s_files s' path_a = Some [7, 8]" "s_sent s' = s_sent (o_server u') @ [w]" "get_reply c w"
    using b [rule_format, OF conjI, OF whole_frames(1) conjI, OF s(4) whole_frames(2,3), OF s(4) s(4)]
    by (elim exE conjE) (rule that, simp_all)
  then show ?thesis using g s ex_fields(19,20) by (cases w) auto
qed

text \<open>C2. The operator's \<open>send\<close> command, end to end: each selected client is written one sequence of
  messages, the others nothing; however TCP cuts it into reads, the client's file ends up with
  the server's bytes. The client reports success exactly if the server's byte counter, which no
  command resets, was 0 before.\<close>

theorem send_command_delivers_file:
  assumes nul: "0 \<notin> set (e_cwd e)" "\<forall>a \<in> set argv. 0 \<notin> set a"
    and argc: "length argv > (if starts_with ''all'' (argv ! 1) then 2 else 3)"
    and lf: "lf = absolute (e_cwd e) (argv ! 0)"
      "e_fopen e lf" "s_files (o_server u) lf = Some contents"
    and rf: "rf = absolute (e_cwd e) (argv ! (if starts_with ''all'' (argv ! 1) then 2 else 3))"
      "length rf < FILE_LEN"
    and P: "send_targets (argv ! 1) (argv ! 2) = Some P"
    and conn: "filter (\<lambda>c. c_fd c = fd) (clients (o_server u)) = [conn]"
    and cl: "e_fopen ce rf" "\<And>n. n \<le> e_fwrite ce rf n" "\<not> k_mutex k" "k_sendbuf k"
  shows "\<exists>u' msgs. send_netmt e argv u = Cont (CMD_SUCCESS, u') \<and> frames msgs
    \<and> sent_to fd (o_server u') = sent_to fd (o_server u) @ (if P conn then msgs else [])
    \<and> o_filebytes u' = o_filebytes u + of_nat (length contents)
    \<and> (\<forall>bufs. concat bufs = wire msgs \<and> reads bufs \<and> clean_cuts 0 bufs \<longrightarrow>
        (\<exists>r k' out. client_stream ce bufs rx_init k = Some (Cont (r, k'))
          \<and> rx_holds r [] \<and> k_files k' = (k_files k)(rf \<mapsto> contents)
          \<and> k_sent k' = k_sent k @ out
          \<and> (if o_filebytes u = 0 then send_reply out else out = [])))"
proof -
  let ?i = "if starts_with ''all'' (argv ! 1) then 2 else 3 :: nat"
  define op where "op = stamp_len (send_command lf rf)"
  have a: "arg argv 0 = Some (argv ! 0)" "arg argv 1 = Some (argv ! 1)" "argv \<noteq> []"
    "arg argv ?i = Some (argv ! ?i)"
    using argc by (auto simp: arg_def split: if_splits)
  have "argv ! 0 \<in> set argv" "argv ! ?i \<in> set argv"
    using argc by (auto split: if_splits intro: nth_mem)
  then have "0 \<notin> set lf" "0 \<notin> set rf"
    using nul lf rf by (simp_all add: absolute_nul)
  note op = send_command_props [OF this, folded op_def]
  have rop: "remotefile op = rf" using op(3) rf(2) by simp
  have hd: "m_commonid op = cmd_code NETMT_SEND" "m_subcommonid op = sub_code NETMT_FILE_OPEN"
    by (simp_all add: op_def stamp_len_def send_command_def)
  obtain ms fin n where sm: "send_messages op contents (o_filebytes u) = (ms, fin, n)"
    by (metis prod_cases3)
  then have n: "n = o_filebytes u + of_nat (length contents)"
    using send_messages_count [OF op(1) sm] by simp
  define msgs where "msgs = file_messages op contents (o_filebytes u)"
  have msgs: "msgs = [op] @ ms @ [fin]" by (simp add: msgs_def file_messages_def sm)
  obtain u' where g: "send_netmt e argv u = Cont (CMD_SUCCESS, u')"
    and o: "o_server u' = (fold (write_matching P) msgs ((o_server u)\<lparr>s_fp := StreamOpen lf\<rparr>))
        \<lparr>s_fp := StreamClosed\<rparr>" and fb: "o_filebytes u' = n"
    using send_netmt_runs [OF a(3,1,2,4) lf(2,3) [unfolded lf(1)] P]
    unfolding lf(1) [symmetric] rf(1) [symmetric] op_def [symmetric] sm msgs by auto
  have "sent_to fd (o_server u') = sent_to fd (o_server u) @ (if P conn then msgs else [])"
    using sent_to_fold [of fd "(o_server u)\<lparr>s_fp := StreamOpen lf\<rparr>" conn P msgs] conn
    by (simp add: o sent_to_def)
  moreover obtain k' out where fr: "frames msgs"
    and d: "accepted (client_handle ce) (client_ok ce) msgs k"
      "deliver (client_handle ce) msgs k = Cont k'"
    and r: "k_files k' = (k_files k)(rf \<mapsto> contents)" "k_sent k' = k_sent k @ out" "k_sendbuf k'"
      "if o_filebytes u = 0 then send_reply out else out = []"
    using client_gets_file [OF op(1) hd op(4), of ce k contents "o_filebytes u"] cl
    unfolding rop msgs_def by metis
  moreover have "\<exists>r. client_stream ce bufs rx_init k = Some (Cont (r, k')) \<and> rx_holds r []"
    if "concat bufs = wire msgs" "reads bufs" "clean_cuts 0 bufs" for bufs
    using cli.stream_delivers [OF rx_holds_init _ fr that(2) _ d] that client_stream_eq r(3)
    by fastforce
  ultimately show ?thesis using g fb n by metis
qed

lemma send_command_delivers_file_witness:
  "\<exists>u' msgs r k' out. send_netmt ex_cmd_env [path_a, word_all, path_b] ex_operator = Cont (CMD_SUCCESS, u')
    \<and> sent_to 5 (o_server u') = msgs
    \<and> client_stream ex_client_env (map encode msgs) rx_init ex_client = Some (Cont (r, k'))
    \<and> k_files k' path_b = Some [1, 2, 3] \<and> k_sent k' = out \<and> send_reply out"
proof -
  have all: "starts_with ''all'' word_all"
    by (simp add: starts_with_def word_all_def bytes_of_def)
  have argv: "\<forall>a \<in> set [path_a, word_all, path_b]. 0 \<notin> set a"
    "(if starts_with ''all'' ([path_a, word_all, path_b] ! 1) then 2 else 3) < length [path_a, word_all, path_b]"
    "path_a = absolute (e_cwd ex_cmd_env) ([path_a, word_all, path_b] ! 0)"
    "path_b = absolute (e_cwd ex_cmd_env) ([path_a, word_all, path_b] !
       (if starts_with ''all'' ([path_a, word_all, path_b] ! 1) then 2 else 3))"
    "send_targets ([path_a, word_all, path_b] ! 1) ([path_a, word_all, path_b] ! 2) = Some (\<lambda>c. True)"
    using ex_fields(2-4) ex_absolute by (simp_all add: send_targets_def all)
  obtain u' msgs where g: "send_netmt ex_cmd_env [path_a, word_all, path_b] ex_operator = Cont (CMD_SUCCESS, u')"
    "frames msgs" "sent_to 5 (o_server u') = sent_to 5 (o_server ex_operator) @ msgs"
    and b: "\<forall>bufs. concat bufs = wire msgs \<and> reads bufs \<and> clean_cuts 0 bufs \<longrightarrow>
        (\<exists>r k' out. client_stream ex_client_env bufs rx_init ex_client = Some (Cont (r, k'))
          \<and> rx_holds r [] \<and> k_files k' = (k_files ex_client)(path_b \<mapsto> [1, 2, 3])
          \<and> k_sent k' = k_sent ex_client @ out
          \<and> (if o_filebytes ex_operator = 0 then send_reply out else out = []))"
    using send_command_delivers_file [where e = ex_cmd_env and argv = "[path_a, word_all, path_b]"
        and fd = 5 and P = "\<lambda>c. True", OF ex_fields(1) argv(1-3) ex_fields(9,16) argv(4) ex_fields(6)
        argv(5) ex_fields(7,8,12,15,14)]
    unfolding if_True by (elim exE conjE) (rule that; assumption)
  obtain r k' out where "client_stream ex_client_env (map encode msgs) rx_init ex_client = Some (Cont (r, k'))"
    "k_files k' path_b = Some [1, 2, 3]" "k_sent k' = k_sent ex_client @ out" "send_reply out"
    using b [rule_format, OF conjI, OF whole_frames(1) conjI, OF g(2) whole_frames(2,3), OF g(2) g(2)]
      ex_fields(21)
    by (elim exE conjE) (rule that, simp_all)
  then show ?thesis using g ex_fields(19,20) by auto
qed

end
